(* ===== verification/Prelude.thy ===== *)
theory Prelude
  imports Main "HOL-Library.Word"
begin

unbundle bit_operations_syntax

section \<open>Shared types, machine arithmetic, ordered maps and runs\<close>

text \<open>
  This theory holds what every component of the FerrumTTY model uses and no component owns:
  \<^item> the names of the machine types (\<open>u8\<close> to \<open>u128\<close> are words of that width; a Rust \<open>usize\<close> is a
    \<open>nat\<close> whose upper limit \<open>2 ^ 64\<close> is written out where the source checks it);
  \<^item> Rust's checked and saturating operations and the big-endian conversions of \<open>std\<close>;
  \<^item> \<open>Result\<close> as a sum (\<open>Inl\<close> the error), with the combinators the source uses;
  \<^item> \<open>BTreeMap\<close> as a strictly ascending association list, behind the contract \<open>ordered_map\<close>;
  \<^item> runs of a state machine over a list of inputs, with the contracts \<open>invariant_machine\<close> (an
    invariant that each step keeps) and \<open>monotone_machine\<close> (a quantity no step decreases).
\<close>

named_theorems wf_intros \<open>facts that establish a component's well-formedness\<close>
named_theorems word_bounds \<open>bounds on the unsigned values of machine words\<close>

subsection \<open>Machine types\<close>

type_synonym u8 = "8 word"
type_synonym u16 = "16 word"
type_synonym u32 = "32 word"
type_synonym u64 = "64 word"
type_synonym u128 = "128 word"
type_synonym usize = nat
type_synonym bytes = "u8 list"

abbreviation u64_MAX :: u64 where "u64_MAX \<equiv> 0xFFFFFFFFFFFFFFFF"
abbreviation u16_MAX :: u16 where "u16_MAX \<equiv> 0xFFFF"

definition usize_limit :: nat where
  "usize_limit = 2 ^ 64"

definition usize_checked_add :: "usize \<Rightarrow> usize \<Rightarrow> usize option" where
  "usize_checked_add a b = (if a + b < usize_limit then Some (a + b) else None)"

definition usize_saturating_add :: "usize \<Rightarrow> usize \<Rightarrow> usize" where
  "usize_saturating_add a b = min (a + b) (usize_limit - 1)"

definition checked_add :: "'a::len word \<Rightarrow> 'a word \<Rightarrow> 'a word option" where
  "checked_add a b = (if unat a + unat b < 2 ^ LENGTH('a) then Some (a + b) else None)"

definition saturating_add :: "'a::len word \<Rightarrow> 'a word \<Rightarrow> 'a word" where
  "saturating_add a b = (if unat a + unat b < 2 ^ LENGTH('a) then a + b else - 1)"

definition saturating_sub :: "'a::len word \<Rightarrow> 'a word \<Rightarrow> 'a word" where
  "saturating_sub a b = (if b \<le> a then a - b else 0)"

definition saturating_mul :: "'a::len word \<Rightarrow> 'a word \<Rightarrow> 'a word" where
  "saturating_mul a b = (if unat a * unat b < 2 ^ LENGTH('a) then a * b else - 1)"

definition abs_diff :: "'a::len word \<Rightarrow> 'a word \<Rightarrow> 'a word" where
  "abs_diff a b = (if a < b then b - a else a - b)"

definition u16_try_from :: "u64 \<Rightarrow> u16 option" where
  "u16_try_from v = (if v \<le> 0xFFFF then Some (ucast v) else None)"

lemma unat_less_exp: "unat (w :: 'a::len word) < 2 ^ LENGTH('a)"
  by (rule unsigned_less)

lemma unat_minus_one: "unat (- 1 :: 'a::len word) = 2 ^ LENGTH('a) - 1"
  by (simp add: unsigned_minus_1_eq_mask mask_eq_exp_minus_1)

lemma not_less_exp_iff: "\<not> n < (2 :: nat) ^ k \<longleftrightarrow> \<not> n \<le> 2 ^ k - 1"
  using zero_less_power [of "2 :: nat" k] by linarith

lemma unat_u8_less [word_bounds]: "unat (w :: u8) < 256"
  using unat_less_exp [of w] by simp

lemma unat_u16_less [word_bounds]: "unat (w :: u16) < 65536"
  using unat_less_exp [of w] by simp

lemma unat_u64_less [word_bounds]: "unat (w :: u64) < 18446744073709551616"
  using unat_less_exp [of w] by simp

lemma u64_le_MAX [simp]: "(w :: u64) \<le> u64_MAX"
  using word_bounds(3) [of w] by (simp add: word_le_nat_alt)

lemma u64_MAX_iff [simp]: "u64_MAX \<le> (w :: u64) \<longleftrightarrow> w = u64_MAX"
  using antisym u64_le_MAX by blast

lemma u64_neq_MAX_less: "(w :: u64) \<noteq> u64_MAX \<Longrightarrow> w < u64_MAX"
  using u64_le_MAX [of w] by (simp add: less_le)

lemma u64_Suc_mono: "(w :: u64) \<noteq> u64_MAX \<Longrightarrow> w < w + 1"
  by (drule u64_neq_MAX_less) (simp add: word_less_nat_alt unat_word_ariths)

lemma unat_Suc_word: "(c :: 'a::len word) < m \<Longrightarrow> unat (c + 1) = Suc (unat c)"
  by (auto simp: word_less_nat_alt unat_word_ariths Suc_le_eq
      intro!: mod_less order.strict_trans1 [OF _ unat_less_exp [of m]])

lemma less_Suc_word: "(c :: 'a::len word) < m \<Longrightarrow> c < c + 1"
  by (drule unat_Suc_word) (simp add: word_less_nat_alt)

lemma unat_saturating_sub: "unat (saturating_sub a b) = unat a - unat b"
  by (auto simp: saturating_sub_def unat_sub word_le_nat_alt)

lemma unat_saturating_add:
  "unat (saturating_add (a :: 'a::len word) b) = min (unat a + unat b) (2 ^ LENGTH('a) - 1)"
  using not_less_exp_iff [of "unat a + unat b" "LENGTH('a)"]
  by (simp add: saturating_add_def unat_word_ariths unat_minus_one min_def)

lemma unat_saturating_mul:
  "unat (saturating_mul (a :: 'a::len word) b) = min (unat a * unat b) (2 ^ LENGTH('a) - 1)"
  using not_less_exp_iff [of "unat a * unat b" "LENGTH('a)"]
  by (simp add: saturating_mul_def unat_word_ariths unat_minus_one min_def)

lemma checked_add_Some:
  "checked_add (a :: 'a::len word) b = Some c \<Longrightarrow> unat c = unat a + unat b"
  by (auto simp: checked_add_def unat_word_ariths split: if_splits)

lemma u16_try_from_Some: "u16_try_from v = Some w \<Longrightarrow> ucast w = v"
proof (unfold u16_try_from_def, split if_splits; clarsimp)
  assume "v \<le> 0xFFFF"
  then have "unat v < 2 ^ 16" by (simp add: word_le_nat_alt)
  then show "ucast (ucast v :: u16) = v"
    by (intro word_unat_eq_iff [THEN iffD2])
      (simp add: unsigned_ucast_eq unsigned_take_bit_eq take_bit_nat_eq_self)
qed

lemma unat_ucast_u16: "unat (ucast (w :: u16) :: u64) = unat w"
  using unat_u16_less [of w] by (simp add: unsigned_ucast_eq take_bit_nat_eq_self)

lemma u16_try_from_ucast: "u16_try_from (ucast w) = Some w"
proof -
  have "(ucast (ucast w :: u64) :: u16) = w" by (rule bit_word_eqI) (simp add: bit_simps)
  then show ?thesis
    using unat_u16_less [of w] by (simp add: u16_try_from_def word_le_nat_alt unat_ucast_u16 less_Suc_eq_le)
qed

lemma ucast_u16_0_iff: "(ucast (w :: u16) :: u64) = 0 \<longleftrightarrow> w = 0"
  by (simp add: word_unat_eq_iff unat_ucast_u16)

subsection \<open>Big-endian conversion (\<open>to_be_bytes\<close>, \<open>from_be_bytes\<close>)\<close>

definition be_step :: "'a::len word \<Rightarrow> u8 \<Rightarrow> 'a word" where
  "be_step acc b = push_bit 8 acc OR ucast b"

definition from_be_bytes :: "bytes \<Rightarrow> 'a::len word" where
  "from_be_bytes bs = foldl be_step 0 bs"

fun to_be_bytes :: "nat \<Rightarrow> 'a::len word \<Rightarrow> bytes" where
  "to_be_bytes 0 w = []"
| "to_be_bytes (Suc n) w = ucast (drop_bit (8 * n) w) # to_be_bytes n w"

abbreviation u16_to_be_bytes :: "u16 \<Rightarrow> bytes" where "u16_to_be_bytes \<equiv> to_be_bytes 2"
abbreviation u64_to_be_bytes :: "u64 \<Rightarrow> bytes" where "u64_to_be_bytes \<equiv> to_be_bytes 8"

lemma length_to_be_bytes [simp]: "length (to_be_bytes n w) = n"
  by (induction n) auto

lemma foldl_be_step:
  "foldl be_step acc (to_be_bytes n w) = push_bit (8 * n) acc OR take_bit (8 * n) (w :: 'a::len word)"
proof (induction n arbitrary: acc)
  case 0
  show ?case by simp
next
  case (Suc n)
  have "push_bit (8 * n) (be_step acc (ucast (drop_bit (8 * n) w))) OR take_bit (8 * n) w
      = push_bit (8 * Suc n) acc OR take_bit (8 * Suc n) w"
    by (rule bit_word_eqI)
      (auto simp: be_step_def bit_simps not_less not_le add.commute dest: bit_imp_le_length)
  with Suc show ?case by simp
qed

lemma from_to_be_bytes [simp]:
  "LENGTH('a) \<le> 8 * n \<Longrightarrow> from_be_bytes (to_be_bytes n w) = (w :: 'a::len word)"
  by (simp add: from_be_bytes_def foldl_be_step take_bit_word_eq_self)

lemma to_be_bytes_snoc: "to_be_bytes (Suc n) w = to_be_bytes n (drop_bit 8 w) @ [ucast w]"
  by (induction n arbitrary: w) (auto simp: add.commute)

lemma drop_be_step: "drop_bit 8 (be_step acc b) = take_bit (LENGTH('a) - 8) (acc :: 'a::len word)"
  by (rule bit_word_eqI) (auto simp: be_step_def bit_simps dest: bit_imp_le_length)

lemma ucast_be_step: "8 \<le> LENGTH('a) \<Longrightarrow> ucast (be_step (acc :: 'a::len word) b) = b"
  by (rule bit_word_eqI) (auto simp: be_step_def bit_simps)

lemma to_be_bytes_take_bit:
  "8 * n \<le> m \<Longrightarrow> to_be_bytes n (take_bit m w) = to_be_bytes n (w :: 'a::len word)"
proof (induction n)
  case 0
  show ?case by simp
next
  case (Suc n)
  have "(ucast (drop_bit (8 * n) (take_bit m w)) :: u8) = ucast (drop_bit (8 * n) w)"
    using Suc.prems by (intro bit_word_eqI) (auto simp: bit_simps)
  with Suc show ?case by simp
qed

lemma to_from_be_bytes:
  assumes "8 * length bs \<le> LENGTH('a)"
  shows "to_be_bytes (length bs) (from_be_bytes bs :: 'a::len word) = bs"
  using assms
proof (induction bs rule: rev_induct)
  case Nil
  show ?case by simp
next
  case (snoc b bs)
  let ?w = "from_be_bytes bs :: 'a word"
  have step: "from_be_bytes (bs @ [b]) = be_step ?w b"
    by (simp add: from_be_bytes_def)
  have "to_be_bytes (length bs) (drop_bit 8 (be_step ?w b)) = bs"
    using snoc by (simp add: drop_be_step to_be_bytes_take_bit)
  moreover have "ucast (be_step ?w b) = b"
    using snoc.prems by (intro ucast_be_step) simp
  ultimately show ?case
    using to_be_bytes_snoc [of "length bs" "be_step ?w b"] by (simp only: step) simp
qed

lemma to_be_bytes_inj:
  assumes "LENGTH('a) \<le> 8 * n"
  shows "to_be_bytes n (v :: 'a::len word) = to_be_bytes n w \<longleftrightarrow> v = w"
proof
  assume "to_be_bytes n v = to_be_bytes n w"
  then have "(from_be_bytes (to_be_bytes n v) :: 'a word) = from_be_bytes (to_be_bytes n w)"
    by simp
  with assms show "v = w" by simp
qed simp

subsection \<open>Results\<close>

definition map_err :: "('e \<Rightarrow> 'f) \<Rightarrow> 'e + 'a \<Rightarrow> 'f + 'a" where
  "map_err f r = (case r of Inl e \<Rightarrow> Inl (f e) | Inr v \<Rightarrow> Inr v)"

definition ok_or :: "'e \<Rightarrow> 'a option \<Rightarrow> 'e + 'a" where
  "ok_or e r = (case r of None \<Rightarrow> Inl e | Some v \<Rightarrow> Inr v)"

text \<open>\<open>Iterator::collect\<close> into a \<open>Result\<close>: the first error, or all values in order.\<close>

fun collect_results :: "('e + 'a) list \<Rightarrow> 'e + 'a list" where
  "collect_results [] = Inr []"
| "collect_results (Inl e # rs) = Inl e"
| "collect_results (Inr v # rs) =
     (case collect_results rs of Inl e \<Rightarrow> Inl e | Inr vs \<Rightarrow> Inr (v # vs))"

lemma map_err_simps [simp]: "map_err f (Inl e) = Inl (f e)" "map_err f (Inr v) = Inr v"
  by (simp_all add: map_err_def)

lemma map_err_Inr_iff [simp]: "map_err f r = Inr v \<longleftrightarrow> r = Inr v"
  by (cases r) auto

lemma ok_or_simps [simp]: "ok_or e None = Inl e" "ok_or e (Some v) = Inr v"
  by (simp_all add: ok_or_def)

lemma ok_or_Inr_iff [simp]: "ok_or e r = Inr v \<longleftrightarrow> r = Some v"
  by (cases r) auto

lemma collect_results_Inr_map [simp]: "collect_results (map Inr vs) = Inr vs"
  by (induction vs) auto

subsection \<open>Ordered maps\<close>

text \<open>
  The contract of \<open>std::collections::BTreeMap\<close> as the source uses it: keyed access, insertion that
  replaces, removal, \<open>retain\<close> on keys, and a length that counts the keys.
\<close>

locale ordered_map =
  fixes get :: "'m \<Rightarrow> 'k \<Rightarrow> 'v option"
    and put :: "'k \<Rightarrow> 'v \<Rightarrow> 'm \<Rightarrow> 'm"
    and remove :: "'k \<Rightarrow> 'm \<Rightarrow> 'm"
    and retain :: "('k \<Rightarrow> bool) \<Rightarrow> 'm \<Rightarrow> 'm"
    and len :: "'m \<Rightarrow> nat"
    and wf :: "'m \<Rightarrow> bool"
  assumes get_put: "wf m \<Longrightarrow> get (put k v m) = (get m)(k \<mapsto> v)"
    and get_remove: "wf m \<Longrightarrow> get (remove k m) = (get m)(k := None)"
    and get_retain: "wf m \<Longrightarrow> get (retain P m) = (\<lambda>k. if P k then get m k else None)"
    and len_card: "wf m \<Longrightarrow> len m = card (dom (get m))"
    and dom_finite: "wf m \<Longrightarrow> finite (dom (get m))"
    and wf_put: "wf m \<Longrightarrow> wf (put k v m)"
    and wf_remove: "wf m \<Longrightarrow> wf (remove k m)"
    and wf_retain: "wf m \<Longrightarrow> wf (retain P m)"
begin

lemma len_put_new: "wf m \<Longrightarrow> get m k = None \<Longrightarrow> len (put k v m) = Suc (len m)"
  by (simp add: len_card wf_put get_put dom_finite domIff)

lemma len_put_old: "wf m \<Longrightarrow> get m k \<noteq> None \<Longrightarrow> len (put k v m) = len m"
  by (auto simp: len_card wf_put get_put domIff insert_absorb)

lemma len_put_le: "wf m \<Longrightarrow> len (put k v m) \<le> Suc (len m)"
  by (cases "get m k = None") (auto simp: len_put_new len_put_old)

lemma len_remove_le: "wf m \<Longrightarrow> len (remove k m) \<le> len m"
  by (simp add: len_card wf_remove get_remove dom_finite card_Diff1_le)

lemma len_retain_le: "wf m \<Longrightarrow> len (retain P m) \<le> len m"
  by (auto simp: len_card wf_retain get_retain intro!: card_mono dom_finite split: if_splits)

text \<open>A map with as many keys as a finite set that bounds them holds every key of the set.\<close>

lemma full_map:
  assumes "wf m" and "dom (get m) \<subseteq> S" and "finite S" and "len m = card S" and "k \<in> S"
  shows "\<exists>v. get m k = Some v"
proof -
  have "dom (get m) = S"
    using assms by (intro card_subset_eq) (auto simp: len_card)
  with \<open>k \<in> S\<close> show ?thesis by auto
qed

end

type_synonym ('k, 'v) btree_map = "('k \<times> 'v) list"

fun bt_insert :: "'k::linorder \<Rightarrow> 'v \<Rightarrow> ('k, 'v) btree_map \<Rightarrow> ('k, 'v) btree_map" where
  "bt_insert k v [] = [(k, v)]"
| "bt_insert k v (p # m) =
     (if fst p < k then p # bt_insert k v m
      else if k = fst p then (k, v) # m
      else (k, v) # p # m)"

definition bt_remove :: "'k \<Rightarrow> ('k, 'v) btree_map \<Rightarrow> ('k, 'v) btree_map" where
  "bt_remove k m = filter (\<lambda>p. fst p \<noteq> k) m"

definition bt_retain :: "('k \<Rightarrow> bool) \<Rightarrow> ('k, 'v) btree_map \<Rightarrow> ('k, 'v) btree_map" where
  "bt_retain P m = filter (\<lambda>p. P (fst p)) m"

definition bt_wf :: "('k::linorder, 'v) btree_map \<Rightarrow> bool" where
  "bt_wf m \<longleftrightarrow> sorted_wrt (<) (map fst m)"

lemma bt_wf_Nil [simp, wf_intros]: "bt_wf []"
  by (simp add: bt_wf_def)

lemma bt_wf_single [simp, wf_intros]: "bt_wf [p]"
  by (simp add: bt_wf_def)

lemma bt_wf_Cons: "bt_wf (p # m) \<longleftrightarrow> (\<forall>q \<in> set m. fst p < fst q) \<and> bt_wf m"
  by (simp add: bt_wf_def)

lemma set_bt_insert: "bt_wf m \<Longrightarrow> set (bt_insert k v m) = insert (k, v) {p \<in> set m. fst p \<noteq> k}"
proof (induction m)
  case (Cons p m)
  have "\<And>q. q \<in> set m \<Longrightarrow> k \<le> fst p \<Longrightarrow> fst q \<noteq> k"
    using Cons.prems by (force simp: bt_wf_Cons)
  with Cons show ?case by (auto simp: bt_wf_Cons)
qed simp

lemma map_of_bt_insert: "bt_wf m \<Longrightarrow> map_of (bt_insert k v m) = (map_of m)(k \<mapsto> v)"
  by (induction m) (auto simp: bt_wf_Cons fun_eq_iff)

lemma map_of_filter_key: "map_of (filter (\<lambda>p. P (fst p)) m) k = (if P k then map_of m k else None)"
  by (induction m) auto

lemma bt_wf_distinct: "bt_wf m \<Longrightarrow> distinct (map fst m)"
  unfolding bt_wf_def using strict_sorted_iff by blast

lemma bt_wf_filter: "bt_wf m \<Longrightarrow> bt_wf (filter P m)"
  by (induction m) (auto simp: bt_wf_Cons)

lemma bt_len_card: "bt_wf m \<Longrightarrow> length m = card (dom (map_of m))"
  by (simp add: dom_map_of_conv_image_fst bt_wf_distinct flip: set_map)
    (metis bt_wf_distinct distinct_card length_map)

interpretation bt: ordered_map map_of bt_insert bt_remove bt_retain length bt_wf
proof (unfold_locales, goal_cases)
  case (1 m k v)
  then show ?case by (rule map_of_bt_insert)
next
  case (2 m k)
  then show ?case
    using map_of_filter_key [of "\<lambda>k'. k' \<noteq> k" m] by (auto simp: bt_remove_def)
next
  case (3 m P)
  then show ?case by (auto simp: bt_retain_def map_of_filter_key)
next
  case (4 m)
  then show ?case by (rule bt_len_card)
next
  case (5 m)
  show ?case by (rule finite_dom_map_of)
next
  case (6 m k v)
  then show ?case by (induction m) (auto simp: bt_wf_Cons set_bt_insert)
next
  case (7 m k)
  then show ?case by (simp add: bt_remove_def bt_wf_filter)
next
  case (8 m P)
  then show ?case by (simp add: bt_retain_def bt_wf_filter)
qed

lemmas bt_get = bt.get_put bt.get_remove bt.get_retain
lemmas bt_wfs [wf_intros] = bt.wf_put bt.wf_remove bt.wf_retain

text \<open>The sum of a weight over the entries, and how insertion of a new key changes it.\<close>

lemma sum_list_bt_insert:
  fixes w :: "'v \<Rightarrow> nat"
  shows "bt_wf m \<Longrightarrow> map_of m k = None \<Longrightarrow>
    sum_list (map (w \<circ> snd) (bt_insert k v m)) = w v + sum_list (map (w \<circ> snd) m)"
  by (induction m) (auto simp: bt_wf_Cons split: if_splits)

subsection \<open>Runs of a state machine\<close>

fun run :: "('s \<Rightarrow> 'e \<Rightarrow> 'o \<times> 's) \<Rightarrow> 's \<Rightarrow> 'e list \<Rightarrow> 'o list \<times> 's" where
  "run step s [] = ([], s)"
| "run step s (e # es) =
     (let (out, s') = step s e; (outs, s'') = run step s' es in (out # outs, s''))"

lemma run_Cons_fst: "fst (run step s (e # es)) = fst (step s e) # fst (run step (snd (step s e)) es)"
  by (simp add: Let_def split: prod.splits)

lemma run_Cons_snd: "snd (run step s (e # es)) = snd (run step (snd (step s e)) es)"
  by (simp add: Let_def split: prod.splits)

lemmas run_Cons = run_Cons_fst run_Cons_snd

lemma run_append_fst:
  "fst (run step s (xs @ ys)) = fst (run step s xs) @ fst (run step (snd (run step s xs)) ys)"
  by (induction xs arbitrary: s) (simp_all add: run_Cons del: run.simps(2))

lemma run_append_snd: "snd (run step s (xs @ ys)) = snd (run step (snd (run step s xs)) ys)"
  by (induction xs arbitrary: s) (simp_all add: run_Cons del: run.simps(2))

lemmas run_append = run_append_fst run_append_snd

lemma length_run [simp]: "length (fst (run step s es)) = length es"
  by (induction es arbitrary: s) (simp_all add: run_Cons del: run.simps(2))

locale invariant_machine =
  fixes step :: "'s \<Rightarrow> 'e \<Rightarrow> 'o \<times> 's" and inv :: "'s \<Rightarrow> bool"
  assumes step_inv: "inv s \<Longrightarrow> inv (snd (step s e))"
begin

lemma run_inv: "inv s \<Longrightarrow> inv (snd (run step s es))"
  by (induction es arbitrary: s) (simp_all add: run_Cons step_inv del: run.simps(2))

lemma run_outputs:
  assumes "\<And>s e. inv s \<Longrightarrow> Q (fst (step s e))" and "inv s"
  shows "\<forall>out \<in> set (fst (run step s es)). Q out"
  using assms(2)
  by (induction es arbitrary: s) (auto simp: run_Cons assms(1) simp del: run.simps(2) dest: step_inv)

end

locale monotone_machine = invariant_machine step inv
  for step :: "'s \<Rightarrow> 'e \<Rightarrow> 'o \<times> 's" and inv :: "'s \<Rightarrow> bool" +
  fixes rank :: "'s \<Rightarrow> 'r::order"
  assumes step_rank: "inv s \<Longrightarrow> rank s \<le> rank (snd (step s e))"
begin

lemma run_rank: "inv s \<Longrightarrow> rank s \<le> rank (snd (run step s es))"
proof (induction es arbitrary: s)
  case (Cons e es)
  from Cons.prems have "rank s \<le> rank (snd (step s e))"
    by (rule step_rank)
  also have "\<dots> \<le> rank (snd (run step (snd (step s e)) es))"
    using Cons.prems by (intro Cons.IH step_inv)
  finally show ?case by (simp only: run_Cons)
qed simp

end

text \<open>A machine that reads a stream, to which it does not matter how the stream is cut.\<close>

locale stream_transducer =
  fixes process :: "'s \<Rightarrow> 'a list \<Rightarrow> 'b list \<times> 's"
  assumes process_Nil: "process s [] = ([], s)"
    and process_append: "process s (xs @ ys) =
      (fst (process s xs) @ fst (process (snd (process s xs)) ys), snd (process (snd (process s xs)) ys))"
begin

lemma run_concat:
  "concat (fst (run process s pieces)) = fst (process s (concat pieces))"
  "snd (run process s pieces) = snd (process s (concat pieces))"
  by (induction pieces arbitrary: s) (simp_all add: process_Nil process_append run_Cons del: run.simps(2))

end

end
