(* ===== verification/Crypto.thy ===== *)
theory Crypto
  imports Prelude
begin

section \<open>Authenticated datagram envelopes (\<open>crates/ferrumtty-crypto/src/lib.rs\<close>)\<close>

text \<open>
  A \<open>SecureChannel\<close> couples one outbound nonce sequence with an authenticated opener. The AES-OCB3
  backend and the Base64 decoder are crates the source only calls: they are the fields of
  \<open>cipher_lib\<close>, and what the code relies on is the predicate \<open>aead_correct\<close> (a ciphertext opens to
  its plaintext under the same key and nonce, and carries a 16-byte tag). Zeroisation and the
  redacting \<open>Debug\<close> instances have no functional effect and are not modelled.
\<close>

subsection \<open>Model\<close>

definition SESSION_KEY_BYTES :: usize where "SESSION_KEY_BYTES = 16"
definition PACKET_PREFIX_BYTES :: usize where "PACKET_PREFIX_BYTES = 8"
definition OCB_NONCE_BYTES :: usize where "OCB_NONCE_BYTES = 12"
definition OCB_TAG_BYTES :: usize where "OCB_TAG_BYTES = 16"
definition DIRECTION_BIT :: u64 where "DIRECTION_BIT = push_bit 63 1"
definition MAX_COUNTER :: u64 where "MAX_COUNTER = DIRECTION_BIT - 1"
definition MINIMUM_PACKET_BYTES :: usize where
  "MINIMUM_PACKET_BYTES = PACKET_PREFIX_BYTES + OCB_TAG_BYTES"

lemmas crypto_sizes [simp] = SESSION_KEY_BYTES_def PACKET_PREFIX_BYTES_def OCB_NONCE_BYTES_def
  OCB_TAG_BYTES_def MINIMUM_PACKET_BYTES_def

record 'k cipher_lib =
  base64_decode :: "string \<Rightarrow> bytes option"
  cipher_new :: "bytes \<Rightarrow> 'k"
  cipher_encrypt :: "'k \<Rightarrow> bytes \<Rightarrow> bytes \<Rightarrow> bytes option"
  cipher_decrypt :: "'k \<Rightarrow> bytes \<Rightarrow> bytes \<Rightarrow> bytes option"

datatype session_key = SessionKey (expose: bytes)

datatype key_error = InvalidBase64 | InvalidLength
datatype seal_error = CounterExhausted | EncryptionFailed
datatype open_error = PacketTooShort | AuthenticationFailed | UnexpectedDirection

definition session_key_decode :: "'k cipher_lib \<Rightarrow> string \<Rightarrow> key_error + session_key" where
  "session_key_decode lib value =
     (case base64_decode lib value of
        None \<Rightarrow> Inl InvalidBase64
      | Some decoded \<Rightarrow>
          if length decoded \<noteq> SESSION_KEY_BYTES then Inl InvalidLength
          else Inr (SessionKey decoded))"

datatype peer_role = Client | Server
datatype packet_direction = ClientToServer | ServerToClient

fun for_outbound :: "peer_role \<Rightarrow> packet_direction" where
  "for_outbound Client = ClientToServer"
| "for_outbound Server = ServerToClient"

fun for_inbound :: "peer_role \<Rightarrow> packet_direction" where
  "for_inbound Client = ServerToClient"
| "for_inbound Server = ClientToServer"

fun direction_encode :: "packet_direction \<Rightarrow> u64 \<Rightarrow> u64" where
  "direction_encode ClientToServer counter = counter"
| "direction_encode ServerToClient counter = counter OR DIRECTION_BIT"

definition direction_decode :: "u64 \<Rightarrow> packet_direction \<times> u64" where
  "direction_decode value =
     (let direction = (if value AND DIRECTION_BIT = 0 then ClientToServer else ServerToClient)
      in (direction, value AND MAX_COUNTER))"

record 'k secure_channel =
  outbound_cipher :: 'k
  inbound_cipher :: 'k
  outbound_direction :: packet_direction
  inbound_direction :: packet_direction
  next_counter :: "u64 option"

record authenticated_packet =
  ap_counter :: u64
  ap_plaintext :: bytes

definition secure_channel_new :: "'k cipher_lib \<Rightarrow> peer_role \<Rightarrow> session_key \<Rightarrow> 'k secure_channel" where
  "secure_channel_new lib role key =
     \<lparr>outbound_cipher = cipher_new lib (expose key),
      inbound_cipher = cipher_new lib (expose key),
      outbound_direction = for_outbound role,
      inbound_direction = for_inbound role,
      next_counter = Some 0\<rparr>"

definition make_nonce :: "bytes \<Rightarrow> bytes" where
  "make_nonce prefix = replicate (OCB_NONCE_BYTES - PACKET_PREFIX_BYTES) 0 @ prefix"

definition seal_next ::
    "'k cipher_lib \<Rightarrow> 'k secure_channel \<Rightarrow> bytes \<Rightarrow> (seal_error + bytes) \<times> 'k secure_channel" where
  "seal_next lib ch plaintext =
     (case next_counter ch of
        None \<Rightarrow> (Inl CounterExhausted, ch)
      | Some counter \<Rightarrow>
          let encoded_number = direction_encode (outbound_direction ch) counter;
              prefix = u64_to_be_bytes encoded_number;
              nonce = make_nonce prefix
          in (case cipher_encrypt lib (outbound_cipher ch) nonce plaintext of
                None \<Rightarrow> (Inl EncryptionFailed, ch)
              | Some sealed \<Rightarrow>
                  let next = (case checked_add counter 1 of
                                None \<Rightarrow> None
                              | Some n \<Rightarrow> if n \<le> MAX_COUNTER then Some n else None)
                  in (Inr (prefix @ sealed), ch\<lparr>next_counter := next\<rparr>)))"

text \<open>The slice-to-array conversion in \<open>open\<close> cannot fail: the packet is long enough there.\<close>

definition open_packet ::
    "'k cipher_lib \<Rightarrow> 'k secure_channel \<Rightarrow> bytes \<Rightarrow> open_error + authenticated_packet" where
  "open_packet lib ch packet =
     (if length packet < MINIMUM_PACKET_BYTES then Inl PacketTooShort
      else
        let prefix = take PACKET_PREFIX_BYTES packet;
            encoded_number = from_be_bytes prefix;
            (direction, counter) = direction_decode encoded_number;
            nonce = make_nonce prefix
        in (case cipher_decrypt lib (inbound_cipher ch) nonce (drop PACKET_PREFIX_BYTES packet) of
              None \<Rightarrow> Inl AuthenticationFailed
            | Some plaintext \<Rightarrow>
                if direction \<noteq> inbound_direction ch then Inl UnexpectedDirection
                else Inr \<lparr>ap_counter = counter, ap_plaintext = plaintext\<rparr>))"

subsection \<open>What the code relies on, and the channel invariant\<close>

definition aead_correct :: "'k cipher_lib \<Rightarrow> bool" where
  "aead_correct lib \<longleftrightarrow>
     (\<forall>k n p c. cipher_encrypt lib k n p = Some c \<longrightarrow>
        cipher_decrypt lib k n c = Some p \<and> length c = length p + OCB_TAG_BYTES)"

definition channel_wf :: "'k secure_channel \<Rightarrow> bool" where
  "channel_wf ch \<longleftrightarrow>
     outbound_direction ch \<noteq> inbound_direction ch \<and>
     (\<forall>c. next_counter ch = Some c \<longrightarrow> c \<le> MAX_COUNTER)"

fun opposite :: "peer_role \<Rightarrow> peer_role" where
  "opposite Client = Server"
| "opposite Server = Client"

text \<open>The counter a sealed packet carries, and the packets a run of seals produced.\<close>

definition packet_number :: "bytes \<Rightarrow> u64" where
  "packet_number packet = snd (direction_decode (from_be_bytes (take PACKET_PREFIX_BYTES packet)))"

definition packet_nonce :: "bytes \<Rightarrow> bytes" where
  "packet_nonce packet = make_nonce (take PACKET_PREFIX_BYTES packet)"

fun successes :: "('e + 'a) list \<Rightarrow> 'a list" where
  "successes [] = []"
| "successes (Inl e # rs) = successes rs"
| "successes (Inr v # rs) = v # successes rs"

definition seal_run ::
    "'k cipher_lib \<Rightarrow> 'k secure_channel \<Rightarrow> bytes list \<Rightarrow> bytes list" where
  "seal_run lib ch plaintexts = successes (fst (run (seal_next lib) ch plaintexts))"

subsection \<open>Packet numbers\<close>

lemma MAX_COUNTER_mask: "MAX_COUNTER = mask 63"
  by (simp add: MAX_COUNTER_def DIRECTION_BIT_def mask_eq_exp_minus_1)

lemma counter_and_mask [simp]: "c \<le> MAX_COUNTER \<Longrightarrow> c AND MAX_COUNTER = c"
proof -
  assume "c \<le> MAX_COUNTER"
  then have "unat c < 2 ^ 63"
    by (simp add: MAX_COUNTER_def DIRECTION_BIT_def word_le_nat_alt)
  then have "take_bit 63 c = c"
    by (intro word_unat_eq_iff [THEN iffD2]) (simp add: unsigned_take_bit_eq take_bit_nat_eq_self)
  then show ?thesis by (simp add: MAX_COUNTER_mask take_bit_eq_mask)
qed

lemma counter_not_bit63: "c \<le> MAX_COUNTER \<Longrightarrow> \<not> bit c 63"
  using counter_and_mask [of c] by (metis MAX_COUNTER_mask bit_and_iff bit_mask_iff less_irrefl)

lemma DIRECTION_BIT_bit [simp]: "bit DIRECTION_BIT n \<longleftrightarrow> n = 63"
  by (simp only: DIRECTION_BIT_def bit_push_bit_iff possible_bit_word bit_1_iff) auto

lemma DIRECTION_BIT_nonzero [simp]: "DIRECTION_BIT \<noteq> 0"
  by (simp add: DIRECTION_BIT_def)

lemma and_DIRECTION_BIT: "value AND DIRECTION_BIT = 0 \<longleftrightarrow> \<not> bit value 63"
proof
  assume "value AND DIRECTION_BIT = 0"
  then have "\<not> bit (value AND DIRECTION_BIT) 63" by simp
  then show "\<not> bit value 63" by (simp add: bit_and_iff)
next
  assume "\<not> bit value 63"
  then show "value AND DIRECTION_BIT = 0"
    by (intro bit_word_eqI) (auto simp: bit_and_iff)
qed

lemma direction_decode_encode [simp]:
  "c \<le> MAX_COUNTER \<Longrightarrow> direction_decode (direction_encode d c) = (d, c)"
proof (cases d)
  case ClientToServer
  assume "c \<le> MAX_COUNTER"
  with ClientToServer show ?thesis
    by (simp add: direction_decode_def and_DIRECTION_BIT counter_not_bit63)
next
  case ServerToClient
  assume c: "c \<le> MAX_COUNTER"
  have "(c OR DIRECTION_BIT) AND MAX_COUNTER = c AND MAX_COUNTER"
    by (rule bit_word_eqI) (auto simp: MAX_COUNTER_mask bit_simps)
  with c ServerToClient show ?thesis
    by (simp add: direction_decode_def and_DIRECTION_BIT bit_or_iff)
qed

lemma direction_encode_decode: "case direction_decode v of (d, c) \<Rightarrow> direction_encode d c = v \<and> c \<le> MAX_COUNTER"
proof -
  have "v AND MAX_COUNTER \<le> MAX_COUNTER"
    by (rule word_and_le1)
  moreover have "(v AND MAX_COUNTER) OR DIRECTION_BIT = v" if "bit v 63"
    using that by (intro bit_word_eqI) (auto simp: MAX_COUNTER_mask bit_simps not_less le_Suc_eq)
  moreover have "v AND MAX_COUNTER = v" if "\<not> bit v 63"
  proof (rule bit_word_eqI)
    fix n assume "n < LENGTH(64)"
    then have "n < 63 \<or> n = 63" by auto
    with that show "bit (v AND MAX_COUNTER) n = bit v n"
      by (auto simp: MAX_COUNTER_mask bit_simps)
  qed
  ultimately show ?thesis
    by (simp add: direction_decode_def and_DIRECTION_BIT)
qed

subsection \<open>Sealing\<close>

lemma seal_nextE:
  assumes "seal_next lib ch plaintext = (Inr packet, ch')"
  obtains c sealed where "next_counter ch = Some c"
    and "cipher_encrypt lib (outbound_cipher ch)
           (make_nonce (u64_to_be_bytes (direction_encode (outbound_direction ch) c))) plaintext
           = Some sealed"
    and "packet = u64_to_be_bytes (direction_encode (outbound_direction ch) c) @ sealed"
    and "ch' = ch\<lparr>next_counter := (if c < MAX_COUNTER then Some (c + 1) else None)\<rparr>"
proof -
  have succ: "(case checked_add c 1 of None \<Rightarrow> None
       | Some n \<Rightarrow> if n \<le> MAX_COUNTER then Some n else None) = (if c < MAX_COUNTER then Some (c + 1) else None)" for c
  proof (cases "c = u64_MAX")
    case True
    then show ?thesis by (simp add: checked_add_def MAX_COUNTER_def DIRECTION_BIT_def)
  next
    case False
    then have "unat c + 1 < 2 ^ 64" and "unat (c + 1) = unat c + 1"
      using u64_neq_MAX_less [OF False] by (simp_all add: word_less_nat_alt unat_word_ariths)
    then show ?thesis
      by (simp add: checked_add_def word_less_nat_alt word_le_nat_alt Suc_le_eq)
  qed
  with assms that show ?thesis
    by (auto simp: seal_next_def Let_def split: option.splits if_splits)
qed

lemma seal_next_error_keeps:
  "seal_next lib ch plaintext = (Inl e, ch') \<Longrightarrow> ch' = ch"
  by (auto simp: seal_next_def Let_def split: option.splits if_splits)

lemma seal_next_frame [simp]:
  "outbound_cipher (snd (seal_next lib ch p)) = outbound_cipher ch"
  "inbound_cipher (snd (seal_next lib ch p)) = inbound_cipher ch"
  "outbound_direction (snd (seal_next lib ch p)) = outbound_direction ch"
  "inbound_direction (snd (seal_next lib ch p)) = inbound_direction ch"
  by (auto simp: seal_next_def Let_def split: option.splits if_splits)

lemma seal_next_wf:
  assumes "channel_wf ch"
  shows "channel_wf (snd (seal_next lib ch p))"
proof (cases "seal_next lib ch p")
  case (Pair r ch')
  show ?thesis
  proof (cases r)
    case (Inl e)
    with Pair assms show ?thesis by (auto dest: seal_next_error_keeps)
  next
    case (Inr packet)
    with Pair assms show ?thesis
      by (auto elim!: seal_nextE simp: channel_wf_def inc_le split: if_splits)
  qed
qed

interpretation sealer: invariant_machine "seal_next lib" channel_wf
  for lib :: "'k cipher_lib"
  by unfold_locales (rule seal_next_wf)

lemma secure_channel_new_wf [simp, wf_intros]: "channel_wf (secure_channel_new lib role key)"
  by (cases role) (auto simp: channel_wf_def secure_channel_new_def)

text \<open>
  Every packet of a run carries a number at or above the channel's counter, and the numbers ascend.
\<close>

lemma seal_next_packet:
  assumes "channel_wf ch" and "seal_next lib ch p = (Inr packet, ch')"
  shows "\<exists>c. next_counter ch = Some c \<and> packet_number packet = c \<and>
    take PACKET_PREFIX_BYTES packet = u64_to_be_bytes (direction_encode (outbound_direction ch) c) \<and>
    next_counter ch' = (if c < MAX_COUNTER then Some (c + 1) else None)"
  using assms by (auto elim!: seal_nextE simp: channel_wf_def packet_number_def)

lemma seal_run_Cons:
  "seal_run lib ch (p # ps) =
     (case seal_next lib ch p of
        (Inl e, ch') \<Rightarrow> seal_run lib ch' ps
      | (Inr packet, ch') \<Rightarrow> packet # seal_run lib ch' ps)"
  by (auto simp: seal_run_def run_Cons simp del: run.simps(2) split: prod.splits sum.splits)

lemma seal_run_numbers:
  assumes "channel_wf ch"
  shows "sorted_wrt (<) (map packet_number (seal_run lib ch ps)) \<and>
    (\<forall>packet \<in> set (seal_run lib ch ps).
       (\<exists>c. next_counter ch = Some c \<and> c \<le> packet_number packet) \<and>
       packet_number packet \<le> MAX_COUNTER \<and>
       take PACKET_PREFIX_BYTES packet =
         u64_to_be_bytes (direction_encode (outbound_direction ch) (packet_number packet)))"
  using assms
proof (induction ps arbitrary: ch)
  case Nil
  show ?case by (simp add: seal_run_def)
next
  case (Cons p ps)
  obtain r ch' where step: "seal_next lib ch p = (r, ch')" by fastforce
  have wf: "channel_wf ch'" and dir: "outbound_direction ch' = outbound_direction ch"
    using seal_next_wf [OF Cons.prems, of lib p] seal_next_frame(3) [of lib ch p] step by auto
  note IH = Cons.IH [OF wf]
  show ?case
  proof (cases r)
    case (Inl e)
    with step Cons.IH [OF Cons.prems] show ?thesis
      by (auto simp: seal_run_Cons dest: seal_next_error_keeps)
  next
    case (Inr packet)
    with seal_next_packet [OF Cons.prems, of lib p packet ch'] step obtain c where
      c: "next_counter ch = Some c" "packet_number packet = c"
        "take PACKET_PREFIX_BYTES packet = u64_to_be_bytes (direction_encode (outbound_direction ch) c)"
        "next_counter ch' = (if c < MAX_COUNTER then Some (c + 1) else None)"
      by auto
    have "c \<le> MAX_COUNTER" using Cons.prems c(1) by (simp add: channel_wf_def)
    moreover have "c < packet_number q" if "q \<in> set (seal_run lib ch' ps)" for q
      using IH that c(4) by (auto split: if_splits intro: order.strict_trans2 less_Suc_word)
    ultimately show ?thesis
      using IH c step Inr dir by (auto simp: seal_run_Cons intro: less_imp_le)
  qed
qed

lemma packet_nonce_inj:
  assumes "take PACKET_PREFIX_BYTES p = u64_to_be_bytes v" and "take PACKET_PREFIX_BYTES q = u64_to_be_bytes w"
  shows "packet_nonce p = packet_nonce q \<longleftrightarrow> v = w"
  using assms by (simp add: packet_nonce_def make_nonce_def to_be_bytes_inj del: PACKET_PREFIX_BYTES_def)

lemma direction_encode_inj:
  "c \<le> MAX_COUNTER \<Longrightarrow> c' \<le> MAX_COUNTER \<Longrightarrow>
   direction_encode d c = direction_encode d' c' \<longleftrightarrow> d = d' \<and> c = c'"
  by (metis direction_decode_encode prod.inject)

lemma seal_run_nonce_inj:
  assumes "channel_wf ch" and "channel_wf ch'"
    and "p \<in> set (seal_run lib ch ps)" and "q \<in> set (seal_run lib ch' qs)"
  shows "packet_nonce p = packet_nonce q \<longleftrightarrow>
    outbound_direction ch = outbound_direction ch' \<and> packet_number p = packet_number q"
proof -
  from assms have p: "packet_number p \<le> MAX_COUNTER"
      "take PACKET_PREFIX_BYTES p =
         u64_to_be_bytes (direction_encode (outbound_direction ch) (packet_number p))"
    and q: "packet_number q \<le> MAX_COUNTER"
      "take PACKET_PREFIX_BYTES q =
         u64_to_be_bytes (direction_encode (outbound_direction ch') (packet_number q))"
    using seal_run_numbers by blast+
  show ?thesis
    unfolding packet_nonce_inj [OF p(2) q(2)] using p(1) q(1) by (rule direction_encode_inj)
qed

text \<open>
  What the cipher is given: the body of every packet is its plaintext encrypted under the nonce that the packet's
  prefix spells out.
\<close>

definition sealed_as :: "'k cipher_lib \<Rightarrow> 'k \<Rightarrow> bytes \<Rightarrow> seal_error + bytes \<Rightarrow> bool" where
  "sealed_as lib key plaintext result \<longleftrightarrow>
     (case result of
        Inl _ \<Rightarrow> True
      | Inr packet \<Rightarrow> cipher_encrypt lib key (packet_nonce packet) plaintext = Some (drop PACKET_PREFIX_BYTES packet))"

lemma seal_run_sealed_as:
  "list_all2 (sealed_as lib (outbound_cipher ch)) ps (fst (run (seal_next lib) ch ps))"
proof (induction ps arbitrary: ch)
  case (Cons p ps)
  obtain r ch' where step: "seal_next lib ch p = (r, ch')" by fastforce
  have "outbound_cipher ch' = outbound_cipher ch" using seal_next_frame(1) [of lib ch p] step by simp
  moreover have "sealed_as lib (outbound_cipher ch) p r"
    using step by (cases r) (auto simp: sealed_as_def packet_nonce_def elim!: seal_nextE)
  ultimately show ?case using Cons.IH [of ch'] step by (simp add: run_Cons del: run.simps(2))
qed simp

subsection \<open>Properties\<close>

text \<open>
  C11. Nonce uniqueness. Over any sequence of seals from a well-formed channel, including seals that
  fail, every packet produced is its plaintext encrypted under its own nonce, these nonces are pairwise distinct, and
  they never coincide with a nonce the peer (the channel of the opposite role) ever uses under the same
  key: each AES-OCB3 nonce is used for one packet only.
\<close>

theorem seal_nonces_unique:
  assumes "channel_wf ch"
  shows "list_all2 (sealed_as lib (outbound_cipher ch)) ps (fst (run (seal_next lib) ch ps)) \<and>
    distinct (map packet_nonce (seal_run lib ch ps)) \<and>
    (\<forall>ch'. channel_wf ch' \<longrightarrow> outbound_direction ch' \<noteq> outbound_direction ch \<longrightarrow>
       set (map packet_nonce (seal_run lib ch ps)) \<inter> set (map packet_nonce (seal_run lib ch' qs)) = {})"
proof -
  have "distinct (map packet_number (seal_run lib ch ps))"
    using seal_run_numbers [OF assms, of lib ps] by (simp add: strict_sorted_iff)
  then have "distinct (map packet_nonce (seal_run lib ch ps))"
    using seal_run_nonce_inj [OF assms assms] by (force simp: distinct_map inj_on_def)
  moreover have "packet_nonce p \<noteq> packet_nonce q"
    if "channel_wf ch'" "outbound_direction ch' \<noteq> outbound_direction ch"
      "p \<in> set (seal_run lib ch ps)" "q \<in> set (seal_run lib ch' qs)" for ch' p q
    using seal_run_nonce_inj [OF assms that(1) that(3,4)] that(2) by simp
  ultimately show ?thesis using seal_run_sealed_as [of lib ch ps] by fastforce
qed

lemma sealed_packet_opens:
  assumes "aead_correct lib" and "channel_wf ch"
    and "inbound_cipher peer = outbound_cipher ch"
    and "inbound_direction peer = outbound_direction ch"
    and "inbound_cipher ch = outbound_cipher ch"
    and "seal_next lib ch plaintext = (Inr packet, ch')"
  shows "next_counter ch = Some (packet_number packet) \<and>
    open_packet lib peer packet = Inr \<lparr>ap_counter = packet_number packet, ap_plaintext = plaintext\<rparr> \<and>
    open_packet lib ch packet = Inl UnexpectedDirection"
proof -
  from assms(6) obtain c sealed where c: "next_counter ch = Some c"
      and enc: "cipher_encrypt lib (outbound_cipher ch)
           (make_nonce (u64_to_be_bytes (direction_encode (outbound_direction ch) c))) plaintext = Some sealed"
      and packet: "packet = u64_to_be_bytes (direction_encode (outbound_direction ch) c) @ sealed"
    by (rule seal_nextE)
  have "c \<le> MAX_COUNTER" and "outbound_direction ch \<noteq> inbound_direction ch"
    using assms(2) c by (auto simp: channel_wf_def)
  moreover from assms(1) enc have "length sealed = length plaintext + OCB_TAG_BYTES"
      and "cipher_decrypt lib (outbound_cipher ch)
           (make_nonce (u64_to_be_bytes (direction_encode (outbound_direction ch) c))) sealed = Some plaintext"
    by (auto simp: aead_correct_def)
  ultimately show ?thesis
    using assms c packet by (simp add: open_packet_def packet_number_def)
qed

text \<open>
  C12. Round trip. A packet sealed by one peer is opened by the other peer under the same key to the
  same plaintext and to the counter it was sealed with; a peer that receives its own packet back
  rejects it as \<open>UnexpectedDirection\<close>.
\<close>

theorem seal_open_roundtrip:
  assumes "aead_correct lib" and "channel_wf ch"
    and "inbound_cipher peer = outbound_cipher ch"
    and "inbound_direction peer = outbound_direction ch"
    and "inbound_cipher ch = outbound_cipher ch"
    and "seal_next lib ch plaintext = (Inr packet, ch')"
  shows "next_counter ch = Some (packet_number packet) \<and>
    open_packet lib peer packet = Inr \<lparr>ap_counter = packet_number packet, ap_plaintext = plaintext\<rparr> \<and>
    open_packet lib ch packet = Inl UnexpectedDirection"
  by (rule sealed_packet_opens [OF assms])

subsection \<open>Instances\<close>

text \<open>A cipher with a checkable tag made of the key and the nonce: it meets \<open>aead_correct\<close>.\<close>

definition example_tag :: "bytes \<Rightarrow> bytes \<Rightarrow> bytes" where
  "example_tag key nonce = take 16 (take 4 key @ nonce @ replicate 16 0)"

definition example_cipher :: "bytes cipher_lib" where
  "example_cipher =
     \<lparr>base64_decode = (\<lambda>s. if s = ''AAAA'' then Some (replicate 16 0) else None),
      cipher_new = (\<lambda>key. key),
      cipher_encrypt = (\<lambda>key nonce plaintext. Some (example_tag key nonce @ plaintext)),
      cipher_decrypt = (\<lambda>key nonce sealed.
        if take 16 sealed = example_tag key nonce then Some (drop 16 sealed) else None)\<rparr>"

lemma length_example_tag [simp]: "length (example_tag key nonce) = 16"
  by (simp add: example_tag_def)

lemma example_cipher_correct: "aead_correct example_cipher"
  by (simp add: aead_correct_def example_cipher_def)

definition example_channel :: "peer_role \<Rightarrow> bytes secure_channel" where
  "example_channel role = secure_channel_new example_cipher role (SessionKey (replicate 16 0))"

lemma example_channel_wf: "channel_wf (example_channel role)"
  by (simp add: example_channel_def)

theorem seal_nonces_unique_witness:
  "channel_wf (example_channel Client) \<and> channel_wf (example_channel Server) \<and>
   distinct (map packet_nonce (seal_run example_cipher (example_channel Client) [[1], [2]])) \<and>
   set (map packet_nonce (seal_run example_cipher (example_channel Client) [[1], [2]])) \<inter>
     set (map packet_nonce (seal_run example_cipher (example_channel Server) [[3]])) = {}"
proof -
  have "outbound_direction (example_channel Server) \<noteq> outbound_direction (example_channel Client)"
    by (simp add: example_channel_def secure_channel_new_def)
  with seal_nonces_unique [OF example_channel_wf [of Client], of example_cipher "[[1], [2]]" "[[3]]"] show ?thesis
    using example_channel_wf by blast
qed

theorem seal_open_roundtrip_witness:
  "\<exists>packet ch'. seal_next example_cipher (example_channel Client) [7, 8] = (Inr packet, ch') \<and>
     open_packet example_cipher (example_channel Server) packet = Inr \<lparr>ap_counter = 0, ap_plaintext = [7, 8]\<rparr> \<and>
     open_packet example_cipher (example_channel Client) packet = Inl UnexpectedDirection"
proof -
  have "\<exists>packet ch'. seal_next example_cipher (example_channel Client) [7, 8] = (Inr packet, ch')"
    by (simp add: seal_next_def example_channel_def secure_channel_new_def example_cipher_def Let_def)
  then obtain packet ch' where "seal_next example_cipher (example_channel Client) [7, 8] = (Inr packet, ch')" by blast
  moreover from seal_open_roundtrip [OF example_cipher_correct example_channel_wf _ _ _ this,
      of "example_channel Server"]
  have "next_counter (example_channel Client) = Some (packet_number packet) \<and>
     open_packet example_cipher (example_channel Server) packet
       = Inr \<lparr>ap_counter = packet_number packet, ap_plaintext = [7, 8]\<rparr> \<and>
     open_packet example_cipher (example_channel Client) packet = Inl UnexpectedDirection"
    by (simp add: example_channel_def secure_channel_new_def)
  moreover from this have "packet_number packet = 0"
    by (simp add: example_channel_def secure_channel_new_def)
  ultimately show ?thesis by auto
qed

end
