(* ===== verification/Fragments.thy ===== *)
theory Fragments
  imports Prelude
begin

section \<open>Fragmentation and reassembly (\<open>crates/ferrumtty-wire/src/fragment.rs\<close>)\<close>

text \<open>
  A compressed state message is cut into fragments of at most 1214 bytes; each carries a 14-byte
  header (two timestamps, the state identifier, and a 15-bit index with the final bit on top). The
  receiver collects them in a \<open>FragmentAccumulator\<close>, in any order and with duplicates. The \<open>&mut self\<close>
  method \<open>push\<close> returns the accumulator it leaves behind on every path, also on the error paths that
  have already stored the final index or the byte total.
\<close>

subsection \<open>Model\<close>

definition FRAGMENT_HEADER_BYTES :: usize where "FRAGMENT_HEADER_BYTES = 14"
definition FINAL_FRAGMENT_BIT :: u16 where "FINAL_FRAGMENT_BIT = push_bit 15 1"
definition FRAGMENT_INDEX_MASK :: u16 where "FRAGMENT_INDEX_MASK = FINAL_FRAGMENT_BIT - 1"
definition MAX_FRAGMENT_BODY_BYTES :: usize where "MAX_FRAGMENT_BODY_BYTES = 1214"
definition MAX_RECEIVED_FRAGMENT_BODY_BYTES :: usize where "MAX_RECEIVED_FRAGMENT_BODY_BYTES = 1300"

record fragment_header =
  fh_sent_timestamp :: u16
  fh_echoed_timestamp :: u16
  fh_state_id :: u64
  fh_index :: u16
  fh_is_final :: bool

record fragment =
  fr_header :: fragment_header
  fr_body :: bytes

datatype fragment_error =
    HeaderTooShort | BodyTooLarge | TooManyFragments | MismatchedState | IndexAfterFinal
  | ConflictingFinalIndex | ConflictingDuplicate | MessageTooLarge | MissingFragment

definition fragment_parse :: "bytes \<Rightarrow> fragment_error + fragment" where
  "fragment_parse plaintext =
     (if length plaintext < FRAGMENT_HEADER_BYTES then Inl HeaderTooShort
      else
        let header_bytes = take FRAGMENT_HEADER_BYTES plaintext;
            fragment_word = (from_be_bytes [header_bytes ! 12, header_bytes ! 13] :: u16);
            header = \<lparr>fh_sent_timestamp = from_be_bytes [header_bytes ! 0, header_bytes ! 1],
                      fh_echoed_timestamp = from_be_bytes [header_bytes ! 2, header_bytes ! 3],
                      fh_state_id = from_be_bytes (take 8 (drop 4 header_bytes)),
                      fh_index = fragment_word AND FRAGMENT_INDEX_MASK,
                      fh_is_final = (fragment_word AND FINAL_FRAGMENT_BIT \<noteq> 0)\<rparr>;
            body = drop FRAGMENT_HEADER_BYTES plaintext
        in if length body > MAX_RECEIVED_FRAGMENT_BODY_BYTES then Inl BodyTooLarge
           else Inr \<lparr>fr_header = header, fr_body = body\<rparr>)"

text \<open>\<open>slice::chunks\<close>: consecutive pieces of the given size, the last one possibly shorter.\<close>

function chunks :: "nat \<Rightarrow> 'a list \<Rightarrow> 'a list list" where
  "chunks n xs = (if n = 0 \<or> xs = [] then [] else take n xs # chunks n (drop n xs))"
  by pat_completeness auto
termination
  by (relation "measure (\<lambda>(n, xs). length xs)") auto

declare chunks.simps [simp del]

definition chunk_fragment ::
    "u16 \<Rightarrow> u16 \<Rightarrow> u64 \<Rightarrow> usize \<Rightarrow> usize \<times> bytes \<Rightarrow> fragment_error + fragment" where
  "chunk_fragment sent echoed state_id chunk_count = (\<lambda>(index, body).
     if index < 65536
     then Inr \<lparr>fr_header = \<lparr>fh_sent_timestamp = sent, fh_echoed_timestamp = echoed,
                 fh_state_id = state_id, fh_index = of_nat index,
                 fh_is_final = (index + 1 = chunk_count)\<rparr>,
               fr_body = body\<rparr>
     else Inl TooManyFragments)"

definition fragment_split ::
    "bytes \<Rightarrow> u16 \<Rightarrow> u16 \<Rightarrow> u64 \<Rightarrow> fragment_error + fragment list" where
  "fragment_split message sent echoed state_id =
     (let chunk_count = (max (length message) 1 + MAX_FRAGMENT_BODY_BYTES - 1) div MAX_FRAGMENT_BODY_BYTES
      in if chunk_count > unat FRAGMENT_INDEX_MASK + 1 then Inl TooManyFragments
         else if message = [] then
           Inr [\<lparr>fr_header = \<lparr>fh_sent_timestamp = sent, fh_echoed_timestamp = echoed,
                   fh_state_id = state_id, fh_index = 0, fh_is_final = True\<rparr>,
                 fr_body = []\<rparr>]
         else collect_results
           (map (chunk_fragment sent echoed state_id chunk_count)
              (enumerate 0 (chunks MAX_FRAGMENT_BODY_BYTES message))))"

definition fragment_encode :: "fragment \<Rightarrow> bytes" where
  "fragment_encode f =
     (let h = fr_header f;
          final_bit = (if fh_is_final h then FINAL_FRAGMENT_BIT else 0)
      in u16_to_be_bytes (fh_sent_timestamp h) @ u16_to_be_bytes (fh_echoed_timestamp h) @
         u64_to_be_bytes (fh_state_id h) @
         u16_to_be_bytes ((fh_index h AND FRAGMENT_INDEX_MASK) OR final_bit) @ fr_body f)"

record fragment_accumulator =
  fa_state_id :: u64
  fa_maximum_message_bytes :: usize
  fa_fragments :: "(u16, bytes) btree_map"
  fa_final_index :: "u16 option"
  fa_total_bytes :: usize

definition accumulator_new :: "u64 \<Rightarrow> usize \<Rightarrow> fragment_accumulator" where
  "accumulator_new state_id maximum_message_bytes =
     \<lparr>fa_state_id = state_id, fa_maximum_message_bytes = maximum_message_bytes,
      fa_fragments = [], fa_final_index = None, fa_total_bytes = 0\<rparr>"

text \<open>The loop of \<open>try_complete\<close> over \<open>0..=final_index\<close>, as a list of indexes.\<close>

fun gather :: "(u16, bytes) btree_map \<Rightarrow> nat list \<Rightarrow> bytes \<Rightarrow> fragment_error + bytes" where
  "gather fs [] message = Inr message"
| "gather fs (i # is) message =
     (case map_of fs (of_nat i) of
        None \<Rightarrow> Inl MissingFragment
      | Some body \<Rightarrow> gather fs is (message @ body))"

definition try_complete :: "fragment_accumulator \<Rightarrow> fragment_error + bytes option" where
  "try_complete acc =
     (case fa_final_index acc of
        None \<Rightarrow> Inr None
      | Some final_index \<Rightarrow>
          if length (fa_fragments acc) \<noteq> unat final_index + 1 then Inr None
          else (case gather (fa_fragments acc) [0..<unat final_index + 1] [] of
                  Inl e \<Rightarrow> Inl e
                | Inr message \<Rightarrow> Inr (Some message)))"

definition accumulator_push ::
    "fragment_accumulator \<Rightarrow> fragment \<Rightarrow> (fragment_error + bytes option) \<times> fragment_accumulator" where
  "accumulator_push acc fragment =
     (let h = fr_header fragment; idx = fh_index h in
      if fh_state_id h \<noteq> fa_state_id acc then (Inl MismatchedState, acc)
      else if (case fa_final_index acc of None \<Rightarrow> False | Some final_index \<Rightarrow> idx > final_index)
        then (Inl IndexAfterFinal, acc)
      else if fh_is_final h \<and>
          (case fa_final_index acc of None \<Rightarrow> False | Some final_index \<Rightarrow> final_index \<noteq> idx)
        then (Inl ConflictingFinalIndex, acc)
      else if fh_is_final h \<and> (\<exists>k \<in> set (map fst (fa_fragments acc)). k > idx)
        then (Inl IndexAfterFinal, acc)
      else
        let acc = (if fh_is_final h then acc\<lparr>fa_final_index := Some idx\<rparr> else acc) in
        (case map_of (fa_fragments acc) idx of
           Some existing \<Rightarrow>
             if existing = fr_body fragment then (try_complete acc, acc)
             else (Inl ConflictingDuplicate, acc)
         | None \<Rightarrow>
             (case usize_checked_add (fa_total_bytes acc) (length (fr_body fragment)) of
                None \<Rightarrow> (Inl MessageTooLarge, acc)
              | Some total_bytes \<Rightarrow>
                  let acc = acc\<lparr>fa_total_bytes := total_bytes\<rparr> in
                  if total_bytes > fa_maximum_message_bytes acc then (Inl MessageTooLarge, acc)
                  else
                    let acc = acc\<lparr>fa_fragments := bt_insert idx (fr_body fragment) (fa_fragments acc)\<rparr>
                    in (try_complete acc, acc))))"

subsection \<open>Header round trips\<close>

lemma FRAGMENT_INDEX_MASK_mask: "FRAGMENT_INDEX_MASK = mask 15"
  by (simp add: FRAGMENT_INDEX_MASK_def FINAL_FRAGMENT_BIT_def mask_eq_exp_minus_1)

lemma FINAL_FRAGMENT_BIT_bit: "bit FINAL_FRAGMENT_BIT n \<longleftrightarrow> n = 15"
  by (simp only: FINAL_FRAGMENT_BIT_def bit_push_bit_iff possible_bit_word bit_1_iff) auto

lemma and_FINAL_FRAGMENT_BIT: "w AND FINAL_FRAGMENT_BIT = 0 \<longleftrightarrow> \<not> bit w 15"
proof
  assume "w AND FINAL_FRAGMENT_BIT = 0"
  then have "\<not> bit (w AND FINAL_FRAGMENT_BIT) 15" by simp
  then show "\<not> bit w 15" by (simp add: bit_and_iff FINAL_FRAGMENT_BIT_bit)
next
  assume "\<not> bit w 15"
  then show "w AND FINAL_FRAGMENT_BIT = 0"
    by (intro bit_word_eqI) (auto simp: bit_and_iff FINAL_FRAGMENT_BIT_bit)
qed

lemma fragment_word_index:
  "((i AND FRAGMENT_INDEX_MASK) OR (if f then FINAL_FRAGMENT_BIT else 0)) AND FRAGMENT_INDEX_MASK
     = i AND FRAGMENT_INDEX_MASK"
  by (rule bit_word_eqI) (auto simp: FRAGMENT_INDEX_MASK_mask bit_simps FINAL_FRAGMENT_BIT_bit)

lemma fragment_word_final:
  "((i AND FRAGMENT_INDEX_MASK) OR (if f then FINAL_FRAGMENT_BIT else 0)) AND FINAL_FRAGMENT_BIT \<noteq> 0
     \<longleftrightarrow> f"
  by (simp add: and_FINAL_FRAGMENT_BIT FRAGMENT_INDEX_MASK_mask bit_simps FINAL_FRAGMENT_BIT_bit)

lemma fragment_word_rebuild:
  "((w AND FRAGMENT_INDEX_MASK) AND FRAGMENT_INDEX_MASK) OR
     (if w AND FINAL_FRAGMENT_BIT \<noteq> 0 then FINAL_FRAGMENT_BIT else 0) = w"
proof (rule bit_word_eqI)
  fix n assume "n < LENGTH(16)"
  then have "n < 15 \<or> n = 15" by auto
  then show "bit (((w AND FRAGMENT_INDEX_MASK) AND FRAGMENT_INDEX_MASK) OR
     (if w AND FINAL_FRAGMENT_BIT \<noteq> 0 then FINAL_FRAGMENT_BIT else 0)) n = bit w n"
    by (auto simp: and_FINAL_FRAGMENT_BIT FRAGMENT_INDEX_MASK_mask bit_simps FINAL_FRAGMENT_BIT_bit)
qed

lemma to_be_bytes_2: "to_be_bytes 2 w = [to_be_bytes 2 w ! 0, to_be_bytes 2 w ! 1]"
  by (simp add: numeral_2_eq_2)

lemma nth_to_be_bytes_2:
  "from_be_bytes [to_be_bytes 2 w ! 0, to_be_bytes 2 w ! 1] = (w :: u16)"
  using from_to_be_bytes [of 2 w] to_be_bytes_2 [of w] by simp

lemma fragment_parse_encode:
  assumes "length (fr_body f) \<le> MAX_RECEIVED_FRAGMENT_BODY_BYTES"
  shows "fragment_parse (fragment_encode f) =
    Inr (f\<lparr>fr_header := (fr_header f)\<lparr>fh_index := fh_index (fr_header f) AND FRAGMENT_INDEX_MASK\<rparr>\<rparr>)"
proof -
  let ?h = "fr_header f"
  let ?w = "(fh_index ?h AND FRAGMENT_INDEX_MASK) OR (if fh_is_final ?h then FINAL_FRAGMENT_BIT else 0)"
  let ?a = "u16_to_be_bytes (fh_sent_timestamp ?h)" and ?b = "u16_to_be_bytes (fh_echoed_timestamp ?h)"
  let ?c = "u64_to_be_bytes (fh_state_id ?h)" and ?d = "u16_to_be_bytes ?w"
  have enc: "fragment_encode f = ?a @ ?b @ ?c @ ?d @ fr_body f"
    by (simp add: fragment_encode_def Let_def)
  have take: "take 14 (fragment_encode f) = ?a @ ?b @ ?c @ ?d"
    and drop: "drop 14 (fragment_encode f) = fr_body f"
    by (simp_all add: enc)
  show ?thesis
    using assms
    by (simp add: fragment_parse_def Let_def FRAGMENT_HEADER_BYTES_def take drop nth_append
        nth_to_be_bytes_2 [simplified] fragment_word_index fragment_word_final)
      (simp add: enc)
qed

lemma to_from_be_bytes_2: "u16_to_be_bytes (from_be_bytes [x, y]) = [x, y]"
  using to_from_be_bytes [of "[x, y]", where 'a = 16] by (simp add: numeral_2_eq_2)

lemma to_from_be_bytes_8: "length bs = 8 \<Longrightarrow> u64_to_be_bytes (from_be_bytes bs) = bs"
  using to_from_be_bytes [of bs, where 'a = 64] by simp

lemma take_14_parts:
  assumes "14 \<le> length p"
  shows "take 14 p = [take 14 p ! 0, take 14 p ! 1] @ [take 14 p ! 2, take 14 p ! 3] @
    take 8 (drop 4 (take 14 p)) @ [take 14 p ! 12, take 14 p ! 13]"
proof -
  have "take 14 p = take 4 (take 14 p) @ take 8 (drop 4 (take 14 p)) @ drop 8 (drop 4 (take 14 p))"
    by (simp only: append_take_drop_id)
  moreover have "take 4 (take 14 p) = [take 14 p ! 0, take 14 p ! 1, take 14 p ! 2, take 14 p ! 3]"
    and "drop 8 (drop 4 (take 14 p)) = [take 14 p ! 12, take 14 p ! 13]"
    using assms by (auto intro!: nth_equalityI simp: less_Suc_eq numeral_eq_Suc)
  ultimately show ?thesis by simp
qed

lemma fragment_encode_parse:
  assumes "fragment_parse p = Inr f"
  shows "fragment_encode f = p \<and> length (fr_body f) \<le> MAX_RECEIVED_FRAGMENT_BODY_BYTES"
proof -
  let ?h = "take 14 p"
  have len: "14 \<le> length p" and limit: "length p - 14 \<le> MAX_RECEIVED_FRAGMENT_BODY_BYTES"
    and f: "f = \<lparr>fr_header =
        \<lparr>fh_sent_timestamp = from_be_bytes [?h ! 0, ?h ! 1],
         fh_echoed_timestamp = from_be_bytes [?h ! 2, ?h ! 3],
         fh_state_id = from_be_bytes (take 8 (drop 4 ?h)),
         fh_index = from_be_bytes [?h ! 12, ?h ! 13] AND FRAGMENT_INDEX_MASK,
         fh_is_final = (from_be_bytes [?h ! 12, ?h ! 13] AND FINAL_FRAGMENT_BIT \<noteq> 0)\<rparr>,
        fr_body = drop 14 p\<rparr>"
    using assms
    by (auto simp: fragment_parse_def Let_def FRAGMENT_HEADER_BYTES_def split: if_splits)
  have "fragment_encode f = ([?h ! 0, ?h ! 1] @ [?h ! 2, ?h ! 3] @
      take 8 (drop 4 ?h) @ [?h ! 12, ?h ! 13]) @ drop 14 p"
    using len
    by (simp only: f fragment_encode_def Let_def fragment.select_convs fragment_header.select_convs
        fragment_word_rebuild to_from_be_bytes_2 append_assoc)
      (subst to_from_be_bytes_8; simp)
  also have "\<dots> = p"
    unfolding take_14_parts [OF len, symmetric] by simp
  finally show ?thesis using limit f by simp
qed

text \<open>
  C23. Header round trip. Parsing an encoded fragment gives the fragment back with its index reduced
  to 15 bits, for every fragment whose body is within the receive limit, and whatever \<open>parse\<close>
  accepts is re-encoded to exactly the bytes that were parsed: the final bit never leaks into the
  index and no header byte is dropped.
\<close>

theorem fragment_roundtrip:
  "(length (fr_body f) \<le> MAX_RECEIVED_FRAGMENT_BODY_BYTES \<longrightarrow>
     fragment_parse (fragment_encode f) =
       Inr (f\<lparr>fr_header := (fr_header f)\<lparr>fh_index := fh_index (fr_header f) AND FRAGMENT_INDEX_MASK\<rparr>\<rparr>)) \<and>
   (fragment_parse p = Inr g \<longrightarrow> fragment_encode g = p)"
  by (simp add: fragment_parse_encode fragment_encode_parse)

subsection \<open>Splitting\<close>

lemma concat_chunks: "0 < n \<Longrightarrow> concat (chunks n xs) = xs"
  by (induction n xs rule: chunks.induct) (subst chunks.simps, auto)

lemma chunks_bounds: "c \<in> set (chunks n xs) \<Longrightarrow> c \<noteq> [] \<and> length c \<le> n"
proof (induction n xs rule: chunks.induct)
  case (1 n xs)
  from "1.prems" have "\<not> (n = 0 \<or> xs = [])" and "c = take n xs \<or> c \<in> set (chunks n (drop n xs))"
    by (simp_all add: chunks.simps [of n xs] split: if_splits)
  with "1.IH" show ?case by auto
qed

lemma length_chunks: "0 < n \<Longrightarrow> length (chunks n xs) = (length xs + n - 1) div n"
proof (induction n xs rule: chunks.induct)
  case (1 n xs)
  show ?case
  proof (cases "xs = []")
    case True
    with "1.prems" show ?thesis by (simp add: chunks.simps)
  next
    case False
    then have e: "length xs + n - 1 = (length xs - 1) + n" by (cases xs) auto
    have a: "(length xs + n - 1) div n = Suc ((length xs - 1) div n)"
      unfolding e using "1.prems" by (simp add: div_add_self2)
    have b: "length (chunks n xs) = Suc ((length xs - n + n - 1) div n)"
      using 1 False by (subst chunks.simps) simp
    have "(length xs - n + n - 1) div n = (length xs - 1) div n"
      using "1.prems" by (cases "n \<le> length xs") auto
    with a b show ?thesis by simp
  qed
qed

text \<open>The bodies of a split: the empty message still takes one (empty, final) fragment.\<close>

definition split_bodies :: "bytes \<Rightarrow> bytes list" where
  "split_bodies message = (if message = [] then [[]] else chunks MAX_FRAGMENT_BODY_BYTES message)"

definition series_fragment :: "u16 \<Rightarrow> u16 \<Rightarrow> u64 \<Rightarrow> bytes list \<Rightarrow> nat \<Rightarrow> fragment" where
  "series_fragment sent echoed state_id bodies i =
     \<lparr>fr_header = \<lparr>fh_sent_timestamp = sent, fh_echoed_timestamp = echoed, fh_state_id = state_id,
        fh_index = of_nat i, fh_is_final = (i + 1 = length bodies)\<rparr>,
      fr_body = bodies ! i\<rparr>"

lemma concat_split_bodies [simp]: "concat (split_bodies m) = m"
  by (simp add: split_bodies_def concat_chunks MAX_FRAGMENT_BODY_BYTES_def)

lemma length_split_bodies:
  "length (split_bodies m) = (max (length m) 1 + MAX_FRAGMENT_BODY_BYTES - 1) div MAX_FRAGMENT_BODY_BYTES"
  by (cases m) (simp_all add: split_bodies_def length_chunks MAX_FRAGMENT_BODY_BYTES_def)

lemma split_bodies_nonempty [simp]: "split_bodies m \<noteq> []"
  by (subst length_greater_0_conv [symmetric])
    (simp add: length_split_bodies MAX_FRAGMENT_BODY_BYTES_def div_greater_zero_iff)

lemma split_bodies_bound: "b \<in> set (split_bodies m) \<Longrightarrow> length b \<le> MAX_FRAGMENT_BODY_BYTES"
  by (auto simp: split_bodies_def dest: chunks_bounds split: if_splits)

lemma FRAGMENT_INDEX_MASK_unat [simp]: "unat FRAGMENT_INDEX_MASK = 32767"
  by (simp add: FRAGMENT_INDEX_MASK_def FINAL_FRAGMENT_BIT_def)

lemma fragment_split_eq:
  "fragment_split m sent echoed sid =
     (if length (split_bodies m) > 32768 then Inl TooManyFragments
      else Inr (map (series_fragment sent echoed sid (split_bodies m)) [0..<length (split_bodies m)]))"
proof (cases "length (split_bodies m) > 32768")
  case True
  then show ?thesis
    unfolding fragment_split_def Let_def length_split_bodies [symmetric] by simp
next
  case False
  have "map (chunk_fragment sent echoed sid (length (split_bodies m))) (enumerate 0 (split_bodies m))
      = map Inr (map (series_fragment sent echoed sid (split_bodies m)) [0..<length (split_bodies m)])"
    using False
    by (intro nth_equalityI)
      (auto simp: nth_enumerate_eq chunk_fragment_def series_fragment_def)
  then have "collect_results (map (chunk_fragment sent echoed sid (length (split_bodies m)))
        (enumerate 0 (split_bodies m)))
      = Inr (map (series_fragment sent echoed sid (split_bodies m)) [0..<length (split_bodies m)])"
    by (simp only: collect_results_Inr_map)
  with False show ?thesis
    unfolding fragment_split_def Let_def length_split_bodies [symmetric]
    by (cases "m = []") (simp_all add: split_bodies_def series_fragment_def)
qed

lemma of_nat_u16_inj: "i < 65536 \<Longrightarrow> j < 65536 \<Longrightarrow> (of_nat i :: u16) = of_nat j \<longleftrightarrow> i = j"
  by (auto simp: word_unat_eq_iff unat_of_nat)

lemma sorted_of_nat_u16: "n \<le> 65536 \<Longrightarrow> sorted_wrt (<) (map of_nat [0..<n] :: u16 list)"
  by (auto simp: sorted_wrt_iff_nth_less word_less_nat_alt unat_of_nat)

subsection \<open>Completion\<close>

lemma gather_all:
  "(\<And>i. i \<in> set is \<Longrightarrow> map_of fs (of_nat i) = Some (b i)) \<Longrightarrow>
   gather fs is message = Inr (message @ concat (map b is))"
  by (induction "is" arbitrary: message) auto

text \<open>
  A completed accumulator holds exactly the indexes up to the final one, so its entries in key order
  are the pieces of the message in order.
\<close>

lemma complete_keys:
  assumes "bt_wf fs" and "dom (map_of fs) \<subseteq> {k. k \<le> final_index}"
    and "length fs = unat final_index + 1"
  shows "map fst fs = map of_nat [0..<unat (final_index :: u16) + 1]"
proof -
  let ?all = "map of_nat [0..<unat final_index + 1] :: u16 list"
  have bound: "unat final_index < 65536" by (rule word_bounds)
  have all: "set ?all = {k. k \<le> final_index}"
  proof (intro equalityI subsetI)
    fix k assume "k \<in> {k. k \<le> final_index}"
    then have "unat k < unat final_index + 1" and "k = of_nat (unat k)"
      by (simp_all add: word_le_nat_alt)
    then show "k \<in> set ?all" by (metis (no_types) atLeastLessThan_iff image_eqI le0 set_map set_upt)
  qed (use bound in \<open>auto simp: word_le_nat_alt unat_of_nat\<close>)
  have "sorted_wrt (<) ?all"
    using bound by (intro sorted_of_nat_u16) simp
  moreover have "set (map fst fs) = set ?all"
  proof (rule card_subset_eq)
    show "set (map fst fs) \<subseteq> set ?all"
      using assms(2) unfolding all by (auto simp: dom_map_of_conv_image_fst)
    show "card (set (map fst fs)) = card (set ?all)"
      using assms(1,3) \<open>sorted_wrt (<) ?all\<close>
      by (metis bt_wf_distinct distinct_card length_map length_upt diff_zero strict_sorted_iff)
  qed simp
  ultimately show ?thesis
    using assms(1) by (simp only: bt_wf_def) (intro strict_sorted_equal)
qed

lemma gather_complete:
  assumes "bt_wf fs" and "dom (map_of fs) \<subseteq> {k. k \<le> final_index}"
    and "length fs = unat (final_index :: u16) + 1"
  shows "gather fs [0..<unat final_index + 1] [] = Inr (concat (map snd fs))"
proof -
  note keys = complete_keys [OF assms]
  have "map_of fs (of_nat i) = Some (snd (fs ! i))" if "i \<in> set [0..<unat final_index + 1]" for i
  proof -
    from that assms(3) have i: "i < length fs" by (simp del: upt_Suc)
    then have "fst (fs ! i) = of_nat i"
      using keys assms(3) by (metis diff_zero nth_map nth_upt add_0 length_upt)
    moreover have "distinct (map fst fs)" using assms(1) by (rule bt_wf_distinct)
    ultimately show ?thesis
      using i by (metis map_of_eq_Some_iff nth_mem prod.collapse)
  qed
  then have "gather fs [0..<unat final_index + 1] [] =
      Inr ([] @ concat (map (\<lambda>i. snd (fs ! i)) [0..<unat final_index + 1]))"
    by (rule gather_all)
  also have "map (\<lambda>i. snd (fs ! i)) [0..<unat final_index + 1] = map snd fs"
    using assms(3) by (simp add: list_eq_iff_nth_eq del: upt_Suc)
  finally show ?thesis by simp
qed

subsection \<open>The accumulator invariant: bounded memory, no lost piece\<close>

definition stored_bytes :: "fragment_accumulator \<Rightarrow> nat" where
  "stored_bytes acc = sum_list (map (length \<circ> snd) (fa_fragments acc))"

text \<open>
  After \<open>MessageTooLarge\<close> the byte total stays above the sum of the stored bodies, so the invariant
  bounds the stored bytes by the total and by the limit, and does not equate them.
\<close>

definition accumulator_wf :: "fragment_accumulator \<Rightarrow> bool" where
  "accumulator_wf acc \<longleftrightarrow>
     bt_wf (fa_fragments acc) \<and>
     (\<forall>f. fa_final_index acc = Some f \<longrightarrow> dom (map_of (fa_fragments acc)) \<subseteq> {k. k \<le> f}) \<and>
     stored_bytes acc \<le> fa_total_bytes acc \<and>
     stored_bytes acc \<le> fa_maximum_message_bytes acc"

lemma accumulator_new_wf [simp, wf_intros]: "accumulator_wf (accumulator_new sid limit)"
  by (simp add: accumulator_wf_def accumulator_new_def stored_bytes_def)

lemma try_complete_wf:
  assumes "accumulator_wf acc"
  shows "try_complete acc = Inr None \<or>
    try_complete acc = Inr (Some (concat (map snd (fa_fragments acc))))"
  using assms gather_complete [of "fa_fragments acc"]
  by (auto simp: try_complete_def accumulator_wf_def simp del: upt_Suc split: option.splits)

lemma length_concat_stored: "length (concat (map snd (fa_fragments acc))) = stored_bytes acc"
  by (simp add: stored_bytes_def length_concat comp_def)

lemma dom_fragments: "k \<in> dom (map_of fs) \<longleftrightarrow> k \<in> fst ` set fs"
  by (simp add: dom_map_of_conv_image_fst)

lemma accumulator_wf_final:
  assumes "accumulator_wf acc" and "\<not> (\<exists>k \<in> set (map fst (fa_fragments acc)). k > idx)"
  shows "accumulator_wf (acc\<lparr>fa_final_index := Some idx\<rparr>)"
  using assms
  by (auto simp: accumulator_wf_def stored_bytes_def dom_map_of_conv_image_fst not_less)

lemma accumulator_wf_insert:
  assumes "accumulator_wf acc" and "map_of (fa_fragments acc) idx = None"
    and "fa_total_bytes acc + length body \<le> fa_maximum_message_bytes acc"
    and "\<And>f. fa_final_index acc = Some f \<Longrightarrow> idx \<le> f"
  shows "accumulator_wf (acc\<lparr>fa_total_bytes := fa_total_bytes acc + length body,
    fa_fragments := bt_insert idx body (fa_fragments acc)\<rparr>)"
  using assms sum_list_bt_insert [of "fa_fragments acc" idx length body]
  by (auto simp: accumulator_wf_def stored_bytes_def bt.wf_put bt_get split: if_splits)

lemma accumulator_wf_total:
  "accumulator_wf acc \<Longrightarrow> fa_total_bytes acc \<le> n \<Longrightarrow> accumulator_wf (acc\<lparr>fa_total_bytes := n\<rparr>)"
  by (auto simp: accumulator_wf_def stored_bytes_def)

text \<open>The checks \<open>push\<close> makes before it stores anything, and the state change after them.\<close>

definition push_refused :: "fragment_accumulator \<Rightarrow> fragment \<Rightarrow> bool" where
  "push_refused acc f \<longleftrightarrow>
     (let h = fr_header f; idx = fh_index h in
      fh_state_id h \<noteq> fa_state_id acc \<or>
      (\<exists>fi. fa_final_index acc = Some fi \<and> fi < idx) \<or>
      fh_is_final h \<and> (\<exists>fi. fa_final_index acc = Some fi \<and> fi \<noteq> idx) \<or>
      fh_is_final h \<and> (\<exists>k \<in> set (map fst (fa_fragments acc)). idx < k))"

definition push_final :: "fragment_accumulator \<Rightarrow> fragment \<Rightarrow> fragment_accumulator" where
  "push_final acc f =
     (if fh_is_final (fr_header f) then acc\<lparr>fa_final_index := Some (fh_index (fr_header f))\<rparr> else acc)"

definition push_store :: "fragment_accumulator \<Rightarrow> fragment \<Rightarrow> fragment_accumulator" where
  "push_store acc f =
     acc\<lparr>fa_total_bytes := fa_total_bytes acc + length (fr_body f),
         fa_fragments := bt_insert (fh_index (fr_header f)) (fr_body f) (fa_fragments acc)\<rparr>"

lemma accumulator_push_refused:
  "push_refused acc f \<Longrightarrow> \<exists>e. accumulator_push acc f = (Inl e, acc) \<and> e \<noteq> MissingFragment"
  by (auto simp: push_refused_def accumulator_push_def Let_def split: option.splits)

lemma accumulator_push_accepted:
  assumes "\<not> push_refused acc f"
  shows "accumulator_push acc f =
    (let acc = push_final acc f in
     case map_of (fa_fragments acc) (fh_index (fr_header f)) of
       Some existing \<Rightarrow>
         if existing = fr_body f then (try_complete acc, acc) else (Inl ConflictingDuplicate, acc)
     | None \<Rightarrow>
         if usize_limit \<le> fa_total_bytes acc + length (fr_body f) then (Inl MessageTooLarge, acc)
         else if fa_maximum_message_bytes acc < fa_total_bytes acc + length (fr_body f)
           then (Inl MessageTooLarge, acc\<lparr>fa_total_bytes := fa_total_bytes acc + length (fr_body f)\<rparr>)
         else (try_complete (push_store acc f), push_store acc f))"
proof -
  let ?h = "fr_header f"
  from assms have "fh_state_id ?h = fa_state_id acc"
      "\<not> (case fa_final_index acc of None \<Rightarrow> False | Some fi \<Rightarrow> fi < fh_index ?h)"
      "\<not> (fh_is_final ?h \<and> (case fa_final_index acc of None \<Rightarrow> False | Some fi \<Rightarrow> fi \<noteq> fh_index ?h))"
      "\<not> (fh_is_final ?h \<and> (\<exists>k \<in> set (map fst (fa_fragments acc)). k > fh_index ?h))"
    by (auto simp: push_refused_def Let_def split: option.splits)
  then show ?thesis
    unfolding accumulator_push_def push_final_def [symmetric] Let_def
    by (simp only: simp_thms if_False)
      (simp add: push_store_def usize_checked_add_def split: option.split)
qed

lemma accumulator_push_cases:
  assumes "accumulator_wf acc" and push: "accumulator_push acc f = (r, acc')"
  shows "accumulator_wf acc' \<and> fa_state_id acc' = fa_state_id acc \<and>
    fa_maximum_message_bytes acc' = fa_maximum_message_bytes acc \<and>
    (r = try_complete acc' \<or> (\<exists>e. r = Inl e \<and> e \<noteq> MissingFragment))"
proof (cases "push_refused acc f")
  case True
  with assms show ?thesis using accumulator_push_refused [OF True] by auto
next
  case False
  let ?acc = "push_final acc f" and ?idx = "fh_index (fr_header f)"
  have wf: "accumulator_wf ?acc"
    using False assms(1) accumulator_wf_final [of acc ?idx]
    by (auto simp: push_refused_def push_final_def Let_def)
  have le: "\<And>fi. fa_final_index ?acc = Some fi \<Longrightarrow> ?idx \<le> fi"
    using False by (auto simp: push_refused_def push_final_def Let_def split: if_splits)
  have same: "fa_state_id ?acc = fa_state_id acc"
      "fa_maximum_message_bytes ?acc = fa_maximum_message_bytes acc"
    by (simp_all add: push_final_def)
  show ?thesis
    using push wf le accumulator_wf_insert [OF wf] accumulator_wf_total [OF wf] same
    unfolding accumulator_push_accepted [OF False] Let_def
    by (auto simp: push_store_def split: option.splits if_splits)
qed

interpretation acc: invariant_machine accumulator_push accumulator_wf
proof
  fix s e assume "accumulator_wf s"
  then show "accumulator_wf (snd (accumulator_push s e))"
    using accumulator_push_cases [of s e] by (cases "accumulator_push s e") auto
qed

interpretation acc_limit: invariant_machine accumulator_push
  "\<lambda>acc. accumulator_wf acc \<and> fa_maximum_message_bytes acc = limit" for limit
proof
  fix s e assume "accumulator_wf s \<and> fa_maximum_message_bytes s = limit"
  then show "accumulator_wf (snd (accumulator_push s e)) \<and>
      fa_maximum_message_bytes (snd (accumulator_push s e)) = limit"
    using accumulator_push_cases [of s e] by (cases "accumulator_push s e") auto
qed

text \<open>
  C22. Whatever fragments arrive, in whatever order, an accumulator never stores more than its
  configured limit, never returns a message longer than the limit, and never reports
  \<open>MissingFragment\<close>: that branch of \<open>try_complete\<close> is unreachable, because the number of stored
  fragments and the final index together force every index to be present.
\<close>

theorem accumulator_bounded:
  "stored_bytes (snd (run accumulator_push (accumulator_new sid limit) fs)) \<le> limit \<and>
   (\<forall>r \<in> set (fst (run accumulator_push (accumulator_new sid limit) fs)).
      r \<noteq> Inl MissingFragment \<and> (\<forall>m. r = Inr (Some m) \<longrightarrow> length m \<le> limit))"
proof
  have init: "accumulator_wf (accumulator_new sid limit) \<and>
      fa_maximum_message_bytes (accumulator_new sid limit) = limit"
    by (simp add: accumulator_new_def [of sid limit, THEN arg_cong [where f = fa_maximum_message_bytes]])
  show "stored_bytes (snd (run accumulator_push (accumulator_new sid limit) fs)) \<le> limit"
    using acc_limit.run_inv [OF init, of fs] by (simp add: accumulator_wf_def)
  show "\<forall>r \<in> set (fst (run accumulator_push (accumulator_new sid limit) fs)).
      r \<noteq> Inl MissingFragment \<and> (\<forall>m. r = Inr (Some m) \<longrightarrow> length m \<le> limit)"
  proof (rule acc_limit.run_outputs [OF _ init])
    fix s e assume s: "accumulator_wf s \<and> fa_maximum_message_bytes s = limit"
    obtain r acc' where push: "accumulator_push s e = (r, acc')" by fastforce
    with s accumulator_push_cases [of s e r acc'] have wf: "accumulator_wf acc'"
        and limit: "fa_maximum_message_bytes acc' = limit"
        and r: "r = try_complete acc' \<or> (\<exists>e. r = Inl e \<and> e \<noteq> MissingFragment)"
      by auto
    from wf limit have "stored_bytes acc' \<le> limit" by (simp add: accumulator_wf_def)
    with r try_complete_wf [OF wf] show "fst (accumulator_push s e) \<noteq> Inl MissingFragment \<and>
        (\<forall>m. fst (accumulator_push s e) = Inr (Some m) \<longrightarrow> length m \<le> limit)"
      using length_concat_stored [of acc'] by (auto simp: push)
  qed
qed

subsection \<open>Reassembly in any order\<close>

text \<open>
  The accumulator that has received exactly the fragments with indexes \<open>I\<close> of a series of bodies.
\<close>

definition tracks :: "u64 \<Rightarrow> nat \<Rightarrow> bytes list \<Rightarrow> nat set \<Rightarrow> fragment_accumulator \<Rightarrow> bool" where
  "tracks sid limit bodies I acc \<longleftrightarrow>
     fa_state_id acc = sid \<and> fa_maximum_message_bytes acc = limit \<and> bt_wf (fa_fragments acc) \<and>
     map_of (fa_fragments acc) = (\<lambda>k. if unat k \<in> I then Some (bodies ! unat k) else None) \<and>
     fa_final_index acc =
       (if length bodies - 1 \<in> I then Some (of_nat (length bodies - 1)) else None) \<and>
     fa_total_bytes acc = (\<Sum>i \<in> I. length (bodies ! i))"

lemma tracks_dom:
  assumes "tracks sid limit bodies I acc" and "I \<subseteq> {..<n}" and "n \<le> 65536"
  shows "dom (map_of (fa_fragments acc)) = of_nat ` I"
  using assms by (force simp: tracks_def dom_def unat_of_nat image_iff split: if_splits)

lemma tracks_length:
  assumes "tracks sid limit bodies I acc" and "I \<subseteq> {..<n}" and "n \<le> 65536"
  shows "length (fa_fragments acc) = card I"
proof -
  have "length (fa_fragments acc) = card (dom (map_of (fa_fragments acc)))"
    using assms(1) by (intro bt_len_card) (simp add: tracks_def)
  also have "\<dots> = card I"
    unfolding tracks_dom [OF assms] using assms(2,3)
    by (intro card_image inj_onI) (metis lessThan_iff of_nat_u16_inj order_less_le_trans subsetD)
  finally show ?thesis .
qed

lemma tracks_complete:
  assumes "tracks sid limit bodies I acc" and "I \<subseteq> {..<Suc m}"
    and m: "length bodies = Suc m" "m < 65536"
  shows "try_complete acc = Inr (if I = {..<Suc m} then Some (concat bodies) else None)"
proof (cases "m \<in> I")
  case False
  then have "I \<noteq> {..<Suc m}" by auto
  with False show ?thesis using assms(1) m by (simp add: try_complete_def tracks_def)
next
  case True
  have final: "fa_final_index acc = Some (of_nat m)" and n: "unat (of_nat m :: u16) = m"
    using assms(1) True m by (simp_all add: tracks_def unat_of_nat)
  have len: "length (fa_fragments acc) = card I"
    using assms(1,2) m by (intro tracks_length) auto
  show ?thesis
  proof (cases "I = {..<Suc m}")
    case False
    then have "card I < Suc m"
      using assms(2) psubset_card_mono [of "{..<Suc m}" I] by auto
    with False show ?thesis by (simp add: try_complete_def final n len)
  next
    case True
    have "gather (fa_fragments acc) [0..<Suc m] [] = Inr ([] @ concat (map ((!) bodies) [0..<Suc m]))"
      using assms(1) m True by (intro gather_all) (auto simp: tracks_def unat_of_nat)
    also have "map ((!) bodies) [0..<Suc m] = bodies"
      using map_nth [of bodies] m by (simp del: upt_Suc)
    finally show ?thesis
      using True by (simp add: try_complete_def final n len del: upt_Suc)
  qed
qed

lemma tracks_not_refused:
  assumes t: "tracks sid limit bodies I acc" and I: "I \<subseteq> {..<Suc m}" and i: "i \<le> m"
    and m: "length bodies = Suc m" "m < 65536"
  shows "\<not> push_refused acc (series_fragment sent echoed sid bodies i)"
proof -
  let ?k = "of_nat i :: u16"
  have final: "fi = of_nat m" if "fa_final_index acc = Some fi" for fi
    using t m that by (auto simp: tracks_def split: if_splits)
  have "?k \<le> of_nat m" using i m by (simp add: word_le_nat_alt unat_of_nat)
  moreover have "k \<le> of_nat m" if "k \<in> set (map fst (fa_fragments acc))" for k
  proof -
    from that have "map_of (fa_fragments acc) k \<noteq> None" by (simp add: map_of_eq_None_iff)
    with t have "unat k \<in> I" by (simp add: tracks_def split: if_splits)
    with I m show ?thesis by (auto simp: word_le_nat_alt unat_of_nat)
  qed
  moreover have "fa_state_id acc = sid" using t by (simp add: tracks_def)
  ultimately show ?thesis
    using m by (auto simp: push_refused_def series_fragment_def Let_def not_less dest!: final)
qed

lemma tracks_push:
  assumes tr: "tracks sid limit bodies I acc" and I: "I \<subseteq> {..<Suc m}" and i: "i \<le> m"
    and m: "length bodies = Suc m" "m < 65536"
    and fits: "length (concat bodies) \<le> limit" "limit < usize_limit"
  shows "\<exists>acc'. accumulator_push acc (series_fragment sent echoed sid bodies i) =
      (Inr (if insert i I = {..<Suc m} then Some (concat bodies) else None), acc') \<and>
    tracks sid limit bodies (insert i I) acc'"
proof -
  let ?f = "series_fragment sent echoed sid bodies i" and ?k = "of_nat i :: u16"
  note t = tr [unfolded tracks_def m, simplified]
  have k: "unat ?k = i" and fin: "finite I" and I': "insert i I \<subseteq> {..<Suc m}"
    using i m I by (auto simp: unat_of_nat intro: finite_subset)
  have header: "fh_index (fr_header ?f) = ?k" "fh_state_id (fr_header ?f) = sid" "fr_body ?f = bodies ! i"
      "fh_is_final (fr_header ?f) \<longleftrightarrow> i = m"
    using m by (simp_all add: series_fragment_def)
  note push = accumulator_push_accepted [OF tracks_not_refused [OF tr I i m, of sent echoed],
      unfolded Let_def header]
  let ?acc = "push_final acc ?f"
  have final: "fa_final_index ?acc = (if m \<in> insert i I then Some (of_nat m) else None)"
    using t i m by (auto simp: push_final_def series_fragment_def)
  have same: "fa_fragments ?acc = fa_fragments acc" "fa_total_bytes ?acc = fa_total_bytes acc"
      "fa_maximum_message_bytes ?acc = limit" "fa_state_id ?acc = sid"
    using t by (simp_all add: push_final_def)
  show ?thesis
  proof (cases "i \<in> I")
    case True
    then have mid: "tracks sid limit bodies (insert i I) ?acc"
      using t final same m by (simp add: tracks_def insert_absorb)
    have "map_of (fa_fragments acc) ?k = Some (bodies ! i)" using t k True by simp
    with push same tracks_complete [OF mid I' m] mid show ?thesis by simp
  next
    case False
    have "length (concat bodies) = (\<Sum>j < Suc m. length (bodies ! j))"
      using m by (simp add: length_concat sum_list_sum_nth atLeast0LessThan)
    moreover have "(\<Sum>j \<in> insert i I. length (bodies ! j)) \<le> (\<Sum>j < Suc m. length (bodies ! j))"
      using I' by (intro sum_mono2) auto
    ultimately have room: "fa_total_bytes acc + length (bodies ! i) \<le> limit"
      using t fits False fin by simp
    have store: "tracks sid limit bodies (insert i I) (push_store ?acc ?f)"
      using t False fin k final same m
      by (auto simp: tracks_def push_store_def header bt.wf_put bt_get fun_eq_iff word_unat_eq_iff)
    have "map_of (fa_fragments acc) ?k = None" using t k False by simp
    with push same room fits tracks_complete [OF store I' m] store show ?thesis by simp
  qed
qed

lemma tracks_run:
  assumes "tracks sid limit bodies I acc" and "I \<subseteq> {..<Suc m}" and "set is \<subseteq> {..<Suc m}"
    and m: "length bodies = Suc m" "m < 65536"
    and fits: "length (concat bodies) \<le> limit" "limit < usize_limit"
  shows "fst (run accumulator_push acc (map (series_fragment sent echoed sid bodies) is)) =
    map (\<lambda>j. Inr (if I \<union> set (take (Suc j) is) = {..<Suc m} then Some (concat bodies) else None))
      [0..<length is]"
  using assms(1-3)
proof (induction "is" arbitrary: I acc)
  case Nil
  show ?case by simp
next
  case (Cons i "is")
  have i: "i \<le> m" using Cons.prems(3) by auto
  obtain acc' where push: "accumulator_push acc (series_fragment sent echoed sid bodies i) =
      (Inr (if insert i I = {..<Suc m} then Some (concat bodies) else None), acc')"
    and t': "tracks sid limit bodies (insert i I) acc'"
    using tracks_push [OF Cons.prems(1,2) i m fits] by blast
  have "fst (run accumulator_push acc' (map (series_fragment sent echoed sid bodies) is)) =
    map (\<lambda>j. Inr (if insert i I \<union> set (take (Suc j) is) = {..<Suc m} then Some (concat bodies) else None))
      [0..<length is]"
    using Cons.prems i t' by (intro Cons.IH) auto
  then show ?case
    by (simp add: run_Cons_fst push upt_conv_Cons map_Suc_upt [symmetric]
        del: run.simps(2) upt_Suc)
qed

lemma tracks_new:
  "tracks sid limit bodies {} (accumulator_new sid limit)"
  by (auto simp: tracks_def accumulator_new_def)

lemma series_fragment_inj:
  "n \<le> 65536 \<Longrightarrow> inj_on (series_fragment sent echoed sid bodies) {..<n}"
  by (intro inj_onI) (auto simp: series_fragment_def of_nat_u16_inj)

text \<open>
  C21. Reassembly in any order. Let a message be split into fragments and let any sequence of these
  fragments arrive, reordered, repeated, or incomplete. The accumulator reports no error, returns
  \<open>None\<close> while some fragment has not arrived yet, and returns exactly the original message with
  every fragment from the moment the set of arrived fragments is complete.
\<close>

theorem reassembly_any_order:
  assumes split: "fragment_split message sent echoed sid = Inr frags"
    and fits: "length message \<le> limit" "limit < usize_limit"
    and arrived: "set fs \<subseteq> set frags"
  shows "fst (run accumulator_push (accumulator_new sid limit) fs) =
    map (\<lambda>j. Inr (if set (take (Suc j) fs) = set frags then Some message else None)) [0..<length fs]"
proof -
  let ?bodies = "split_bodies message" and ?frag = "series_fragment sent echoed sid (split_bodies message)"
  obtain m where m: "length ?bodies = Suc m" by (cases ?bodies) auto
  have m': "m < 65536" and frags: "frags = map ?frag [0..<Suc m]"
    using split by (auto simp: fragment_split_eq m simp del: upt_Suc split: if_splits)
  from arrived obtain "is" where "is": "fs = map ?frag is" "set is \<subseteq> {..<Suc m}"
  proof -
    have "fs \<in> lists (?frag ` {..<Suc m})"
      using arrived unfolding frags by (auto simp: atLeast0LessThan simp del: upt_Suc)
    then have "fs \<in> map ?frag ` lists {..<Suc m}" by (simp only: lists_image)
    then show ?thesis using that by auto
  qed
  have same: "set (take (Suc j) fs) = set frags \<longleftrightarrow> set (take (Suc j) is) = {..<Suc m}" for j
  proof -
    have "set (take (Suc j) is) \<subseteq> {..<Suc m}" using "is"(2) set_take_subset by fast
    then have "?frag ` set (take (Suc j) is) = ?frag ` {..<Suc m} \<longleftrightarrow> set (take (Suc j) is) = {..<Suc m}"
      using m' by (intro inj_on_image_eq_iff [OF series_fragment_inj]) auto
    then show ?thesis by (simp add: "is"(1) frags take_map atLeast0LessThan del: upt_Suc)
  qed
  have "fst (run accumulator_push (accumulator_new sid limit) (map ?frag is)) =
    map (\<lambda>j. Inr (if {} \<union> set (take (Suc j) is) = {..<Suc m} then Some (concat ?bodies) else None))
      [0..<length is]"
    using "is"(2) m m' fits by (intro tracks_run [OF tracks_new]) auto
  then show ?thesis unfolding same by (simp add: "is"(1))
qed

subsection \<open>Instances\<close>

definition example_fragment :: fragment where
  "example_fragment =
     \<lparr>fr_header = \<lparr>fh_sent_timestamp = 1, fh_echoed_timestamp = 2, fh_state_id = 3, fh_index = 0,
        fh_is_final = True\<rparr>, fr_body = [9, 9]\<rparr>"

theorem fragment_roundtrip_witness:
  "fragment_parse (fragment_encode example_fragment) = Inr example_fragment \<and>
   (\<exists>p. fragment_parse p = Inr example_fragment \<and> fragment_encode example_fragment = p)"
  using fragment_roundtrip [of example_fragment "fragment_encode example_fragment" example_fragment]
  by (auto simp: example_fragment_def MAX_RECEIVED_FRAGMENT_BODY_BYTES_def)

theorem accumulator_bounded_witness:
  "fst (run accumulator_push (accumulator_new 3 1) [example_fragment]) = [Inl MessageTooLarge] \<and>
   stored_bytes (snd (run accumulator_push (accumulator_new 3 1) [example_fragment])) \<le> 1"
  using accumulator_bounded [of 3 1 "[example_fragment]"]
  by (simp add: accumulator_push_def accumulator_new_def example_fragment_def usize_checked_add_def
      usize_limit_def Let_def)

theorem reassembly_any_order_witness:
  "fragment_split [9, 9] 1 2 3 = Inr [example_fragment] \<and>
   fst (run accumulator_push (accumulator_new 3 10) [example_fragment, example_fragment])
     = [Inr (Some [9, 9]), Inr (Some [9, 9])]"
proof -
  have "fragment_split [9, 9] 1 2 3 = Inr [example_fragment]"
    by (simp add: fragment_split_def MAX_FRAGMENT_BODY_BYTES_def chunks.simps [of 1214] chunk_fragment_def
        example_fragment_def Let_def)
  with reassembly_any_order [OF this, of 10 "[example_fragment, example_fragment]"] show ?thesis
    by (simp add: usize_limit_def)
qed

end
