(* ===== verification/Messages.thy ===== *)
theory Messages
  imports Prelude
begin

section \<open>Wire messages and their validation (\<open>crates/ferrumtty-wire/src/message.rs\<close>)\<close>

text \<open>
  A state update is a Protobuf message inside a zlib stream. The Protobuf codec (\<open>prost\<close>, generated
  by its derive macro) and the zlib codec (\<open>flate2\<close>) are crates: they are the fields of \<open>codec_lib\<close>.
  What the repository itself does is modelled in full: the varint reader, the field walkers, the
  wire-type validation that runs before \<open>prost\<close> decodes anything, and the version and size checks
  around them. \<open>usize::try_from\<close> of a length never fails on the 64-bit targets and a slice of the
  rest is its list.
\<close>

subsection \<open>Model\<close>

definition PROTOCOL_VERSION :: u64 where "PROTOCOL_VERSION = 2"
definition MAXIMUM_DECOMPRESSED_BYTES :: usize where "MAXIMUM_DECOMPRESSED_BYTES = 16 * 1024 * 1024"
definition SESSION_CONTROL_CAPABILITY :: u8 where "SESSION_CONTROL_CAPABILITY = 1"

datatype byte_run = ByteRun (run_value: bytes)
datatype marker = Marker (marker_value: u64)

record viewport_size =
  vp_columns :: u64
  vp_rows :: u64

record session_control =
  sc_kind :: u32
  sc_payload :: bytes

record instruction =
  in_bytes :: "byte_run option"
  in_viewport :: "viewport_size option"
  in_marker :: "marker option"
  in_session_control :: "session_control option"

datatype instruction_batch = InstructionBatch (instructions: "instruction list")

record state_update =
  su_protocol_version :: u64
  su_base_state :: u64
  su_target_state :: u64
  su_acknowledged_state :: u64
  su_discard_before :: u64
  su_delta :: bytes
  su_padding :: bytes
  su_capabilities :: bytes

datatype message_error =
    CompressionFailed | DecompressionFailed | DecompressedMessageTooLarge | MalformedProtobuf
  | UnsupportedProtocolVersion | UnsupportedWireType

record codec_lib =
  prost_encode_update :: "state_update \<Rightarrow> bytes option"
  prost_decode_update :: "bytes \<Rightarrow> state_update option"
  prost_encode_batch :: "instruction_batch \<Rightarrow> bytes"
  prost_decode_batch :: "bytes \<Rightarrow> instruction_batch option"
  zlib_compress :: "bytes \<Rightarrow> bytes option"
  zlib_read :: "nat \<Rightarrow> bytes \<Rightarrow> bytes option" \<comment> \<open>at most that many decompressed bytes\<close>

definition state_update_new :: "u64 \<Rightarrow> u64 \<Rightarrow> u64 \<Rightarrow> state_update" where
  "state_update_new base_state target_state acknowledged_state =
     \<lparr>su_protocol_version = PROTOCOL_VERSION, su_base_state = base_state,
      su_target_state = target_state, su_acknowledged_state = acknowledged_state,
      su_discard_before = 0, su_delta = [], su_padding = [], su_capabilities = []\<rparr>"

fun varint_loop :: "u64 \<Rightarrow> nat \<Rightarrow> bytes \<Rightarrow> message_error + u64 \<times> usize" where
  "varint_loop value index [] = Inl MalformedProtobuf"
| "varint_loop value index (byte # rest) =
     (let payload = ucast (byte AND 0x7f) in
      if index = 9 \<and> payload > 1 then Inl MalformedProtobuf
      else
        let value = value OR push_bit (index * 7) payload in
        if byte AND 0x80 = 0 then Inr (value, index + 1)
        else varint_loop value (index + 1) rest)"

definition decode_varint :: "bytes \<Rightarrow> message_error + u64 \<times> usize" where
  "decode_varint encoded = varint_loop 0 0 (take 10 encoded)"

definition skip_value :: "bytes \<Rightarrow> u8 \<Rightarrow> message_error + bytes" where
  "skip_value encoded wire_type =
     (if wire_type = 0 then
        (case decode_varint encoded of
           Inl e \<Rightarrow> Inl e
         | Inr (_, n) \<Rightarrow> Inr (drop n encoded))
      else if wire_type = 1 then
        (if 8 \<le> length encoded then Inr (drop 8 encoded) else Inl MalformedProtobuf)
      else if wire_type = 2 then
        (case decode_varint encoded of
           Inl e \<Rightarrow> Inl e
         | Inr (len, n) \<Rightarrow>
             if unat len \<le> length (drop n encoded) then Inr (drop (unat len) (drop n encoded))
             else Inl MalformedProtobuf)
      else if wire_type = 5 then
        (if 4 \<le> length encoded then Inr (drop 4 encoded) else Inl MalformedProtobuf)
      else Inl UnsupportedWireType)"

lemma varint_loop_bounds:
  "varint_loop acc i bs = Inr (v, n) \<Longrightarrow> i < n \<and> n \<le> i + length bs"
proof (induction bs arbitrary: acc i)
  case (Cons b bs)
  then show ?case by (fastforce simp: Let_def split: if_splits)
qed simp

lemma decode_varint_bounds:
  "decode_varint bs = Inr (v, n) \<Longrightarrow> 0 < n \<and> n \<le> length bs \<and> n \<le> 10"
  using varint_loop_bounds [of 0 0 "take 10 bs" v n] by (simp add: decode_varint_def)

lemma skip_value_length: "skip_value bs wt = Inr rest \<Longrightarrow> length rest \<le> length bs"
  by (auto simp: skip_value_def split: if_splits sum.splits prod.splits)

text \<open>
  The two walkers loop until the input is used up; every round consumes at least the key byte. The
  wire type is the low three bits of the key.
\<close>

function validate_fields :: "bytes \<Rightarrow> (u64 \<times> u8) list \<Rightarrow> message_error + unit" where
  "validate_fields remaining allowed =
     (if remaining = [] then Inr ()
      else
        (case decode_varint remaining of
           Inl e \<Rightarrow> Inl e
         | Inr (key, key_bytes) \<Rightarrow>
             let remaining = drop key_bytes remaining;
                 field = drop_bit 3 key;
                 wire_type = (ucast (key AND 7) :: u8)
             in if (case find (\<lambda>p. fst p = field) allowed of
                      None \<Rightarrow> False
                    | Some (_, expected_wire_type) \<Rightarrow> wire_type \<noteq> expected_wire_type)
                then Inl UnsupportedWireType
                else (case skip_value remaining wire_type of
                        Inl e \<Rightarrow> Inl e
                      | Inr remaining \<Rightarrow> validate_fields remaining allowed)))"
  by pat_completeness auto
termination
  by (relation "measure (\<lambda>(remaining, allowed). length remaining)")
    (auto dest!: decode_varint_bounds skip_value_length)

declare validate_fields.simps [simp del]

function length_delimited_fields :: "bytes \<Rightarrow> message_error + (u64 \<times> bytes) list" where
  "length_delimited_fields encoded =
     (if encoded = [] then Inr []
      else
        (case decode_varint encoded of
           Inl e \<Rightarrow> Inl e
         | Inr (key, key_bytes) \<Rightarrow>
             let encoded = drop key_bytes encoded;
                 field = drop_bit 3 key;
                 wire_type = (ucast (key AND 7) :: u8)
             in if wire_type = 0 \<or> wire_type = 1 \<or> wire_type = 5 then
                  (case skip_value encoded wire_type of
                     Inl e \<Rightarrow> Inl e
                   | Inr encoded \<Rightarrow> length_delimited_fields encoded)
                else if wire_type = 2 then
                  (case decode_varint encoded of
                     Inl e \<Rightarrow> Inl e
                   | Inr (len, length_bytes) \<Rightarrow>
                       let encoded = drop length_bytes encoded in
                       if unat len \<le> length encoded then
                         (case length_delimited_fields (drop (unat len) encoded) of
                            Inl e \<Rightarrow> Inl e
                          | Inr values \<Rightarrow> Inr ((field, take (unat len) encoded) # values))
                       else Inl MalformedProtobuf)
                else Inl UnsupportedWireType))"
  by pat_completeness auto
termination
  by (relation "measure length") (auto dest!: decode_varint_bounds skip_value_length)

declare length_delimited_fields.simps [simp del]

definition length_delimited_values ::
    "bytes \<Rightarrow> (u64 \<times> u8) list \<Rightarrow> message_error + bytes list" where
  "length_delimited_values encoded allowed =
     (case validate_fields encoded allowed of
        Inl e \<Rightarrow> Inl e
      | Inr _ \<Rightarrow>
          (case length_delimited_fields encoded of
             Inl e \<Rightarrow> Inl e
           | Inr parsed \<Rightarrow>
               Inr (map snd (filter (\<lambda>(field, _). (field, 2) \<in> set allowed) parsed))))"

fun validate_nested :: "(u64 \<times> bytes) list \<Rightarrow> message_error + unit" where
  "validate_nested [] = Inr ()"
| "validate_nested ((field, encoded) # rest) =
     (case (if field = 2 then validate_fields encoded [(4, 2)]
            else if field = 3 then validate_fields encoded [(5, 0), (6, 0)]
            else if field = 7 then validate_fields encoded [(8, 0)]
            else if field = 9 then validate_fields encoded [(10, 0), (11, 2)]
            else Inr ()) of
        Inl e \<Rightarrow> Inl e
      | Inr _ \<Rightarrow> validate_nested rest)"

fun validate_each_instruction :: "bytes list \<Rightarrow> message_error + unit" where
  "validate_each_instruction [] = Inr ()"
| "validate_each_instruction (instruction # rest) =
     (case validate_fields instruction [(2, 2), (3, 2), (7, 2), (9, 2)] of
        Inl e \<Rightarrow> Inl e
      | Inr _ \<Rightarrow>
          (case length_delimited_fields instruction of
             Inl e \<Rightarrow> Inl e
           | Inr parsed \<Rightarrow>
               (case validate_nested parsed of
                  Inl e \<Rightarrow> Inl e
                | Inr _ \<Rightarrow> validate_each_instruction rest)))"

definition validate_instruction_batch :: "bytes \<Rightarrow> message_error + unit" where
  "validate_instruction_batch encoded =
     (case length_delimited_values encoded [(1, 2)] of
        Inl e \<Rightarrow> Inl e
      | Inr encoded_instructions \<Rightarrow> validate_each_instruction encoded_instructions)"

definition decode_instructions :: "codec_lib \<Rightarrow> state_update \<Rightarrow> message_error + instruction_batch" where
  "decode_instructions lib update =
     (case validate_instruction_batch (su_delta update) of
        Inl e \<Rightarrow> Inl e
      | Inr _ \<Rightarrow> ok_or MalformedProtobuf (prost_decode_batch lib (su_delta update)))"

definition batch_encode_bytes :: "codec_lib \<Rightarrow> instruction_batch \<Rightarrow> bytes" where
  "batch_encode_bytes lib batch = prost_encode_batch lib batch"

definition encode_compressed_update :: "codec_lib \<Rightarrow> state_update \<Rightarrow> message_error + bytes" where
  "encode_compressed_update lib update =
     (if su_protocol_version update \<noteq> PROTOCOL_VERSION then Inl UnsupportedProtocolVersion
      else
        (case prost_encode_update lib update of
           None \<Rightarrow> Inl MalformedProtobuf
         | Some encoded_message \<Rightarrow> ok_or CompressionFailed (zlib_compress lib encoded_message)))"

definition UPDATE_FIELDS :: "(u64 \<times> u8) list" where
  "UPDATE_FIELDS = [(1, 0), (2, 0), (3, 0), (4, 0), (5, 0), (6, 2), (7, 2), (8, 2)]"

definition decode_compressed_update :: "codec_lib \<Rightarrow> bytes \<Rightarrow> message_error + state_update" where
  "decode_compressed_update lib compressed =
     (case zlib_read lib (MAXIMUM_DECOMPRESSED_BYTES + 1) compressed of
        None \<Rightarrow> Inl DecompressionFailed
      | Some encoded \<Rightarrow>
          if length encoded > MAXIMUM_DECOMPRESSED_BYTES then Inl DecompressedMessageTooLarge
          else
            (case validate_fields encoded UPDATE_FIELDS of
               Inl e \<Rightarrow> Inl e
             | Inr _ \<Rightarrow>
                 (case prost_decode_update lib encoded of
                    None \<Rightarrow> Inl MalformedProtobuf
                  | Some update \<Rightarrow>
                      if su_protocol_version update \<noteq> PROTOCOL_VERSION
                      then Inl UnsupportedProtocolVersion
                      else (case validate_instruction_batch (su_delta update) of
                              Inl e \<Rightarrow> Inl e
                            | Inr _ \<Rightarrow> Inr update))))"

end
