(* ===== verification/Wire_Format.thy ===== *)
theory Wire_Format
  imports Messages
begin

section \<open>The Protobuf wire format as a reference for the validators\<close>

text \<open>
  The validators of \<open>message.rs\<close> read the Protobuf wire format by hand. This theory states that
  format from its public specification, as an encoder from abstract fields to bytes, and shows that
  the hand-written readers are exact on it: \<open>decode_varint\<close> inverts the base-128 encoding,
  \<open>validate_fields\<close> accepts precisely the messages whose known fields carry the expected wire type,
  and \<open>length_delimited_fields\<close> returns the length-delimited fields in order.
\<close>

subsection \<open>Reference encoder\<close>

function encode_varint :: "u64 \<Rightarrow> bytes" where
  "encode_varint v =
     (if v < 128 then [ucast v] else (ucast (v AND 0x7f) OR 0x80) # encode_varint (drop_bit 7 v))"
  by pat_completeness auto
termination
proof (relation "measure unat")
  fix v :: u64 assume "\<not> v < 128"
  then have "128 \<le> unat v" by (simp add: word_less_nat_alt)
  then have "unat (drop_bit 7 v) < unat v"
    unfolding unat_drop_bit_eq drop_bit_eq_div [where 'a = nat] by simp
  then show "(drop_bit 7 v, v) \<in> measure unat" by (simp only: in_measure)
qed simp

declare encode_varint.simps [simp del]

datatype wire_field =
    VarintField (field_number: u64) u64
  | Fixed64Field (field_number: u64) bytes
  | LengthField (field_number: u64) bytes
  | Fixed32Field (field_number: u64) bytes

fun wire_type :: "wire_field \<Rightarrow> u8" where
  "wire_type (VarintField _ _) = 0"
| "wire_type (Fixed64Field _ _) = 1"
| "wire_type (LengthField _ _) = 2"
| "wire_type (Fixed32Field _ _) = 5"

fun wire_payload :: "wire_field \<Rightarrow> bytes" where
  "wire_payload (VarintField _ v) = encode_varint v"
| "wire_payload (Fixed64Field _ bs) = bs"
| "wire_payload (LengthField _ bs) = encode_varint (of_nat (length bs)) @ bs"
| "wire_payload (Fixed32Field _ bs) = bs"

definition wire_key :: "wire_field \<Rightarrow> u64" where
  "wire_key f = push_bit 3 (field_number f) OR ucast (wire_type f)"

definition wire_encode :: "wire_field list \<Rightarrow> bytes" where
  "wire_encode fs = concat (map (\<lambda>f. encode_varint (wire_key f) @ wire_payload f) fs)"

text \<open>Field numbers have 61 bits in a key; fixed fields have their width; lengths fit 64 bits.\<close>

fun wire_wf :: "wire_field \<Rightarrow> bool" where
  "wire_wf (VarintField n _) = (n < 2 ^ 61)"
| "wire_wf (Fixed64Field n bs) = (n < 2 ^ 61 \<and> length bs = 8)"
| "wire_wf (LengthField n bs) = (n < 2 ^ 61 \<and> length bs < usize_limit)"
| "wire_wf (Fixed32Field n bs) = (n < 2 ^ 61 \<and> length bs = 4)"

definition field_allowed :: "(u64 \<times> u8) list \<Rightarrow> wire_field \<Rightarrow> bool" where
  "field_allowed allowed f \<longleftrightarrow>
     (case find (\<lambda>p. fst p = field_number f) allowed of
        None \<Rightarrow> True
      | Some (_, expected) \<Rightarrow> wire_type f = expected)"

fun length_fields :: "wire_field list \<Rightarrow> (u64 \<times> bytes) list" where
  "length_fields [] = []"
| "length_fields (LengthField n bs # fs) = (n, bs) # length_fields fs"
| "length_fields (_ # fs) = length_fields fs"

subsection \<open>Varints\<close>

lemma encode_varint_small: "v < 128 \<Longrightarrow> encode_varint v = [ucast v]"
  by (simp add: encode_varint.simps)

lemma varint_bits_split:
  "(acc OR push_bit k (v AND 0x7f)) OR push_bit (k + 7) (drop_bit 7 v) = acc OR push_bit k (v :: u64)"
proof (rule bit_word_eqI)
  fix n assume "n < LENGTH(64)"
  have m: "(0x7f :: u64) = mask 7" by (simp add: mask_eq_exp_minus_1)
  consider "n < k" | "k \<le> n" "n < k + 7" | "k \<le> n" "k + 7 \<le> n" "7 + (n - (k + 7)) = n - k"
    by linarith
  then show "bit ((acc OR push_bit k (v AND 0x7f)) OR push_bit (k + 7) (drop_bit 7 v)) n
      = bit (acc OR push_bit k v) n"
    unfolding m by cases (auto simp: bit_simps)
qed

lemma low_byte_bits:
  assumes "\<And>n. bit (h :: u8) n \<longleftrightarrow> n = 7"
  shows "(ucast ((ucast (v AND mask 7) OR h :: u8) AND mask 7) :: u64) = v AND mask 7"
    and "bit ((ucast (v AND mask 7) OR h) AND h) 7"
  using assms by (auto intro!: bit_word_eqI simp: bit_simps)

lemma and_high_bit:
  assumes "\<And>n. bit (h :: u8) n \<longleftrightarrow> n = 7" and "\<not> bit (v :: u64) 7"
  shows "(ucast v :: u8) AND h = 0"
  using assms by (intro bit_word_eqI) (auto simp: bit_simps)

lemma bit_0x80: "bit (0x80 :: u8) n \<longleftrightarrow> n = 7"
proof -
  have "(0x80 :: u8) = push_bit 7 1" by simp
  then show ?thesis by (simp only: bit_push_bit_iff possible_bit_word bit_1_iff) auto
qed

lemma mask_7: "(0x7f :: u64) = mask 7" "(0x7f :: u8) = mask 7"
  by (simp_all add: mask_eq_exp_minus_1)

lemma ucast_low_byte: "(ucast ((ucast (v AND 0x7f) OR 0x80 :: u8) AND 0x7f) :: u64) = v AND 0x7f"
  unfolding mask_7 using bit_0x80 by (rule low_byte_bits(1))

lemma high_bit_set: "((ucast (v AND 0x7f :: u64) OR 0x80 :: u8) AND 0x80) \<noteq> 0"
proof
  assume "(ucast (v AND 0x7f :: u64) OR 0x80 :: u8) AND 0x80 = 0"
  moreover have "bit ((ucast (v AND 0x7f) OR 0x80 :: u8) AND 0x80) 7"
    unfolding mask_7 using bit_0x80 by (rule low_byte_bits(2))
  ultimately show False by simp
qed

lemma small_byte:
  assumes "(v :: u64) < 128"
  shows "(ucast ((ucast v :: u8) AND 0x7f) :: u64) = v" and "(ucast v :: u8) AND 0x80 = 0"
proof -
  have v: "take_bit 7 v = v"
    using assms by (intro word_unat_eq_iff [THEN iffD2])
      (simp add: unsigned_take_bit_eq take_bit_nat_eq_self word_less_nat_alt)
  have bits: "bit v n \<Longrightarrow> n < 7" for n
    using arg_cong [OF v, of "\<lambda>w. bit w n"] by (simp add: bit_take_bit_iff)
  show "(ucast ((ucast v :: u8) AND 0x7f) :: u64) = v"
    unfolding mask_7 by (rule bit_word_eqI) (auto simp: bit_simps dest: bits)
  have "\<not> bit v 7" using bits [of 7] by auto
  then show "(ucast v :: u8) AND 0x80 = 0"
    using bit_0x80 by (intro and_high_bit)
qed

lemma drop_7_small:
  assumes "i \<le> 8" "unat (v :: u64) < 2 ^ (64 - 7 * i)"
  shows "unat (drop_bit 7 v) < 2 ^ (64 - 7 * Suc i)"
proof -
  have "64 - 7 * i = (64 - 7 * Suc i) + 7" using assms(1) by simp
  then have "(2 :: nat) ^ (64 - 7 * i) = 2 ^ (64 - 7 * Suc i) * 2 ^ 7"
    by (simp only: power_add)
  with assms(2) show ?thesis
    unfolding unat_drop_bit_eq drop_bit_eq_div [where 'a = nat] by (intro less_mult_imp_div_less) simp
qed

lemma varint_loop_encode:
  assumes "i \<le> 9" and "unat v < 2 ^ (64 - 7 * i)"
  shows "varint_loop acc i (encode_varint v @ rest) =
      Inr (acc OR push_bit (i * 7) v, i + length (encode_varint v)) \<and>
    i + length (encode_varint v) \<le> 10"
  using assms
proof (induction v arbitrary: acc i rule: encode_varint.induct)
  case (1 v)
  show ?case
  proof (cases "v < 128")
    case True
    have low: "(ucast ((ucast v :: u8) AND 0x7f) :: u64) = v" and high: "(ucast v :: u8) AND 0x80 = 0"
      using True by (simp_all add: small_byte)
    have "v \<le> 1" if "i = 9" using "1.prems" that by (simp add: word_le_nat_alt)
    with True low high "1.prems"(1) show ?thesis
      by (simp add: encode_varint_small Let_def not_less)
  next
    case False
    then have large: "128 \<le> unat v" by (simp add: word_less_nat_alt)
    have i: "i \<le> 8"
    proof (rule ccontr)
      assume "\<not> i \<le> 8"
      with "1.prems" have "i = 9" by simp
      with "1.prems"(2) large show False by simp
    qed
    note small = drop_7_small [OF i "1.prems"(2)]
    note IH = "1.IH" [OF False, of "Suc i" "acc OR push_bit (i * 7) (v AND 0x7f)"]
    from IH [OF _ small] i have rec: "varint_loop (acc OR push_bit (i * 7) (v AND 0x7f)) (Suc i)
          (encode_varint (drop_bit 7 v) @ rest) =
        Inr ((acc OR push_bit (i * 7) (v AND 0x7f)) OR push_bit (Suc i * 7) (drop_bit 7 v),
          Suc i + length (encode_varint (drop_bit 7 v)))"
      and len: "Suc i + length (encode_varint (drop_bit 7 v)) \<le> 10"
      by simp_all
    have enc: "encode_varint v = (ucast (v AND 0x7f) OR 0x80) # encode_varint (drop_bit 7 v)"
      using False by (simp add: encode_varint.simps [of v])
    have bits: "(acc OR push_bit (i * 7) (v AND 0x7f)) OR push_bit (Suc i * 7) (drop_bit 7 v)
        = acc OR push_bit (i * 7) v"
      using varint_bits_split [of acc "i * 7" v] by (simp add: add.commute)
    have "varint_loop acc i (encode_varint v @ rest) =
        varint_loop (acc OR push_bit (i * 7) (v AND 0x7f)) (Suc i) (encode_varint (drop_bit 7 v) @ rest)"
      using i by (simp only: enc append_Cons varint_loop.simps Let_def ucast_low_byte high_bit_set) simp
    with rec len show ?thesis by (simp only: enc bits) simp
  qed
qed

lemma decode_encode_varint [simp]:
  "decode_varint (encode_varint v @ rest) = Inr (v, length (encode_varint v))"
proof -
  have "unat v < 2 ^ (64 - 7 * 0)" using unat_less_exp [of v] by simp
  note loop = varint_loop_encode [OF _ this, of 0]
  have "take 10 (encode_varint v @ rest) = encode_varint v @ take (10 - length (encode_varint v)) rest"
    using loop [of rest] by simp
  then show ?thesis
    using loop by (simp add: decode_varint_def)
qed

lemma encode_varint_nonempty [simp]: "encode_varint v \<noteq> []"
  by (simp add: encode_varint.simps [of v])

subsection \<open>Fields\<close>

lemma wire_key_parts:
  assumes "field_number f < 2 ^ 61"
  shows "drop_bit 3 (wire_key f) = field_number f" and "ucast (wire_key f AND 7) = wire_type f"
proof -
  have n: "take_bit 61 (field_number f) = field_number f"
    using assms by (intro word_unat_eq_iff [THEN iffD2])
      (simp add: unsigned_take_bit_eq take_bit_nat_eq_self word_less_nat_alt)
  have bits: "bit (field_number f) k \<Longrightarrow> k < 61" for k
    using arg_cong [OF n, of "\<lambda>w. bit w k"] by (simp add: bit_take_bit_iff)
  have t: "bit (wire_type f) k \<Longrightarrow> k < 3" for k
  proof -
    have "take_bit 3 (wire_type f) = wire_type f" by (cases f) (simp_all add: take_bit_eq_mod)
    then show "bit (wire_type f) k \<Longrightarrow> k < 3"
      by (metis bit_take_bit_iff)
  qed
  have seven: "(7 :: u64) = mask 3" by (simp add: mask_eq_exp_minus_1)
  show "drop_bit 3 (wire_key f) = field_number f"
    by (rule bit_word_eqI) (auto simp: wire_key_def bit_simps dest: bits t)
  show "ucast (wire_key f AND 7) = wire_type f"
    unfolding seven by (rule bit_word_eqI) (auto simp: wire_key_def bit_simps dest: t)
qed

lemma wire_wf_number: "wire_wf f \<Longrightarrow> field_number f < 2 ^ 61"
  by (cases f) auto

lemma unat_of_nat_usize: "n < usize_limit \<Longrightarrow> unat (of_nat n :: u64) = n"
  by (simp add: usize_limit_def unat_of_nat)

lemma skip_value_payload:
  "wire_wf f \<Longrightarrow> skip_value (wire_payload f @ rest) (wire_type f) = Inr rest"
  by (cases f) (auto simp: skip_value_def unat_of_nat_usize)

lemma wire_encode_Nil [simp]: "wire_encode [] = []"
  by (simp add: wire_encode_def)

lemma wire_encode_Cons:
  "wire_encode (f # fs) = encode_varint (wire_key f) @ wire_payload f @ wire_encode fs"
  by (simp add: wire_encode_def)

lemma wire_encode_Cons_nonempty: "wire_encode (f # fs) \<noteq> []"
  by (simp add: wire_encode_Cons)

text \<open>One round of each walker on an encoded field.\<close>

lemma validate_fields_Cons:
  assumes "wire_wf f"
  shows "validate_fields (wire_encode (f # fs)) allowed =
    (if field_allowed allowed f then validate_fields (wire_encode fs) allowed
     else Inl UnsupportedWireType)"
  using skip_value_payload [OF assms, of "wire_encode fs"] wire_key_parts [OF wire_wf_number [OF assms]]
  by (subst validate_fields.simps)
    (auto simp: wire_encode_Cons field_allowed_def Let_def split: option.splits)

lemma wire_type_cases: "wire_type f = 0 \<or> wire_type f = 1 \<or> wire_type f = 2 \<or> wire_type f = 5"
  by (cases f) auto

lemma length_delimited_fields_Cons:
  assumes "wire_wf f"
  shows "length_delimited_fields (wire_encode (f # fs)) =
    (case length_delimited_fields (wire_encode fs) of
       Inl e \<Rightarrow> Inl e
     | Inr values \<Rightarrow> Inr (length_fields [f] @ values))"
  using skip_value_payload [OF assms, of "wire_encode fs"] wire_key_parts [OF wire_wf_number [OF assms]]
    assms
  by (subst length_delimited_fields.simps, cases f)
    (auto simp: wire_encode_Cons Let_def unat_of_nat_usize split: sum.splits)

lemma length_fields_Cons: "length_fields (f # fs) = length_fields [f] @ length_fields fs"
  by (cases f) auto

lemma length_delimited_fields_encode:
  "list_all wire_wf fs \<Longrightarrow> length_delimited_fields (wire_encode fs) = Inr (length_fields fs)"
proof (induction fs)
  case Nil
  show ?case by (simp add: length_delimited_fields.simps)
next
  case (Cons f fs)
  then show ?case
    by (simp add: length_delimited_fields_Cons) (metis length_fields_Cons)
qed

lemma validate_fields_encode:
  "list_all wire_wf fs \<Longrightarrow>
   validate_fields (wire_encode fs) allowed =
     (if list_all (field_allowed allowed) fs then Inr () else Inl UnsupportedWireType)"
  by (induction fs) (simp_all add: validate_fields_Cons validate_fields.simps [of "[]"])

text \<open>
  C25. Wire-format exactness. On any sequence of well-formed Protobuf fields, \<open>decode_varint\<close> inverts
  the base-128 encoding at every position, \<open>validate_fields\<close> accepts exactly when every known field
  carries its expected wire type (unknown fields are skipped) and fails with \<open>UnsupportedWireType\<close>
  otherwise, and \<open>length_delimited_fields\<close> returns the length-delimited fields in order.
\<close>

theorem wire_readers_exact:
  assumes "list_all wire_wf fs"
  shows "decode_varint (encode_varint v @ rest) = Inr (v, length (encode_varint v)) \<and>
    validate_fields (wire_encode fs) allowed =
      (if list_all (field_allowed allowed) fs then Inr () else Inl UnsupportedWireType) \<and>
    length_delimited_fields (wire_encode fs) = Inr (length_fields fs)"
  using assms by (simp add: validate_fields_encode length_delimited_fields_encode)

lemma validate_fields_okE:
  assumes "validate_fields encoded allowed = Inr ()" and "encoded \<noteq> []"
  obtains key n rest where "decode_varint encoded = Inr (key, n)"
    and "skip_value (drop n encoded) (ucast (key AND 7)) = Inr rest"
    and "validate_fields rest allowed = Inr ()" and "length rest < length encoded"
proof -
  from assms obtain key n rest where step: "decode_varint encoded = Inr (key, n)"
      "skip_value (drop n encoded) (ucast (key AND 7)) = Inr rest" "validate_fields rest allowed = Inr ()"
    by (subst (asm) validate_fields.simps) (auto simp: Let_def split: sum.splits if_splits)
  moreover have "length rest < length encoded"
    using decode_varint_bounds [OF step(1)] skip_value_length [OF step(2)] by auto
  ultimately show ?thesis by (rule that)
qed

text \<open>
  On arbitrary, also hostile, bytes: once \<open>validate_fields\<close> has accepted a message,
  \<open>length_delimited_fields\<close> cannot fail on it, and the values it returns are together shorter than
  the message they were cut from; the walkers always terminate.
\<close>

lemma validated_fields_split:
  assumes "validate_fields encoded allowed = Inr ()"
  shows "\<exists>values. length_delimited_fields encoded = Inr values \<and>
    sum_list (map (length \<circ> snd) values) \<le> length encoded"
  using assms
proof (induction encoded rule: length_induct)
  case (1 encoded)
  show ?case
  proof (cases "encoded = []")
    case True
    then show ?thesis by (simp add: length_delimited_fields.simps)
  next
    case False
    with "1.prems" obtain key n rest where key: "decode_varint encoded = Inr (key, n)"
        and skip: "skip_value (drop n encoded) (ucast (key AND 7)) = Inr rest"
        and ok: "validate_fields rest allowed = Inr ()" and less: "length rest < length encoded"
      by (rule validate_fields_okE)
    from "1.IH" less ok obtain vs where vs: "length_delimited_fields rest = Inr vs"
        and le: "sum_list (map (length \<circ> snd) vs) \<le> length rest"
      by blast
    show ?thesis
      using False key skip vs le less
      by (subst length_delimited_fields.simps)
        (auto simp: Let_def skip_value_def split: sum.splits prod.splits if_splits)
  qed
qed

subsection \<open>The messages of the protocol as wire fields\<close>

text \<open>
  The proto3 encoding of the message types of \<open>message.rs\<close>, with the tags of their \<open>prost\<close>
  attributes: scalar fields at their default are left out, optional sub-messages are
  length-delimited, and a batch repeats field 1.
\<close>

definition varint_field :: "u64 \<Rightarrow> u64 \<Rightarrow> wire_field list" where
  "varint_field n v = (if v = 0 then [] else [VarintField n v])"

definition bytes_field :: "u64 \<Rightarrow> bytes \<Rightarrow> wire_field list" where
  "bytes_field n bs = (if bs = [] then [] else [LengthField n bs])"

definition update_fields :: "state_update \<Rightarrow> wire_field list" where
  "update_fields u =
     varint_field 1 (su_protocol_version u) @ varint_field 2 (su_base_state u) @
     varint_field 3 (su_target_state u) @ varint_field 4 (su_acknowledged_state u) @
     varint_field 5 (su_discard_before u) @ bytes_field 6 (su_delta u) @
     bytes_field 7 (su_padding u) @ bytes_field 8 (su_capabilities u)"

definition message_field :: "u64 \<Rightarrow> wire_field list option \<Rightarrow> wire_field list" where
  "message_field n m = (case m of None \<Rightarrow> [] | Some fs \<Rightarrow> [LengthField n (wire_encode fs)])"

definition run_fields :: "byte_run \<Rightarrow> wire_field list" where
  "run_fields r = bytes_field 4 (run_value r)"

definition viewport_fields :: "viewport_size \<Rightarrow> wire_field list" where
  "viewport_fields v = varint_field 5 (vp_columns v) @ varint_field 6 (vp_rows v)"

definition marker_fields :: "marker \<Rightarrow> wire_field list" where
  "marker_fields m = varint_field 8 (marker_value m)"

definition control_fields :: "session_control \<Rightarrow> wire_field list" where
  "control_fields c = varint_field 10 (ucast (sc_kind c)) @ bytes_field 11 (sc_payload c)"

definition instruction_fields :: "instruction \<Rightarrow> wire_field list" where
  "instruction_fields i =
     message_field 2 (map_option run_fields (in_bytes i)) @
     message_field 3 (map_option viewport_fields (in_viewport i)) @
     message_field 7 (map_option marker_fields (in_marker i)) @
     message_field 9 (map_option control_fields (in_session_control i))"

definition batch_fields :: "instruction_batch \<Rightarrow> wire_field list" where
  "batch_fields b = map (\<lambda>i. LengthField 1 (wire_encode (instruction_fields i))) (instructions b)"

text \<open>What the code relies on of \<open>prost\<close> and \<open>flate2\<close>.\<close>

definition codec_conforms :: "codec_lib \<Rightarrow> bool" where
  "codec_conforms lib \<longleftrightarrow>
     (\<forall>u. length (wire_encode (update_fields u)) < usize_limit \<longrightarrow>
        prost_encode_update lib u = Some (wire_encode (update_fields u)) \<and>
        prost_decode_update lib (wire_encode (update_fields u)) = Some u) \<and>
     (\<forall>b. length (wire_encode (batch_fields b)) < usize_limit \<longrightarrow>
        prost_encode_batch lib b = wire_encode (batch_fields b) \<and>
        prost_decode_batch lib (wire_encode (batch_fields b)) = Some b) \<and>
     (\<forall>e. \<exists>c. zlib_compress lib e = Some c \<and> (\<forall>n. zlib_read lib n c = Some (take n e)))"

subsection \<open>Valid batches pass validation\<close>

definition small_fields :: "wire_field list \<Rightarrow> bool" where
  "small_fields fs \<longleftrightarrow> (\<forall>f \<in> set fs. field_number f < 2 ^ 61 \<and> (wire_type f = 0 \<or> wire_type f = 2))"

lemma length_field_le: "LengthField n bs \<in> set fs \<Longrightarrow> length bs \<le> length (wire_encode fs)"
  by (induction fs) (auto simp: wire_encode_Cons)

lemma small_fields_wf:
  assumes "small_fields fs" and "length (wire_encode fs) < usize_limit"
  shows "list_all wire_wf fs"
proof (unfold list_all_iff, rule ballI)
  fix f assume f: "f \<in> set fs"
  with assms show "wire_wf f"
    using length_field_le [of _ _ fs] by (cases f) (fastforce simp: small_fields_def)+
qed

lemma small_fields_append [simp]: "small_fields (fs @ gs) \<longleftrightarrow> small_fields fs \<and> small_fields gs"
  by (auto simp: small_fields_def)

lemma small_fields_simps [simp]:
  "small_fields (varint_field n v) \<longleftrightarrow> v = 0 \<or> n < 2 ^ 61"
  "small_fields (bytes_field n bs) \<longleftrightarrow> bs = [] \<or> n < 2 ^ 61"
  "small_fields (message_field n m) \<longleftrightarrow> m = None \<or> n < 2 ^ 61"
  by (cases m; auto simp: small_fields_def varint_field_def bytes_field_def message_field_def)+

lemmas message_fields_defs = run_fields_def viewport_fields_def marker_fields_def control_fields_def
  instruction_fields_def update_fields_def

lemma small_messages [simp]:
  "small_fields (run_fields r)" "small_fields (viewport_fields v)" "small_fields (marker_fields k)"
  "small_fields (control_fields c)" "small_fields (instruction_fields i)" "small_fields (update_fields u)"
  by (simp_all add: message_fields_defs)

lemma small_batch [simp]: "small_fields (batch_fields b)"
  by (auto simp: small_fields_def batch_fields_def)

lemma field_allowed_simps [simp]:
  "list_all (field_allowed al) (varint_field n v) \<longleftrightarrow> v = 0 \<or> field_allowed al (VarintField n v)"
  "list_all (field_allowed al) (bytes_field n bs) \<longleftrightarrow> bs = [] \<or> field_allowed al (LengthField n bs)"
  "list_all (field_allowed al) (message_field n m) \<longleftrightarrow>
     (\<forall>fs. m = Some fs \<longrightarrow> field_allowed al (LengthField n (wire_encode fs)))"
  by (auto simp: varint_field_def bytes_field_def message_field_def split: option.splits)

lemma validate_small:
  "small_fields fs \<Longrightarrow> length (wire_encode fs) < usize_limit \<Longrightarrow> list_all (field_allowed allowed) fs \<Longrightarrow>
   validate_fields (wire_encode fs) allowed = Inr ()"
  by (simp add: validate_fields_encode small_fields_wf)

lemma length_fields_append [simp]: "length_fields (fs @ gs) = length_fields fs @ length_fields gs"
  by (induction fs rule: length_fields.induct) auto

lemma length_fields_simps [simp]:
  "length_fields (varint_field n v) = []"
  "length_fields (message_field n m) = (case m of None \<Rightarrow> [] | Some fs \<Rightarrow> [(n, wire_encode fs)])"
  by (auto simp: varint_field_def message_field_def split: option.splits)

lemma validate_nested_append:
  "validate_nested (xs @ ys) =
     (case validate_nested xs of Inl e \<Rightarrow> Inl e | Inr _ \<Rightarrow> validate_nested ys)"
  by (induction xs rule: validate_nested.induct) (auto split: sum.splits)

lemma validate_nested_message:
  assumes "\<And>x. m = Some x \<Longrightarrow> validate_nested [(n, wire_encode (g x))] = Inr ()"
  shows "validate_nested (case map_option g m of None \<Rightarrow> [] | Some fs \<Rightarrow> [(n, wire_encode fs)]) = Inr ()"
  using assms by (cases m) simp_all

lemma instruction_piece_small:
  assumes "(n, bs) \<in> set (length_fields fs)"
  shows "length bs \<le> length (wire_encode fs)"
proof -
  from assms have "LengthField n bs \<in> set fs"
    by (induction fs rule: length_fields.induct) auto
  then show ?thesis by (rule length_field_le)
qed

lemma validate_nested_pieces:
  "length (wire_encode (run_fields r)) < usize_limit \<Longrightarrow>
     validate_nested [(2, wire_encode (run_fields r))] = Inr ()"
  "length (wire_encode (viewport_fields v)) < usize_limit \<Longrightarrow>
     validate_nested [(3, wire_encode (viewport_fields v))] = Inr ()"
  "length (wire_encode (marker_fields k)) < usize_limit \<Longrightarrow>
     validate_nested [(7, wire_encode (marker_fields k))] = Inr ()"
  "length (wire_encode (control_fields c)) < usize_limit \<Longrightarrow>
     validate_nested [(9, wire_encode (control_fields c))] = Inr ()"
  by (simp_all add: validate_small) (simp_all add: message_fields_defs field_allowed_def validate_small)

lemma validate_nested_instruction:
  assumes "length (wire_encode (instruction_fields i)) < usize_limit"
  shows "validate_nested (length_fields (instruction_fields i)) = Inr ()"
proof -
  have small: "length (wire_encode fs) < usize_limit"
    if "(n, wire_encode fs) \<in> set (length_fields (instruction_fields i))" for n fs
    using instruction_piece_small [OF that] assms by simp
  have bytes: "length (wire_encode (run_fields r)) < usize_limit" if "in_bytes i = Some r" for r
    using that by (intro small [of 2]) (simp add: instruction_fields_def)
  have viewport: "length (wire_encode (viewport_fields v)) < usize_limit" if "in_viewport i = Some v" for v
    using that by (intro small [of 3]) (simp add: instruction_fields_def)
  have marker: "length (wire_encode (marker_fields k)) < usize_limit" if "in_marker i = Some k" for k
    using that by (intro small [of 7]) (simp add: instruction_fields_def)
  have control: "length (wire_encode (control_fields c)) < usize_limit" if "in_session_control i = Some c" for c
    using that by (intro small [of 9]) (simp add: instruction_fields_def)
  note pieces = validate_nested_message [OF validate_nested_pieces(1), OF bytes]
    validate_nested_message [OF validate_nested_pieces(2), OF viewport]
    validate_nested_message [OF validate_nested_pieces(3), OF marker]
    validate_nested_message [OF validate_nested_pieces(4), OF control]
  show ?thesis
    unfolding instruction_fields_def length_fields_append length_fields_simps validate_nested_append
    by (simp only: pieces sum.case)
qed

lemma length_fields_map: "length_fields (map (\<lambda>i. LengthField n (g i)) is) = map (\<lambda>i. (n, g i)) is"
  by (induction "is") auto

lemma validate_instruction:
  assumes "length (wire_encode (instruction_fields i)) < usize_limit"
  shows "validate_each_instruction (wire_encode (instruction_fields i) # rest) = validate_each_instruction rest"
proof -
  have "validate_fields (wire_encode (instruction_fields i)) [(2, 2), (3, 2), (7, 2), (9, 2)] = Inr ()"
    using assms by (intro validate_small) (auto simp: instruction_fields_def field_allowed_def)
  moreover have "length_delimited_fields (wire_encode (instruction_fields i)) =
      Inr (length_fields (instruction_fields i))"
    using assms by (intro length_delimited_fields_encode small_fields_wf) simp_all
  ultimately show ?thesis using validate_nested_instruction [OF assms] by simp
qed

lemma validate_batch:
  assumes "length (wire_encode (batch_fields b)) < usize_limit"
  shows "validate_instruction_batch (wire_encode (batch_fields b)) = Inr ()"
proof -
  have wf: "list_all wire_wf (batch_fields b)" using assms by (intro small_fields_wf) simp_all
  have "list_all (field_allowed [(1, 2)]) (batch_fields b)"
    by (simp add: batch_fields_def list_all_iff field_allowed_def)
  then have ok: "validate_fields (wire_encode (batch_fields b)) [(1, 2)] = Inr ()"
    using wf by (simp add: validate_fields_encode)
  have parts: "length_fields (batch_fields b) =
      map (\<lambda>i. (1, wire_encode (instruction_fields i))) (instructions b)"
    unfolding batch_fields_def by (rule length_fields_map)
  have small: "length (wire_encode (instruction_fields i)) < usize_limit" if "i \<in> set (instructions b)" for i
  proof -
    have "(1, wire_encode (instruction_fields i)) \<in> set (length_fields (batch_fields b))"
      using that by (simp add: parts)
    then show ?thesis using instruction_piece_small assms by fastforce
  qed
  have "validate_each_instruction (map (\<lambda>i. wire_encode (instruction_fields i)) is) = Inr ()"
    if "set is \<subseteq> set (instructions b)" for "is"
    using that
  proof (induction "is")
    case (Cons i "is")
    then show ?case using validate_instruction [OF small [of i]] by simp
  qed simp
  then show ?thesis
    using wf by (simp add: validate_instruction_batch_def length_delimited_values_def ok
        length_delimited_fields_encode parts comp_def)
qed

lemma MAXIMUM_DECOMPRESSED_BYTES_less: "MAXIMUM_DECOMPRESSED_BYTES < usize_limit"
  by (simp add: MAXIMUM_DECOMPRESSED_BYTES_def usize_limit_def)

lemma compressed_roundtrip:
  assumes "codec_conforms lib" and "su_protocol_version u = PROTOCOL_VERSION"
    and "su_delta u = batch_encode_bytes lib b"
    and "length (wire_encode (batch_fields b)) < usize_limit"
    and "length (wire_encode (update_fields u)) < usize_limit"
  shows "\<exists>c. encode_compressed_update lib u = Inr c \<and> decode_instructions lib u = Inr b \<and>
    decode_compressed_update lib c =
      (if length (wire_encode (update_fields u)) \<le> MAXIMUM_DECOMPRESSED_BYTES then Inr u
       else Inl DecompressedMessageTooLarge)"
proof -
  let ?e = "wire_encode (update_fields u)"
  have delta: "su_delta u = wire_encode (batch_fields b)"
      "prost_decode_batch lib (wire_encode (batch_fields b)) = Some b"
    and update: "prost_encode_update lib u = Some ?e" "prost_decode_update lib ?e = Some u"
    using assms by (auto simp: codec_conforms_def batch_encode_bytes_def)
  from assms(1) obtain c where c: "zlib_compress lib ?e = Some c" "\<And>n. zlib_read lib n c = Some (take n ?e)"
    unfolding codec_conforms_def by blast
  have batch: "validate_instruction_batch (su_delta u) = Inr ()"
    unfolding delta using assms(4) by (rule validate_batch)
  have valid: "validate_fields ?e UPDATE_FIELDS = Inr ()"
    using assms(5) by (intro validate_small)
      (simp_all add: update_fields_def field_allowed_def UPDATE_FIELDS_def)
  have "decode_compressed_update lib c =
      (if length ?e \<le> MAXIMUM_DECOMPRESSED_BYTES then Inr u else Inl DecompressedMessageTooLarge)"
    using update(2) valid batch assms(2) by (simp add: decode_compressed_update_def c)
  moreover have "decode_instructions lib u = Inr b"
    using delta batch by (simp add: decode_instructions_def)
  moreover have "encode_compressed_update lib u = Inr c"
    using update c assms(2) by (simp add: encode_compressed_update_def)
  ultimately show ?thesis by blast
qed

text \<open>
  C24. Compressed round trip. An update of protocol version 2 whose delta is the encoding of an
  instruction batch survives compression: encoding succeeds, and decoding gives the same update back,
  with its instruction batch, when the encoded message is within 16 MiB; a longer one is refused as
  \<open>DecompressedMessageTooLarge\<close>, whatever it contains.
\<close>

theorem compressed_update_roundtrip:
  assumes "codec_conforms lib" and "su_protocol_version u = PROTOCOL_VERSION"
    and "su_delta u = batch_encode_bytes lib b"
    and "length (wire_encode (batch_fields b)) < usize_limit"
    and "length (wire_encode (update_fields u)) < usize_limit"
  shows "\<exists>c. encode_compressed_update lib u = Inr c \<and> decode_instructions lib u = Inr b \<and>
    decode_compressed_update lib c =
      (if length (wire_encode (update_fields u)) \<le> MAXIMUM_DECOMPRESSED_BYTES then Inr u
       else Inl DecompressedMessageTooLarge)"
  using compressed_roundtrip [OF assms] .

subsection \<open>A reference codec that conforms\<close>

text \<open>
  An executable decoder for the wire format, and the codec library built on it with the identity in
  place of zlib: it shows that \<open>codec_conforms\<close> can hold and is what concrete runs evaluate.
\<close>

function wire_decode :: "bytes \<Rightarrow> wire_field list option" where
  "wire_decode bs =
     (if bs = [] then Some []
      else
        (case decode_varint bs of
           Inl e \<Rightarrow> None
         | Inr (key, n) \<Rightarrow>
             (case decode_varint (drop n bs) of
                Inl e \<Rightarrow> None
              | Inr (v, m) \<Rightarrow>
                  if key AND 7 = 0 then
                    map_option ((#) (VarintField (drop_bit 3 key) v)) (wire_decode (drop m (drop n bs)))
                  else if key AND 7 = 2 \<and> unat v \<le> length (drop m (drop n bs)) then
                    map_option ((#) (LengthField (drop_bit 3 key) (take (unat v) (drop m (drop n bs)))))
                      (wire_decode (drop (unat v) (drop m (drop n bs))))
                  else None)))"
  by pat_completeness auto
termination
  by (relation "measure length") (auto dest!: decode_varint_bounds)

declare wire_decode.simps [simp del]

fun varint_at :: "u64 \<Rightarrow> wire_field list \<Rightarrow> u64" where
  "varint_at n [] = 0"
| "varint_at n (VarintField m v # fs) = (if m = n then v else varint_at n fs)"
| "varint_at n (_ # fs) = varint_at n fs"

fun message_at :: "u64 \<Rightarrow> wire_field list \<Rightarrow> bytes option" where
  "message_at n [] = None"
| "message_at n (LengthField m bs # fs) = (if m = n then Some bs else message_at n fs)"
| "message_at n (_ # fs) = message_at n fs"

definition bytes_at :: "u64 \<Rightarrow> wire_field list \<Rightarrow> bytes" where
  "bytes_at n fs = (case message_at n fs of None \<Rightarrow> [] | Some bs \<Rightarrow> bs)"

definition sub_fields :: "u64 \<Rightarrow> wire_field list \<Rightarrow> wire_field list option" where
  "sub_fields n fs = Option.bind (message_at n fs) wire_decode"

definition reference_update :: "wire_field list \<Rightarrow> state_update" where
  "reference_update fs =
     \<lparr>su_protocol_version = varint_at 1 fs, su_base_state = varint_at 2 fs,
      su_target_state = varint_at 3 fs, su_acknowledged_state = varint_at 4 fs,
      su_discard_before = varint_at 5 fs, su_delta = bytes_at 6 fs, su_padding = bytes_at 7 fs,
      su_capabilities = bytes_at 8 fs\<rparr>"

definition reference_instruction :: "wire_field list \<Rightarrow> instruction" where
  "reference_instruction fs =
     \<lparr>in_bytes = map_option (\<lambda>g. ByteRun (bytes_at 4 g)) (sub_fields 2 fs),
      in_viewport = map_option (\<lambda>g. \<lparr>vp_columns = varint_at 5 g, vp_rows = varint_at 6 g\<rparr>) (sub_fields 3 fs),
      in_marker = map_option (\<lambda>g. Marker (varint_at 8 g)) (sub_fields 7 fs),
      in_session_control =
        map_option (\<lambda>g. \<lparr>sc_kind = ucast (varint_at 10 g), sc_payload = bytes_at 11 g\<rparr>) (sub_fields 9 fs)\<rparr>"

definition reference_batch :: "wire_field list \<Rightarrow> instruction_batch option" where
  "reference_batch fs =
     map_option (InstructionBatch \<circ> map reference_instruction)
       (those (map (wire_decode \<circ> snd) (length_fields fs)))"

definition reference_codec :: codec_lib where
  "reference_codec =
     \<lparr>prost_encode_update = (\<lambda>u. Some (wire_encode (update_fields u))),
      prost_decode_update = (\<lambda>bs. map_option reference_update (wire_decode bs)),
      prost_encode_batch = (\<lambda>b. wire_encode (batch_fields b)),
      prost_decode_batch = (\<lambda>bs. Option.bind (wire_decode bs) reference_batch),
      zlib_compress = Some,
      zlib_read = (\<lambda>n c. Some (take n c))\<rparr>"

lemma wire_key_low: "small_fields [f] \<Longrightarrow>
   drop_bit 3 (wire_key f) = field_number f \<and>
   (wire_key f AND 7 = 0 \<longleftrightarrow> wire_type f = 0) \<and> (wire_key f AND 7 = 2 \<longleftrightarrow> wire_type f = 2)"
proof -
  assume f: "small_fields [f]"
  then have "drop_bit 3 (wire_key f) = field_number f" by (simp add: small_fields_def wire_key_parts)
  moreover have "wire_key f AND 7 = ucast (wire_type f)"
  proof -
    have "wire_type f = 0 \<or> wire_type f = 2" using f by (simp add: small_fields_def)
    moreover have seven: "(7 :: u64) = mask 3" by (simp add: mask_eq_exp_minus_1)
    have "push_bit 3 (field_number f) AND 7 = 0"
      unfolding seven by (rule bit_word_eqI) (auto simp: bit_simps)
    then have "wire_key f AND 7 = ucast (wire_type f) AND 7"
      by (simp add: wire_key_def bit.conj_disj_distrib2)
    ultimately show ?thesis by auto
  qed
  moreover have "wire_type f = 0 \<or> wire_type f = 2" using f by (simp add: small_fields_def)
  ultimately show ?thesis by auto
qed

lemma wire_decode_encode:
  "small_fields fs \<Longrightarrow> length (wire_encode fs) < usize_limit \<Longrightarrow> wire_decode (wire_encode fs) = Some fs"
proof (induction fs)
  case Nil
  show ?case by (simp add: wire_decode.simps)
next
  case (Cons f fs)
  have f: "small_fields [f]" "wire_wf f" and fs: "wire_decode (wire_encode fs) = Some fs"
    using Cons small_fields_wf [OF Cons.prems] by (auto simp: small_fields_def wire_encode_Cons)
  have t: "wire_type f = 0 \<or> wire_type f = 2" using f by (simp add: small_fields_def)
  show ?case
    using wire_key_low [OF f(1)] f(2) fs t
    by (subst wire_decode.simps, cases f) (auto simp: wire_encode_Cons unat_of_nat_usize)
qed

lemma varint_at_simps [simp]:
  "varint_at n (varint_field m v @ fs) = (if m = n \<and> v \<noteq> 0 then v else varint_at n fs)"
  "varint_at n (bytes_field m bs @ fs) = varint_at n fs"
  "varint_at n (varint_field m v) = (if m = n then v else 0)"
  "varint_at n (bytes_field m bs) = 0"
  by (auto simp: varint_field_def bytes_field_def)

lemma message_at_simps [simp]:
  "message_at n (varint_field m v @ fs) = message_at n fs"
  "message_at n (bytes_field m bs @ fs) = (if m = n \<and> bs \<noteq> [] then Some bs else message_at n fs)"
  "message_at n (bytes_field m bs) = (if m = n \<and> bs \<noteq> [] then Some bs else None)"
  "message_at n (message_field m x @ fs) =
     (if m = n \<and> x \<noteq> None then map_option wire_encode x else message_at n fs)"
  "message_at n (message_field m x) = (if m = n then map_option wire_encode x else None)"
  by (auto simp: varint_field_def bytes_field_def message_field_def split: option.splits)

lemma reference_update_fields: "reference_update (update_fields u) = u"
  by (cases u) (simp add: reference_update_def update_fields_def bytes_at_def)

lemma sub_fields_message:
  assumes "\<And>x. m = Some x \<Longrightarrow> small_fields (g x) \<and> length (wire_encode (g x)) < usize_limit"
    and "message_at n fs = map_option wire_encode (map_option g m)"
  shows "sub_fields n fs = map_option g m"
  using assms by (cases m) (auto simp: sub_fields_def wire_decode_encode)

lemma instruction_parts_at:
  "message_at 2 (instruction_fields i) = map_option wire_encode (map_option run_fields (in_bytes i))"
  "message_at 3 (instruction_fields i) = map_option wire_encode (map_option viewport_fields (in_viewport i))"
  "message_at 7 (instruction_fields i) = map_option wire_encode (map_option marker_fields (in_marker i))"
  "message_at 9 (instruction_fields i) = map_option wire_encode (map_option control_fields (in_session_control i))"
  by (auto simp: instruction_fields_def)

lemma message_at_small:
  assumes "message_at n fs = Some bs"
  shows "length bs \<le> length (wire_encode fs)"
  using assms by (induction n fs rule: message_at.induct) (auto simp: wire_encode_Cons split: if_splits)

lemma reference_pieces:
  "ByteRun (bytes_at 4 (run_fields r)) = r"
  "\<lparr>vp_columns = varint_at 5 (viewport_fields v), vp_rows = varint_at 6 (viewport_fields v)\<rparr> = v"
  "Marker (varint_at 8 (marker_fields k)) = k"
  "\<lparr>sc_kind = ucast (varint_at 10 (control_fields c)), sc_payload = bytes_at 11 (control_fields c)\<rparr> = c"
proof -
  have kind: "(ucast (ucast w :: u64) :: u32) = w" for w
    by (rule bit_word_eqI) (auto simp: bit_simps)
  have zero: "(ucast w :: u64) = 0 \<longleftrightarrow> w = 0" for w :: u32
    by (metis kind unsigned_0)
  show "ByteRun (bytes_at 4 (run_fields r)) = r"
    by (cases r) (simp add: run_fields_def bytes_at_def)
  show "\<lparr>vp_columns = varint_at 5 (viewport_fields v), vp_rows = varint_at 6 (viewport_fields v)\<rparr> = v"
    by (cases v) (simp add: viewport_fields_def)
  show "Marker (varint_at 8 (marker_fields k)) = k"
    by (cases k) (simp add: marker_fields_def)
  show "\<lparr>sc_kind = ucast (varint_at 10 (control_fields c)), sc_payload = bytes_at 11 (control_fields c)\<rparr> = c"
    by (cases c) (simp add: control_fields_def bytes_at_def kind zero)
qed

lemma reference_instruction_fields:
  assumes "length (wire_encode (instruction_fields i)) < usize_limit"
  shows "reference_instruction (instruction_fields i) = i"
proof -
  have small: "length bs < usize_limit" if "message_at n (instruction_fields i) = Some bs" for n bs
    using message_at_small [OF that] assms by simp
  have "sub_fields 2 (instruction_fields i) = map_option run_fields (in_bytes i)"
    and "sub_fields 3 (instruction_fields i) = map_option viewport_fields (in_viewport i)"
    and "sub_fields 7 (instruction_fields i) = map_option marker_fields (in_marker i)"
    and "sub_fields 9 (instruction_fields i) = map_option control_fields (in_session_control i)"
    by (rule sub_fields_message; use instruction_parts_at [of i] small in \<open>auto\<close>)+
  then show ?thesis
    by (cases i) (simp add: reference_instruction_def option.map_comp comp_def reference_pieces option.map_ident)
qed

lemma reference_batch_fields:
  assumes "length (wire_encode (batch_fields b)) < usize_limit"
  shows "reference_batch (batch_fields b) = Some b"
proof -
  have small: "length (wire_encode (instruction_fields i)) < usize_limit" if "i \<in> set (instructions b)" for i
  proof -
    have "(1, wire_encode (instruction_fields i)) \<in> set (length_fields (batch_fields b))"
      using that by (simp add: batch_fields_def length_fields_map)
    then show ?thesis using instruction_piece_small assms by fastforce
  qed
  have "those (map (\<lambda>i. wire_decode (wire_encode (instruction_fields i))) is) = Some (map instruction_fields is)"
    if "set is \<subseteq> set (instructions b)" for "is"
    using that by (induction "is") (auto simp: wire_decode_encode small)
  moreover have "map (\<lambda>i. reference_instruction (instruction_fields i)) (instructions b) = instructions b"
    using small by (intro map_idI) (simp add: reference_instruction_fields)
  ultimately show ?thesis
    by (simp add: reference_batch_def batch_fields_def length_fields_map comp_def)
qed

lemma reference_codec_conforms: "codec_conforms reference_codec"
  by (simp add: codec_conforms_def reference_codec_def wire_decode_encode reference_update_fields
      reference_batch_fields)

text \<open>The round trip at a concrete update: one keystroke, sent as state 2 on top of state 1.\<close>

definition example_batch :: instruction_batch where
  "example_batch = InstructionBatch
     [\<lparr>in_bytes = Some (ByteRun [0x61]), in_viewport = None, in_marker = None, in_session_control = None\<rparr>]"

definition example_update :: state_update where
  "example_update = (state_update_new 1 2 0)\<lparr>su_delta := batch_encode_bytes reference_codec example_batch\<rparr>"

theorem compressed_update_roundtrip_witness:
  "\<exists>c. encode_compressed_update reference_codec example_update = Inr c \<and>
     decode_compressed_update reference_codec c = Inr example_update"
proof -
  have b: "wire_encode (batch_fields example_batch) = [10, 5, 18, 3, 34, 1, 97]"
    by (simp add: example_batch_def batch_fields_def instruction_fields_def message_field_def
        run_fields_def bytes_field_def wire_encode_Cons wire_key_def encode_varint_small)
  have "update_fields example_update =
      [VarintField 1 2, VarintField 2 1, VarintField 3 2, LengthField 6 [10, 5, 18, 3, 34, 1, 97]]"
    by (simp add: example_update_def state_update_new_def batch_encode_bytes_def reference_codec_def b
        PROTOCOL_VERSION_def update_fields_def varint_field_def bytes_field_def)
  then have u: "length (wire_encode (update_fields example_update)) = 15"
    by (simp add: wire_encode_Cons wire_key_def encode_varint_small)
  show ?thesis
    using compressed_update_roundtrip [OF reference_codec_conforms, of example_update example_batch] b u
    by (auto simp: example_update_def state_update_new_def usize_limit_def MAXIMUM_DECOMPRESSED_BYTES_def)
qed

abbreviation example_fields :: "wire_field list" where
  "example_fields \<equiv> [VarintField 1 300, LengthField 6 [1, 2, 3], Fixed32Field 9 [0, 0, 0, 0]]"

theorem wire_readers_exact_witness:
  "decode_varint (encode_varint 300 @ [7]) = Inr (300, length (encode_varint 300)) \<and>
   validate_fields (wire_encode example_fields) UPDATE_FIELDS = Inr () \<and>
   length_delimited_fields (wire_encode example_fields) = Inr [(6, [1, 2, 3])]"
proof -
  have "list_all wire_wf example_fields" by (simp add: usize_limit_def)
  from wire_readers_exact [OF this, of 300 "[7]" UPDATE_FIELDS] show ?thesis
    by (simp add: field_allowed_def UPDATE_FIELDS_def)
qed

end
