(* ===== verification/Terminal_State.thy ===== *)
theory Terminal_State
  imports Messages "HOL-Library.Sublist"
begin

section \<open>Remote terminal state (\<open>crates/ferrumtty-state/src/lib.rs\<close>)\<close>

text \<open>
  A \<open>RemoteTerminalState\<close> keeps a terminal emulator together with the history of operations that
  produced it, so that a state can be cloned by replay and two states can be compared by their
  histories. The emulator (\<open>vt100\<close>) and the escape-sequence tokenizer (\<open>vte\<close>) are crates: they are
  the fields of \<open>term_lib\<close>, an arbitrary emulator type \<open>'p\<close> and tokenizer type \<open>'v\<close> whose callbacks are
  the values of \<open>perform_event\<close>. The reference-counted history nodes are the parent-linked nodes
  \<open>history_node\<close>; sharing between clones is not observable.
\<close>

subsection \<open>Model: histories\<close>

definition MAX_RETAINED_HOST_BYTES :: usize where "MAX_RETAINED_HOST_BYTES = 16 * 1024 * 1024"
definition MAX_RETAINED_OPERATIONS :: usize where "MAX_RETAINED_OPERATIONS = 65536"

datatype perform_event =
    Print u32
  | Execute u8
  | Hook "u16 list list" bytes bool u32
  | Put u8
  | Unhook
  | OscDispatch "bytes list" bool
  | CsiDispatch "u16 list list" bytes bool u32
  | EscDispatch bytes bool u8

record ('p, 'v) term_lib =
  vt_new :: "u16 \<Rightarrow> u16 \<Rightarrow> 'p" \<comment> \<open>rows, columns\<close>
  vt_process :: "'p \<Rightarrow> bytes \<Rightarrow> 'p"
  vt_set_size :: "'p \<Rightarrow> u16 \<Rightarrow> u16 \<Rightarrow> 'p" \<comment> \<open>rows, columns\<close>
  vt_state_formatted :: "'p \<Rightarrow> bytes"
  vt_state_diff :: "'p \<Rightarrow> 'p \<Rightarrow> bytes"
  vte_new :: 'v
  vte_advance :: "'v \<Rightarrow> bytes \<Rightarrow> 'v \<times> perform_event list"

datatype state_operation =
    HostBytes bytes
  | Resize u16 u16 \<comment> \<open>columns, rows\<close>
  | SessionControlOp session_control

datatype history_node = HistoryNode (node_parent: "history_node option") (node_operation: state_operation)

record state_history =
  sh_tail :: "history_node option"
  sh_operation_count :: usize
  sh_retained_bytes :: usize

datatype state_error = InvalidViewport | HistoryLimitExceeded | DivergedHistory | EchoAckRegression

definition history_default :: state_history where
  "history_default = \<lparr>sh_tail = None, sh_operation_count = 0, sh_retained_bytes = 0\<rparr>"

definition history_push :: "state_history \<Rightarrow> state_operation \<Rightarrow> state_history" where
  "history_push h operation =
     h\<lparr>sh_tail := Some (HistoryNode (sh_tail h) operation),
       sh_operation_count := sh_operation_count h + 1\<rparr>"

text \<open>The walk from the tail to the root; \<open>operations\<close> reverses what it collects.\<close>

fun node_walk :: "history_node \<Rightarrow> state_operation list" where
  "node_walk (HistoryNode parent operation) =
     operation # (case parent of None \<Rightarrow> [] | Some node \<Rightarrow> node_walk node)"

definition history_operations :: "state_history \<Rightarrow> state_operation list" where
  "history_operations h = rev (case sh_tail h of None \<Rightarrow> [] | Some node \<Rightarrow> node_walk node)"

definition canonical_step :: "state_operation list \<Rightarrow> state_operation \<Rightarrow> state_operation list" where
  "canonical_step canonical operation =
     (case (canonical, operation) of
        ([], _) \<Rightarrow> [operation]
      | (_ # _, HostBytes bytes) \<Rightarrow>
          (case last canonical of
             HostBytes previous \<Rightarrow> butlast canonical @ [HostBytes (previous @ bytes)]
           | _ \<Rightarrow> canonical @ [operation])
      | _ \<Rightarrow> canonical @ [operation])"

definition canonical :: "state_operation list \<Rightarrow> state_operation list" where
  "canonical ops = foldl canonical_step [] ops"

definition canonical_operations :: "state_history \<Rightarrow> state_operation list" where
  "canonical_operations h = canonical (history_operations h)"

subsection \<open>Model: the state\<close>

record 'p remote_terminal_state =
  rts_initial_columns :: u16
  rts_initial_rows :: u16
  rts_parser :: 'p
  rts_history :: state_history
  rts_viewport :: viewport_size
  rts_echo_ack :: "u64 option"

definition validate_viewport :: "u64 \<Rightarrow> u64 \<Rightarrow> state_error + unit" where
  "validate_viewport columns rows =
     (if columns = 0 \<or> rows = 0 \<or> u16_try_from columns = None \<or> u16_try_from rows = None
      then Inl InvalidViewport else Inr ())"

definition remote_state_new ::
    "('p, 'v) term_lib \<Rightarrow> u16 \<Rightarrow> u16 \<Rightarrow> state_error + 'p remote_terminal_state" where
  "remote_state_new lib columns rows =
     (case validate_viewport (ucast columns) (ucast rows) of
        Inl e \<Rightarrow> Inl e
      | Inr _ \<Rightarrow> Inr
          \<lparr>rts_initial_columns = columns, rts_initial_rows = rows, rts_parser = vt_new lib rows columns,
           rts_history = history_default,
           rts_viewport = \<lparr>vp_columns = ucast columns, vp_rows = ucast rows\<rparr>,
           rts_echo_ack = None\<rparr>)"

definition apply_host_bytes ::
    "('p, 'v) term_lib \<Rightarrow> 'p remote_terminal_state \<Rightarrow> bytes \<Rightarrow> 'p remote_terminal_state" where
  "apply_host_bytes lib st bytes =
     (let st = st\<lparr>rts_parser := vt_process lib (rts_parser st) bytes\<rparr> in
      if bytes = [] then st
      else
        let h = rts_history st;
            h = h\<lparr>sh_retained_bytes := sh_retained_bytes h + length bytes\<rparr>
        in st\<lparr>rts_history := history_push h (HostBytes bytes)\<rparr>)"

definition apply_resize ::
    "('p, 'v) term_lib \<Rightarrow> 'p remote_terminal_state \<Rightarrow> u16 \<Rightarrow> u16 \<Rightarrow> 'p remote_terminal_state" where
  "apply_resize lib st columns rows =
     (if vp_columns (rts_viewport st) = ucast columns \<and> vp_rows (rts_viewport st) = ucast rows then st
      else st\<lparr>rts_parser := vt_set_size lib (rts_parser st) rows columns,
              rts_viewport := \<lparr>vp_columns = ucast columns, vp_rows = ucast rows\<rparr>,
              rts_history := history_push (rts_history st) (Resize columns rows)\<rparr>)"

fun growth_loop ::
    "usize \<Rightarrow> usize \<Rightarrow> viewport_size \<Rightarrow> instruction list \<Rightarrow> state_error + usize \<times> usize" where
  "growth_loop bytes ops viewport [] = Inr (bytes, ops)"
| "growth_loop bytes ops viewport (i # is) =
     (case (case in_bytes i of
              None \<Rightarrow> Inr (bytes, ops)
            | Some r \<Rightarrow>
                (case usize_checked_add bytes (length (run_value r)) of
                   None \<Rightarrow> Inl HistoryLimitExceeded
                 | Some n \<Rightarrow> Inr (n, ops + (if run_value r \<noteq> [] then 1 else 0)))) of
        Inl e \<Rightarrow> Inl e
      | Inr (bytes, ops) \<Rightarrow>
          let (ops, viewport) =
                (case in_viewport i of
                   None \<Rightarrow> (ops, viewport)
                 | Some next_viewport \<Rightarrow>
                     if viewport \<noteq> next_viewport then (ops + 1, next_viewport) else (ops, viewport));
              ops = ops + (if in_session_control i \<noteq> None then 1 else 0)
          in growth_loop bytes ops viewport is)"

definition history_growth ::
    "instruction_batch \<Rightarrow> viewport_size \<Rightarrow> state_error + usize \<times> usize" where
  "history_growth batch initial_viewport = growth_loop 0 0 initial_viewport (instructions batch)"

definition validate_history_size :: "usize \<Rightarrow> usize \<Rightarrow> usize \<Rightarrow> usize \<Rightarrow> state_error + unit" where
  "validate_history_size retained_bytes operation_count additional_bytes additional_operations =
     (case usize_checked_add retained_bytes additional_bytes of
        None \<Rightarrow> Inl HistoryLimitExceeded
      | Some retained_bytes \<Rightarrow>
          (case usize_checked_add operation_count additional_operations of
             None \<Rightarrow> Inl HistoryLimitExceeded
           | Some operation_count \<Rightarrow>
               if retained_bytes > MAX_RETAINED_HOST_BYTES \<or> operation_count > MAX_RETAINED_OPERATIONS
               then Inl HistoryLimitExceeded else Inr ()))"

definition validate_history_growth ::
    "'p remote_terminal_state \<Rightarrow> instruction_batch \<Rightarrow> state_error + unit" where
  "validate_history_growth st batch =
     (case history_growth batch (rts_viewport st) of
        Inl e \<Rightarrow> Inl e
      | Inr (additional_bytes, additional_operations) \<Rightarrow>
          validate_history_size (sh_retained_bytes (rts_history st)) (sh_operation_count (rts_history st))
            additional_bytes additional_operations)"

subsection \<open>Model: the screen-diff audit\<close>

record screen_diff_audit =
  sda_reconstructible :: bool
  sda_auditing :: bool
  sda_probing :: bool
  sda_probe_prints :: usize
  sda_probe_other_actions :: usize

definition audit_default :: screen_diff_audit where
  "audit_default =
     \<lparr>sda_reconstructible = True, sda_auditing = False, sda_probing = False,
      sda_probe_prints = 0, sda_probe_other_actions = 0\<rparr>"

definition begin_tail_audit :: "screen_diff_audit \<Rightarrow> screen_diff_audit" where
  "begin_tail_audit a = a\<lparr>sda_auditing := True, sda_reconstructible := True\<rparr>"

definition begin_boundary_probe :: "screen_diff_audit \<Rightarrow> screen_diff_audit" where
  "begin_boundary_probe a = a\<lparr>sda_probing := True, sda_probe_prints := 0, sda_probe_other_actions := 0\<rparr>"

definition probe_is_ground :: "screen_diff_audit \<Rightarrow> bool" where
  "probe_is_ground a \<longleftrightarrow> sda_probe_prints a = 1 \<and> sda_probe_other_actions a = 0"

definition record_other_action :: "screen_diff_audit \<Rightarrow> screen_diff_audit" where
  "record_other_action a =
     (if sda_probing a then a\<lparr>sda_probe_other_actions := sda_probe_other_actions a + 1\<rparr>
      else if sda_auditing a then a\<lparr>sda_reconstructible := False\<rparr>
      else a)"

fun audit_event :: "screen_diff_audit \<Rightarrow> perform_event \<Rightarrow> screen_diff_audit" where
  "audit_event a (Print character) =
     (if sda_probing a
      then a\<lparr>sda_probe_prints := sda_probe_prints a + (if character = 0x7e then 1 else 0),
             sda_probe_other_actions := sda_probe_other_actions a + (if character \<noteq> 0x7e then 1 else 0)\<rparr>
      else a)"
| "audit_event a (Execute byte) =
     (if sda_probing a then a\<lparr>sda_probe_other_actions := sda_probe_other_actions a + 1\<rparr>
      else if sda_auditing a \<and> byte \<notin> {0x08, 0x09, 0x0a, 0x0d} then a\<lparr>sda_reconstructible := False\<rparr>
      else a)"
| "audit_event a (Hook _ _ _ _) = record_other_action a"
| "audit_event a (Put _) = record_other_action a"
| "audit_event a Unhook = record_other_action a"
| "audit_event a (OscDispatch _ _) = record_other_action a"
| "audit_event a (CsiDispatch _ _ _ _) = record_other_action a"
| "audit_event a (EscDispatch _ _ _) = record_other_action a"

definition audit_advance ::
    "('p, 'v) term_lib \<Rightarrow> 'v \<times> screen_diff_audit \<Rightarrow> bytes \<Rightarrow> 'v \<times> screen_diff_audit" where
  "audit_advance lib pa bytes =
     (let (parser, events) = vte_advance lib (fst pa) bytes
      in (parser, foldl audit_event (snd pa) events))"

fun advance_operations ::
    "('p, 'v) term_lib \<Rightarrow> 'v \<times> screen_diff_audit \<Rightarrow> state_operation list \<Rightarrow> 'v \<times> screen_diff_audit" where
  "advance_operations lib pa [] = pa"
| "advance_operations lib pa (HostBytes bytes # ops) = advance_operations lib (audit_advance lib pa bytes) ops"
| "advance_operations lib pa (_ # ops) = advance_operations lib pa ops"

text \<open>The tail loop stops with \<open>false\<close> at the first resize, here \<open>None\<close>.\<close>

fun advance_tail ::
    "('p, 'v) term_lib \<Rightarrow> 'v \<times> screen_diff_audit \<Rightarrow> state_operation list \<Rightarrow> ('v \<times> screen_diff_audit) option" where
  "advance_tail lib pa [] = Some pa"
| "advance_tail lib pa (HostBytes bytes # ops) = advance_tail lib (audit_advance lib pa bytes) ops"
| "advance_tail lib pa (Resize _ _ # ops) = None"
| "advance_tail lib pa (SessionControlOp _ # ops) = advance_tail lib pa ops"

definition boundary_probe :: "('p, 'v) term_lib \<Rightarrow> 'v \<times> screen_diff_audit \<Rightarrow> bool" where
  "boundary_probe lib pa =
     probe_is_ground (snd (audit_advance lib (fst pa, begin_boundary_probe (snd pa)) [0x7e]))"

definition history_tail_is_screen_diff_safe ::
    "('p, 'v) term_lib \<Rightarrow> state_operation list \<Rightarrow> state_operation list \<Rightarrow> bool" where
  "history_tail_is_screen_diff_safe lib common tail =
     (let (parser, audit) = advance_operations lib (vte_new lib, audit_default) common in
      case advance_tail lib (parser, begin_tail_audit audit) tail of
        None \<Rightarrow> False
      | Some pa \<Rightarrow> boundary_probe lib pa)"

definition history_ends_at_ground :: "('p, 'v) term_lib \<Rightarrow> state_operation list \<Rightarrow> bool" where
  "history_ends_at_ground lib ops =
     boundary_probe lib (advance_operations lib (vte_new lib, audit_default) ops)"

subsection \<open>Model: comparing histories\<close>

fun suffix_loop ::
    "state_operation list \<Rightarrow> usize \<Rightarrow> usize \<Rightarrow> state_operation list \<Rightarrow> state_error + usize \<times> usize" where
  "suffix_loop target delivered_len index [] = Inr (delivered_len, 0)"
| "suffix_loop target delivered_len index (delivered # rest) =
     (if length target \<le> index then Inl DivergedHistory
      else
        (case (target ! index, delivered) of
           (HostBytes target_bytes, HostBytes delivered_bytes) \<Rightarrow>
             if prefix delivered_bytes target_bytes then
               (if length target_bytes \<noteq> length delivered_bytes then
                  (if index + 1 \<noteq> delivered_len then Inl DivergedHistory
                   else Inr (index, length delivered_bytes))
                else suffix_loop target delivered_len (index + 1) rest)
             else Inl DivergedHistory
         | (target_operation, delivered_operation) \<Rightarrow>
             if target_operation = delivered_operation
             then suffix_loop target delivered_len (index + 1) rest
             else Inl DivergedHistory))"

definition history_suffix_start ::
    "state_operation list \<Rightarrow> state_operation list \<Rightarrow> state_error + usize \<times> usize" where
  "history_suffix_start target delivered = suffix_loop target (length delivered) 0 delivered"

fun common_bytes :: "bytes \<Rightarrow> bytes \<Rightarrow> usize" where
  "common_bytes (a # as) (b # bs) = (if a = b then Suc (common_bytes as bs) else 0)"
| "common_bytes _ _ = 0"

fun split_common_history ::
    "state_operation list \<Rightarrow> state_operation list \<Rightarrow>
     state_operation list \<times> state_operation list \<times> state_operation list" where
  "split_common_history (t # target) (d # delivered) =
     (if t = d then
        let (common, target_tail, delivered_tail) = split_common_history target delivered
        in (t # common, target_tail, delivered_tail)
      else
        (case (t, d) of
           (HostBytes target_bytes, HostBytes delivered_bytes) \<Rightarrow>
             let n = common_bytes target_bytes delivered_bytes in
             ((if n \<noteq> 0 then [HostBytes (take n target_bytes)] else []),
              (if n \<noteq> length target_bytes then [HostBytes (drop n target_bytes)] else []) @ target,
              (if n \<noteq> length delivered_bytes then [HostBytes (drop n delivered_bytes)] else []) @ delivered)
         | _ \<Rightarrow> ([], t # target, d # delivered)))"
| "split_common_history target delivered = ([], target, delivered)"

definition diverged_histories_are_screen_diff_safe ::
    "('p, 'v) term_lib \<Rightarrow> state_operation list \<Rightarrow> state_operation list \<Rightarrow> bool" where
  "diverged_histories_are_screen_diff_safe lib target delivered =
     (let (common, target_tail, delivered_tail) = split_common_history target delivered in
      history_tail_is_screen_diff_safe lib common target_tail \<and>
      history_tail_is_screen_diff_safe lib common delivered_tail)"

definition host_bytes_instruction :: "bytes \<Rightarrow> instruction" where
  "host_bytes_instruction v =
     \<lparr>in_bytes = Some (ByteRun v), in_viewport = None, in_marker = None, in_session_control = None\<rparr>"

definition state_viewport_instruction :: "u16 \<Rightarrow> u16 \<Rightarrow> instruction" where
  "state_viewport_instruction columns rows =
     \<lparr>in_bytes = None, in_viewport = Some \<lparr>vp_columns = ucast columns, vp_rows = ucast rows\<rparr>,
      in_marker = None, in_session_control = None\<rparr>"

definition session_control_instruction :: "session_control \<Rightarrow> instruction" where
  "session_control_instruction control =
     \<lparr>in_bytes = None, in_viewport = None, in_marker = None, in_session_control = Some control\<rparr>"

datatype state_diff = StateDiff (into_instructions: instruction_batch)

text \<open>The \<open>filter_map\<close> over the enumerated suffix: the first byte run loses the delivered prefix.\<close>

definition suffix_instruction :: "usize \<Rightarrow> state_operation \<Rightarrow> instruction list" where
  "suffix_instruction offset operation =
     (case operation of
        HostBytes v \<Rightarrow>
          let v = drop offset v in if v = [] then [] else [host_bytes_instruction v]
      | Resize columns rows \<Rightarrow> [state_viewport_instruction columns rows]
      | SessionControlOp control \<Rightarrow> [session_control_instruction control])"

definition suffix_instructions :: "state_operation list \<Rightarrow> usize \<Rightarrow> instruction list" where
  "suffix_instructions ops first_byte_offset =
     concat (map (\<lambda>(index, operation).
       suffix_instruction (if index = 0 then first_byte_offset else 0) operation) (enumerate 0 ops))"

definition diff_from ::
    "('p, 'v) term_lib \<Rightarrow> 'p remote_terminal_state \<Rightarrow> 'p remote_terminal_state \<Rightarrow> state_error + state_diff" where
  "diff_from lib self delivered =
     (let target_operations = canonical_operations (rts_history self);
          delivered_operations = canonical_operations (rts_history delivered)
      in case
           (case history_suffix_start target_operations delivered_operations of
              Inr (suffix_start, first_byte_offset) \<Rightarrow>
                Inr (suffix_instructions (drop suffix_start target_operations) first_byte_offset)
            | Inl error \<Rightarrow>
                if error = DivergedHistory \<and> rts_viewport self = rts_viewport delivered \<and>
                   diverged_histories_are_screen_diff_safe lib target_operations delivered_operations
                then
                  (let v = vt_state_diff lib (rts_parser self) (rts_parser delivered)
                   in Inr (if v \<noteq> [] then [host_bytes_instruction v] else []))
                else Inl error) of
           Inl error \<Rightarrow> Inl error
         | Inr instrs \<Rightarrow>
             Inr (StateDiff (InstructionBatch
               (if rts_echo_ack self \<noteq> rts_echo_ack delivered then
                  (case rts_echo_ack self of
                     None \<Rightarrow> instrs
                   | Some v \<Rightarrow>
                       \<lparr>in_bytes = None, in_viewport = None, in_marker = Some (Marker v),
                        in_session_control = None\<rparr> # instrs)
                else instrs))))"

subsection \<open>Model: compaction, application and cloning\<close>

definition compacted_history ::
    "('p, 'v) term_lib \<Rightarrow> 'p remote_terminal_state \<Rightarrow> instruction_batch \<Rightarrow>
     state_error + state_history \<times> u16 \<times> u16" where
  "compacted_history lib st batch =
     (if \<not> history_ends_at_ground lib (canonical_operations (rts_history st)) then Inl HistoryLimitExceeded
      else
        let snapshot = vt_state_formatted lib (rts_parser st) in
        case history_growth batch (rts_viewport st) of
          Inl e \<Rightarrow> Inl e
        | Inr (additional_bytes, additional_operations) \<Rightarrow>
            let snapshot_operations = (if snapshot \<noteq> [] then 1 else 0) in
            (case validate_history_size (length snapshot) snapshot_operations
                    additional_bytes additional_operations of
               Inl e \<Rightarrow> Inl e
             | Inr _ \<Rightarrow>
                 let tail = (if snapshot \<noteq> [] then Some (HistoryNode None (HostBytes snapshot)) else None) in
                 (case u16_try_from (vp_columns (rts_viewport st)) of
                    None \<Rightarrow> Inl InvalidViewport
                  | Some columns \<Rightarrow>
                      (case u16_try_from (vp_rows (rts_viewport st)) of
                         None \<Rightarrow> Inl InvalidViewport
                       | Some rows \<Rightarrow>
                           Inr (\<lparr>sh_tail = tail, sh_operation_count = snapshot_operations,
                                 sh_retained_bytes = length snapshot\<rparr>, columns, rows)))))"

fun check_viewports :: "instruction list \<Rightarrow> state_error + unit" where
  "check_viewports [] = Inr ()"
| "check_viewports (i # is) =
     (case (case in_viewport i of
              None \<Rightarrow> Inr ()
            | Some viewport \<Rightarrow> validate_viewport (vp_columns viewport) (vp_rows viewport)) of
        Inl e \<Rightarrow> Inl e
      | Inr _ \<Rightarrow> check_viewports is)"

fun check_markers :: "u64 option \<Rightarrow> marker list \<Rightarrow> state_error + unit" where
  "check_markers echo_ack [] = Inr ()"
| "check_markers echo_ack (marker # markers) =
     (if (case echo_ack of None \<Rightarrow> False | Some current \<Rightarrow> marker_value marker < current)
      then Inl EchoAckRegression
      else check_markers (Some (marker_value marker)) markers)"

definition apply_instruction ::
    "('p, 'v) term_lib \<Rightarrow> 'p remote_terminal_state \<Rightarrow> instruction \<Rightarrow>
     (state_error + unit) \<times> 'p remote_terminal_state" where
  "apply_instruction lib st i =
     (let st = (case in_bytes i of None \<Rightarrow> st | Some bytes \<Rightarrow> apply_host_bytes lib st (run_value bytes)) in
      case (case in_viewport i of
              None \<Rightarrow> (Inr (), st)
            | Some viewport \<Rightarrow>
                (case u16_try_from (vp_columns viewport) of
                   None \<Rightarrow> (Inl InvalidViewport, st)
                 | Some columns \<Rightarrow>
                     (case u16_try_from (vp_rows viewport) of
                        None \<Rightarrow> (Inl InvalidViewport, st)
                      | Some rows \<Rightarrow> (Inr (), apply_resize lib st columns rows)))) of
        (Inl e, st) \<Rightarrow> (Inl e, st)
      | (Inr _, st) \<Rightarrow>
          let st = (case in_marker i of None \<Rightarrow> st | Some m \<Rightarrow> st\<lparr>rts_echo_ack := Some (marker_value m)\<rparr>);
              st = (case in_session_control i of
                      None \<Rightarrow> st
                    | Some control \<Rightarrow>
                        st\<lparr>rts_history := history_push (rts_history st) (SessionControlOp control)\<rparr>)
          in (Inr (), st))"

fun apply_instructions ::
    "('p, 'v) term_lib \<Rightarrow> 'p remote_terminal_state \<Rightarrow> instruction list \<Rightarrow>
     (state_error + unit) \<times> 'p remote_terminal_state" where
  "apply_instructions lib st [] = (Inr (), st)"
| "apply_instructions lib st (i # is) =
     (case apply_instruction lib st i of
        (Inl e, st) \<Rightarrow> (Inl e, st)
      | (Inr _, st) \<Rightarrow> apply_instructions lib st is)"

definition remote_state_apply ::
    "('p, 'v) term_lib \<Rightarrow> 'p remote_terminal_state \<Rightarrow> instruction_batch \<Rightarrow>
     (state_error + unit) \<times> 'p remote_terminal_state" where
  "remote_state_apply lib st batch =
     (case check_viewports (instructions batch) of
        Inl e \<Rightarrow> (Inl e, st)
      | Inr _ \<Rightarrow>
          (case check_markers (rts_echo_ack st) (List.map_filter in_marker (instructions batch)) of
             Inl e \<Rightarrow> (Inl e, st)
           | Inr _ \<Rightarrow>
               (case (case validate_history_growth st batch of
                        Inr _ \<Rightarrow> Inr st
                      | Inl _ \<Rightarrow>
                          (case compacted_history lib st batch of
                             Inl e \<Rightarrow> Inl e
                           | Inr (history, initial_columns, initial_rows) \<Rightarrow>
                               Inr (st\<lparr>rts_history := history, rts_initial_columns := initial_columns,
                                       rts_initial_rows := initial_rows\<rparr>))) of
                  Inl e \<Rightarrow> (Inl e, st)
                | Inr st \<Rightarrow> apply_instructions lib st (instructions batch))))"

text \<open>Replay of a history on a parser, as \<open>clone\<close> does it.\<close>

fun replay :: "('p, 'v) term_lib \<Rightarrow> 'p \<Rightarrow> state_operation list \<Rightarrow> 'p" where
  "replay lib p [] = p"
| "replay lib p (HostBytes bytes # ops) = replay lib (vt_process lib p bytes) ops"
| "replay lib p (Resize columns rows # ops) = replay lib (vt_set_size lib p rows columns) ops"
| "replay lib p (SessionControlOp _ # ops) = replay lib p ops"

text \<open>\<open>clone\<close> panics (here \<open>None\<close>) when the initial viewport is not valid.\<close>

definition remote_state_clone ::
    "('p, 'v) term_lib \<Rightarrow> 'p remote_terminal_state \<Rightarrow> 'p remote_terminal_state option" where
  "remote_state_clone lib st =
     (case remote_state_new lib (rts_initial_columns st) (rts_initial_rows st) of
        Inl _ \<Rightarrow> None
      | Inr cloned \<Rightarrow>
          Some (cloned\<lparr>rts_parser := replay lib (rts_parser cloned) (history_operations (rts_history st)),
                       rts_history := rts_history st, rts_viewport := rts_viewport st,
                       rts_echo_ack := rts_echo_ack st\<rparr>))"

definition diff_debug :: "state_diff \<Rightarrow> usize \<times> usize" where
  "diff_debug d =
     (length (instructions (into_instructions d)),
      sum_list (map (\<lambda>r. length (run_value r))
        (List.map_filter in_bytes (instructions (into_instructions d)))))"

end
