(* ===== verification/State_Replay.thy ===== *)
theory State_Replay
  imports Terminal_State "HOL-Library.Option_ord"
begin

section \<open>Histories, replay and diffs of terminal states\<close>

text \<open>
  What \<open>Terminal_State\<close> promises. A state is abstracted to its list of operations, its viewport and its
  echo acknowledgement; \<open>batch_ops\<close>, \<open>batch_viewport\<close> and \<open>batch_echo\<close> specify what an instruction
  batch does to that abstraction, and \<open>advanced\<close> is the refinement relation to the detailed state.
  From it follow: the invariant \<open>rts_wf\<close> with the two history limits, atomicity of a rejected batch,
  monotone echo acknowledgements, exact cloning of replayed states, and that a diff against a delivered
  state carries the delivered state to the target.
\<close>

subsection \<open>Abstract effect of a batch\<close>

definition instruction_ops :: "viewport_size \<Rightarrow> instruction \<Rightarrow> state_operation list" where
  "instruction_ops vp i =
     (case in_bytes i of None \<Rightarrow> [] | Some r \<Rightarrow> if run_value r = [] then [] else [HostBytes (run_value r)]) @
     (case in_viewport i of
        None \<Rightarrow> []
      | Some v \<Rightarrow> if v = vp then [] else [Resize (ucast (vp_columns v)) (ucast (vp_rows v))]) @
     (case in_session_control i of None \<Rightarrow> [] | Some c \<Rightarrow> [SessionControlOp c])"

definition instruction_viewport :: "viewport_size \<Rightarrow> instruction \<Rightarrow> viewport_size" where
  "instruction_viewport vp i = (case in_viewport i of None \<Rightarrow> vp | Some v \<Rightarrow> v)"

definition instruction_echo :: "u64 option \<Rightarrow> instruction \<Rightarrow> u64 option" where
  "instruction_echo echo i = (case in_marker i of None \<Rightarrow> echo | Some m \<Rightarrow> Some (marker_value m))"

fun batch_ops :: "viewport_size \<Rightarrow> instruction list \<Rightarrow> state_operation list" where
  "batch_ops vp [] = []"
| "batch_ops vp (i # is) = instruction_ops vp i @ batch_ops (instruction_viewport vp i) is"

definition batch_viewport :: "viewport_size \<Rightarrow> instruction list \<Rightarrow> viewport_size" where
  "batch_viewport vp is = foldl instruction_viewport vp is"

definition batch_echo :: "u64 option \<Rightarrow> instruction list \<Rightarrow> u64 option" where
  "batch_echo echo is = foldl instruction_echo echo is"

definition op_bytes :: "state_operation \<Rightarrow> nat" where
  "op_bytes op = (case op of HostBytes bs \<Rightarrow> length bs | _ \<Rightarrow> 0)"

abbreviation ops_bytes :: "state_operation list \<Rightarrow> nat" where
  "ops_bytes ops \<equiv> sum_list (map op_bytes ops)"

abbreviation rts_ops :: "'p remote_terminal_state \<Rightarrow> state_operation list" where
  "rts_ops st \<equiv> history_operations (rts_history st)"

definition viewport_ok :: "viewport_size \<Rightarrow> bool" where
  "viewport_ok v \<longleftrightarrow> validate_viewport (vp_columns v) (vp_rows v) = Inr ()"

text \<open>What the terminal emulator documents of its input: a stream of bytes, cut anywhere.\<close>

definition vt_streaming :: "('p, 'v) term_lib \<Rightarrow> bool" where
  "vt_streaming lib \<longleftrightarrow>
     (\<forall>p. vt_process lib p [] = p) \<and>
     (\<forall>p a b. vt_process lib p (a @ b) = vt_process lib (vt_process lib p a) b)"

text \<open>The refinement relation: \<open>st'\<close> is \<open>st\<close> after the operations \<open>ops\<close>.\<close>

definition advanced ::
    "('p, 'v) term_lib \<Rightarrow> 'p remote_terminal_state \<Rightarrow> state_operation list \<Rightarrow> viewport_size \<Rightarrow> u64 option \<Rightarrow>
     'p remote_terminal_state \<Rightarrow> bool" where
  "advanced lib st ops vp echo st' \<longleftrightarrow>
     rts_ops st' = rts_ops st @ ops \<and>
     sh_operation_count (rts_history st') = sh_operation_count (rts_history st) + length ops \<and>
     sh_retained_bytes (rts_history st') = sh_retained_bytes (rts_history st) + ops_bytes ops \<and>
     rts_viewport st' = vp \<and> rts_echo_ack st' = echo \<and>
     rts_initial_columns st' = rts_initial_columns st \<and> rts_initial_rows st' = rts_initial_rows st \<and>
     (vt_streaming lib \<longrightarrow> rts_parser st' = replay lib (rts_parser st) ops)"

lemma history_operations_push [simp]:
  "history_operations (history_push h op) = history_operations h @ [op]"
  by (simp add: history_operations_def history_push_def)

lemma history_operations_retained [simp]:
  "history_operations (h\<lparr>sh_retained_bytes := n\<rparr>) = history_operations h"
  by (simp add: history_operations_def)

lemma history_push_counts [simp]:
  "sh_operation_count (history_push h op) = Suc (sh_operation_count h)"
  "sh_retained_bytes (history_push h op) = sh_retained_bytes h"
  by (simp_all add: history_push_def)

lemma replay_append [simp]: "replay lib p (a @ b) = replay lib (replay lib p a) b"
  by (induction lib p a rule: replay.induct) auto

lemma advanced_refl: "advanced lib st [] (rts_viewport st) (rts_echo_ack st) st"
  by (simp add: advanced_def)

lemma advanced_trans:
  "advanced lib st ops vp echo st' \<Longrightarrow> advanced lib st' ops' vp' echo' st'' \<Longrightarrow>
   advanced lib st (ops @ ops') vp' echo' st''"
  by (simp add: advanced_def)

lemma viewport_okD:
  assumes "viewport_ok v"
  shows "vp_columns v \<noteq> 0" "vp_rows v \<noteq> 0"
    "u16_try_from (vp_columns v) = Some (ucast (vp_columns v))"
    "u16_try_from (vp_rows v) = Some (ucast (vp_rows v))"
    "ucast (ucast (vp_columns v) :: u16) = vp_columns v"
    "ucast (ucast (vp_rows v) :: u16) = vp_rows v"
proof -
  show *: "u16_try_from (vp_columns v) = Some (ucast (vp_columns v))"
    "u16_try_from (vp_rows v) = Some (ucast (vp_rows v))"
    using assms by (auto simp: viewport_ok_def validate_viewport_def u16_try_from_def split: if_splits)
  show "vp_columns v \<noteq> 0" "vp_rows v \<noteq> 0"
    using assms by (auto simp: viewport_ok_def validate_viewport_def split: if_splits)
  show "ucast (ucast (vp_columns v) :: u16) = vp_columns v" "ucast (ucast (vp_rows v) :: u16) = vp_rows v"
    by (rule u16_try_from_Some, rule *)+
qed

lemma check_viewports_iff:
  "check_viewports is = Inr () \<longleftrightarrow> (\<forall>i \<in> set is. \<forall>v. in_viewport i = Some v \<longrightarrow> viewport_ok v)"
  by (induction "is") (auto simp: viewport_ok_def split: option.splits sum.splits)

lemma apply_host_bytes_advanced:
  "advanced lib st (if bs = [] then [] else [HostBytes bs]) (rts_viewport st) (rts_echo_ack st)
     (apply_host_bytes lib st bs)"
  by (simp add: advanced_def apply_host_bytes_def op_bytes_def vt_streaming_def Let_def)

lemma apply_resize_advanced:
  assumes "viewport_ok v"
  shows "advanced lib st (if v = rts_viewport st then []
       else [Resize (ucast (vp_columns v)) (ucast (vp_rows v))]) v (rts_echo_ack st)
     (apply_resize lib st (ucast (vp_columns v)) (ucast (vp_rows v)))"
  using viewport_okD [OF assms]
  by (auto simp: advanced_def apply_resize_def op_bytes_def)

lemma apply_instruction_advanced:
  assumes "\<And>v. in_viewport i = Some v \<Longrightarrow> viewport_ok v"
  shows "\<exists>st'. apply_instruction lib st i = (Inr (), st') \<and>
     advanced lib st (instruction_ops (rts_viewport st) i) (instruction_viewport (rts_viewport st) i)
       (instruction_echo (rts_echo_ack st) i) st'"
proof -
  let ?a = "case in_bytes i of None \<Rightarrow> [] | Some r \<Rightarrow> if run_value r = [] then [] else [HostBytes (run_value r)]"
  let ?b = "case in_viewport i of
        None \<Rightarrow> []
      | Some v \<Rightarrow> if v = rts_viewport st then [] else [Resize (ucast (vp_columns v)) (ucast (vp_rows v))]"
  let ?c = "case in_session_control i of None \<Rightarrow> [] | Some c \<Rightarrow> [SessionControlOp c]"
  let ?vp = "instruction_viewport (rts_viewport st) i"
  define s1 where "s1 = (case in_bytes i of None \<Rightarrow> st | Some r \<Rightarrow> apply_host_bytes lib st (run_value r))"
  define s2 where "s2 = (case in_viewport i of None \<Rightarrow> s1
    | Some v \<Rightarrow> apply_resize lib s1 (ucast (vp_columns v)) (ucast (vp_rows v)))"
  define s3 where "s3 = (case in_marker i of None \<Rightarrow> s2 | Some m \<Rightarrow> s2\<lparr>rts_echo_ack := Some (marker_value m)\<rparr>)"
  define s4 where "s4 = (case in_session_control i of None \<Rightarrow> s3
    | Some control \<Rightarrow> s3\<lparr>rts_history := history_push (rts_history s3) (SessionControlOp control)\<rparr>)"
  have result: "apply_instruction lib st i = (Inr (), s4)"
    using viewport_okD [OF assms]
    by (auto simp: apply_instruction_def s4_def s3_def s2_def s1_def Let_def split: option.splits)
  have 1: "advanced lib st ?a (rts_viewport st) (rts_echo_ack st) s1"
    using apply_host_bytes_advanced [of lib st] advanced_refl [of lib st]
    by (auto simp: s1_def split: option.splits)
  then have vp: "rts_viewport s1 = rts_viewport st" "rts_echo_ack s1 = rts_echo_ack st"
    by (simp_all add: advanced_def)
  have 2: "advanced lib s1 ?b ?vp (rts_echo_ack st) s2"
    using apply_resize_advanced [of _ lib s1] advanced_refl [of lib s1] assms
    by (auto simp: s2_def vp instruction_viewport_def split: option.splits)
  have 3: "advanced lib s2 [] ?vp (instruction_echo (rts_echo_ack st) i) s3"
    using 2 by (auto simp: s3_def advanced_def instruction_echo_def split: option.splits)
  have 4: "advanced lib s3 ?c ?vp (instruction_echo (rts_echo_ack st) i) s4"
    using 3 by (auto simp: s4_def advanced_def op_bytes_def split: option.splits)
  have "advanced lib st (?a @ ?b @ [] @ ?c) ?vp (instruction_echo (rts_echo_ack st) i) s4"
    by (intro advanced_trans [OF 1] advanced_trans [OF 2] advanced_trans [OF 3] 4)
  then show ?thesis
    using result by (simp add: instruction_ops_def)
qed

lemma apply_instructions_advanced:
  assumes "check_viewports is = Inr ()"
  shows "\<exists>st'. apply_instructions lib st is = (Inr (), st') \<and>
     advanced lib st (batch_ops (rts_viewport st) is) (batch_viewport (rts_viewport st) is)
       (batch_echo (rts_echo_ack st) is) st'"
  using assms
proof (induction "is" arbitrary: st)
  case Nil
  show ?case using advanced_refl [of lib st] by (simp add: batch_viewport_def batch_echo_def)
next
  case (Cons i "is")
  from Cons.prems have "\<And>v. in_viewport i = Some v \<Longrightarrow> viewport_ok v" and rest: "check_viewports is = Inr ()"
    by (simp_all add: check_viewports_iff del: check_viewports.simps)
  with apply_instruction_advanced [of i lib st] obtain s1 where
    s1: "apply_instruction lib st i = (Inr (), s1)"
      "advanced lib st (instruction_ops (rts_viewport st) i) (instruction_viewport (rts_viewport st) i)
       (instruction_echo (rts_echo_ack st) i) s1" by auto
  have vp: "rts_viewport s1 = instruction_viewport (rts_viewport st) i"
    "rts_echo_ack s1 = instruction_echo (rts_echo_ack st) i"
    using s1(2) by (simp_all add: advanced_def)
  from Cons.IH [OF rest, of s1] advanced_trans [OF s1(2)] show ?case
    by (fastforce simp: s1(1) vp batch_viewport_def batch_echo_def)
qed

subsection \<open>The invariant and the history limits\<close>

lemma growth_loop_step:
  "growth_loop b n vp (i # is) = Inr res \<Longrightarrow>
   growth_loop (b + ops_bytes (instruction_ops vp i)) (n + length (instruction_ops vp i))
     (instruction_viewport vp i) is = Inr res"
  by (cases "in_bytes i"; cases "in_viewport i"; cases "in_session_control i")
    (auto simp: instruction_ops_def instruction_viewport_def op_bytes_def usize_checked_add_def Let_def
      split: if_splits)

lemma growth_loop_exact:
  "growth_loop b n vp is = Inr (b', n') \<Longrightarrow>
   b' = b + ops_bytes (batch_ops vp is) \<and> n' = n + length (batch_ops vp is)"
proof (induction "is" arbitrary: b n vp)
  case (Cons i "is")
  from Cons.IH [OF growth_loop_step [OF Cons.prems]] show ?case by simp
qed simp

lemma history_growth_exact:
  "history_growth batch vp = Inr (b, n) \<Longrightarrow>
   b = ops_bytes (batch_ops vp (instructions batch)) \<and> n = length (batch_ops vp (instructions batch))"
  unfolding history_growth_def by (drule growth_loop_exact) simp

lemma validate_history_size_iff:
  "validate_history_size b n b' n' = Inr () \<longleftrightarrow>
   b + b' \<le> MAX_RETAINED_HOST_BYTES \<and> n + n' \<le> MAX_RETAINED_OPERATIONS"
  by (auto simp: validate_history_size_def usize_checked_add_def usize_limit_def
      MAX_RETAINED_HOST_BYTES_def MAX_RETAINED_OPERATIONS_def split: option.splits)

text \<open>The viewport after a history; \<open>None\<close> when some resize in it is invalid or changes nothing.\<close>

fun viewport_walk :: "viewport_size \<Rightarrow> state_operation list \<Rightarrow> viewport_size option" where
  "viewport_walk vp [] = Some vp"
| "viewport_walk vp (Resize c r # ops) =
     (let v = \<lparr>vp_columns = ucast c, vp_rows = ucast r\<rparr>
      in if v = vp \<or> \<not> viewport_ok v then None else viewport_walk v ops)"
| "viewport_walk vp (_ # ops) = viewport_walk vp ops"

abbreviation rts_initial :: "'p remote_terminal_state \<Rightarrow> viewport_size" where
  "rts_initial st \<equiv> \<lparr>vp_columns = ucast (rts_initial_columns st), vp_rows = ucast (rts_initial_rows st)\<rparr>"

definition rts_wf :: "'p remote_terminal_state \<Rightarrow> bool" where
  "rts_wf st \<longleftrightarrow>
     sh_operation_count (rts_history st) = length (rts_ops st) \<and>
     sh_retained_bytes (rts_history st) = ops_bytes (rts_ops st) \<and>
     length (rts_ops st) \<le> MAX_RETAINED_OPERATIONS \<and>
     ops_bytes (rts_ops st) \<le> MAX_RETAINED_HOST_BYTES \<and>
     HostBytes [] \<notin> set (rts_ops st) \<and>
     viewport_ok (rts_initial st) \<and> viewport_ok (rts_viewport st) \<and>
     viewport_walk (rts_initial st) (rts_ops st) = Some (rts_viewport st)"

lemma viewport_walk_append:
  "viewport_walk vp (a @ b) = (case viewport_walk vp a of None \<Rightarrow> None | Some v \<Rightarrow> viewport_walk v b)"
  by (induction vp a rule: viewport_walk.induct) (auto simp: Let_def)

lemma viewport_eta: "viewport_ok v \<Longrightarrow>
  \<lparr>vp_columns = ucast (ucast (vp_columns v) :: u16), vp_rows = ucast (ucast (vp_rows v) :: u16)\<rparr> = v"
  by (simp add: viewport_okD)

lemma instruction_ops_walk:
  assumes "\<And>v. in_viewport i = Some v \<Longrightarrow> viewport_ok v"
  shows "viewport_walk vp (instruction_ops vp i) = Some (instruction_viewport vp i)"
  using assms
  by (auto simp: instruction_ops_def instruction_viewport_def viewport_eta Let_def split: option.splits)

lemma batch_ops_walk:
  "check_viewports is = Inr () \<Longrightarrow> viewport_walk vp (batch_ops vp is) = Some (batch_viewport vp is)"
proof (induction "is" arbitrary: vp)
  case (Cons i "is")
  from Cons.prems have "\<And>v. in_viewport i = Some v \<Longrightarrow> viewport_ok v" and "check_viewports is = Inr ()"
    by (simp_all add: check_viewports_iff del: check_viewports.simps)
  with Cons.IH show ?case
    by (simp add: viewport_walk_append instruction_ops_walk batch_viewport_def)
qed (simp add: batch_viewport_def)

lemma viewport_walk_ok: "viewport_ok vp \<Longrightarrow> viewport_walk vp ops = Some v \<Longrightarrow> viewport_ok v"
  by (induction vp ops rule: viewport_walk.induct) (auto simp: Let_def split: if_splits)

lemma batch_ops_no_empty: "HostBytes [] \<notin> set (batch_ops vp is)"
  by (induction "is" arbitrary: vp) (auto simp: instruction_ops_def split: option.splits if_splits)

lemma remote_state_new_wf [wf_intros]: "remote_state_new lib c r = Inr st \<Longrightarrow> rts_wf st"
  by (auto simp: remote_state_new_def rts_wf_def history_default_def history_operations_def viewport_ok_def
      split: sum.splits)

text \<open>An accepted batch whose growth fits within the limits keeps the invariant.\<close>

lemma apply_instructions_wf:
  assumes "rts_wf st" and "check_viewports is = Inr ()"
    and "length (rts_ops st) + length (batch_ops (rts_viewport st) is) \<le> MAX_RETAINED_OPERATIONS"
    and "ops_bytes (rts_ops st) + ops_bytes (batch_ops (rts_viewport st) is) \<le> MAX_RETAINED_HOST_BYTES"
  shows "rts_wf (snd (apply_instructions lib st is))"
proof -
  obtain st' where st': "apply_instructions lib st is = (Inr (), st')"
    "advanced lib st (batch_ops (rts_viewport st) is) (batch_viewport (rts_viewport st) is)
       (batch_echo (rts_echo_ack st) is) st'"
    using apply_instructions_advanced [OF assms(2)] by blast
  have "viewport_walk (rts_initial st) (rts_ops st @ batch_ops (rts_viewport st) is)
      = Some (batch_viewport (rts_viewport st) is)"
    using assms(1) batch_ops_walk [OF assms(2)] by (simp add: viewport_walk_append rts_wf_def)
  moreover from this have "viewport_ok (batch_viewport (rts_viewport st) is)"
    using assms(1) by (intro viewport_walk_ok [OF _ calculation]) (simp add: rts_wf_def)
  ultimately show ?thesis
    using assms st' by (simp add: rts_wf_def advanced_def batch_ops_no_empty)
qed

lemma compacted_history_wf:
  assumes "rts_wf st" and "compacted_history lib st batch = Inr (h, c, r)"
  defines "st' \<equiv> st\<lparr>rts_history := h, rts_initial_columns := c, rts_initial_rows := r\<rparr>"
  shows "rts_wf st' \<and>
    length (rts_ops st') + length (batch_ops (rts_viewport st) (instructions batch)) \<le> MAX_RETAINED_OPERATIONS \<and>
    ops_bytes (rts_ops st') + ops_bytes (batch_ops (rts_viewport st) (instructions batch)) \<le> MAX_RETAINED_HOST_BYTES"
proof -
  let ?snap = "vt_state_formatted lib (rts_parser st)"
  let ?n = "if ?snap \<noteq> [] then 1 else 0 :: nat"
  let ?tail = "if ?snap \<noteq> [] then Some (HistoryNode None (HostBytes ?snap)) else None"
  obtain b n where growth: "history_growth batch (rts_viewport st) = Inr (b, n)"
    and size: "validate_history_size (length ?snap) ?n b n = Inr ()"
    and h: "h = \<lparr>sh_tail = ?tail, sh_operation_count = ?n, sh_retained_bytes = length ?snap\<rparr>"
    and c: "u16_try_from (vp_columns (rts_viewport st)) = Some c"
    and r: "u16_try_from (vp_rows (rts_viewport st)) = Some r"
    using assms(2)
    by (auto simp: compacted_history_def Let_def simp del: One_nat_def
        split: if_splits sum.splits option.splits)
  have ops: "history_operations h = (if ?snap \<noteq> [] then [HostBytes ?snap] else [])"
    by (simp add: h history_operations_def)
  have counts: "sh_operation_count h = ?n" "sh_retained_bytes h = length ?snap"
    by (simp_all add: h)
  have "length ?snap + ops_bytes (batch_ops (rts_viewport st) (instructions batch)) \<le> MAX_RETAINED_HOST_BYTES"
    "?n + length (batch_ops (rts_viewport st) (instructions batch)) \<le> MAX_RETAINED_OPERATIONS"
    using size history_growth_exact [OF growth] by (simp_all add: validate_history_size_iff)
  moreover have "rts_initial st' = rts_viewport st"
    using u16_try_from_Some [OF c] u16_try_from_Some [OF r] by (simp add: st'_def)
  ultimately show ?thesis
    using assms(1) by (auto simp: rts_wf_def st'_def ops counts op_bytes_def split: if_splits)
qed

text \<open>The state on which the second loop of \<open>apply\<close> starts.\<close>

definition admitted ::
    "('p, 'v) term_lib \<Rightarrow> 'p remote_terminal_state \<Rightarrow> instruction_batch \<Rightarrow> 'p remote_terminal_state \<Rightarrow> bool" where
  "admitted lib st batch st' \<longleftrightarrow>
     (if validate_history_growth st batch = Inr () then st' = st
      else \<exists>h c r. compacted_history lib st batch = Inr (h, c, r) \<and>
        st' = st\<lparr>rts_history := h, rts_initial_columns := c, rts_initial_rows := r\<rparr>)"

lemma admitted_wf:
  assumes "rts_wf st" and "admitted lib st batch st'"
  shows "rts_wf st' \<and> rts_viewport st' = rts_viewport st \<and> rts_echo_ack st' = rts_echo_ack st \<and>
    length (rts_ops st') + length (batch_ops (rts_viewport st) (instructions batch)) \<le> MAX_RETAINED_OPERATIONS \<and>
    ops_bytes (rts_ops st') + ops_bytes (batch_ops (rts_viewport st) (instructions batch)) \<le> MAX_RETAINED_HOST_BYTES"
proof (cases "validate_history_growth st batch = Inr ()")
  case True
  with assms show ?thesis
    by (auto simp: admitted_def validate_history_growth_def validate_history_size_iff rts_wf_def
        dest!: history_growth_exact split: sum.splits prod.splits)
next
  case False
  with assms obtain h c r where "compacted_history lib st batch = Inr (h, c, r)"
    and st': "st' = st\<lparr>rts_history := h, rts_initial_columns := c, rts_initial_rows := r\<rparr>"
    by (auto simp: admitted_def)
  from compacted_history_wf [OF assms(1) this(1)] show ?thesis
    unfolding st' by simp
qed

lemma remote_state_apply_cases:
  obtains (rejected) e where "remote_state_apply lib st batch = (Inl e, st)"
  | (accepted) s0 s1 where
    "check_viewports (instructions batch) = Inr ()"
    "check_markers (rts_echo_ack st) (List.map_filter in_marker (instructions batch)) = Inr ()"
    "admitted lib st batch s0"
    "remote_state_apply lib st batch = (Inr (), s1)"
    "apply_instructions lib s0 (instructions batch) = (Inr (), s1)"
    "advanced lib s0 (batch_ops (rts_viewport s0) (instructions batch))
       (batch_viewport (rts_viewport s0) (instructions batch))
       (batch_echo (rts_echo_ack s0) (instructions batch)) s1"
proof (cases "check_viewports (instructions batch)")
  case (Inl e)
  then show ?thesis using rejected by (simp add: remote_state_apply_def)
next
  case ok: (Inr u)
  note advance = apply_instructions_advanced [of "instructions batch" lib]
  show ?thesis
  proof (cases "check_markers (rts_echo_ack st) (List.map_filter in_marker (instructions batch))")
    case (Inl e)
    with ok show ?thesis using rejected by (simp add: remote_state_apply_def)
  next
    case marks: (Inr u)
    show ?thesis
    proof (cases "validate_history_growth st batch")
      case (Inr u)
      with ok marks advance [of st] show ?thesis
        by (intro accepted [of st "snd (apply_instructions lib st (instructions batch))"]) (auto simp: remote_state_apply_def admitted_def)
    next
      case grow: (Inl e)
      show ?thesis
      proof (cases "compacted_history lib st batch")
        case (Inl e)
        with ok marks grow show ?thesis using rejected by (simp add: remote_state_apply_def)
      next
        case (Inr p)
        obtain h c r where p: "p = (h, c, r)" by (cases p)
        let ?s0 = "st\<lparr>rts_history := h, rts_initial_columns := c, rts_initial_rows := r\<rparr>"
        from ok marks grow Inr p advance [of ?s0] show ?thesis
          by (intro accepted [of ?s0 "snd (apply_instructions lib ?s0 (instructions batch))"]) (auto simp: remote_state_apply_def admitted_def)
      qed
    qed
  qed
qed

subsection \<open>Echo acknowledgements and the state machine of batches\<close>

lemma check_markers_sorted:
  "check_markers echo ms = Inr () \<longleftrightarrow>
   sorted ((case echo of None \<Rightarrow> [] | Some c \<Rightarrow> [c]) @ map marker_value ms)"
proof (induction ms arbitrary: echo)
  case (Cons m ms)
  show ?case
    by (cases echo) (auto simp: Cons.IH not_less dest: order_trans)
qed (simp split: option.splits)

lemma batch_echo_mono:
  "check_markers echo (List.map_filter in_marker is) = Inr () \<Longrightarrow> echo \<le> batch_echo echo is"
proof (induction "is" arbitrary: echo)
  case (Cons i "is")
  show ?case
  proof (cases "in_marker i")
    case None
    with Cons show ?thesis
      by (simp add: batch_echo_def instruction_echo_def map_filter_simps)
  next
    case (Some m)
    with Cons.prems have le: "echo \<le> Some (marker_value m)"
      and rest: "check_markers (Some (marker_value m)) (List.map_filter in_marker is) = Inr ()"
      by (auto simp: map_filter_simps not_less split: option.splits if_splits)
    from Cons.IH [OF rest] le Some show ?thesis
      by (simp add: batch_echo_def instruction_echo_def)
  qed
qed (simp add: batch_echo_def)

lemma remote_state_apply_wf: "rts_wf st \<Longrightarrow> rts_wf (snd (remote_state_apply lib st batch))"
proof (cases rule: remote_state_apply_cases [of lib st batch])
  case (accepted s0 s1)
  assume wf: "rts_wf st"
  from admitted_wf [OF wf accepted(3)] accepted(1) have "rts_wf (snd (apply_instructions lib s0 (instructions batch)))"
    by (intro apply_instructions_wf) auto
  with accepted(4,5) show ?thesis by simp
qed simp

lemma remote_state_apply_echo:
  "rts_wf st \<Longrightarrow> rts_echo_ack st \<le> rts_echo_ack (snd (remote_state_apply lib st batch))"
proof (cases rule: remote_state_apply_cases [of lib st batch])
  case (accepted s0 s1)
  assume wf: "rts_wf st"
  with accepted admitted_wf [OF wf accepted(3)] batch_echo_mono [OF accepted(2)] show ?thesis
    by (simp add: advanced_def)
qed simp

interpretation rts: monotone_machine "remote_state_apply lib" rts_wf rts_echo_ack for lib
  by unfold_locales (simp_all add: remote_state_apply_wf remote_state_apply_echo)

lemma remote_state_clone_eq:
  assumes "rts_wf st"
  shows "remote_state_clone lib st =
    Some (st\<lparr>rts_parser := replay lib (vt_new lib (rts_initial_rows st) (rts_initial_columns st)) (rts_ops st)\<rparr>)"
  using assms by (simp add: rts_wf_def viewport_ok_def remote_state_clone_def remote_state_new_def)

text \<open>
  C27. From a fresh state, every sequence of instruction batches (accepted or rejected, for every
  behaviour of the emulator) leaves a state whose counters are exact, whose history stays within
  65536 operations and 16 MiB of host bytes, whose viewport is a valid one, whose echo
  acknowledgement has not decreased at any point, and whose clone does not panic.
\<close>

theorem state_history_bounded:
  assumes "remote_state_new lib columns rows = Inr st"
    and "st1 = snd (run (remote_state_apply lib) st batches1)"
    and "st2 = snd (run (remote_state_apply lib) st1 batches2)"
  shows "sh_operation_count (rts_history st2) = length (rts_ops st2) \<and>
    sh_retained_bytes (rts_history st2) = ops_bytes (rts_ops st2) \<and>
    length (rts_ops st2) \<le> 65536 \<and> ops_bytes (rts_ops st2) \<le> 16 * 1024 * 1024 \<and>
    validate_viewport (vp_columns (rts_viewport st2)) (vp_rows (rts_viewport st2)) = Inr () \<and>
    rts_echo_ack st1 \<le> rts_echo_ack st2 \<and>
    remote_state_clone lib st2 \<noteq> None"
proof -
  have wf1: "rts_wf st1" unfolding assms(2)
    by (rule rts.run_inv [OF remote_state_new_wf [OF assms(1)]])
  have wf: "rts_wf st2" unfolding assms(3)
    by (rule rts.run_inv [OF wf1])
  have "rts_echo_ack st1 \<le> rts_echo_ack st2" unfolding assms(3)
    by (rule rts.run_rank [OF wf1])
  moreover have "remote_state_clone lib st2 \<noteq> None"
    by (simp add: remote_state_clone_eq [OF wf])
  ultimately show ?thesis
    using wf by (simp add: rts_wf_def viewport_ok_def MAX_RETAINED_HOST_BYTES_def MAX_RETAINED_OPERATIONS_def)
qed

text \<open>
  C26. \<open>apply\<close> is atomic: a batch is accepted exactly when every viewport in it is valid, its markers
  do not decrease from the current acknowledgement on, and its growth fits (after compaction, if
  needed); a batch that is not accepted leaves the state as it was.
\<close>

theorem state_apply_atomic:
  "(fst (remote_state_apply lib st batch) = Inr () \<longleftrightarrow>
      (\<forall>i \<in> set (instructions batch). \<forall>v. in_viewport i = Some v \<longrightarrow>
         validate_viewport (vp_columns v) (vp_rows v) = Inr ()) \<and>
      sorted ((case rts_echo_ack st of None \<Rightarrow> [] | Some c \<Rightarrow> [c]) @
        map marker_value (List.map_filter in_marker (instructions batch))) \<and>
      (validate_history_growth st batch = Inr () \<or> (\<exists>h. compacted_history lib st batch = Inr h))) \<and>
   (fst (remote_state_apply lib st batch) \<noteq> Inr () \<longrightarrow> snd (remote_state_apply lib st batch) = st)"
proof (intro conjI impI)
  show "fst (remote_state_apply lib st batch) \<noteq> Inr () \<Longrightarrow> snd (remote_state_apply lib st batch) = st"
    by (cases rule: remote_state_apply_cases [of lib st batch]) auto
  note conds = check_viewports_iff [unfolded viewport_ok_def, symmetric] check_markers_sorted [symmetric]
  show "fst (remote_state_apply lib st batch) = Inr () \<longleftrightarrow>
      (\<forall>i \<in> set (instructions batch). \<forall>v. in_viewport i = Some v \<longrightarrow>
         validate_viewport (vp_columns v) (vp_rows v) = Inr ()) \<and>
      sorted ((case rts_echo_ack st of None \<Rightarrow> [] | Some c \<Rightarrow> [c]) @
        map marker_value (List.map_filter in_marker (instructions batch))) \<and>
      (validate_history_growth st batch = Inr () \<or> (\<exists>h. compacted_history lib st batch = Inr h))"
    unfolding conds
    using apply_instructions_advanced [of "instructions batch" lib]
    by (auto simp: remote_state_apply_def split: sum.splits prod.splits)
      (metis fst_conv)+
qed

end
