(* ===== verification/State_Diff.thy ===== *)
theory State_Diff
  imports State_Replay
begin

section \<open>Clones and diffs of terminal states\<close>

text \<open>
  \<open>clone\<close> rebuilds a state by replaying its history, and \<open>diff_from\<close> compares the canonical histories of
  two states. Both are judged here against the stream of a history: the operations with their byte runs
  cut into single bytes, which is what the emulator sees however the bytes were chunked.
\<close>

datatype stream_token = ByteTok u8 | ResizeTok u16 u16 | ControlTok session_control

fun op_tokens :: "state_operation \<Rightarrow> stream_token list" where
  "op_tokens (HostBytes bs) = map ByteTok bs"
| "op_tokens (Resize c r) = [ResizeTok c r]"
| "op_tokens (SessionControlOp control) = [ControlTok control]"

definition op_stream :: "state_operation list \<Rightarrow> stream_token list" where
  "op_stream ops = concat (map op_tokens ops)"

lemma op_stream_simps [simp]:
  "op_stream [] = []" "op_stream (op # ops) = op_tokens op @ op_stream ops"
  "op_stream (a @ b) = op_stream a @ op_stream b"
  by (simp_all add: op_stream_def)

fun token_replay :: "('p, 'v) term_lib \<Rightarrow> 'p \<Rightarrow> stream_token \<Rightarrow> 'p" where
  "token_replay lib p (ByteTok b) = vt_process lib p [b]"
| "token_replay lib p (ResizeTok c r) = vt_set_size lib p r c"
| "token_replay lib p (ControlTok _) = p"

lemma token_replay_bytes:
  "vt_streaming lib \<Longrightarrow> foldl (token_replay lib) p (map ByteTok bs) = vt_process lib p bs"
proof (induction bs arbitrary: p)
  case (Cons b bs)
  have "vt_process lib p ([b] @ bs) = vt_process lib (vt_process lib p [b]) bs"
    using Cons.prems unfolding vt_streaming_def by blast
  with Cons show ?case by simp
qed (simp add: vt_streaming_def)

lemma replay_stream: "vt_streaming lib \<Longrightarrow> replay lib p ops = foldl (token_replay lib) p (op_stream ops)"
  by (induction lib p ops rule: replay.induct) (simp_all add: token_replay_bytes)

fun token_walk :: "viewport_size option \<Rightarrow> stream_token \<Rightarrow> viewport_size option" where
  "token_walk (Some vp) (ResizeTok c r) =
     (let v = \<lparr>vp_columns = ucast c, vp_rows = ucast r\<rparr> in if v = vp \<or> \<not> viewport_ok v then None else Some v)"
| "token_walk vp _ = vp"

lemma token_walk_bytes [simp]: "foldl token_walk vp (map ByteTok bs) = vp"
  by (induction bs) simp_all

lemma token_walk_None [simp]: "foldl token_walk None toks = None"
  by (induction toks) simp_all

lemma walk_stream: "viewport_walk vp ops = foldl token_walk (Some vp) (op_stream ops)"
  by (induction vp ops rule: viewport_walk.induct) (simp_all add: Let_def)

fun token_bytes :: "stream_token \<Rightarrow> nat" where
  "token_bytes (ByteTok _) = 1"
| "token_bytes _ = 0"

lemma op_bytes_stream: "ops_bytes ops = sum_list (map token_bytes (op_stream ops))"
proof (induction ops)
  case (Cons op ops)
  have "sum_list (map token_bytes (map ByteTok bs)) = length bs" for bs
    by (induction bs) simp_all
  with Cons show ?case by (cases op) (simp_all add: op_bytes_def)
qed simp

subsection \<open>Canonical histories\<close>

abbreviation is_HostBytes :: "state_operation \<Rightarrow> bool" where
  "is_HostBytes op \<equiv> (\<exists>bs. op = HostBytes bs)"

text \<open>No two adjacent byte runs and no empty one.\<close>

definition canonical_form :: "state_operation list \<Rightarrow> bool" where
  "canonical_form ops \<longleftrightarrow>
     successively (\<lambda>a b. \<not> (is_HostBytes a \<and> is_HostBytes b)) ops \<and> HostBytes [] \<notin> set ops"

lemma canonical_step_snoc:
  "canonical_step (ops @ [x]) op =
     (case (x, op) of
        (HostBytes previous, HostBytes bs) \<Rightarrow> ops @ [HostBytes (previous @ bs)]
      | _ \<Rightarrow> ops @ [x, op])"
  by (cases ops; cases x; cases op) (simp_all add: canonical_step_def)

lemma canonical_step_cases:
  obtains (merge) ops' previous bs where "ops = ops' @ [HostBytes previous]" "op = HostBytes bs"
    "canonical_step ops op = ops' @ [HostBytes (previous @ bs)]"
  | (push) "ops \<noteq> [] \<Longrightarrow> \<not> (is_HostBytes (last ops) \<and> is_HostBytes op)" "canonical_step ops op = ops @ [op]"
proof (cases ops rule: rev_cases)
  case Nil
  then show ?thesis using push by (simp add: canonical_step_def)
next
  case (snoc ops' x)
  then show ?thesis using push merge
    by (cases x; cases op) (auto simp: canonical_step_snoc)
qed

lemma canonical_step_stream: "op_stream (canonical_step ops op) = op_stream ops @ op_tokens op"
  by (cases rule: canonical_step_cases [of ops op]) simp_all

lemma canonical_step_form:
  "canonical_form ops \<Longrightarrow> op \<noteq> HostBytes [] \<Longrightarrow> canonical_form (canonical_step ops op)"
proof (cases rule: canonical_step_cases [of ops op])
  case (merge ops' previous bs)
  assume "canonical_form ops"
  with merge show ?thesis by (auto simp: canonical_form_def successively_append_iff)
next
  case push
  assume "canonical_form ops" "op \<noteq> HostBytes []"
  with push show ?thesis by (auto simp: canonical_form_def successively_append_iff)
qed

lemma canonical_fold:
  "op_stream (foldl canonical_step acc ops) = op_stream acc @ op_stream ops"
  "canonical_form acc \<Longrightarrow> HostBytes [] \<notin> set ops \<Longrightarrow> canonical_form (foldl canonical_step acc ops)"
  by (induction ops arbitrary: acc) (auto simp: canonical_step_stream canonical_step_form)

lemma canonical_stream [simp]: "op_stream (canonical ops) = op_stream ops"
  by (simp add: canonical_def canonical_fold)

lemma canonical_is_canonical: "HostBytes [] \<notin> set ops \<Longrightarrow> canonical_form (canonical ops)"
  unfolding canonical_def by (rule canonical_fold) (auto simp: canonical_form_def)

lemma canonical_form_tl: "canonical_form (op # ops) \<Longrightarrow> canonical_form ops"
  by (auto simp: canonical_form_def successively_Cons)

lemma length_canonical_step: "length (canonical_step ops op) \<le> Suc (length ops)"
  by (cases rule: canonical_step_cases [of ops op]) simp_all

lemma length_canonical_fold: "length (foldl canonical_step acc ops) \<le> length acc + length ops"
proof (induction ops arbitrary: acc)
  case (Cons op ops)
  from Cons.IH [of "canonical_step acc op"] length_canonical_step [of acc op] show ?case by simp
qed simp

lemma length_canonical: "length (canonical ops) \<le> length ops"
  using length_canonical_fold [of "[]" ops] by (simp add: canonical_def)

subsection \<open>The suffix of a history\<close>

lemma suffix_instructions_0:
  "suffix_instructions ops 0 = concat (map (suffix_instruction 0) ops)"
proof -
  have "map (\<lambda>(index, op). suffix_instruction (if index = 0 then 0 else 0) op) (enumerate n ops)
      = map (suffix_instruction 0) ops" for n
    by (induction ops arbitrary: n) simp_all
  then show ?thesis by (simp add: suffix_instructions_def)
qed

lemma suffix_instructions_Cons:
  "suffix_instructions (op # ops) off = suffix_instruction off op @ concat (map (suffix_instruction 0) ops)"
proof -
  have "map (\<lambda>(index, op). suffix_instruction (if index = 0 then off else 0) op) (enumerate (Suc n) ops)
      = map (suffix_instruction 0) ops" for n
    by (induction ops arbitrary: n) simp_all
  from this [of 0] show ?thesis by (simp add: suffix_instructions_def)
qed

lemma suffix_instruction_drop: "suffix_instruction n (HostBytes bs) = suffix_instruction 0 (HostBytes (drop n bs))"
  by (simp add: suffix_instruction_def)

lemma prefix_same_length: "prefix xs ys \<Longrightarrow> length ys = length xs \<Longrightarrow> ys = xs"
  by (auto simp: prefix_def)

text \<open>Soundness: what \<open>history_suffix_start\<close> returns leaves exactly the operations still to be delivered.\<close>

lemma suffix_loop_sound:
  assumes "suffix_loop (P @ T) (length P + length D) (length P) D = Inr (k, off)" and "HostBytes [] \<notin> set T"
  shows "\<exists>S. suffix_instructions (drop k (P @ T)) off = concat (map (suffix_instruction 0) S) \<and>
    op_stream T = op_stream D @ op_stream S \<and> length S \<le> length T \<and> HostBytes [] \<notin> set S"
  using assms
proof (induction D arbitrary: P T)
  case Nil
  then show ?case by (intro exI [of _ T]) (auto simp: suffix_instructions_0)
next
  case (Cons d D)
  from Cons.prems(1) obtain t T' where T: "T = t # T'"
    by (cases T) auto
  have step: "suffix_loop ((P @ [t]) @ T') (length (P @ [t]) + length D) (length (P @ [t])) D = Inr (k, off)"
    if "t = d"
    using Cons.prems(1) that by (cases d) (simp_all add: T)
  show ?case
  proof (cases "t = d")
    case True
    with Cons.IH [OF step [OF True]] Cons.prems(2) obtain S where
      "suffix_instructions (drop k ((P @ [t]) @ T')) off = concat (map (suffix_instruction 0) S)"
      "op_stream T' = op_stream D @ op_stream S" "length S \<le> length T'" "HostBytes [] \<notin> set S"
      by (auto simp: T)
    with True show ?thesis by (intro exI [of _ S]) (simp add: T)
  next
    case False
    with Cons.prems(1) obtain tb db where tb: "t = HostBytes tb" "d = HostBytes db" "prefix db tb"
      "length tb \<noteq> length db" "D = []" "k = length P" "off = length db"
      by (cases t; cases d) (auto simp: T split: if_splits dest: prefix_same_length)
    then obtain rest where rest: "tb = db @ rest" "rest \<noteq> []" by (auto simp: prefix_def)
    with tb Cons.prems(2) show ?thesis
      by (intro exI [of _ "HostBytes rest # T'"])
        (auto simp: T suffix_instructions_Cons suffix_instruction_drop [of "length db"])
  qed
qed

lemma bytes_prefix_split:
  assumes "prefix (map ByteTok a @ x) (map ByteTok b @ y)"
    and "\<And>tok toks. y = tok # toks \<Longrightarrow> \<forall>b. tok \<noteq> ByteTok b"
  shows "prefix a b"
  using assms(1)
proof (induction a arbitrary: b)
  case (Cons c a)
  show ?case
  proof (cases b)
    case Nil
    with Cons.prems assms(2) show ?thesis by (cases y) auto
  next
    case (Cons c' b')
    with Cons.prems Cons.IH [of b'] show ?thesis by simp
  qed
qed simp

lemma canonical_form_after_bytes:
  assumes "canonical_form (HostBytes bs # ops)" and "op_stream ops = tok # toks"
  shows "\<forall>b. tok \<noteq> ByteTok b"
proof (cases ops)
  case (Cons op ops')
  with assms show ?thesis
    by (cases op) (auto simp: canonical_form_def)
qed (use assms in simp)

text \<open>Completeness: a canonical history whose stream extends the delivered one is never reported diverged.\<close>

text \<open>A canonical history cut inside its first byte run has no operation after that run.\<close>

lemma cut_inside_bytes:
  assumes "canonical_form (HostBytes db # D)" "prefix (op_stream (HostBytes db # D)) (op_stream (HostBytes (db @ rest) # T))"
    and "rest \<noteq> []"
  shows "D = []"
proof (rule ccontr)
  assume "D \<noteq> []"
  then obtain x xs where D: "D = x # xs" by (cases D) auto
  have "op_tokens x \<noteq> []" using assms(1) by (cases x) (auto simp: D canonical_form_def)
  then obtain tok toks where tok: "op_stream D = tok # toks" by (cases "op_tokens x") (auto simp: D)
  with canonical_form_after_bytes [of db D tok] assms(1) have "\<forall>c. tok \<noteq> ByteTok c" by simp
  with assms(2,3) tok show False by (cases rest) auto
qed

lemma suffix_loop_complete:
  assumes "canonical_form T" "canonical_form D" "prefix (op_stream D) (op_stream T)"
  shows "\<exists>r. suffix_loop (P @ T) (length P + length D) (length P) D = Inr r"
  using assms
proof (induction D arbitrary: P T)
  case (Cons d D)
  have "op_tokens d \<noteq> []"
    using Cons.prems(2) by (cases d) (auto simp: canonical_form_def)
  with Cons.prems(3) obtain t T' where T: "T = t # T'"
    by (cases T) auto
  have tt: "op_tokens t \<noteq> []"
    using Cons.prems(1) by (cases t) (auto simp: T canonical_form_def)
  have step: "\<exists>r. suffix_loop (P @ t # T') (length P + length (t # D)) (length P) (t # D) = Inr r" if "t = d"
  proof -
    have "\<exists>r. suffix_loop ((P @ [t]) @ T') (length (P @ [t]) + length D) (length (P @ [t])) D = Inr r"
      using Cons.prems that
      by (intro Cons.IH) (auto simp: T dest: canonical_form_tl)
    then show ?thesis by (cases t) simp_all
  qed
  show ?case
  proof (cases "t = d")
    case True
    with step show ?thesis by (simp add: T)
  next
    case False
    have "is_HostBytes d \<and> is_HostBytes t"
      using Cons.prems(3) False tt \<open>op_tokens d \<noteq> []\<close>
      by (cases d; cases t) (auto simp: T prefix_Cons neq_Nil_conv)
    then obtain db tb where b: "d = HostBytes db" "t = HostBytes tb" by auto
    have pre: "prefix db tb"
      using Cons.prems(3) canonical_form_after_bytes [of tb T'] Cons.prems(1)
      by (intro bytes_prefix_split [of db "op_stream D" tb "op_stream T'"]) (auto simp: T b)
    then obtain rest where rest: "tb = db @ rest" "rest \<noteq> []"
      using False by (auto simp: b prefix_def)
    have "D = []" using cut_inside_bytes [of db D rest T'] Cons.prems(2,3) rest by (simp add: T b)
    with pre rest show ?thesis by (simp add: T b)
  qed
qed simp

subsection \<open>Applying a diff\<close>

lemma growth_loop_fits:
  "b + ops_bytes (batch_ops vp is) < usize_limit \<Longrightarrow> \<exists>r. growth_loop b n vp is = Inr r"
proof (induction "is" arbitrary: b n vp)
  case (Cons i "is")
  let ?vp = "instruction_viewport vp i"
  from Cons.prems have "b + ops_bytes (instruction_ops vp i) + ops_bytes (batch_ops ?vp is) < usize_limit"
    by simp
  from Cons.IH [OF this] have ok: "\<exists>r. growth_loop (b + ops_bytes (instruction_ops vp i)) m ?vp is = Inr r" for m .
  have "b + ops_bytes (instruction_ops vp i) < usize_limit"
    using Cons.prems by simp
  with ok show ?case
    by (cases "in_bytes i"; cases "in_viewport i"; cases "in_session_control i")
      (auto simp: instruction_ops_def instruction_viewport_def op_bytes_def usize_checked_add_def
        split: if_splits)
qed simp

lemma growth_fits:
  assumes "rts_wf st"
    and "length (rts_ops st) + length (batch_ops (rts_viewport st) (instructions batch)) \<le> MAX_RETAINED_OPERATIONS"
    and "ops_bytes (rts_ops st) + ops_bytes (batch_ops (rts_viewport st) (instructions batch)) \<le> MAX_RETAINED_HOST_BYTES"
  shows "validate_history_growth st batch = Inr ()"
proof -
  have "0 + ops_bytes (batch_ops (rts_viewport st) (instructions batch)) < usize_limit"
    using assms(3) by (simp add: MAX_RETAINED_HOST_BYTES_def usize_limit_def)
  then obtain b n where "history_growth batch (rts_viewport st) = Inr (b, n)"
    using growth_loop_fits [of 0 "rts_viewport st" "instructions batch" 0] by (auto simp: history_growth_def)
  with assms history_growth_exact [OF this] show ?thesis
    by (simp add: validate_history_growth_def validate_history_size_iff rts_wf_def)
qed

lemma ucast_u16_u64_u16 [simp]: "(ucast (ucast (w :: u16) :: u64) :: u16) = w"
  by (rule bit_word_eqI) (auto simp: bit_simps)

text \<open>Every viewport of a batch differs from the one in force.\<close>

fun resizes_change :: "viewport_size \<Rightarrow> instruction list \<Rightarrow> bool" where
  "resizes_change vp [] = True"
| "resizes_change vp (i # is) = (in_viewport i \<noteq> Some vp \<and> resizes_change (instruction_viewport vp i) is)"

lemma suffix_batch:
  assumes "HostBytes [] \<notin> set S" and "viewport_walk vp S = Some v"
  defines "is \<equiv> concat (map (suffix_instruction 0) S)"
  shows "check_viewports is = Inr () \<and> batch_ops vp is = S \<and> batch_viewport vp is = v \<and>
    List.map_filter in_marker is = [] \<and> batch_echo echo is = echo \<and> resizes_change vp is"
  using assms(1,2) unfolding is_def
  by (induction vp S rule: viewport_walk.induct)
    (auto simp: suffix_instruction_def host_bytes_instruction_def state_viewport_instruction_def
      session_control_instruction_def instruction_ops_def instruction_viewport_def instruction_echo_def
      batch_viewport_def batch_echo_def map_filter_simps viewport_ok_def Let_def split: if_splits)

abbreviation echo_instruction :: "u64 \<Rightarrow> instruction" where
  "echo_instruction v \<equiv>
     \<lparr>in_bytes = None, in_viewport = None, in_marker = Some (Marker v), in_session_control = None\<rparr>"

lemma echo_batch:
  "check_viewports (echo_instruction v # is) = check_viewports is"
  "batch_ops vp (echo_instruction v # is) = batch_ops vp is"
  "batch_viewport vp (echo_instruction v # is) = batch_viewport vp is"
  "List.map_filter in_marker (echo_instruction v # is) = Marker v # List.map_filter in_marker is"
  "batch_echo echo (echo_instruction v # is) = batch_echo (Some v) is"
  "resizes_change vp (echo_instruction v # is) = resizes_change vp is"
  by (simp_all add: instruction_ops_def instruction_viewport_def instruction_echo_def
      batch_viewport_def batch_echo_def map_filter_simps)

text \<open>The state is what a replay of its history on a fresh emulator gives.\<close>

definition replayable :: "('p, 'v) term_lib \<Rightarrow> 'p remote_terminal_state \<Rightarrow> bool" where
  "replayable lib st \<longleftrightarrow>
     rts_parser st = replay lib (vt_new lib (rts_initial_rows st) (rts_initial_columns st)) (rts_ops st)"

lemma apply_within_limits:
  assumes "rts_wf st" "vt_streaming lib" "replayable lib st" and "check_viewports (instructions batch) = Inr ()"
    and "check_markers (rts_echo_ack st) (List.map_filter in_marker (instructions batch)) = Inr ()"
    and "length (rts_ops st) + length (batch_ops (rts_viewport st) (instructions batch)) \<le> MAX_RETAINED_OPERATIONS"
    and "ops_bytes (rts_ops st) + ops_bytes (batch_ops (rts_viewport st) (instructions batch)) \<le> MAX_RETAINED_HOST_BYTES"
  shows "\<exists>st'. remote_state_apply lib st batch = (Inr (), st') \<and> replayable lib st' \<and>
     advanced lib st (batch_ops (rts_viewport st) (instructions batch))
       (batch_viewport (rts_viewport st) (instructions batch)) (batch_echo (rts_echo_ack st) (instructions batch)) st'"
proof -
  obtain st' where "apply_instructions lib st (instructions batch) = (Inr (), st')"
    "advanced lib st (batch_ops (rts_viewport st) (instructions batch))
       (batch_viewport (rts_viewport st) (instructions batch)) (batch_echo (rts_echo_ack st) (instructions batch)) st'"
    using apply_instructions_advanced [OF assms(4)] by blast
  with assms growth_fits [OF assms(1,6,7)] show ?thesis
    by (intro exI [of _ st']) (simp add: remote_state_apply_def replayable_def advanced_def)
qed

text \<open>What \<open>history_suffix_start\<close> finds, and that it finds it when the target's stream extends the delivered one.\<close>

lemma suffix_found:
  assumes "rts_wf target"
    and "history_suffix_start (canonical_operations (rts_history target)) (canonical_operations (rts_history delivered))
      = Inr (k, off)"
  obtains S where
    "suffix_instructions (drop k (canonical_operations (rts_history target))) off
       = concat (map (suffix_instruction 0) S)"
    "op_stream (rts_ops target) = op_stream (rts_ops delivered) @ op_stream S"
    "length S \<le> length (rts_ops target)" "HostBytes [] \<notin> set S"
proof -
  let ?T = "canonical (rts_ops target)" and ?D = "canonical (rts_ops delivered)"
  let ?N = "[] :: state_operation list"
  have "HostBytes [] \<notin> set ?T"
    using assms(1) canonical_is_canonical [of "rts_ops target"] by (simp add: rts_wf_def canonical_form_def)
  moreover have "suffix_loop (?N @ ?T) (length ?N + length ?D) (length ?N) ?D = Inr (k, off)"
    using assms(2) by (simp add: history_suffix_start_def canonical_operations_def)
  ultimately obtain S where
    "suffix_instructions (drop k ([] @ ?T)) off = concat (map (suffix_instruction 0) S)"
    "op_stream ?T = op_stream ?D @ op_stream S" "length S \<le> length ?T" "HostBytes [] \<notin> set S"
    using suffix_loop_sound by blast
  with length_canonical [of "rts_ops target"] show ?thesis
    by (intro that [of S]) (simp_all add: canonical_operations_def)
qed

lemma suffix_exists:
  assumes "rts_wf target" "rts_wf delivered"
    and "prefix (op_stream (rts_ops delivered)) (op_stream (rts_ops target))"
  shows "\<exists>k off. history_suffix_start (canonical_operations (rts_history target))
    (canonical_operations (rts_history delivered)) = Inr (k, off)"
proof -
  have "canonical_form (canonical (rts_ops target))" "canonical_form (canonical (rts_ops delivered))"
    using assms(1,2) by (simp_all add: rts_wf_def canonical_is_canonical)
  with suffix_loop_complete [of "canonical (rts_ops target)" "canonical (rts_ops delivered)" "[]"] assms(3) show ?thesis
    by (auto simp: history_suffix_start_def canonical_operations_def)
qed

text \<open>The diff of two states whose streams extend one another, applied.\<close>

lemma diff_advances:
  assumes "vt_streaming lib" and "rts_wf target" "rts_wf delivered"
    and "replayable lib target" "replayable lib delivered"
    and "rts_initial_columns delivered = rts_initial_columns target"
    and "rts_initial_rows delivered = rts_initial_rows target"
    and "rts_echo_ack delivered \<le> rts_echo_ack target"
    and "prefix (op_stream (rts_ops delivered)) (op_stream (rts_ops target))"
    and "sh_operation_count (rts_history delivered) + sh_operation_count (rts_history target) \<le> MAX_RETAINED_OPERATIONS"
  shows "\<exists>diff st. diff_from lib target delivered = Inr diff \<and>
    remote_state_apply lib delivered (into_instructions diff) = (Inr (), st) \<and>
    rts_parser st = rts_parser target \<and> rts_viewport st = rts_viewport target \<and>
    rts_echo_ack st = rts_echo_ack target \<and> op_stream (rts_ops st) = op_stream (rts_ops target) \<and>
    check_viewports (instructions (into_instructions diff)) = Inr () \<and>
    resizes_change (rts_viewport delivered) (instructions (into_instructions diff))"
proof -
  obtain k off S where suffix:
    "history_suffix_start (canonical_operations (rts_history target)) (canonical_operations (rts_history delivered))
       = Inr (k, off)"
    "suffix_instructions (drop k (canonical_operations (rts_history target))) off
       = concat (map (suffix_instruction 0) S)"
    and stream: "op_stream (rts_ops target) = op_stream (rts_ops delivered) @ op_stream S"
    and len: "length S \<le> length (rts_ops target)" and nonempty: "HostBytes [] \<notin> set S"
    using suffix_exists [OF assms(2,3,9)] suffix_found [OF assms(2)] by metis
  define echo where "echo = (if rts_echo_ack target \<noteq> rts_echo_ack delivered
    then (case rts_echo_ack target of None \<Rightarrow> [] | Some v \<Rightarrow> [echo_instruction v]) else [])"
  let ?vp = "rts_viewport delivered" and ?is = "concat (map (suffix_instruction 0) S)"
  let ?batch = "InstructionBatch (echo @ ?is)"
  have diff: "diff_from lib target delivered = Inr (StateDiff ?batch)"
    by (simp add: diff_from_def suffix echo_def split: option.splits)
  have walk: "viewport_walk ?vp S = Some (rts_viewport target)"
    using assms(2,3,6,7) by (simp add: rts_wf_def walk_stream stream)
  have none: "rts_echo_ack target = None \<Longrightarrow> rts_echo_ack delivered = None"
    using assms(8) by (cases "rts_echo_ack delivered") auto
  note effect = suffix_batch [OF nonempty walk]
  have batch: "check_viewports (echo @ ?is) = Inr ()" "batch_ops ?vp (echo @ ?is) = S"
    "batch_viewport ?vp (echo @ ?is) = rts_viewport target"
    "batch_echo (rts_echo_ack delivered) (echo @ ?is) = rts_echo_ack target"
    "check_markers (rts_echo_ack delivered) (List.map_filter in_marker (echo @ ?is)) = Inr ()"
    "resizes_change ?vp (echo @ ?is)"
    using effect assms(8)
    by (auto simp: echo_def echo_batch not_less dest: none simp del: check_viewports.simps
        batch_ops.simps resizes_change.simps split: option.splits)
  have "ops_bytes (rts_ops delivered) + ops_bytes S \<le> MAX_RETAINED_HOST_BYTES"
    using assms(2) by (simp add: rts_wf_def op_bytes_stream stream)
  then obtain st where st: "remote_state_apply lib delivered ?batch = (Inr (), st)" "replayable lib st"
    "advanced lib delivered S (rts_viewport target) (rts_echo_ack target) st"
    using apply_within_limits [OF assms(3,1,5), of ?batch] assms(2,3,10) len
    by (auto simp: batch rts_wf_def)
  have "op_stream (rts_ops st) = op_stream (rts_ops target)"
    using st(3) by (simp add: advanced_def stream)
  moreover have "rts_parser st = rts_parser target"
    using st(2,3) assms(1,4,6,7) calculation by (simp add: replayable_def advanced_def replay_stream)
  ultimately show ?thesis
    using diff st batch by (auto simp: advanced_def)
qed


lemma instruction_ops_small:
  "length (instruction_ops vp i) \<le> 3"
  "ops_bytes (instruction_ops vp i) = (case in_bytes i of None \<Rightarrow> 0 | Some r \<Rightarrow> length (run_value r))"
  by (auto simp: instruction_ops_def op_bytes_def split: option.splits)

abbreviation batch_bytes :: "instruction_batch \<Rightarrow> nat" where
  "batch_bytes batch \<equiv>
     sum_list (map (\<lambda>i. case in_bytes i of None \<Rightarrow> 0 | Some r \<Rightarrow> length (run_value r)) (instructions batch))"

lemma batch_ops_small:
  "length (batch_ops vp is) \<le> 3 * length is"
  "ops_bytes (batch_ops vp is) =
     sum_list (map (\<lambda>i. case in_bytes i of None \<Rightarrow> 0 | Some r \<Rightarrow> length (run_value r)) is)"
proof (induction "is" arbitrary: vp)
  case (Cons i "is")
  { case 1 show ?case using instruction_ops_small(1) [of vp i] Cons.IH(1) [of "instruction_viewport vp i"] by simp }
  { case 2 show ?case using instruction_ops_small(2) [of vp i] Cons.IH(2) [of "instruction_viewport vp i"] by simp }
qed simp_all

lemma run_within_limits:
  assumes "vt_streaming lib" "rts_wf st" "replayable lib st"
    and "length (rts_ops st) + 3 * sum_list (map (length \<circ> instructions) batches) \<le> MAX_RETAINED_OPERATIONS"
    and "ops_bytes (rts_ops st) + sum_list (map batch_bytes batches) \<le> MAX_RETAINED_HOST_BYTES"
  shows "replayable lib (snd (run (remote_state_apply lib) st batches))"
  using assms(2-5)
proof (induction batches arbitrary: st)
  case (Cons batch batches)
  let ?st = "snd (remote_state_apply lib st batch)" and ?ops = "batch_ops (rts_viewport st) (instructions batch)"
  have fits: "length (rts_ops st) + length ?ops \<le> MAX_RETAINED_OPERATIONS"
    "ops_bytes (rts_ops st) + ops_bytes ?ops \<le> MAX_RETAINED_HOST_BYTES"
    using Cons.prems(3,4) batch_ops_small(1) [of "rts_viewport st" "instructions batch"]
    by (simp_all add: batch_ops_small(2))
  have "replayable lib ?st \<and>
    length (rts_ops ?st) \<le> length (rts_ops st) + length ?ops \<and>
    ops_bytes (rts_ops ?st) \<le> ops_bytes (rts_ops st) + ops_bytes ?ops"
  proof (cases rule: remote_state_apply_cases [of lib st batch])
    case (accepted s0 s1)
    from apply_within_limits [OF Cons.prems(1) assms(1) Cons.prems(2) accepted(1,2) fits] accepted(4)
    show ?thesis by (auto simp: advanced_def)
  qed (use Cons.prems in simp)
  with Cons.prems batch_ops_small [of "rts_viewport st" "instructions batch"]
  have "replayable lib (snd (run (remote_state_apply lib) ?st batches))"
    by (intro Cons.IH remote_state_apply_wf) auto
  then show ?case by (simp only: run_Cons)
qed simp

text \<open>
  \<open>clone\<close> is exact as long as no compaction was needed: for an emulator that reads its input as a
  stream, a state grown from a fresh one by batches that hold at most 65536 operations (three per
  instruction) and 16 MiB of host bytes in all, some of them possibly rejected, equals its own clone,
  including the parser state inside an incomplete escape sequence.
\<close>

theorem clone_exact:
  assumes "vt_streaming lib" and "remote_state_new lib columns rows = Inr st"
    and "3 * sum_list (map (length \<circ> instructions) batches) \<le> MAX_RETAINED_OPERATIONS"
    and "sum_list (map batch_bytes batches) \<le> MAX_RETAINED_HOST_BYTES"
  shows "remote_state_clone lib (snd (run (remote_state_apply lib) st batches))
       = Some (snd (run (remote_state_apply lib) st batches))"
proof -
  have ops: "rts_ops st = []" and rep: "replayable lib st"
    using assms(2) by (auto simp: remote_state_new_def replayable_def history_default_def history_operations_def
        split: sum.splits)
  have wf: "rts_wf st" by (rule remote_state_new_wf [OF assms(2)])
  have "replayable lib (snd (run (remote_state_apply lib) st batches))"
    by (rule run_within_limits [OF assms(1) wf rep]) (use assms(3,4) in \<open>simp_all add: ops\<close>)
  then show ?thesis
    by (simp add: remote_state_clone_eq [OF rts.run_inv [OF wf]] replayable_def)
qed

subsection \<open>The screen-diff boundary\<close>

text \<open>
  The tokenizer after a history, and its ground state: a tilde is printed, and nothing else happens.
\<close>

definition tokenizer_after :: "('p, 'v) term_lib \<Rightarrow> state_operation list \<Rightarrow> 'v" where
  "tokenizer_after lib ops =
     foldl (\<lambda>v op. case op of HostBytes bs \<Rightarrow> fst (vte_advance lib v bs) | _ \<Rightarrow> v) (vte_new lib) ops"

definition at_ground :: "('p, 'v) term_lib \<Rightarrow> state_operation list \<Rightarrow> bool" where
  "at_ground lib ops \<longleftrightarrow> snd (vte_advance lib (tokenizer_after lib ops) [0x7e]) = [Print 0x7e]"

text \<open>While probing, the audit counts the printed tildes and everything else.\<close>

lemma probe_counts:
  assumes "sda_probing a"
  shows "sda_probe_prints (foldl audit_event a evs) = sda_probe_prints a + length (filter (\<lambda>ev. ev = Print 0x7e) evs) \<and>
    sda_probe_other_actions (foldl audit_event a evs) = sda_probe_other_actions a + length (filter (\<lambda>ev. ev \<noteq> Print 0x7e) evs)"
  using assms
proof (induction evs arbitrary: a)
  case (Cons ev evs)
  have "sda_probing (audit_event a ev)" using Cons.prems by (cases ev) (simp_all add: record_other_action_def)
  from Cons.IH [OF this] Cons.prems show ?case by (cases ev) (simp_all add: record_other_action_def)
qed simp

lemma boundary_probe_ground: "boundary_probe lib (v, a) \<longleftrightarrow> snd (vte_advance lib v [0x7e]) = [Print 0x7e]"
proof -
  let ?evs = "snd (vte_advance lib v [0x7e])"
  have "boundary_probe lib (v, a) \<longleftrightarrow>
      length (filter (\<lambda>ev. ev = Print 0x7e) ?evs) = 1 \<and> filter (\<lambda>ev. ev \<noteq> Print 0x7e) ?evs = []"
    using probe_counts [of "begin_boundary_probe a" ?evs]
    by (simp add: boundary_probe_def audit_advance_def probe_is_ground_def begin_boundary_probe_def case_prod_beta)
  also have "\<dots> \<longleftrightarrow> ?evs = [Print 0x7e]"
  proof
    assume probe: "length (filter (\<lambda>ev. ev = Print 0x7e) ?evs) = 1 \<and> filter (\<lambda>ev. ev \<noteq> Print 0x7e) ?evs = []"
    then have "\<forall>ev \<in> set ?evs. ev = Print 0x7e" by (simp add: filter_empty_conv)
    with probe show "?evs = [Print 0x7e]" by (auto simp: length_Suc_conv filter_id_conv cong: filter_cong)
  qed simp
  finally show ?thesis .
qed

lemma advance_operations_tokenizer:
  "fst (advance_operations lib (v, a) ops) =
     foldl (\<lambda>v op. case op of HostBytes bs \<Rightarrow> fst (vte_advance lib v bs) | _ \<Rightarrow> v) v ops"
proof (induction ops arbitrary: v a)
  case (Cons op ops)
  show ?case
  proof (cases op)
    case (HostBytes bs)
    have "audit_advance lib (v, a) bs = (fst (vte_advance lib v bs), snd (audit_advance lib (v, a) bs))"
      by (simp add: audit_advance_def Let_def split: prod.splits)
    then have "advance_operations lib (v, a) (op # ops) =
        advance_operations lib (fst (vte_advance lib v bs), snd (audit_advance lib (v, a) bs)) ops"
      using HostBytes by simp
    with HostBytes Cons.IH [of "fst (vte_advance lib v bs)" "snd (audit_advance lib (v, a) bs)"] show ?thesis
      by (simp del: advance_operations.simps)
  qed (simp_all add: Cons.IH)
qed simp

lemma advance_tail_eq:
  "advance_tail lib pa ops =
     (if \<exists>c r. Resize c r \<in> set ops then None else Some (advance_operations lib pa ops))"
  by (induction lib pa ops rule: advance_tail.induct) auto

lemma history_ends_at_ground_iff: "history_ends_at_ground lib ops \<longleftrightarrow> at_ground lib ops"
proof -
  obtain v a where "advance_operations lib (vte_new lib, audit_default) ops = (v, a)" by fastforce
  with advance_operations_tokenizer [of lib "vte_new lib" audit_default ops] show ?thesis
    by (simp add: history_ends_at_ground_def at_ground_def boundary_probe_ground tokenizer_after_def)
qed

lemma tail_is_safe_iff:
  "history_tail_is_screen_diff_safe lib common tail \<longleftrightarrow> (\<nexists>c r. Resize c r \<in> set tail) \<and> at_ground lib (common @ tail)"
proof -
  obtain v a where c: "advance_operations lib (vte_new lib, audit_default) common = (v, a)" by fastforce
  obtain v' a' where t: "advance_operations lib (v, begin_tail_audit a) tail = (v', a')" by fastforce
  have "tokenizer_after lib (common @ tail) = v'"
    using advance_operations_tokenizer [of lib "vte_new lib" audit_default common]
      advance_operations_tokenizer [of lib v "begin_tail_audit a" tail] c t
    by (simp add: tokenizer_after_def)
  with c t show ?thesis
    by (simp add: history_tail_is_screen_diff_safe_def advance_tail_eq at_ground_def boundary_probe_ground)
qed

text \<open>
  C29. What the two probes of the tokenizer decide. A tail of a diverged history is accepted for a screen diff
  exactly when it has no resize and a tilde fed to the tokenizer after the whole history is printed and does nothing
  else: the tokenizer is in its ground state with no character begun. A history may be compacted exactly under the
  second condition. The \<open>reconstructible\<close> flag that the audit maintains takes no part in either decision.
\<close>

theorem screen_diff_safety_is_ground_boundary:
  "(history_tail_is_screen_diff_safe lib common tail \<longleftrightarrow>
      (\<nexists>c r. Resize c r \<in> set tail) \<and>
      snd (vte_advance lib (tokenizer_after lib (common @ tail)) [0x7e]) = [Print 0x7e]) \<and>
   (history_ends_at_ground lib ops \<longleftrightarrow> snd (vte_advance lib (tokenizer_after lib ops) [0x7e]) = [Print 0x7e])"
  by (simp add: tail_is_safe_iff history_ends_at_ground_iff at_ground_def)

subsection \<open>What any diff does\<close>

lemma common_bytes_take: "take (common_bytes a b) a = take (common_bytes a b) b"
  by (induction a b rule: common_bytes.induct) simp_all

lemma split_common_stream:
  assumes "split_common_history target delivered = (common, target_tail, delivered_tail)"
  shows "op_stream (common @ target_tail) = op_stream target \<and> op_stream (common @ delivered_tail) = op_stream delivered"
  using assms
proof (induction target delivered arbitrary: common target_tail delivered_tail rule: split_common_history.induct)
  case (1 t target d delivered)
  show ?case
  proof (cases "t = d")
    case True
    with 1 show ?thesis by (auto split: prod.splits)
  next
    case False
    have cut: "map ByteTok (take n x) @ map ByteTok (drop n x) = map ByteTok x" for n x
      by (simp flip: map_append)
    show ?thesis
    proof (cases "is_HostBytes t \<and> is_HostBytes d")
      case True
      then obtain tb db where b: "t = HostBytes tb" "d = HostBytes db" by blast
      let ?n = "common_bytes tb db"
      have "map ByteTok (take ?n tb) @ map ByteTok (drop ?n db) = map ByteTok db"
        unfolding common_bytes_take by (rule cut)
      with "1.prems" False cut [of ?n tb] show ?thesis
        by (auto simp: b Let_def simp flip: append_assoc)
    next
      case False
      with \<open>t \<noteq> d\<close> "1.prems" show ?thesis by (cases t; cases d) auto
    qed
  qed
qed auto

text \<open>
  The contract of a screen diff, for a notion of what an emulator displays: written to an emulator that is at its ground
  state and has the right size, it displays what the other one does.
\<close>

definition vt_redraws :: "('p, 'v) term_lib \<Rightarrow> ('p \<Rightarrow> 'd) \<Rightarrow> bool" where
  "vt_redraws lib display \<longleftrightarrow>
     (\<forall>columns rows columns' rows' xs ys vp.
        viewport_walk \<lparr>vp_columns = ucast columns, vp_rows = ucast rows\<rparr> xs = Some vp \<longrightarrow>
        viewport_walk \<lparr>vp_columns = ucast columns', vp_rows = ucast rows'\<rparr> ys = Some vp \<longrightarrow>
        at_ground lib xs \<longrightarrow> at_ground lib ys \<longrightarrow>
        display (vt_process lib (replay lib (vt_new lib rows columns) xs)
            (vt_state_diff lib (replay lib (vt_new lib rows' columns') ys) (replay lib (vt_new lib rows columns) xs))) =
          display (replay lib (vt_new lib rows' columns') ys))"

lemma vt_redrawsD:
  assumes "vt_redraws lib display"
    and "viewport_walk \<lparr>vp_columns = ucast columns, vp_rows = ucast rows\<rparr> xs = Some vp"
    and "viewport_walk \<lparr>vp_columns = ucast columns', vp_rows = ucast rows'\<rparr> ys = Some vp"
    and "at_ground lib xs" "at_ground lib ys"
  shows "display (vt_process lib (replay lib (vt_new lib rows columns) xs)
      (vt_state_diff lib (replay lib (vt_new lib rows' columns') ys) (replay lib (vt_new lib rows columns) xs))) =
    display (replay lib (vt_new lib rows' columns') ys)"
  using assms unfolding vt_redraws_def by blast

lemma screen_diff_redraws:
  assumes "vt_streaming lib" "vt_redraws lib display" "rts_wf target" "rts_wf delivered"
    and "replayable lib target" "replayable lib delivered" "rts_viewport target = rts_viewport delivered"
    and "diverged_histories_are_screen_diff_safe lib
      (canonical_operations (rts_history target)) (canonical_operations (rts_history delivered))"
  shows "display (vt_process lib (rts_parser delivered) (vt_state_diff lib (rts_parser target) (rts_parser delivered))) =
    display (rts_parser target)"
proof -
  obtain common t d where split: "split_common_history (canonical_operations (rts_history target))
      (canonical_operations (rts_history delivered)) = (common, t, d)" by (metis prod.collapse)
  then have stream: "op_stream (common @ t) = op_stream (rts_ops target)" "op_stream (common @ d) = op_stream (rts_ops delivered)"
    using split_common_stream by (fastforce simp: canonical_operations_def)+
  have ground: "at_ground lib (common @ t)" "at_ground lib (common @ d)"
    using assms(8) split by (simp_all add: diverged_histories_are_screen_diff_safe_def tail_is_safe_iff)
  have parser: "rts_parser st = replay lib (vt_new lib (rts_initial_rows st) (rts_initial_columns st)) xs"
    "viewport_walk (rts_initial st) xs = Some (rts_viewport st)"
    if "replayable lib st" "rts_wf st" "op_stream xs = op_stream (rts_ops st)" for st and xs
    using that assms(1) by (simp_all add: replayable_def replay_stream rts_wf_def walk_stream)
  from vt_redrawsD [OF assms(2) parser(2) [OF assms(6,4) stream(2)] _ ground(2,1)] parser(2) [OF assms(5,3) stream(1)] assms(7)
  show ?thesis
    unfolding parser(1) [OF assms(5,3) stream(1)] parser(1) [OF assms(6,4) stream(2)] by metis
qed

text \<open>
  Whatever branch \<open>diff_from\<close> takes between two states that were never compacted, its batch leads from the delivered
  emulator to one that displays the target, and to the target itself if its stream extends the delivered one.
\<close>

lemma diff_carries:
  assumes "vt_streaming lib" "rts_wf target" "rts_wf delivered" "replayable lib target" "replayable lib delivered"
    and "rts_initial_columns delivered = rts_initial_columns target" "rts_initial_rows delivered = rts_initial_rows target"
    and "diff_from lib target delivered = Inr diff"
  defines "is \<equiv> instructions (into_instructions diff)" and "vp \<equiv> rts_viewport delivered"
  shows "check_viewports is = Inr () \<and> resizes_change vp is \<and>
    (prefix (op_stream (rts_ops delivered)) (op_stream (rts_ops target)) \<longrightarrow>
       replay lib (rts_parser delivered) (batch_ops vp is) = rts_parser target) \<and>
    (vt_redraws lib display \<longrightarrow> display (replay lib (rts_parser delivered) (batch_ops vp is)) = display (rts_parser target))"
proof -
  let ?T = "canonical_operations (rts_history target)" and ?D = "canonical_operations (rts_history delivered)"
  define echo where "echo = (if rts_echo_ack target \<noteq> rts_echo_ack delivered
    then (case rts_echo_ack target of None \<Rightarrow> [] | Some v \<Rightarrow> [echo_instruction v]) else [])"
  have echo: "check_viewports (echo @ js) = check_viewports js" "batch_ops vp (echo @ js) = batch_ops vp js"
    "resizes_change vp (echo @ js) = resizes_change vp js" for js
    by (simp_all add: echo_def echo_batch del: check_viewports.simps batch_ops.simps resizes_change.simps split: option.splits)
  show ?thesis
  proof (cases "history_suffix_start ?T ?D")
    case (Inr found)
    then obtain k off where found: "history_suffix_start ?T ?D = Inr (k, off)" by (cases found) simp
    obtain S where S: "suffix_instructions (drop k ?T) off = concat (map (suffix_instruction 0) S)"
      and stream: "op_stream (rts_ops target) = op_stream (rts_ops delivered) @ op_stream S" and "HostBytes [] \<notin> set S"
      using suffix_found [OF assms(2) found] .
    have batch: "is = echo @ concat (map (suffix_instruction 0) S)"
      using assms(8) found by (auto simp: diff_from_def S echo_def is_def split: if_splits option.splits)
    have "viewport_walk vp S = Some (rts_viewport target)"
      using assms(2,3,6,7) by (simp add: rts_wf_def walk_stream stream vp_def)
    from suffix_batch [OF \<open>HostBytes [] \<notin> set S\<close> this] have "check_viewports is = Inr ()" "batch_ops vp is = S" "resizes_change vp is"
      by (simp_all add: batch echo)
    moreover have "replay lib (rts_parser delivered) S = rts_parser target"
      using assms(1,4-7) by (simp add: replayable_def replay_stream stream)
    ultimately show ?thesis by simp
  next
    case (Inl e)
    let ?v = "vt_state_diff lib (rts_parser target) (rts_parser delivered)"
    have safe: "rts_viewport target = rts_viewport delivered" "diverged_histories_are_screen_diff_safe lib ?T ?D"
      and batch: "is = echo @ (if ?v \<noteq> [] then [host_bytes_instruction ?v] else [])"
      using assms(8) Inl by (auto simp: diff_from_def echo_def is_def Let_def split: if_splits option.splits)
    have "\<not> prefix (op_stream (rts_ops delivered)) (op_stream (rts_ops target))"
      using suffix_exists [OF assms(2,3)] Inl by auto
    moreover have "check_viewports is = Inr ()" "resizes_change vp is" "batch_ops vp is = (if ?v \<noteq> [] then [HostBytes ?v] else [])"
      by (simp_all add: batch echo host_bytes_instruction_def instruction_ops_def)
    moreover have "vt_process lib (rts_parser delivered) [] = rts_parser delivered" using assms(1) by (simp add: vt_streaming_def)
    ultimately show ?thesis
      using screen_diff_redraws [OF assms(1) _ assms(2-5) safe] by (metis replay.simps(1,2))
  qed
qed

subsection \<open>Instances\<close>

text \<open>
  An emulator that records its input: its state is the size and the bytes processed so far. It displays what follows
  the last form feed, and its screen diff starts a new page.
\<close>

definition last_page :: "bytes \<Rightarrow> bytes" where
  "last_page bs = rev (takeWhile (\<lambda>b. b \<noteq> 0x0c) (rev bs))"

definition example_terminal :: "((u16 \<times> u16) \<times> bytes, unit) term_lib" where
  "example_terminal =
     \<lparr>vt_new = (\<lambda>rows columns. ((rows, columns), [])),
      vt_process = (\<lambda>(size, seen) bytes. (size, seen @ bytes)),
      vt_set_size = (\<lambda>(_, seen) rows columns. ((rows, columns), seen)),
      vt_state_formatted = snd,
      vt_state_diff = (\<lambda>(_, seen) _. 0x0c # last_page seen),
      vte_new = (),
      vte_advance = (\<lambda>_ bytes. ((), map (\<lambda>b. Print (ucast b)) bytes))\<rparr>"

lemma example_terminal_streaming: "vt_streaming example_terminal"
  by (auto simp: vt_streaming_def example_terminal_def)

lemma last_page_new: "last_page (bs @ 0x0c # last_page bs') = last_page bs'"
proof -
  have "0x0c \<notin> set (last_page bs')" by (auto simp: last_page_def dest: set_takeWhileD)
  then have "takeWhile (\<lambda>b. b \<noteq> 0x0c) (rev (last_page bs') @ 0x0c # rev bs) = rev (last_page bs')"
    by (subst takeWhile_append2) auto
  then show ?thesis by (simp add: last_page_def [of "bs @ _"])
qed

lemma example_terminal_size:
  "viewport_walk \<lparr>vp_columns = ucast columns, vp_rows = ucast rows\<rparr> ops = Some vp \<Longrightarrow>
   fst p = (rows, columns) \<Longrightarrow>
   (ucast (fst (fst (replay example_terminal p ops))), ucast (snd (fst (replay example_terminal p ops)))) = (vp_rows vp, vp_columns vp)"
proof (induction example_terminal p ops arbitrary: columns rows rule: replay.induct)
  case (3 p c r ops)
  then show ?case
    by (cases p) (auto simp: Let_def example_terminal_def split: if_splits)
qed (auto simp: example_terminal_def split: prod.splits)

lemma example_terminal_redraws: "vt_redraws example_terminal (map_prod id last_page)"
  unfolding vt_redraws_def
proof (intro allI impI)
  fix columns rows columns' rows' :: u16 and xs ys vp
  let ?p = "replay example_terminal (vt_new example_terminal rows columns) xs"
  let ?q = "replay example_terminal (vt_new example_terminal rows' columns') ys"
  assume walks: "viewport_walk \<lparr>vp_columns = ucast columns, vp_rows = ucast rows\<rparr> xs = Some vp"
    "viewport_walk \<lparr>vp_columns = ucast columns', vp_rows = ucast rows'\<rparr> ys = Some vp"
  obtain a seen b seen' where pq: "?p = (a, seen)" "?q = (b, seen')" by (metis prod.collapse)
  have new: "fst (vt_new example_terminal r c) = (r, c)" for r c by (simp add: example_terminal_def)
  have inj: "(ucast x :: u64) = ucast y \<Longrightarrow> x = y" for x y :: u16 by (metis ucast_u16_u64_u16)
  have "a = b"
    using example_terminal_size [OF walks(1) new] example_terminal_size [OF walks(2) new] pq inj by (simp add: prod_eq_iff)
  then show "map_prod id last_page (vt_process example_terminal ?p (vt_state_diff example_terminal ?q ?p)) =
      map_prod id last_page ?q"
    unfolding pq by (simp add: example_terminal_def last_page_new)
qed

definition example_state :: "((u16 \<times> u16) \<times> bytes) remote_terminal_state" where
  "example_state =
     \<lparr>rts_initial_columns = 80, rts_initial_rows = 24, rts_parser = ((24, 80), []),
      rts_history = history_default, rts_viewport = \<lparr>vp_columns = 80, vp_rows = 24\<rparr>, rts_echo_ack = None\<rparr>"

lemma example_state_new: "remote_state_new example_terminal 80 24 = Inr example_state"
  by (simp add: remote_state_new_def example_state_def example_terminal_def validate_viewport_def u16_try_from_def)

abbreviation example_output :: instruction_batch where
  "example_output \<equiv> InstructionBatch [host_bytes_instruction [104, 105], echo_instruction 4]"

definition example_state' :: "((u16 \<times> u16) \<times> bytes) remote_terminal_state" where
  "example_state' = snd (run (remote_state_apply example_terminal) example_state [example_output])"

lemma example_state'_eq:
  "remote_state_apply example_terminal example_state example_output = (Inr (),
     \<lparr>rts_initial_columns = 80, rts_initial_rows = 24, rts_parser = ((24, 80), [104, 105]),
      rts_history = \<lparr>sh_tail = Some (HistoryNode None (HostBytes [104, 105])), sh_operation_count = 1,
        sh_retained_bytes = 2\<rparr>,
      rts_viewport = \<lparr>vp_columns = 80, vp_rows = 24\<rparr>, rts_echo_ack = Some 4\<rparr>)"
  by (simp add: remote_state_apply_def host_bytes_instruction_def map_filter_simps validate_history_growth_def
      history_growth_def usize_checked_add_def usize_limit_def validate_history_size_def example_state_def
      history_default_def apply_instruction_def apply_host_bytes_def history_push_def example_terminal_def
      MAX_RETAINED_HOST_BYTES_def MAX_RETAINED_OPERATIONS_def)

theorem state_history_bounded_witness:
  "rts_ops example_state' = [HostBytes [104, 105]] \<and> rts_echo_ack example_state' = Some 4 \<and>
   remote_state_clone example_terminal example_state' \<noteq> None"
proof -
  have "remote_state_clone example_terminal example_state' \<noteq> None"
    using state_history_bounded [OF example_state_new, of example_state "[]" example_state' "[example_output]"]
    by (simp add: example_state'_def)
  then show ?thesis
    by (simp add: example_state'_def example_state'_eq history_operations_def)
qed

theorem state_apply_atomic_witness:
  "remote_state_apply example_terminal example_state (InstructionBatch [echo_instruction 4, echo_instruction 3])
     = (Inl EchoAckRegression, example_state)"
proof -
  let ?batch = "InstructionBatch [echo_instruction 4, echo_instruction 3]"
  have "fst (remote_state_apply example_terminal example_state ?batch) = Inl EchoAckRegression"
    by (simp add: remote_state_apply_def map_filter_simps example_state_def)
  then show ?thesis
    using state_apply_atomic [of example_terminal example_state ?batch] by (simp add: prod_eq_iff)
qed

theorem clone_exact_witness:
  "remote_state_clone example_terminal example_state' = Some example_state'"
  using clone_exact [OF example_terminal_streaming example_state_new, of "[example_output]"]
  by (simp add: example_state'_def host_bytes_instruction_def MAX_RETAINED_HOST_BYTES_def
      MAX_RETAINED_OPERATIONS_def)


end
