(* ===== verification/Replay_Window.thy ===== *)
theory Replay_Window
  imports Prelude
begin

section \<open>The replay window (\<open>ReplayWindow\<close> in \<open>crates/ferrumtty-session/src/lib.rs\<close>)\<close>

text \<open>
  Packet counters are admitted through a 128-bit sliding bitmap below the highest counter seen. The
  abstract specification is a set of accepted counters: a counter is accepted exactly when it is new and
  lies less than 128 below the highest one. The bitmap refines it.
\<close>

definition REPLAY_WINDOW_BITS :: u64 where "REPLAY_WINDOW_BITS = 128"

record replay_window =
  rw_highest :: "u64 option"
  rw_seen :: u128

definition replay_window_default :: replay_window where
  "replay_window_default = \<lparr>rw_highest = None, rw_seen = 0\<rparr>"

definition window_accept :: "replay_window \<Rightarrow> u64 \<Rightarrow> bool \<times> replay_window" where
  "window_accept w counter =
     (case rw_highest w of
        None \<Rightarrow> (True, w\<lparr>rw_highest := Some counter, rw_seen := 1\<rparr>)
      | Some highest \<Rightarrow>
          if counter > highest then
            let advance = counter - highest;
                seen = (if advance \<ge> REPLAY_WINDOW_BITS then 1
                        else push_bit (unat advance) (rw_seen w) OR 1)
            in (True, w\<lparr>rw_seen := seen, rw_highest := Some counter\<rparr>)
          else
            let age = highest - counter in
            if age \<ge> REPLAY_WINDOW_BITS then (False, w)
            else
              let bit = push_bit (unat age) 1 in
              if rw_seen w AND bit \<noteq> 0 then (False, w)
              else (True, w\<lparr>rw_seen := rw_seen w OR bit\<rparr>))"

subsection \<open>Abstract specification\<close>

text \<open>The abstract window is the set of counters accepted so far.\<close>

definition spec_accept :: "u64 set \<Rightarrow> u64 \<Rightarrow> bool" where
  "spec_accept A counter \<longleftrightarrow> counter \<notin> A \<and> (A \<noteq> {} \<longrightarrow> unat (Max A) < unat counter + 128)"

definition spec_step :: "u64 set \<Rightarrow> u64 \<Rightarrow> bool \<times> u64 set" where
  "spec_step A counter = (spec_accept A counter, if spec_accept A counter then insert counter A else A)"

text \<open>The refinement relation: the highest counter and the bits of the last 128 counters.\<close>

definition window_rel :: "replay_window \<Rightarrow> u64 set \<Rightarrow> bool" where
  "window_rel w A \<longleftrightarrow> finite A \<and>
     (case rw_highest w of
        None \<Rightarrow> A = {} \<and> rw_seen w = 0
      | Some h \<Rightarrow> h \<in> A \<and> (\<forall>a \<in> A. a \<le> h) \<and>
          (\<forall>i < 128. bit (rw_seen w) i \<longleftrightarrow> i \<le> unat h \<and> of_nat (unat h - i) \<in> A))"

lemma window_rel_default: "window_rel replay_window_default {}"
  by (simp add: window_rel_def replay_window_default_def)

lemma window_rel_max:
  "window_rel w A \<Longrightarrow> rw_highest w = Some h \<Longrightarrow> A \<noteq> {} \<and> Max A = h \<and> finite A"
  by (auto simp: window_rel_def intro!: Max_eqI)

lemma of_nat_unat_mem: "of_nat (unat (a :: u64)) = a"
  by simp

lemma bit_128_less: "bit (w :: u128) n \<Longrightarrow> n < 128"
  using bit_imp_le_length [of w n] by simp

lemma and_push_bit_1: "(w AND push_bit n (1 :: u128) \<noteq> 0) \<longleftrightarrow> bit w n"
proof
  assume "bit w n"
  then have "bit (w AND push_bit n 1) n"
    by (auto simp: bit_simps dest: bit_128_less)
  then show "w AND push_bit n 1 \<noteq> 0" by auto
next
  show "w AND push_bit n 1 \<noteq> 0 \<Longrightarrow> bit w n"
    by (rule ccontr, erule notE, rule bit_word_eqI) (auto simp: bit_simps)
qed

lemma and_exp_eq_0: "(w :: u128) AND 2 ^ n = 0 \<longleftrightarrow> \<not> bit w n"
  using and_push_bit_1 [of w n] by (auto simp: push_bit_eq_mult)

lemma unat_diff: "(c :: u64) \<le> h \<Longrightarrow> unat (h - c) = unat h - unat c"
  by (simp add: unat_sub word_le_nat_alt)

lemma counter_of_nat: "n \<le> unat (h :: u64) \<Longrightarrow> (of_nat n :: u64) = c \<longleftrightarrow> n = unat c"
proof -
  assume "n \<le> unat h"
  then have "unat (of_nat n :: u64) = n"
    using unat_u64_less [of h] by (simp add: unat_of_nat)
  then show ?thesis by (metis of_nat_unat_mem)
qed

lemma counter_above: "n \<le> unat (h :: u64) \<Longrightarrow> \<forall>a \<in> A. a \<le> m \<Longrightarrow> unat m < n \<Longrightarrow> (of_nat n :: u64) \<notin> A"
  by (metis counter_of_nat linorder_not_less word_le_nat_alt)

text \<open>Moving ahead by \<open>d\<close> shifts the bitmap and marks the new highest counter.\<close>

lemma ahead_bits:
  assumes "seen = (if c - h \<ge> 128 then 1 else push_bit (unat (c - h)) old OR 1)" "unat (c - h :: u64) = d" "0 < d" "i < 128"
  shows "bit (seen :: u128) i \<longleftrightarrow> i = 0 \<or> d \<le> i \<and> bit old (i - d)"
proof (cases "d < 128")
  case True
  then have "seen = push_bit d old OR 1"
    using assms(1,2) by (simp add: word_le_nat_alt)
  with assms(3,4) show ?thesis by (auto simp: bit_simps)
next
  case False
  then have "seen = 1" using assms(1,2) by (simp add: word_le_nat_alt)
  with assms(4) False show ?thesis by (auto simp: bit_1_iff)
qed

lemma accept_ahead:
  assumes rel: "window_rel w A" and h: "rw_highest w = Some h" and gt: "h < c"
    and seen: "seen = (if c - h \<ge> 128 then 1 else push_bit (unat (c - h)) (rw_seen w) OR 1)"
  shows "spec_accept A c \<and> window_rel (w\<lparr>rw_seen := seen, rw_highest := Some c\<rparr>) (insert c A)"
proof -
  from rel h have A: "\<forall>a \<in> A. a \<le> h" "finite A" "h \<in> A"
    and bits: "\<And>i. i < 128 \<Longrightarrow> bit (rw_seen w) i \<longleftrightarrow> i \<le> unat h \<and> of_nat (unat h - i) \<in> A"
    by (auto simp: window_rel_def)
  define d where "d = unat c - unat h"
  have d: "0 < d" "unat c = unat h + d" "unat (c - h) = d"
    using gt unat_diff [OF less_imp_le [OF gt]] by (auto simp: d_def word_less_nat_alt)
  note old = ahead_bits [OF seen d(3,1)]
  have "bit seen i \<longleftrightarrow> i \<le> unat c \<and> of_nat (unat c - i) \<in> insert c A" if "i < 128" for i
  proof -
    consider "i = 0" | "0 < i" "i < d" | "0 < i" "d \<le> i" by linarith
    then show ?thesis
    proof cases
      case 1
      with old [of 0] show ?thesis by simp
    next
      case 2
      then have "(of_nat (unat c - i) :: u64) \<notin> A"
        using d counter_above [of "unat c - i" c A h] A by simp
      with 2 that d show ?thesis
        using counter_of_nat [of "unat c - i" c c] by (auto simp: old)
    next
      case 3
      with that d have "unat c - i = unat h - (i - d)" "i \<le> unat c \<longleftrightarrow> i - d \<le> unat h" "i - d < 128" by auto
      with 3 that d show ?thesis
        using counter_of_nat [of "unat c - i" c c] by (auto simp: old bits)
    qed
  qed
  moreover have "c \<notin> A" using A gt by (auto simp: linorder_not_less [symmetric])
  moreover have "unat (Max A) < unat c + 128"
    using window_rel_max [OF rel h] d by simp
  ultimately show ?thesis
    using A gt by (auto simp: spec_accept_def window_rel_def)
qed

lemma accept_behind:
  assumes rel: "window_rel w A" and h: "rw_highest w = Some h" and le: "c \<le> h"
  shows "(unat (h - c) < 128 \<and> \<not> bit (rw_seen w) (unat (h - c)) \<longleftrightarrow> spec_accept A c) \<and>
    (spec_accept A c \<longrightarrow> window_rel (w\<lparr>rw_seen := rw_seen w OR push_bit (unat (h - c)) 1\<rparr>) (insert c A))"
proof -
  from rel h have A: "\<forall>a \<in> A. a \<le> h" "finite A" "h \<in> A"
    and bits: "\<And>i. i < 128 \<Longrightarrow> bit (rw_seen w) i \<longleftrightarrow> i \<le> unat h \<and> of_nat (unat h - i) \<in> A"
    by (auto simp: window_rel_def)
  define d where "d = unat h - unat c"
  have d: "unat (h - c) = d" "unat h = unat c + d"
    using le by (auto simp: d_def unat_diff word_le_nat_alt)
  have "bit (rw_seen w) d \<longleftrightarrow> c \<in> A" if "d < 128"
    using bits [OF that] d by simp
  moreover have "unat (Max A) < unat c + 128 \<longleftrightarrow> d < 128" "A \<noteq> {}"
    using window_rel_max [OF rel h] d by auto
  ultimately have acc: "d < 128 \<and> \<not> bit (rw_seen w) d \<longleftrightarrow> spec_accept A c"
    by (auto simp: spec_accept_def)
  have "bit (rw_seen w OR push_bit d 1) i \<longleftrightarrow> i \<le> unat h \<and> of_nat (unat h - i) \<in> insert c A"
    if "i < 128" "d < 128" for i
  proof -
    have "of_nat (unat h - i) = c \<longleftrightarrow> unat h - i = unat c"
      by (rule counter_of_nat [of _ h]) simp
    moreover have "i \<le> unat h \<Longrightarrow> unat h - i = unat c \<longleftrightarrow> i = d" using d by auto
    moreover have "bit (push_bit d (1 :: u128)) i \<longleftrightarrow> i = d" using that by (auto simp: bit_simps)
    moreover have "d \<le> unat h" using d by simp
    ultimately show ?thesis using bits [OF that(1)] by (auto simp: bit_or_iff)
  qed
  with acc A h le rel show ?thesis
    by (auto simp: d window_rel_def)
qed

lemma window_accept_refines:
  assumes "window_rel w A"
  shows "fst (window_accept w c) = fst (spec_step A c) \<and>
    window_rel (snd (window_accept w c)) (snd (spec_step A c))"
proof (cases "rw_highest w")
  case None
  have "bit (1 :: u128) i \<longleftrightarrow> i \<le> unat c \<and> of_nat (unat c - i) = c" for i
    using counter_of_nat [of "unat c - i" c c] by (auto simp: bit_1_iff)
  with None assms show ?thesis
    by (auto simp: window_accept_def window_rel_def spec_step_def spec_accept_def)
next
  case (Some h)
  show ?thesis
  proof (cases "h < c")
    case True
    with accept_ahead [OF assms Some True refl] Some show ?thesis
      by (simp add: window_accept_def spec_step_def REPLAY_WINDOW_BITS_def Let_def)
  next
    case False
    then have "c \<le> h" by simp
    from accept_behind [OF assms Some this] Some False assms show ?thesis
      by (auto simp: window_accept_def spec_step_def REPLAY_WINDOW_BITS_def Let_def and_exp_eq_0
          word_le_nat_alt)
  qed
qed

text \<open>The accepted counters of a run are exactly those of the specification.\<close>

lemma window_run_refines:
  "window_rel w A \<Longrightarrow> fst (run window_accept w cs) = fst (run spec_step A cs)"
proof (induction cs arbitrary: w A)
  case (Cons c cs)
  from window_accept_refines [OF Cons.prems, of c] Cons.IH show ?case
    by (simp add: run_Cons del: run.simps(2))
qed simp

lemma spec_step_set: "snd (spec_step A c) \<subseteq> insert c A" "finite A \<Longrightarrow> finite (snd (spec_step A c))"
  by (auto simp: spec_step_def)

lemma spec_step_accepted:
  "fst (spec_step A c) \<longleftrightarrow> spec_accept A c" "A \<subseteq> snd (spec_step A c)"
  "spec_accept A c \<Longrightarrow> c \<in> snd (spec_step A c)"
  by (auto simp: spec_step_def)

lemma spec_run_set:
  "finite A \<Longrightarrow> snd (run spec_step A cs) \<subseteq> A \<union> set cs \<and> finite (snd (run spec_step A cs))"
proof (induction cs arbitrary: A)
  case (Cons x xs)
  from Cons.IH [OF spec_step_set(2) [OF Cons.prems, of x]] spec_step_set(1) [of A x] show ?case
    by (auto simp: run_Cons simp del: run.simps(2))
qed simp

lemma spec_run_accepted:
  "i < length cs \<Longrightarrow> fst (run spec_step A cs) ! i \<Longrightarrow> cs ! i \<notin> A \<union>
     {cs ! j |j. j < i \<and> fst (run spec_step A cs) ! j}"
proof (induction cs arbitrary: A i)
  case (Cons c cs)
  let ?A = "snd (spec_step A c)"
  show ?case
  proof (cases i)
    case 0
    with Cons.prems show ?thesis
      by (auto simp: run_Cons spec_step_accepted spec_accept_def simp del: run.simps(2))
  next
    case (Suc k)
    have *: "cs ! k \<notin> ?A \<union> {cs ! j |j. j < k \<and> fst (run spec_step ?A cs) ! j}"
      using Cons.prems Suc by (intro Cons.IH) (auto simp: run_Cons simp del: run.simps(2))
    have "cs ! k \<noteq> (c # cs) ! j" if "j < i" "fst (run spec_step A (c # cs)) ! j" for j
      using * that Suc
      using spec_step_accepted [of A c]
      by (cases j) (auto simp: run_Cons simp del: run.simps(2))
    with * Suc show ?thesis
      using spec_step_accepted(2) [of A c] by auto
  qed
qed simp

text \<open>
  C16. Replay protection. Over any sequence of packet counters, the bitmap window answers exactly as
  the set of accepted counters does (new, and less than 128 below the highest accepted one), so no
  counter is ever accepted twice, and a counter above every earlier one is always accepted.
\<close>

theorem replay_window_sound:
  "fst (run window_accept replay_window_default cs) = fst (run spec_step {} cs) \<and>
   (\<forall>i j. i < j \<longrightarrow> j < length cs \<longrightarrow> cs ! i = cs ! j \<longrightarrow>
      \<not> (fst (run window_accept replay_window_default cs) ! i \<and>
         fst (run window_accept replay_window_default cs) ! j)) \<and>
   (\<forall>c. (\<forall>d \<in> set cs. d < c) \<longrightarrow> fst (run window_accept replay_window_default (cs @ [c])) ! length cs)"
proof (intro conjI allI impI)
  show eq: "fst (run window_accept replay_window_default cs) = fst (run spec_step {} cs)"
    by (rule window_run_refines [OF window_rel_default])
  fix i j assume ij: "i < j" "j < length cs" "cs ! i = cs ! j"
  show "\<not> (fst (run window_accept replay_window_default cs) ! i \<and>
         fst (run window_accept replay_window_default cs) ! j)"
    using spec_run_accepted [of j cs "{}"] ij by (auto simp: eq)
next
  fix c assume c: "\<forall>d \<in> set cs. d < c"
  note sub = spec_run_set
  let ?A = "snd (run spec_step {} cs)"
  have "spec_accept ?A c"
  proof (cases "?A = {}")
    case False
    with sub [of "{}" cs] have "Max ?A \<in> set cs" using Max_in [of ?A] by blast
    with c have "Max ?A < c" by blast
    then show ?thesis using sub [of "{}" cs] c by (auto simp: spec_accept_def word_less_nat_alt)
  qed (simp add: spec_accept_def)
  then show "fst (run window_accept replay_window_default (cs @ [c])) ! length cs"
    unfolding window_run_refines [OF window_rel_default]
    by (simp add: run_append run_Cons nth_append spec_step_def del: run.simps(2))
qed

theorem replay_window_sound_witness:
  "fst (run window_accept replay_window_default [5, 5]) = [True, False]"
proof -
  let ?r = "fst (run window_accept replay_window_default [5, 5])"
  have "\<not> (?r ! 0 \<and> ?r ! 1)"
    using replay_window_sound [of "[5, 5]"] by (metis One_nat_def length_Cons lessI list.size(3) nth_Cons_0 nth_Cons_Suc)
  moreover have "?r ! 0"
    using replay_window_sound [of "[]"] by (simp add: run_Cons del: run.simps(2))
  ultimately show ?thesis
    by (cases ?r) (simp_all add: run_Cons del: run.simps(2))
qed

end
