(* ===== verification/Session.thy ===== *)
theory Session
  imports Crypto Fragments Messages State_Replay Replay_Window
begin

section \<open>The client side of the protocol (\<open>crates/ferrumtty-session/src/lib.rs\<close>)\<close>

text \<open>
  \<open>ClientProtocol\<close> owns the secure channel, the replay window, the reassembly of server states, the
  history of states it has sent and the history of states it has received. Every \<open>&mut self\<close> method is
  a function that returns its result together with the protocol it leaves behind, on error paths too.
  A panic (a slice out of range, an \<open>expect\<close> that fails, an arithmetic underflow) is the result
  \<open>Inl Panic\<close>, which is not a value of the source's error type; it is proved unreachable. The crates
  below the session are the three fields of \<open>session_lib\<close>.
\<close>

subsection \<open>Model: data\<close>

definition NO_ECHO_TIMESTAMP :: u16 where "NO_ECHO_TIMESTAMP = u16_MAX"
definition MAXIMUM_REASSEMBLED_BYTES :: usize where "MAXIMUM_REASSEMBLED_BYTES = 16 * 1024 * 1024"
definition MAXIMUM_ACTIVE_ASSEMBLIES :: usize where "MAXIMUM_ACTIVE_ASSEMBLIES = 64"
definition MAXIMUM_SENT_STATES :: usize where "MAXIMUM_SENT_STATES = 32"
definition MAXIMUM_RECEIVED_STATES :: usize where "MAXIMUM_RECEIVED_STATES = 1024"
definition DEFAULT_REMOTE_COLUMNS :: u16 where "DEFAULT_REMOTE_COLUMNS = 80"
definition DEFAULT_REMOTE_ROWS :: u16 where "DEFAULT_REMOTE_ROWS = 24"
definition TIMESTAMP_HEADER_BYTES :: usize where "TIMESTAMP_HEADER_BYTES = 4"
definition MINIMUM_FRAGMENT_PLAINTEXT_BYTES :: usize where "MINIMUM_FRAGMENT_PLAINTEXT_BYTES = 14"

record ('k, 'p, 'v) session_lib =
  cipher :: "'k cipher_lib"
  codec :: codec_lib
  terminal :: "('p, 'v) term_lib"

record sent_state =
  ss_state_id :: u64
  ss_instruction_end :: usize

record ('k, 'p) client_protocol =
  secure_channel :: "'k secure_channel"
  next_local_state :: u64
  latest_remote_state :: u64
  latest_peer_timestamp :: "u16 option"
  assemblies :: "(u64, fragment_accumulator) btree_map"
  local_instructions :: "instruction list"
  sent_states :: "sent_state list"
  received_states :: "(u64, 'p remote_terminal_state) btree_map"
  delivered_remote_state :: "'p remote_terminal_state"
  remote_throwaway_floor :: u64
  local_capabilities :: bytes
  remote_capabilities :: bytes
  replay_window :: replay_window

datatype session_error =
    StateExhausted | ShutdownAlreadySent | ShutdownNotAcknowledged | StateHistoryUnavailable
  | UpdateAwaitingAcknowledgement | NoPendingUpdate | ReplayDetected | TooManyActiveAssemblies
  | TooManyRemoteStates | InvalidStateTransition | StateFailed state_error | SealFailed seal_error
  | OpenFailed open_error | FragmentFailed fragment_error | MessageFailed message_error
  | Panic

record received_state =
  rs_packet_counter :: u64
  rs_sent_timestamp :: u16
  rs_echoed_timestamp :: u16
  rs_advances_remote_state :: bool
  rs_update :: state_update

record packet_receipt =
  pr_packet_counter :: u64
  pr_sent_timestamp :: u16
  pr_echoed_timestamp :: u16
  pr_state :: "received_state option"

definition receipt_debug :: "packet_receipt \<Rightarrow> u64 \<times> u16 \<times> u16 \<times> bool" where
  "receipt_debug r =
     (pr_packet_counter r, pr_sent_timestamp r, pr_echoed_timestamp r, pr_state r \<noteq> None)"

definition received_debug ::
    "received_state \<Rightarrow> u64 \<times> u16 \<times> u16 \<times> bool \<times> u64 \<times> u64 \<times> u64 \<times> u64 \<times> usize" where
  "received_debug r =
     (rs_packet_counter r, rs_sent_timestamp r, rs_echoed_timestamp r, rs_advances_remote_state r,
      su_base_state (rs_update r), su_target_state (rs_update r), su_acknowledged_state (rs_update r),
      su_discard_before (rs_update r), length (su_delta (rs_update r)))"

text \<open>\<open>front\<close>, \<open>back\<close> of a deque and \<open>first\<close> of a slice.\<close>

definition deque_front :: "'a list \<Rightarrow> 'a option" where
  "deque_front xs = (case xs of [] \<Rightarrow> None | x # _ \<Rightarrow> Some x)"

definition deque_back :: "'a list \<Rightarrow> 'a option" where
  "deque_back xs = (if xs = [] then None else Some (last xs))"

subsection \<open>Model: sending\<close>

definition client_protocol_new ::
    "('k, 'p, 'v) session_lib \<Rightarrow> session_key \<Rightarrow> ('k, 'p) client_protocol option" where
  "client_protocol_new lib key =
     (case remote_state_new (terminal lib) DEFAULT_REMOTE_COLUMNS DEFAULT_REMOTE_ROWS of
        Inl _ \<Rightarrow> None
      | Inr initial_remote_state \<Rightarrow>
          (case remote_state_clone (terminal lib) initial_remote_state of
             None \<Rightarrow> None
           | Some cloned \<Rightarrow> Some
               \<lparr>secure_channel = secure_channel_new (cipher lib) Client key,
                next_local_state = 1, latest_remote_state = 0, latest_peer_timestamp = None,
                assemblies = [], local_instructions = [],
                sent_states = [\<lparr>ss_state_id = 0, ss_instruction_end = 0\<rparr>],
                received_states = [(0, cloned)],
                delivered_remote_state = initial_remote_state, remote_throwaway_floor = 0,
                local_capabilities = [], remote_capabilities = [],
                replay_window = replay_window_default\<rparr>))"

fun seal_loop ::
    "'k cipher_lib \<Rightarrow> 'k secure_channel \<Rightarrow> fragment list \<Rightarrow> (session_error + bytes list) \<times> 'k secure_channel" where
  "seal_loop lib ch [] = (Inr [], ch)"
| "seal_loop lib ch (f # fs) =
     (case seal_next lib ch (fragment_encode f) of
        (Inl e, ch) \<Rightarrow> (Inl (SealFailed e), ch)
      | (Inr packet, ch) \<Rightarrow>
          (case seal_loop lib ch fs of
             (Inl e, ch) \<Rightarrow> (Inl e, ch)
           | (Inr packets, ch) \<Rightarrow> (Inr (packet # packets), ch)))"

definition seal_fragments ::
    "'k cipher_lib \<Rightarrow> 'k secure_channel \<Rightarrow> bytes \<Rightarrow> u16 \<Rightarrow> u16 option \<Rightarrow> u64 \<Rightarrow>
     (session_error + bytes list) \<times> 'k secure_channel" where
  "seal_fragments lib channel compressed sent_timestamp peer_timestamp state_id =
     (case fragment_split compressed sent_timestamp
             (case peer_timestamp of None \<Rightarrow> NO_ECHO_TIMESTAMP | Some t \<Rightarrow> t) state_id of
        Inl e \<Rightarrow> (Inl (FragmentFailed e), channel)
      | Inr fragments \<Rightarrow> seal_loop lib channel fragments)"

text \<open>The common end of the four builders: compress, split and seal one update.\<close>

definition send_update ::
    "('k, 'p, 'v) session_lib \<Rightarrow> ('k, 'p) client_protocol \<Rightarrow> u16 \<Rightarrow> u64 \<Rightarrow> state_update \<Rightarrow>
     (session_error + bytes list) \<times> ('k, 'p) client_protocol" where
  "send_update lib self sent_timestamp state_id update =
     (case encode_compressed_update (codec lib) update of
        Inl e \<Rightarrow> (Inl (MessageFailed e), self)
      | Inr compressed \<Rightarrow>
          let (result, channel) = seal_fragments (cipher lib) (secure_channel self) compressed
                sent_timestamp (latest_peer_timestamp self) state_id
          in (result, self\<lparr>secure_channel := channel\<rparr>))"

definition build_acknowledgement ::
    "('k, 'p, 'v) session_lib \<Rightarrow> ('k, 'p) client_protocol \<Rightarrow> u16 \<Rightarrow>
     (session_error + bytes list) \<times> ('k, 'p) client_protocol" where
  "build_acknowledgement lib self sent_timestamp =
     (case deque_back (sent_states self) of
        None \<Rightarrow> (Inl StateHistoryUnavailable, self)
      | Some latest \<Rightarrow>
          let local_state = ss_state_id latest in
          (case deque_front (sent_states self) of
             None \<Rightarrow> (Inl StateHistoryUnavailable, self)
           | Some confirmed \<Rightarrow>
               send_update lib self sent_timestamp local_state
                 ((state_update_new local_state local_state (latest_remote_state self))
                    \<lparr>su_discard_before := ss_state_id confirmed,
                     su_capabilities := local_capabilities self\<rparr>)))"

definition build_association ::
    "('k, 'p, 'v) session_lib \<Rightarrow> ('k, 'p) client_protocol \<Rightarrow> u16 \<Rightarrow>
     (session_error + bytes list) \<times> ('k, 'p) client_protocol" where
  "build_association lib self sent_timestamp = build_acknowledgement lib self sent_timestamp"

definition set_local_capabilities :: "('k, 'p) client_protocol \<Rightarrow> bytes \<Rightarrow> ('k, 'p) client_protocol" where
  "set_local_capabilities self capabilities = self\<lparr>local_capabilities := capabilities\<rparr>"

definition has_negotiated_capability :: "('k, 'p) client_protocol \<Rightarrow> u8 \<Rightarrow> bool" where
  "has_negotiated_capability self capability =
     (case (deque_front (local_capabilities self), deque_front (remote_capabilities self)) of
        (Some l, Some r) \<Rightarrow> l AND r AND capability \<noteq> 0
      | _ \<Rightarrow> False)"

definition latest_local_state :: "('k, 'p) client_protocol \<Rightarrow> u64" where
  "latest_local_state self = (case deque_back (sent_states self) of None \<Rightarrow> 0 | Some s \<Rightarrow> ss_state_id s)"

definition has_pending_update :: "('k, 'p) client_protocol \<Rightarrow> bool" where
  "has_pending_update self \<longleftrightarrow> length (sent_states self) > 1"

definition local_shutdown_sent :: "('k, 'p) client_protocol \<Rightarrow> bool" where
  "local_shutdown_sent self =
     (case deque_back (sent_states self) of None \<Rightarrow> False | Some s \<Rightarrow> ss_state_id s = u64_MAX)"

definition local_shutdown_acknowledged :: "('k, 'p) client_protocol \<Rightarrow> bool" where
  "local_shutdown_acknowledged self =
     (case deque_front (sent_states self) of None \<Rightarrow> False | Some s \<Rightarrow> ss_state_id s = u64_MAX)"

definition remote_shutdown_received :: "('k, 'p) client_protocol \<Rightarrow> bool" where
  "remote_shutdown_received self \<longleftrightarrow> latest_remote_state self = u64_MAX"

text \<open>The \<open>while\<close> loop of \<open>limit_sent_states\<close>; \<open>len - 16\<close> is the index of a middle state.\<close>

function limit_states :: "sent_state list \<Rightarrow> sent_state list" where
  "limit_states states =
     (if length states > MAXIMUM_SENT_STATES then
        let removal_index = length states - 16
        in limit_states (take removal_index states @ drop (Suc removal_index) states)
      else states)"
  by pat_completeness auto
termination
  by (relation "measure length") (auto simp: MAXIMUM_SENT_STATES_def)

declare limit_states.simps [simp del]

definition limit_sent_states :: "('k, 'p) client_protocol \<Rightarrow> ('k, 'p) client_protocol" where
  "limit_sent_states self = self\<lparr>sent_states := limit_states (sent_states self)\<rparr>"

definition build_state_update ::
    "('k, 'p, 'v) session_lib \<Rightarrow> ('k, 'p) client_protocol \<Rightarrow> u16 \<Rightarrow> instruction_batch \<Rightarrow> u64 \<Rightarrow>
     (session_error + bytes list) \<times> ('k, 'p) client_protocol" where
  "build_state_update lib self sent_timestamp batch target_state =
     (case deque_back (sent_states self) of
        None \<Rightarrow> (Inl StateHistoryUnavailable, self)
      | Some base \<Rightarrow>
          (case deque_front (sent_states self) of
             None \<Rightarrow> (Inl StateHistoryUnavailable, self)
           | Some confirmed \<Rightarrow>
               (case usize_checked_add (length (local_instructions self)) (length (instructions batch)) of
                  None \<Rightarrow> (Inl StateExhausted, self)
                | Some instruction_end \<Rightarrow>
                    (case send_update lib self sent_timestamp target_state
                            ((state_update_new (ss_state_id base) target_state (latest_remote_state self))
                               \<lparr>su_discard_before := ss_state_id confirmed,
                                su_delta := batch_encode_bytes (codec lib) batch,
                                su_capabilities := local_capabilities self\<rparr>) of
                       (Inl e, self) \<Rightarrow> (Inl e, self)
                     | (Inr packets, self) \<Rightarrow>
                         (Inr packets, limit_sent_states
                            (self\<lparr>local_instructions := local_instructions self @ instructions batch,
                                  sent_states := sent_states self @
                                    [\<lparr>ss_state_id = target_state, ss_instruction_end = instruction_end\<rparr>]\<rparr>))))))"

definition build_update ::
    "('k, 'p, 'v) session_lib \<Rightarrow> ('k, 'p) client_protocol \<Rightarrow> u16 \<Rightarrow> instruction_batch \<Rightarrow>
     (session_error + bytes list) \<times> ('k, 'p) client_protocol" where
  "build_update lib self sent_timestamp batch =
     (let target_state = next_local_state self in
      if target_state = u64_MAX then (Inl StateExhausted, self)
      else
        (case build_state_update lib self sent_timestamp batch target_state of
           (Inl e, self) \<Rightarrow> (Inl e, self)
         | (Inr packets, self) \<Rightarrow> (Inr packets, self\<lparr>next_local_state := target_state + 1\<rparr>)))"

definition build_shutdown ::
    "('k, 'p, 'v) session_lib \<Rightarrow> ('k, 'p) client_protocol \<Rightarrow> u16 \<Rightarrow> instruction_batch \<Rightarrow>
     (session_error + bytes list) \<times> ('k, 'p) client_protocol" where
  "build_shutdown lib self sent_timestamp batch =
     (if local_shutdown_sent self then (Inl ShutdownAlreadySent, self)
      else build_state_update lib self sent_timestamp batch u64_MAX)"

definition build_shutdown_ack ::
    "('k, 'p, 'v) session_lib \<Rightarrow> ('k, 'p) client_protocol \<Rightarrow> u16 \<Rightarrow>
     (session_error + bytes list) \<times> ('k, 'p) client_protocol" where
  "build_shutdown_ack lib self sent_timestamp =
     (if \<not> local_shutdown_acknowledged self then (Inl ShutdownNotAcknowledged, self)
      else send_update lib self sent_timestamp u64_MAX
             ((state_update_new u64_MAX u64_MAX (latest_remote_state self))
                \<lparr>su_discard_before := u64_MAX, su_capabilities := local_capabilities self,
                 su_delta := batch_encode_bytes (codec lib) (InstructionBatch [])\<rparr>))"

definition retransmit_pending ::
    "('k, 'p, 'v) session_lib \<Rightarrow> ('k, 'p) client_protocol \<Rightarrow> u16 \<Rightarrow>
     (session_error + bytes list) \<times> ('k, 'p) client_protocol" where
  "retransmit_pending lib self sent_timestamp =
     (if \<not> has_pending_update self then (Inl NoPendingUpdate, self)
      else
        (case deque_front (sent_states self) of
           None \<Rightarrow> (Inl StateHistoryUnavailable, self)
         | Some confirmed \<Rightarrow>
             (case deque_back (sent_states self) of
                None \<Rightarrow> (Inl StateHistoryUnavailable, self)
              | Some latest \<Rightarrow>
                  if ss_instruction_end confirmed > ss_instruction_end latest \<or>
                     ss_instruction_end latest > length (local_instructions self)
                  then (Inl Panic, self)
                  else
                    let batch = InstructionBatch
                          (take (ss_instruction_end latest - ss_instruction_end confirmed)
                             (drop (ss_instruction_end confirmed) (local_instructions self)))
                    in send_update lib self sent_timestamp (ss_state_id latest)
                         ((state_update_new (ss_state_id confirmed) (ss_state_id latest)
                             (latest_remote_state self))
                            \<lparr>su_discard_before := ss_state_id confirmed,
                             su_delta := batch_encode_bytes (codec lib) batch,
                             su_capabilities := local_capabilities self\<rparr>))))"

subsection \<open>Model: receiving\<close>

definition set_initial_remote_viewport ::
    "('k, 'p, 'v) session_lib \<Rightarrow> ('k, 'p) client_protocol \<Rightarrow> u16 \<Rightarrow> u16 \<Rightarrow>
     (session_error + unit) \<times> ('k, 'p) client_protocol" where
  "set_initial_remote_viewport lib self columns rows =
     (if latest_remote_state self \<noteq> 0 \<or> length (received_states self) \<noteq> 1 then (Inr (), self)
      else
        (case remote_state_new (terminal lib) (max columns 1) (max rows 1) of
           Inl _ \<Rightarrow> (Inr (), self)
         | Inr initial_state \<Rightarrow>
             (case remote_state_clone (terminal lib) initial_state of
                None \<Rightarrow> (Inl Panic, self)
              | Some cloned \<Rightarrow>
                  (Inr (), self\<lparr>received_states := bt_insert 0 cloned (received_states self),
                                delivered_remote_state := initial_state\<rparr>))))"

fun position :: "('a \<Rightarrow> bool) \<Rightarrow> 'a list \<Rightarrow> usize option" where
  "position P [] = None"
| "position P (x # xs) = (if P x then Some 0 else map_option Suc (position P xs))"

definition process_acknowledgement ::
    "('k, 'p) client_protocol \<Rightarrow> u64 \<Rightarrow> (session_error + unit) \<times> ('k, 'p) client_protocol" where
  "process_acknowledgement self acknowledged_state =
     (case position (\<lambda>s. ss_state_id s = acknowledged_state) (sent_states self) of
        None \<Rightarrow> (Inr (), self)
      | Some acknowledged_index \<Rightarrow>
          let self = self\<lparr>sent_states := drop acknowledged_index (sent_states self)\<rparr> in
          (case deque_front (sent_states self) of
             None \<Rightarrow> (Inl Panic, self)
           | Some confirmed \<Rightarrow>
               let confirmed_end = ss_instruction_end confirmed in
               if confirmed_end = 0 then (Inr (), self)
               else if confirmed_end > length (local_instructions self) \<or>
                       (\<exists>s \<in> set (sent_states self). ss_instruction_end s < confirmed_end)
               then (Inl Panic, self)
               else (Inr (), self
                 \<lparr>local_instructions := drop confirmed_end (local_instructions self),
                  sent_states := map (\<lambda>s. s\<lparr>ss_instruction_end := ss_instruction_end s - confirmed_end\<rparr>)
                    (sent_states self)\<rparr>)))"

definition accept_remote_update ::
    "('k, 'p, 'v) session_lib \<Rightarrow> ('k, 'p) client_protocol \<Rightarrow> state_update \<Rightarrow>
     (session_error + bool \<times> state_update) \<times> ('k, 'p) client_protocol" where
  "accept_remote_update lib self update =
     (if map_of (received_states self) (su_target_state update) \<noteq> None then (Inr (False, update), self)
      else if su_discard_before update > su_base_state update \<or>
              su_target_state update \<le> su_base_state update
      then (Inl InvalidStateTransition, self)
      else
        (case map_of (received_states self) (su_base_state update) of
           None \<Rightarrow> (Inr (False, update), self)
         | Some base \<Rightarrow>
             (case remote_state_clone (terminal lib) base of
                None \<Rightarrow> (Inl Panic, self)
              | Some target_state \<Rightarrow>
                  (case decode_instructions (codec lib) update of
                     Inl e \<Rightarrow> (Inl (MessageFailed e), self)
                   | Inr batch \<Rightarrow>
                       (case remote_state_apply (terminal lib) target_state batch of
                          (Inl e, _) \<Rightarrow> (Inl (StateFailed e), self)
                        | (Inr _, target_state) \<Rightarrow>
                            let throwaway_floor = max (remote_throwaway_floor self) (su_discard_before update);
                                self = self\<lparr>received_states :=
                                              bt_retain (\<lambda>state_id. state_id \<ge> throwaway_floor) (received_states self),
                                            remote_throwaway_floor := throwaway_floor\<rparr>
                            in if length (received_states self) \<ge> MAXIMUM_RECEIVED_STATES
                               then (Inl TooManyRemoteStates, self)
                               else
                                 (case remote_state_clone (terminal lib) target_state of
                                    None \<Rightarrow> (Inl Panic, self)
                                  | Some cloned \<Rightarrow>
                                      let self = self\<lparr>received_states :=
                                            bt_insert (su_target_state update) cloned (received_states self)\<rparr>
                                      in if su_target_state update \<le> latest_remote_state self
                                         then (Inr (False, update), self)
                                         else
                                           (case diff_from (terminal lib) target_state (delivered_remote_state self) of
                                              Inl _ \<Rightarrow> (Inr (False, update), self)
                                            | Inr diff \<Rightarrow>
                                                let delivered_update = update
                                                      \<lparr>su_delta := batch_encode_bytes (codec lib) (into_instructions diff)\<rparr>
                                                in (Inr (True, delivered_update), self
                                                     \<lparr>latest_remote_state := su_target_state delivered_update,
                                                      delivered_remote_state := target_state\<rparr>)))))))) "

definition receipt ::
    "authenticated_packet \<Rightarrow> u16 \<Rightarrow> u16 \<Rightarrow> received_state option \<Rightarrow> packet_receipt" where
  "receipt packet sent_timestamp echoed_timestamp state =
     \<lparr>pr_packet_counter = ap_counter packet, pr_sent_timestamp = sent_timestamp,
      pr_echoed_timestamp = echoed_timestamp, pr_state = state\<rparr>"

text \<open>The part of \<open>ingest_packet\<close> after a message is complete.\<close>

definition ingest_message ::
    "('k, 'p, 'v) session_lib \<Rightarrow> ('k, 'p) client_protocol \<Rightarrow> authenticated_packet \<Rightarrow> fragment_header \<Rightarrow> bytes \<Rightarrow>
     (session_error + received_state) \<times> ('k, 'p) client_protocol" where
  "ingest_message lib self packet header compressed =
     (case decode_compressed_update (codec lib) compressed of
        Inl e \<Rightarrow> (Inl (MessageFailed e), self)
      | Inr update \<Rightarrow>
          (case process_acknowledgement self (su_acknowledged_state update) of
             (Inl e, self) \<Rightarrow> (Inl e, self)
           | (Inr _, self) \<Rightarrow>
               (case accept_remote_update lib self update of
                  (Inl e, self) \<Rightarrow> (Inl e, self)
                | (Inr (advances_remote_state, delivered_update), self) \<Rightarrow>
                    let self = (if su_capabilities update \<noteq> []
                                then self\<lparr>remote_capabilities := su_capabilities update\<rparr> else self)
                    in (Inr \<lparr>rs_packet_counter = ap_counter packet,
                             rs_sent_timestamp = fh_sent_timestamp header,
                             rs_echoed_timestamp = fh_echoed_timestamp header,
                             rs_advances_remote_state = advances_remote_state,
                             rs_update = delivered_update\<rparr>, self))))"

text \<open>The part of \<open>ingest_packet\<close> that handles one fragment.\<close>

definition ingest_fragment ::
    "('k, 'p, 'v) session_lib \<Rightarrow> ('k, 'p) client_protocol \<Rightarrow> authenticated_packet \<Rightarrow> fragment \<Rightarrow>
     (session_error + received_state option) \<times> ('k, 'p) client_protocol" where
  "ingest_fragment lib self packet fragment =
     (let header = fr_header fragment; state_id = fh_state_id header in
      if map_of (assemblies self) state_id = None \<and> length (assemblies self) \<ge> MAXIMUM_ACTIVE_ASSEMBLIES
      then (Inl TooManyActiveAssemblies, self)
      else
        let assembly = (case map_of (assemblies self) state_id of
                          None \<Rightarrow> accumulator_new state_id MAXIMUM_REASSEMBLED_BYTES
                        | Some assembly \<Rightarrow> assembly);
            (pushed, assembly) = accumulator_push assembly fragment;
            self = self\<lparr>assemblies := bt_insert state_id assembly (assemblies self)\<rparr>
        in (case pushed of
              Inl e \<Rightarrow> (Inl (FragmentFailed e), self)
            | Inr None \<Rightarrow> (Inr None, self)
            | Inr (Some compressed) \<Rightarrow>
                let self = self\<lparr>assemblies := bt_remove state_id (assemblies self)\<rparr> in
                (case ingest_message lib self packet header compressed of
                   (Inl e, self) \<Rightarrow> (Inl e, self)
                 | (Inr state, self) \<Rightarrow> (Inr (Some state), self))))"

definition ingest_packet ::
    "('k, 'p, 'v) session_lib \<Rightarrow> ('k, 'p) client_protocol \<Rightarrow> bytes \<Rightarrow>
     (session_error + packet_receipt) \<times> ('k, 'p) client_protocol" where
  "ingest_packet lib self packet =
     (case open_packet (cipher lib) (secure_channel self) packet of
        Inl e \<Rightarrow> (Inl (OpenFailed e), self)
      | Inr authenticated \<Rightarrow>
          let (accepted, window) = window_accept (replay_window self) (ap_counter authenticated);
              self = self\<lparr>replay_window := window\<rparr>;
              plaintext = ap_plaintext authenticated
          in if \<not> accepted then (Inl ReplayDetected, self)
             else if length plaintext < TIMESTAMP_HEADER_BYTES
             then (Inl (FragmentFailed HeaderTooShort), self)
             else
               let sent_timestamp = from_be_bytes [plaintext ! 0, plaintext ! 1];
                   echoed_timestamp = from_be_bytes [plaintext ! 2, plaintext ! 3];
                   self = self\<lparr>latest_peer_timestamp := Some sent_timestamp\<rparr>
               in if length plaintext < MINIMUM_FRAGMENT_PLAINTEXT_BYTES
                  then (Inr (receipt authenticated sent_timestamp echoed_timestamp None), self)
                  else
                    (case fragment_parse plaintext of
                       Inl e \<Rightarrow> (Inl (FragmentFailed e), self)
                     | Inr fragment \<Rightarrow>
                         (case ingest_fragment lib self authenticated fragment of
                            (Inl e, self) \<Rightarrow> (Inl e, self)
                          | (Inr state, self) \<Rightarrow>
                              (Inr (receipt authenticated sent_timestamp echoed_timestamp state), self))))"

definition ingest ::
    "('k, 'p, 'v) session_lib \<Rightarrow> ('k, 'p) client_protocol \<Rightarrow> bytes \<Rightarrow>
     (session_error + received_state option) \<times> ('k, 'p) client_protocol" where
  "ingest lib self packet =
     (case ingest_packet lib self packet of
        (Inl e, self) \<Rightarrow> (Inl e, self)
      | (Inr r, self) \<Rightarrow> (Inr (pr_state r), self))"

end
