(* ===== verification/Session_Safety.thy ===== *)
theory Session_Safety
  imports Session
begin

section \<open>Safety of the protocol state\<close>

text \<open>
  The invariant \<open>protocol_wf\<close> of \<open>ClientProtocol\<close> and its preservation by every operation, the machine of
  session events with its bounds, the absence of panics, the contents of the sent-state history and the
  treatment of duplicated packets.
\<close>

subsection \<open>The invariant\<close>

definition sent_wf :: "sent_state list \<Rightarrow> usize \<Rightarrow> bool" where
  "sent_wf states n \<longleftrightarrow>
     states \<noteq> [] \<and> length states \<le> MAXIMUM_SENT_STATES \<and> ss_instruction_end (hd states) = 0 \<and>
     ss_instruction_end (last states) = n \<and> sorted (map ss_instruction_end states)"

definition assemblies_wf :: "(u64, fragment_accumulator) btree_map \<Rightarrow> bool" where
  "assemblies_wf m \<longleftrightarrow>
     bt_wf m \<and> length m \<le> MAXIMUM_ACTIVE_ASSEMBLIES \<and>
     (\<forall>k acc. map_of m k = Some acc \<longrightarrow> accumulator_wf acc \<and> fa_state_id acc = k \<and>
        fa_maximum_message_bytes acc = MAXIMUM_REASSEMBLED_BYTES)"

definition received_wf :: "(u64, 'p remote_terminal_state) btree_map \<Rightarrow> u64 \<Rightarrow> bool" where
  "received_wf m floor_id \<longleftrightarrow>
     bt_wf m \<and> m \<noteq> [] \<and> length m \<le> MAXIMUM_RECEIVED_STATES \<and> (length m = 1 \<longrightarrow> floor_id = 0) \<and>
     (\<forall>k st. map_of m k = Some st \<longrightarrow> rts_wf st \<and> floor_id \<le> k)"

definition window_wf :: "replay_window \<Rightarrow> bool" where
  "window_wf w \<longleftrightarrow> (\<exists>A. window_rel w A)"

definition protocol_wf :: "('k, 'p) client_protocol \<Rightarrow> bool" where
  "protocol_wf self \<longleftrightarrow>
     channel_wf (secure_channel self) \<and> sent_wf (sent_states self) (length (local_instructions self)) \<and>
     assemblies_wf (assemblies self) \<and> received_wf (received_states self) (remote_throwaway_floor self) \<and>
     rts_wf (delivered_remote_state self) \<and> window_wf (replay_window self)"

lemma deque_ends [simp]:
  "xs \<noteq> [] \<Longrightarrow> deque_front xs = Some (hd xs)" "xs \<noteq> [] \<Longrightarrow> deque_back xs = Some (last xs)"
  by (auto simp: deque_front_def deque_back_def neq_Nil_conv)

subsection \<open>Sending\<close>

lemma seal_loop_snd:
  "snd (seal_loop lib ch (f # fs)) =
     (case fst (seal_next lib ch (fragment_encode f)) of
        Inl _ \<Rightarrow> snd (seal_next lib ch (fragment_encode f))
      | Inr _ \<Rightarrow> snd (seal_loop lib (snd (seal_next lib ch (fragment_encode f))) fs))"
  by (simp split: prod.splits sum.splits)

lemma seal_loop_wf: "channel_wf ch \<Longrightarrow> channel_wf (snd (seal_loop lib ch fs))"
  by (induction fs arbitrary: ch)
    (simp_all add: seal_loop_snd seal_next_wf del: seal_loop.simps(2) split: sum.splits)

lemma seal_loop_frame:
  "inbound_cipher (snd (seal_loop lib ch fs)) = inbound_cipher ch"
  "inbound_direction (snd (seal_loop lib ch fs)) = inbound_direction ch"
  by (induction fs arbitrary: ch)
    (simp_all add: seal_loop_snd del: seal_loop.simps(2) split: sum.splits)

lemma seal_loop_no_panic: "fst (seal_loop lib ch fs) \<noteq> Inl Panic"
proof (induction fs arbitrary: ch)
  case (Cons f fs)
  then show ?case by (auto split: prod.splits sum.splits) (metis fst_conv)
qed simp

text \<open>Sending changes the outbound half of the channel and nothing else.\<close>

definition same_but_channel :: "('k, 'p) client_protocol \<Rightarrow> ('k, 'p) client_protocol \<Rightarrow> bool" where
  "same_but_channel self self' \<longleftrightarrow>
     self' = self\<lparr>secure_channel := secure_channel self'\<rparr> \<and>
     (channel_wf (secure_channel self) \<longrightarrow> channel_wf (secure_channel self')) \<and>
     inbound_cipher (secure_channel self') = inbound_cipher (secure_channel self) \<and>
     inbound_direction (secure_channel self') = inbound_direction (secure_channel self)"

lemma send_update_frame:
  "same_but_channel self (snd (send_update lib self t sid u)) \<and> fst (send_update lib self t sid u) \<noteq> Inl Panic"
  using seal_loop_wf [of "secure_channel self" "cipher lib"] seal_loop_frame [of "cipher lib" "secure_channel self"]
    seal_loop_no_panic [of "cipher lib" "secure_channel self"]
  by (auto simp: send_update_def seal_fragments_def same_but_channel_def split: sum.splits prod.splits)
    (metis fst_conv snd_conv)+

lemma same_but_channel_refl [simp]: "same_but_channel self self"
  by (simp add: same_but_channel_def)

lemma same_but_channel_fields:
  assumes "same_but_channel self self'"
  shows "sent_states self' = sent_states self" "local_instructions self' = local_instructions self"
    "latest_remote_state self' = latest_remote_state self" "next_local_state self' = next_local_state self"
    "remote_throwaway_floor self' = remote_throwaway_floor self" "replay_window self' = replay_window self"
    "received_states self' = received_states self" "delivered_remote_state self' = delivered_remote_state self"
    "assemblies self' = assemblies self"
proof -
  have eq: "self' = self\<lparr>secure_channel := secure_channel self'\<rparr>"
    using assms by (simp add: same_but_channel_def)
  show "sent_states self' = sent_states self" by (subst eq) simp
  show "local_instructions self' = local_instructions self" by (subst eq) simp
  show "latest_remote_state self' = latest_remote_state self" by (subst eq) simp
  show "next_local_state self' = next_local_state self" by (subst eq) simp
  show "remote_throwaway_floor self' = remote_throwaway_floor self" by (subst eq) simp
  show "replay_window self' = replay_window self" by (subst eq) simp
  show "received_states self' = received_states self" by (subst eq) simp
  show "delivered_remote_state self' = delivered_remote_state self" by (subst eq) simp
  show "assemblies self' = assemblies self" by (subst eq) simp
qed

lemma same_but_channel_wf: "same_but_channel self self' \<Longrightarrow> protocol_wf self \<Longrightarrow> protocol_wf self'"
  using same_but_channel_fields [of self self'] by (simp add: protocol_wf_def same_but_channel_def)

lemma same_but_channel_step:
  "same_but_channel self self' \<Longrightarrow> protocol_wf self \<Longrightarrow>
   protocol_wf self' \<and> latest_remote_state self \<le> latest_remote_state self'"
  using same_but_channel_wf same_but_channel_fields(3) by (metis order_refl)

lemma sent_ends:
  assumes "protocol_wf self"
  shows "sent_states self \<noteq> []" "deque_front (sent_states self) = Some (hd (sent_states self))"
    "deque_back (sent_states self) = Some (last (sent_states self))"
    "ss_instruction_end (hd (sent_states self)) = 0"
    "ss_instruction_end (last (sent_states self)) = length (local_instructions self)"
  using assms by (simp_all add: protocol_wf_def sent_wf_def)

lemma build_acknowledgement_frame:
  assumes "protocol_wf self"
  shows "same_but_channel self (snd (build_acknowledgement lib self t)) \<and>
    fst (build_acknowledgement lib self t) \<noteq> Inl Panic"
  using sent_ends [OF assms]
  by (simp only: build_acknowledgement_def option.case Let_def) (rule send_update_frame)

lemma build_shutdown_ack_frame:
  "same_but_channel self (snd (build_shutdown_ack lib self t)) \<and> fst (build_shutdown_ack lib self t) \<noteq> Inl Panic"
  by (simp add: build_shutdown_ack_def send_update_frame)

text \<open>Retransmission sends every instruction that is not acknowledged, from the confirmed to the latest state.\<close>

lemma retransmit_pending_eq:
  assumes "protocol_wf self" "has_pending_update self"
  shows "retransmit_pending lib self t =
    send_update lib self t (ss_state_id (last (sent_states self)))
      ((state_update_new (ss_state_id (hd (sent_states self))) (ss_state_id (last (sent_states self)))
          (latest_remote_state self))
        \<lparr>su_discard_before := ss_state_id (hd (sent_states self)),
         su_delta := batch_encode_bytes (codec lib) (InstructionBatch (local_instructions self)),
         su_capabilities := local_capabilities self\<rparr>)"
  using assms(2) sent_ends [OF assms(1)] by (simp add: retransmit_pending_def)

lemma retransmit_pending_frame:
  assumes "protocol_wf self"
  shows "same_but_channel self (snd (retransmit_pending lib self t)) \<and> fst (retransmit_pending lib self t) \<noteq> Inl Panic"
proof (cases "has_pending_update self")
  case True
  then show ?thesis
    by (simp only: retransmit_pending_eq [OF assms True] send_update_frame not_False_eq_True simp_thms)
qed (simp add: retransmit_pending_def)

subsection \<open>The sent-state history\<close>

lemma sorted_map_remove: "sorted (map f xs) \<Longrightarrow> sorted (map f (take i xs @ drop (Suc i) xs))"
proof -
  assume s: "sorted (map f xs)"
  show ?thesis
  proof (cases "i < length xs")
    case True
    then have "map f xs = map f (take i xs) @ f (xs ! i) # map f (drop (Suc i) xs)"
      by (metis id_take_nth_drop list.simps(9) map_append)
    with s show ?thesis by (auto simp: sorted_append)
  qed (use s in simp)
qed

lemma limit_states_props:
  assumes "states \<noteq> []" "sorted (map ss_instruction_end states)"
  shows "limit_states states \<noteq> [] \<and> length (limit_states states) \<le> MAXIMUM_SENT_STATES \<and>
    hd (limit_states states) = hd states \<and> last (limit_states states) = last states \<and>
    sorted (map ss_instruction_end (limit_states states)) \<and> set (limit_states states) \<subseteq> set states"
  using assms
proof (induction states rule: limit_states.induct)
  case (1 states)
  let ?i = "length states - 16"
  let ?s = "take ?i states @ drop (Suc ?i) states"
  show ?case
  proof (cases "length states > MAXIMUM_SENT_STATES")
    case True
    then have len: "32 < length states" by (simp add: MAXIMUM_SENT_STATES_def)
    then have keep: "?s \<noteq> []" "hd ?s = hd states" "last ?s = last states" "set ?s \<subseteq> set states"
      by (auto simp: hd_append dest: in_set_takeD in_set_dropD)
    have step: "limit_states states = limit_states ?s"
      using True by (subst limit_states.simps) (simp add: Let_def)
    from "1.IH" [OF True refl keep(1) sorted_map_remove [OF "1.prems"(2)]] keep show ?thesis
      unfolding step by auto
  next
    case False
    with "1.prems" show ?thesis by (simp add: limit_states.simps [of states])
  qed
qed

lemma build_state_update_cases:
  assumes "protocol_wf self"
  shows "fst (build_state_update lib self t batch target) \<noteq> Inl Panic \<and>
    (case build_state_update lib self t batch target of
       (Inl e, self') \<Rightarrow> same_but_channel self self'
     | (Inr packets, self') \<Rightarrow> \<exists>s1. same_but_channel self s1 \<and>
         self' = s1\<lparr>local_instructions := local_instructions self @ instructions batch,
           sent_states := limit_states (sent_states self @
             [\<lparr>ss_state_id = target, ss_instruction_end = length (local_instructions self) + length (instructions batch)\<rparr>])\<rparr>)"
proof -
  note ends = sent_ends [OF assms]
  let ?u = "(state_update_new (ss_state_id (last (sent_states self))) target (latest_remote_state self))
       \<lparr>su_discard_before := ss_state_id (hd (sent_states self)),
        su_delta := batch_encode_bytes (codec lib) batch, su_capabilities := local_capabilities self\<rparr>"
  obtain r s1 where send: "send_update lib self t target ?u = (r, s1)" by fastforce
  from send_update_frame [of self lib t target ?u] have frame: "same_but_channel self s1" "r \<noteq> Inl Panic"
    by (auto simp: send)
  show ?thesis
  proof (cases r)
    case (Inl e)
    with send frame show ?thesis
      by (auto simp: build_state_update_def ends split: option.splits)
  next
    case (Inr packets)
    with send frame same_but_channel_fields [OF frame(1)] show ?thesis
      by (auto simp: build_state_update_def ends usize_checked_add_def limit_sent_states_def
          intro!: exI [of _ s1])
  qed
qed

lemma appended_wf:
  assumes wf: "protocol_wf self" and same: "same_but_channel self s1"
    and self': "self' = s1\<lparr>local_instructions := local_instructions self @ is,
       sent_states := limit_states (sent_states self @
         [\<lparr>ss_state_id = target, ss_instruction_end = length (local_instructions self) + length is\<rparr>])\<rparr>"
  shows "protocol_wf self'"
proof -
  let ?new = "\<lparr>ss_state_id = target, ss_instruction_end = length (local_instructions self) + length is\<rparr>"
  have sent: "sent_wf (sent_states self) (length (local_instructions self))"
    using wf by (simp add: protocol_wf_def)
  have "ss_instruction_end s \<le> length (local_instructions self)" if "s \<in> set (sent_states self)" for s
    using sent that
    by (cases "sent_states self" rule: rev_cases) (auto simp: sent_wf_def sorted_append)
  then have "sorted (map ss_instruction_end (sent_states self @ [?new]))"
    using sent by (force simp: sent_wf_def sorted_append)
  from limit_states_props [OF _ this] sent
  have "sent_wf (limit_states (sent_states self @ [?new])) (length (local_instructions self) + length is)"
    by (auto simp: sent_wf_def hd_append)
  with same_but_channel_wf [OF same wf] show ?thesis
    by (simp add: protocol_wf_def self')
qed

lemma build_state_update_wf:
  assumes "protocol_wf self"
  shows "protocol_wf (snd (build_state_update lib self t batch target)) \<and>
    fst (build_state_update lib self t batch target) \<noteq> Inl Panic \<and>
    latest_remote_state (snd (build_state_update lib self t batch target)) = latest_remote_state self"
  using build_state_update_cases [OF assms, of lib t batch target]
  by (auto split: prod.splits sum.splits simp: same_but_channel_fields
      intro: same_but_channel_wf [OF _ assms] appended_wf [OF assms])

subsection \<open>Acknowledgements\<close>

lemma set_drop_nth: "x \<in> set (drop i xs) \<Longrightarrow> \<exists>k. i + k < length xs \<and> x = xs ! (i + k)"
  by (auto simp: in_set_conv_nth less_diff_conv add.commute intro: exI)

lemma position_Some:
  "position P xs = Some i \<Longrightarrow> i < length xs \<and> P (xs ! i) \<and> (\<forall>j < i. \<not> P (xs ! j))"
proof (induction xs arbitrary: i)
  case (Cons x xs)
  then show ?case by (auto simp: nth_Cons split: if_splits nat.splits)
qed simp

lemma position_None: "position P xs = None \<longleftrightarrow> (\<forall>x \<in> set xs. \<not> P x)"
  by (induction xs) auto

text \<open>Acknowledging the state at index \<open>i\<close>, written out.\<close>

definition acked :: "('k, 'p) client_protocol \<Rightarrow> nat \<Rightarrow> ('k, 'p) client_protocol" where
  "acked self i =
     (let e = ss_instruction_end (sent_states self ! i) in
      self\<lparr>local_instructions := drop e (local_instructions self),
           sent_states := map (\<lambda>s. s\<lparr>ss_instruction_end := ss_instruction_end s - e\<rparr>)
             (drop i (sent_states self))\<rparr>)"

lemma sent_end_le:
  assumes "sent_wf states n" "s \<in> set states"
  shows "ss_instruction_end s \<le> n"
  using assms by (cases states rule: rev_cases) (auto simp: sent_wf_def sorted_append)

lemma sent_end_mono:
  assumes "sent_wf states n" "i \<le> j" "j < length states"
  shows "ss_instruction_end (states ! i) \<le> ss_instruction_end (states ! j)"
  using assms sorted_nth_mono [of "map ss_instruction_end states" i j] by (simp add: sent_wf_def)

lemma process_acknowledgement_eq:
  assumes "protocol_wf self"
  shows "process_acknowledgement self a =
    (Inr (), case position (\<lambda>s. ss_state_id s = a) (sent_states self) of None \<Rightarrow> self | Some i \<Rightarrow> acked self i)"
proof (cases "position (\<lambda>s. ss_state_id s = a) (sent_states self)")
  case None
  then show ?thesis by (simp add: process_acknowledgement_def)
next
  case (Some i)
  have sent: "sent_wf (sent_states self) (length (local_instructions self))"
    using assms by (simp add: protocol_wf_def)
  have i: "i < length (sent_states self)" using position_Some [OF Some] by simp
  let ?e = "ss_instruction_end (sent_states self ! i)"
  have front: "deque_front (drop i (sent_states self)) = Some (sent_states self ! i)"
    using i by (simp add: hd_drop_conv_nth)
  have le: "?e \<le> length (local_instructions self)"
    using sent_end_le [OF sent nth_mem [OF i]] .
  have no_underflow: "\<not> (\<exists>s \<in> set (drop i (sent_states self)). ss_instruction_end s < ?e)"
  proof
    assume "\<exists>s \<in> set (drop i (sent_states self)). ss_instruction_end s < ?e"
    then obtain k where "i + k < length (sent_states self)" "ss_instruction_end (sent_states self ! (i + k)) < ?e"
      by (auto dest!: set_drop_nth)
    with sent_end_mono [OF sent, of i "i + k"] show False by simp
  qed
  have zero: "map (\<lambda>s. s\<lparr>ss_instruction_end := ss_instruction_end s - 0\<rparr>) xs = xs" for xs :: "sent_state list"
    by (induction xs) simp_all
  show ?thesis
    using Some front le no_underflow zero
    by (auto simp: process_acknowledgement_def acked_def Let_def)
qed

lemma acked_wf:
  assumes wf: "protocol_wf self" and i: "i < length (sent_states self)"
  shows "protocol_wf (acked self i)"
proof -
  let ?e = "ss_instruction_end (sent_states self ! i)"
  have sent: "sent_wf (sent_states self) (length (local_instructions self))"
    using wf by (simp add: protocol_wf_def)
  have "sorted (map (\<lambda>s. ss_instruction_end s - ?e) (drop i (sent_states self)))"
    unfolding sorted_iff_nth_mono using sent_end_mono [OF sent] by (auto intro!: diff_le_mono)
  then have "sent_wf (sent_states (acked self i)) (length (local_instructions self) - ?e)"
    using sent i by (auto simp: sent_wf_def acked_def Let_def hd_map last_map hd_drop_conv_nth comp_def)
  with wf show ?thesis by (simp add: protocol_wf_def acked_def Let_def)
qed

lemma process_acknowledgement_wf:
  assumes "protocol_wf self"
  shows "\<exists>self'. process_acknowledgement self a = (Inr (), self') \<and> protocol_wf self' \<and>
    latest_remote_state self' = latest_remote_state self \<and> replay_window self' = replay_window self \<and>
    secure_channel self' = secure_channel self \<and> next_local_state self' = next_local_state self \<and>
    (self' = self \<or> (\<exists>i < length (sent_states self). self' = acked self i))"
proof (cases "position (\<lambda>s. ss_state_id s = a) (sent_states self)")
  case None
  with assms show ?thesis by (simp add: process_acknowledgement_eq)
next
  case (Some i)
  have "latest_remote_state (acked self i) = latest_remote_state self"
    "replay_window (acked self i) = replay_window self" "secure_channel (acked self i) = secure_channel self"
    "next_local_state (acked self i) = next_local_state self"
    by (simp_all add: acked_def Let_def)
  with acked_wf [OF assms, of i] position_Some [OF Some] Some show ?thesis
    by (auto simp: process_acknowledgement_eq [OF assms])
qed

subsection \<open>Receiving\<close>

lemma received_wf_retain_insert:
  assumes wf: "received_wf m floor_id" and k: "map_of m base = Some st" and st: "rts_wf st'"
    and "discard \<le> base" "base < target" "map_of m target = None"
  defines "f \<equiv> max floor_id discard" and "m' \<equiv> bt_retain (\<lambda>k. max floor_id discard \<le> k) m"
  shows "MAXIMUM_RECEIVED_STATES \<le> length m' \<Longrightarrow> received_wf m' f" and "length m' < MAXIMUM_RECEIVED_STATES \<Longrightarrow> received_wf (bt_insert target st' m') f"
proof -
  have bt: "bt_wf m" and base: "floor_id \<le> base"
    using wf k by (auto simp: received_wf_def)
  have get: "map_of m' k = (if f \<le> k then map_of m k else None)" for k
    using bt.get_retain [OF bt, of "\<lambda>k. max floor_id discard \<le> k"] by (simp add: m'_def f_def)
  have bt': "bt_wf m'" using bt by (simp add: m'_def bt_wfs)
  have "f \<le> base" using base assms(4) by (simp add: f_def)
  then have "map_of m' base = Some st" using k by (simp add: get)
  then have ne: "m' \<noteq> []" by auto
  have len: "length m' \<le> MAXIMUM_RECEIVED_STATES"
    using bt.len_retain_le [OF bt] wf le_trans unfolding m'_def received_wf_def by blast
  { assume "MAXIMUM_RECEIVED_STATES \<le> length m'"
    then show "received_wf m' f"
      using wf bt' ne len by (auto simp: received_wf_def get MAXIMUM_RECEIVED_STATES_def split: if_splits) }
  assume lt: "length m' < MAXIMUM_RECEIVED_STATES"
  have "f \<le> target" using \<open>f \<le> base\<close> assms(5) by simp
  moreover have "length (bt_insert target st' m') = Suc (length m')"
    using bt.len_put_new [OF bt'] assms(6) by (simp add: get)
  ultimately show "received_wf (bt_insert target st' m') f"
    using wf bt' lt st ne
    by (auto simp: received_wf_def bt_wfs bt_get get split: if_splits)
qed

lemma remote_state_clone_wf: "rts_wf st \<Longrightarrow> \<exists>st'. remote_state_clone lib st = Some st' \<and> rts_wf st'"
  by (simp add: remote_state_clone_eq) (simp add: rts_wf_def)

text \<open>What a call of \<open>accept_remote_update\<close> may do to the protocol.\<close>

definition accepts :: "('k, 'p) client_protocol \<Rightarrow> ('k, 'p) client_protocol \<Rightarrow> bool" where
  "accepts self self' \<longleftrightarrow>
     protocol_wf self' \<and> latest_remote_state self \<le> latest_remote_state self' \<and>
     remote_throwaway_floor self \<le> remote_throwaway_floor self' \<and>
     replay_window self' = replay_window self \<and> secure_channel self' = secure_channel self \<and>
     next_local_state self' = next_local_state self \<and>
     sent_states self' = sent_states self \<and> local_instructions self' = local_instructions self"

lemma accepts_refl: "protocol_wf self \<Longrightarrow> accepts self self"
  by (simp add: accepts_def)

lemma accept_remote_update_accepts:
  assumes wf: "protocol_wf self"
  shows "accepts self (snd (accept_remote_update lib self u)) \<and> fst (accept_remote_update lib self u) \<noteq> Inl Panic"
proof -
  note refl = accepts_refl [OF wf]
  let ?m = "received_states self" and ?base = "su_base_state u" and ?target = "su_target_state u"
  consider "map_of ?m ?target \<noteq> None" | "map_of ?m ?target = None" "su_discard_before u > ?base \<or> ?target \<le> ?base"
    | "map_of ?m ?target = None" "su_discard_before u \<le> ?base" "?base < ?target" "map_of ?m ?base = None"
    | (found) base where "map_of ?m ?target = None" "su_discard_before u \<le> ?base" "?base < ?target"
        "map_of ?m ?base = Some base"
    by force
  then show ?thesis
  proof cases
    case found
    have recv: "received_wf ?m (remote_throwaway_floor self)" using wf by (simp add: protocol_wf_def)
    then have "rts_wf base" using found by (auto simp: received_wf_def)
    then obtain t0 where t0: "remote_state_clone (terminal lib) base = Some t0" "rts_wf t0"
      using remote_state_clone_wf by blast
    show ?thesis
    proof (cases "decode_instructions (codec lib) u")
      case (Inl e)
      with found t0 refl show ?thesis by (simp add: accept_remote_update_def not_le not_less)
    next
      case (Inr batch)
      obtain r t1 where t1: "remote_state_apply (terminal lib) t0 batch = (r, t1)" by fastforce
      show ?thesis
      proof (cases r)
        case (Inl e)
        with found t0 Inr t1 refl show ?thesis by (simp add: accept_remote_update_def not_le not_less)
      next
        case ok: (Inr x)
        have "rts_wf t1" using remote_state_apply_wf [OF t0(2), of "terminal lib" batch] t1 by simp
        then obtain t2 where t2: "remote_state_clone (terminal lib) t1 = Some t2" "rts_wf t2"
          using remote_state_clone_wf by blast
        note maps = received_wf_retain_insert [OF recv found(4) t2(2) found(2,3,1)]
        show ?thesis
          using found t0 Inr t1 ok t2 maps wf \<open>rts_wf t1\<close>
          by (auto simp: accept_remote_update_def not_le not_less Let_def accepts_def protocol_wf_def
              simp del: max.bounded_iff split: sum.splits)
      qed
    qed
  qed (use refl in \<open>auto simp: accept_remote_update_def not_le not_less\<close>)
qed

text \<open>What a reception may do to the history of sent states: nothing, or one acknowledgement.\<close>

definition ack_step :: "('k, 'p) client_protocol \<Rightarrow> ('k, 'p) client_protocol \<Rightarrow> bool" where
  "ack_step self self' \<longleftrightarrow>
     sent_states self' = sent_states self \<and> local_instructions self' = local_instructions self \<or>
     (\<exists>i < length (sent_states self).
        sent_states self' = sent_states (acked self i) \<and>
        local_instructions self' = local_instructions (acked self i))"

lemma ack_step_refl [simp]:
  "sent_states self' = sent_states self \<Longrightarrow> local_instructions self' = local_instructions self \<Longrightarrow> ack_step self self'"
  by (simp add: ack_step_def)

lemma ack_step_cong:
  assumes "sent_states self = sent_states s0" "local_instructions self = local_instructions s0"
    and "sent_states self' = sent_states s1" "local_instructions self' = local_instructions s1"
  shows "ack_step s0 s1 \<Longrightarrow> ack_step self self'"
  using assms by (auto simp: ack_step_def acked_def Let_def)

text \<open>The relation between the protocol before and after any reception.\<close>

definition receives :: "('k, 'p) client_protocol \<Rightarrow> ('k, 'p) client_protocol \<Rightarrow> bool" where
  "receives self self' \<longleftrightarrow>
     protocol_wf self' \<and> latest_remote_state self \<le> latest_remote_state self' \<and>
     secure_channel self' = secure_channel self \<and> next_local_state self' = next_local_state self \<and>
     ack_step self self'"

lemma receives_from:
  assumes "receives s0 self'" and "latest_remote_state s0 = latest_remote_state self"
    and "secure_channel s0 = secure_channel self" "sent_states s0 = sent_states self"
    and "next_local_state s0 = next_local_state self"
    and "local_instructions s0 = local_instructions self"
  shows "receives self self'"
  using assms ack_step_cong [of self s0 self' self'] by (simp add: receives_def)

lemma ingest_message_receives:
  assumes "protocol_wf self"
  shows "receives self (snd (ingest_message lib self packet header compressed)) \<and>
    replay_window (snd (ingest_message lib self packet header compressed)) = replay_window self \<and>
    fst (ingest_message lib self packet header compressed) \<noteq> Inl Panic"
proof (cases "decode_compressed_update (codec lib) compressed")
  case (Inl e)
  with assms show ?thesis by (simp add: ingest_message_def receives_def)
next
  case (Inr u)
  obtain s1 where s1: "process_acknowledgement self (su_acknowledged_state u) = (Inr (), s1)" "protocol_wf s1"
    "latest_remote_state s1 = latest_remote_state self" "replay_window s1 = replay_window self"
    "secure_channel s1 = secure_channel self" "next_local_state s1 = next_local_state self"
    and ack: "s1 = self \<or> (\<exists>i < length (sent_states self). s1 = acked self i)"
    using process_acknowledgement_wf [OF assms] by blast
  obtain r s2 where s2: "accept_remote_update lib s1 u = (r, s2)" by fastforce
  have "accepts s1 s2" "r \<noteq> Inl Panic"
    using accept_remote_update_accepts [OF s1(2), of lib u] by (simp_all add: s2)
  moreover from this ack have "ack_step self s2"
    by (auto simp: ack_step_def accepts_def)
  moreover from this have "ack_step self (s2\<lparr>remote_capabilities := c\<rparr>)" for c
    by (rule ack_step_cong [rotated -1]) simp_all
  ultimately show ?thesis using Inr s1 s2
    by (auto simp: ingest_message_def receives_def accepts_def protocol_wf_def Let_def split: sum.splits)
qed

lemma assemblies_wf_insert:
  assumes wf: "assemblies_wf m" and acc: "accumulator_wf acc" "fa_state_id acc = k"
    "fa_maximum_message_bytes acc = MAXIMUM_REASSEMBLED_BYTES"
    and room: "map_of m k \<noteq> None \<or> length m < MAXIMUM_ACTIVE_ASSEMBLIES"
  shows "assemblies_wf (bt_insert k acc m)"
proof -
  have bt: "bt_wf m" using wf by (simp add: assemblies_wf_def)
  have "length (bt_insert k acc m) \<le> MAXIMUM_ACTIVE_ASSEMBLIES"
    using room wf bt.len_put_old [OF bt, of k acc] bt.len_put_le [OF bt, of k acc]
    by (cases "map_of m k") (auto simp: assemblies_wf_def)
  with wf acc bt show ?thesis
    by (auto simp: assemblies_wf_def bt_wfs bt_get split: if_splits)
qed

lemma assemblies_wf_remove: "assemblies_wf m \<Longrightarrow> assemblies_wf (bt_remove k m)"
  using bt.len_remove_le [of m k]
  by (auto simp: assemblies_wf_def bt_wfs bt_get split: if_splits)

lemma ingest_fragment_receives:
  assumes wf: "protocol_wf self"
  shows "receives self (snd (ingest_fragment lib self packet fragment)) \<and>
    replay_window (snd (ingest_fragment lib self packet fragment)) = replay_window self \<and>
    fst (ingest_fragment lib self packet fragment) \<noteq> Inl Panic"
proof (cases "map_of (assemblies self) (fh_state_id (fr_header fragment)) = None \<and>
    length (assemblies self) \<ge> MAXIMUM_ACTIVE_ASSEMBLIES")
  case True
  with wf show ?thesis by (simp add: ingest_fragment_def receives_def Let_def)
next
  case False
  let ?k = "fh_state_id (fr_header fragment)"
  define a0 where "a0 = (case map_of (assemblies self) ?k of
      None \<Rightarrow> accumulator_new ?k MAXIMUM_REASSEMBLED_BYTES | Some assembly \<Rightarrow> assembly)"
  have asm: "assemblies_wf (assemblies self)" using wf by (simp add: protocol_wf_def)
  have a0: "accumulator_wf a0" "fa_state_id a0 = ?k" "fa_maximum_message_bytes a0 = MAXIMUM_REASSEMBLED_BYTES"
    using asm by (auto simp: a0_def assemblies_wf_def accumulator_new_def [THEN arg_cong [of _ _ fa_state_id]]
        accumulator_new_def [THEN arg_cong [of _ _ fa_maximum_message_bytes]] split: option.splits)
  obtain r a1 where push: "accumulator_push a0 fragment = (r, a1)" by fastforce
  let ?s1 = "self\<lparr>assemblies := bt_insert ?k a1 (assemblies self)\<rparr>"
  let ?s2 = "?s1\<lparr>assemblies := bt_remove ?k (assemblies ?s1)\<rparr>"
  have "assemblies_wf (bt_insert ?k a1 (assemblies self))"
    using accumulator_push_cases [OF a0(1) push] a0 False by (intro assemblies_wf_insert asm) auto
  then have s1: "protocol_wf ?s1" and s2: "protocol_wf ?s2"
    using wf assemblies_wf_remove by (simp_all add: protocol_wf_def)
  have step: "ingest_fragment lib self packet fragment =
    (case r of
       Inl e \<Rightarrow> (Inl (FragmentFailed e), ?s1)
     | Inr None \<Rightarrow> (Inr None, ?s1)
     | Inr (Some compressed) \<Rightarrow>
         (case ingest_message lib ?s2 packet (fr_header fragment) compressed of
            (Inl e, self) \<Rightarrow> (Inl e, self)
          | (Inr state, self) \<Rightarrow> (Inr (Some state), self)))"
    using False push unfolding ingest_fragment_def Let_def a0_def [symmetric] by auto
  have receives_s1: "receives self ?s1" using s1 by (simp add: receives_def)
  have msg: "receives self (snd (ingest_message lib ?s2 packet (fr_header fragment) c)) \<and>
      replay_window (snd (ingest_message lib ?s2 packet (fr_header fragment) c)) = replay_window self \<and>
      fst (ingest_message lib ?s2 packet (fr_header fragment) c) \<noteq> Inl Panic" for c
    using ingest_message_receives [OF s2, of lib packet "fr_header fragment" c]
      receives_from [of ?s2 "snd (ingest_message lib ?s2 packet (fr_header fragment) c)" self] by simp
  show ?thesis
    unfolding step using receives_s1 msg
    by (auto split: sum.splits option.splits prod.splits) (metis fst_conv snd_conv)+
qed

lemma window_accept_wf: "window_wf w \<Longrightarrow> window_wf (snd (window_accept w c))"
  unfolding window_wf_def using window_accept_refines by blast

lemma ingest_packet_receives:
  assumes wf: "protocol_wf self"
  shows "receives self (snd (ingest_packet lib self packet)) \<and> fst (ingest_packet lib self packet) \<noteq> Inl Panic"
proof (cases "open_packet (cipher lib) (secure_channel self) packet")
  case (Inl e)
  with wf show ?thesis by (simp add: ingest_packet_def receives_def)
next
  case (Inr a)
  obtain acc w where w: "window_accept (replay_window self) (ap_counter a) = (acc, w)" by fastforce
  let ?s1 = "self\<lparr>replay_window := w\<rparr>"
  let ?s2 = "\<lambda>t. ?s1\<lparr>latest_peer_timestamp := Some t\<rparr>"
  have "window_wf w"
    using window_accept_wf [of "replay_window self" "ap_counter a"] wf by (simp add: protocol_wf_def w)
  then have s1: "protocol_wf ?s1" and s2: "protocol_wf (?s2 t)" for t
    using wf by (simp_all add: protocol_wf_def)
  have frag: "receives self (snd (ingest_fragment lib (?s2 t) a f)) \<and>
      fst (ingest_fragment lib (?s2 t) a f) \<noteq> Inl Panic" for t f
    using ingest_fragment_receives [OF s2 [of t], of lib a f]
      receives_from [of "?s2 t" "snd (ingest_fragment lib (?s2 t) a f)" self] by simp
  have "receives self ?s1" "receives self (?s2 t)" for t
    using s1 s2 by (simp_all add: receives_def)
  then show ?thesis
    using Inr w frag
    unfolding ingest_packet_def Let_def
    by (auto split: sum.splits prod.splits) (metis fst_conv snd_conv)+
qed

lemma set_initial_remote_viewport_receives:
  assumes wf: "protocol_wf self"
  shows "receives self (snd (set_initial_remote_viewport lib self columns rows)) \<and>
    fst (set_initial_remote_viewport lib self columns rows) \<noteq> Inl Panic \<and>
    replay_window (snd (set_initial_remote_viewport lib self columns rows)) = replay_window self"
proof (cases "latest_remote_state self \<noteq> 0 \<or> length (received_states self) \<noteq> 1")
  case True
  with wf show ?thesis by (auto simp: set_initial_remote_viewport_def receives_def)
next
  case False
  show ?thesis
  proof (cases "remote_state_new (terminal lib) (max columns 1) (max rows 1)")
    case (Inl e)
    with False wf show ?thesis by (simp add: set_initial_remote_viewport_def receives_def)
  next
    case (Inr st)
    note st = remote_state_new_wf [OF Inr]
    obtain st' where st': "remote_state_clone (terminal lib) st = Some st'" "rts_wf st'"
      using remote_state_clone_wf [OF st] by blast
    have recv: "received_wf (received_states self) 0"
      using wf False by (simp add: protocol_wf_def received_wf_def)
    then have "received_wf (bt_insert 0 st' (received_states self)) 0"
      using False st'(2) bt.len_put_le [of "received_states self" 0 st']
      by (cases "received_states self")
        (auto simp: received_wf_def bt_wfs bt_get MAXIMUM_RECEIVED_STATES_def bt_wf_Cons word_greater_zero_iff
          split: if_splits)
    moreover have "remote_throwaway_floor self = 0"
      using wf False by (simp add: protocol_wf_def received_wf_def)
    ultimately show ?thesis
      using wf False Inr st st' by (simp add: set_initial_remote_viewport_def receives_def protocol_wf_def)
  qed
qed

lemma client_protocol_new_wf:
  "\<exists>self. client_protocol_new lib key = Some self \<and> protocol_wf self"
proof -
  have "\<exists>st. remote_state_new (terminal lib) DEFAULT_REMOTE_COLUMNS DEFAULT_REMOTE_ROWS = Inr st"
    by (simp add: remote_state_new_def validate_viewport_def u16_try_from_def DEFAULT_REMOTE_COLUMNS_def
        DEFAULT_REMOTE_ROWS_def)
  then obtain st where st: "remote_state_new (terminal lib) DEFAULT_REMOTE_COLUMNS DEFAULT_REMOTE_ROWS = Inr st"
    by blast
  note wf = remote_state_new_wf [OF st]
  obtain st' where st': "remote_state_clone (terminal lib) st = Some st'" "rts_wf st'"
    using remote_state_clone_wf [OF wf] by blast
  with st wf show ?thesis
    by (auto simp: client_protocol_new_def protocol_wf_def sent_wf_def assemblies_wf_def received_wf_def
        window_wf_def MAXIMUM_SENT_STATES_def MAXIMUM_RECEIVED_STATES_def
        intro: exI [of _ "{}"] window_rel_default)
qed

subsection \<open>The machine of session events\<close>

text \<open>The public operations of \<open>ClientProtocol\<close> as events; the timestamps and bytes come from outside.\<close>

datatype session_event =
    BuildUpdate u16 instruction_batch
  | BuildShutdown u16 instruction_batch
  | BuildShutdownAck u16
  | BuildAcknowledgement u16
  | RetransmitPending u16
  | IngestPacket bytes
  | SetInitialViewport u16 u16
  | SetLocalCapabilities bytes

datatype session_output =
    Packets "session_error + bytes list"
  | Received "session_error + packet_receipt"
  | Applied "session_error + unit"

fun session_step ::
    "('k, 'p, 'v) session_lib \<Rightarrow> ('k, 'p) client_protocol \<Rightarrow> session_event \<Rightarrow>
     session_output \<times> ('k, 'p) client_protocol" where
  "session_step lib self (BuildUpdate t batch) = apfst Packets (build_update lib self t batch)"
| "session_step lib self (BuildShutdown t batch) = apfst Packets (build_shutdown lib self t batch)"
| "session_step lib self (BuildShutdownAck t) = apfst Packets (build_shutdown_ack lib self t)"
| "session_step lib self (BuildAcknowledgement t) = apfst Packets (build_acknowledgement lib self t)"
| "session_step lib self (RetransmitPending t) = apfst Packets (retransmit_pending lib self t)"
| "session_step lib self (IngestPacket packet) = apfst Received (ingest_packet lib self packet)"
| "session_step lib self (SetInitialViewport c r) = apfst Applied (set_initial_remote_viewport lib self c r)"
| "session_step lib self (SetLocalCapabilities caps) = (Applied (Inr ()), set_local_capabilities self caps)"

definition panics :: "session_output \<Rightarrow> bool" where
  "panics out \<longleftrightarrow> out = Packets (Inl Panic) \<or> out = Received (Inl Panic) \<or> out = Applied (Inl Panic)"

lemma build_update_wf:
  assumes "protocol_wf self"
  shows "protocol_wf (snd (build_update lib self t batch)) \<and> fst (build_update lib self t batch) \<noteq> Inl Panic \<and>
    latest_remote_state (snd (build_update lib self t batch)) = latest_remote_state self"
  using build_state_update_wf [OF assms, of lib t batch "next_local_state self"] assms
  by (auto simp: build_update_def Let_def protocol_wf_def split: prod.splits sum.splits)

lemma build_shutdown_wf:
  assumes "protocol_wf self"
  shows "protocol_wf (snd (build_shutdown lib self t batch)) \<and> fst (build_shutdown lib self t batch) \<noteq> Inl Panic \<and>
    latest_remote_state (snd (build_shutdown lib self t batch)) = latest_remote_state self"
  using build_state_update_wf [OF assms, of lib t batch u64_MAX] assms by (simp add: build_shutdown_def)

lemma session_step_wf:
  assumes wf: "protocol_wf self"
  shows "protocol_wf (snd (session_step lib self ev)) \<and> \<not> panics (fst (session_step lib self ev)) \<and>
    latest_remote_state self \<le> latest_remote_state (snd (session_step lib self ev))"
proof (cases ev)
  case (BuildUpdate t batch)
  with build_update_wf [OF wf, of lib t batch] show ?thesis by (simp add: panics_def)
next
  case (BuildShutdown t batch)
  with build_shutdown_wf [OF wf, of lib t batch] show ?thesis by (simp add: panics_def)
next
  case (BuildShutdownAck t)
  with build_shutdown_ack_frame [of self lib t] show ?thesis
    by (simp add: panics_def same_but_channel_step [OF _ wf])
next
  case (BuildAcknowledgement t)
  with build_acknowledgement_frame [OF wf, of lib t] show ?thesis
    by (simp add: panics_def same_but_channel_step [OF _ wf])
next
  case (RetransmitPending t)
  with retransmit_pending_frame [OF wf, of lib t] show ?thesis
    by (simp add: panics_def same_but_channel_step [OF _ wf])
next
  case (IngestPacket packet)
  with ingest_packet_receives [OF wf, of lib packet] show ?thesis by (simp add: panics_def receives_def)
next
  case (SetInitialViewport c r)
  with set_initial_remote_viewport_receives [OF wf, of lib c r] show ?thesis
    by (simp add: panics_def receives_def)
next
  case (SetLocalCapabilities caps)
  with wf show ?thesis by (simp add: panics_def set_local_capabilities_def protocol_wf_def)
qed

interpretation session: monotone_machine "session_step lib" protocol_wf latest_remote_state for lib
  by unfold_locales (simp_all add: session_step_wf)

end
