(* ===== verification/Session_Delivery.thy ===== *)
theory Session_Delivery
  imports Session_Safety State_Diff Wire_Format
begin

section \<open>What the session promises\<close>

text \<open>
  The properties of \<open>ClientProtocol\<close> over arbitrary sequences of its operations: bounded memory and no
  panic, the fate of duplicated packets, the meaning of acknowledgements and retransmissions, and that
  a delivered update carries the host from one delivered state to the next.
\<close>

subsection \<open>Bounded memory, no panic\<close>

text \<open>
  C17. From a fresh protocol, whatever updates are built and whatever datagrams arrive: no operation
  panics; at most 32 sent states, 1024 received states and 64 partial messages of at most 16 MiB are
  kept; no received state is below the throwaway floor; and the number of the delivered remote state
  never decreases.
\<close>

theorem session_bounded:
  assumes "client_protocol_new lib key = Some self"
    and "self1 = snd (run (session_step lib) self events1)"
    and "self2 = snd (run (session_step lib) self1 events2)"
  shows "list_all (\<lambda>out. \<not> panics out) (fst (run (session_step lib) self (events1 @ events2))) \<and>
    length (sent_states self2) \<le> 32 \<and> length (received_states self2) \<le> 1024 \<and>
    length (assemblies self2) \<le> 64 \<and>
    (\<forall>(k, acc) \<in> set (assemblies self2). stored_bytes acc \<le> 16 * 1024 * 1024) \<and>
    (\<forall>(k, st) \<in> set (received_states self2). remote_throwaway_floor self2 \<le> k) \<and>
    latest_remote_state self1 \<le> latest_remote_state self2"
proof -
  have wf: "protocol_wf self"
    using client_protocol_new_wf [of lib key] assms(1) by auto
  have wf1: "protocol_wf self1" unfolding assms(2) by (rule session.run_inv [OF wf])
  have wf2: "protocol_wf self2" unfolding assms(3) by (rule session.run_inv [OF wf1])
  have "\<forall>out \<in> set (fst (run (session_step lib) self (events1 @ events2))). \<not> panics out"
    by (rule session.run_outputs [OF _ wf]) (simp add: session_step_wf)
  moreover have "latest_remote_state self1 \<le> latest_remote_state self2"
    unfolding assms(3) by (rule session.run_rank [OF wf1])
  moreover have "stored_bytes acc \<le> 16 * 1024 * 1024" if "(k, acc) \<in> set (assemblies self2)" for k acc
  proof -
    have bt: "bt_wf (assemblies self2)" using wf2 by (simp add: protocol_wf_def assemblies_wf_def)
    then have "map_of (assemblies self2) k = Some acc"
      using that by (simp add: bt_wf_distinct)
    with wf2 have "accumulator_wf acc" "fa_maximum_message_bytes acc = MAXIMUM_REASSEMBLED_BYTES"
      by (auto simp: protocol_wf_def assemblies_wf_def)
    then show ?thesis by (simp add: accumulator_wf_def MAXIMUM_REASSEMBLED_BYTES_def)
  qed
  moreover have "remote_throwaway_floor self2 \<le> k" if "(k, st) \<in> set (received_states self2)" for k st
  proof -
    have bt: "bt_wf (received_states self2)" using wf2 by (simp add: protocol_wf_def received_wf_def)
    then have "map_of (received_states self2) k = Some st"
      using that by (simp add: bt_wf_distinct)
    with wf2 show ?thesis by (auto simp: protocol_wf_def received_wf_def)
  qed
  ultimately show ?thesis
    using wf2 by (auto simp: protocol_wf_def sent_wf_def received_wf_def assemblies_wf_def list_all_iff
        MAXIMUM_SENT_STATES_def MAXIMUM_RECEIVED_STATES_def MAXIMUM_ACTIVE_ASSEMBLIES_def)
qed

subsection \<open>Duplicated packets\<close>

text \<open>The parts of the protocol that decide whether a packet is new.\<close>

definition admission_step :: "('k, 'p) client_protocol \<Rightarrow> ('k, 'p) client_protocol \<Rightarrow> bool" where
  "admission_step self self' \<longleftrightarrow>
     inbound_cipher (secure_channel self') = inbound_cipher (secure_channel self) \<and>
     inbound_direction (secure_channel self') = inbound_direction (secure_channel self) \<and>
     (replay_window self' = replay_window self \<or>
      (\<exists>c. replay_window self' = snd (window_accept (replay_window self) c)))"

lemma open_packet_inbound:
  "inbound_cipher ch' = inbound_cipher ch \<Longrightarrow> inbound_direction ch' = inbound_direction ch \<Longrightarrow>
   open_packet lib ch' packet = open_packet lib ch packet"
  by (simp add: open_packet_def Let_def split: prod.splits option.splits)

lemma same_but_channel_admission: "same_but_channel self self' \<Longrightarrow> admission_step self self'"
  using same_but_channel_fields(6) [of self self'] by (simp add: admission_step_def same_but_channel_def)

lemma build_state_update_admission:
  assumes "protocol_wf self"
  shows "admission_step self (snd (build_state_update lib self t batch target))"
  using build_state_update_cases [OF assms, of lib t batch target]
  by (auto split: prod.splits sum.splits dest!: same_but_channel_admission simp: admission_step_def)

lemma ingest_packet_window:
  assumes "protocol_wf self" and "open_packet (cipher lib) (secure_channel self) packet = Inr a"
  shows "replay_window (snd (ingest_packet lib self packet)) = snd (window_accept (replay_window self) (ap_counter a))"
proof -
  obtain acc w where w: "window_accept (replay_window self) (ap_counter a) = (acc, w)" by fastforce
  let ?s2 = "\<lambda>t. self\<lparr>replay_window := w, latest_peer_timestamp := Some t\<rparr>"
  have "window_wf w"
    using window_accept_wf [of "replay_window self" "ap_counter a"] assms(1) by (simp add: protocol_wf_def w)
  then have "protocol_wf (?s2 t)" for t
    using assms(1) by (simp add: protocol_wf_def)
  then have frag: "replay_window (snd (ingest_fragment lib (?s2 t) a f)) = w" for t f
    using ingest_fragment_receives [of "?s2 t" lib a f] by simp
  show ?thesis
    using assms(2) w frag unfolding ingest_packet_def Let_def
    by (auto split: sum.splits prod.splits) (metis snd_conv)+
qed

lemma session_step_admission:
  assumes wf: "protocol_wf self"
  shows "admission_step self (snd (session_step lib self ev))"
proof (cases ev)
  case (BuildUpdate t batch)
  with build_state_update_admission [OF wf, of lib t batch "next_local_state self"] show ?thesis
    by (auto simp: build_update_def Let_def admission_step_def split: prod.splits sum.splits)
next
  case (BuildShutdown t batch)
  with build_state_update_admission [OF wf, of lib t batch u64_MAX] show ?thesis
    by (simp add: build_shutdown_def admission_step_def)
next
  case (BuildShutdownAck t)
  with build_shutdown_ack_frame [of self lib t] show ?thesis by (simp add: same_but_channel_admission)
next
  case (BuildAcknowledgement t)
  with build_acknowledgement_frame [OF wf, of lib t] show ?thesis by (simp add: same_but_channel_admission)
next
  case (RetransmitPending t)
  with retransmit_pending_frame [OF wf, of lib t] show ?thesis by (simp add: same_but_channel_admission)
next
  case (IngestPacket packet)
  have "replay_window (snd (ingest_packet lib self packet)) = replay_window self"
    if "open_packet (cipher lib) (secure_channel self) packet = Inl e" for e
    using that by (simp add: ingest_packet_def)
  with IngestPacket ingest_packet_receives [OF wf, of lib packet] ingest_packet_window [OF wf, of lib packet]
  show ?thesis
    by (cases "open_packet (cipher lib) (secure_channel self) packet") (auto simp: admission_step_def receives_def)
next
  case (SetInitialViewport c r)
  with set_initial_remote_viewport_receives [OF wf, of lib c r] show ?thesis
    by (simp add: admission_step_def receives_def)
next
  case (SetLocalCapabilities caps)
  then show ?thesis by (simp add: admission_step_def set_local_capabilities_def)
qed

text \<open>A packet that the protocol will not admit, now or later.\<close>

definition blocked :: "('k, 'p, 'v) session_lib \<Rightarrow> bytes \<Rightarrow> ('k, 'p) client_protocol \<Rightarrow> bool" where
  "blocked lib packet self \<longleftrightarrow> protocol_wf self \<and>
     (\<exists>a A. open_packet (cipher lib) (secure_channel self) packet = Inr a \<and>
        window_rel (replay_window self) A \<and> \<not> spec_accept A (ap_counter a))"

lemma spec_refusal_persists:
  assumes "finite A" "\<not> spec_accept A c"
  shows "\<not> spec_accept (snd (spec_step A d)) c"
proof (cases "c \<in> A")
  case True
  then show ?thesis using spec_step_accepted(2) [of A d] by (auto simp: spec_accept_def)
next
  case False
  let ?B = "snd (spec_step A d)"
  from False assms(2) have "A \<noteq> {}" "unat c + 128 \<le> unat (Max A)"
    by (auto simp: spec_accept_def)
  moreover have "Max A \<le> Max ?B"
    using spec_step_accepted(2) [of A d] calculation(1) spec_step_set(2) [OF assms(1)] by (rule Max_mono)
  then have "unat (Max A) \<le> unat (Max ?B)" by (simp add: word_le_nat_alt)
  moreover have "?B \<noteq> {}" using calculation(1) spec_step_accepted(2) [of A d] by blast
  ultimately show ?thesis by (auto simp: spec_accept_def)
qed

interpretation blocked: invariant_machine "session_step lib" "blocked lib packet" for lib packet
proof
  fix s e assume "blocked lib packet s"
  then obtain a A where wf: "protocol_wf s" and a: "open_packet (cipher lib) (secure_channel s) packet = Inr a"
    and A: "window_rel (replay_window s) A" "\<not> spec_accept A (ap_counter a)"
    by (auto simp: blocked_def)
  let ?s = "snd (session_step lib s e)"
  from session_step_admission [OF wf, of lib e] have adm: "admission_step s ?s" .
  then have open': "open_packet (cipher lib) (secure_channel ?s) packet = Inr a"
    using a open_packet_inbound [of "secure_channel ?s" "secure_channel s"] by (simp add: admission_step_def)
  have "finite A" using A(1) by (auto simp: window_rel_def)
  then have step: "window_rel (snd (window_accept (replay_window s) c)) (snd (spec_step A c)) \<and>
      \<not> spec_accept (snd (spec_step A c)) (ap_counter a)" for c
    using window_accept_refines [OF A(1), of c] spec_refusal_persists [OF _ A(2)] by blast
  have "\<exists>B. window_rel (replay_window ?s) B \<and> \<not> spec_accept B (ap_counter a)"
  proof (cases "replay_window ?s = replay_window s")
    case True
    with A show ?thesis by auto
  next
    case False
    with adm obtain c where "replay_window ?s = snd (window_accept (replay_window s) c)"
      by (auto simp: admission_step_def)
    with step [of c] show ?thesis by auto
  qed
  with open' session_step_wf [OF wf, of lib e] show "blocked lib packet ?s"
    by (auto simp: blocked_def)
qed

lemma spec_step_blocks: "\<not> spec_accept (snd (spec_step A c)) c"
  by (simp add: spec_step_def spec_accept_def)

lemma ingest_blocks:
  assumes "protocol_wf self" "open_packet (cipher lib) (secure_channel self) packet = Inr a"
  shows "blocked lib packet (snd (ingest_packet lib self packet))"
proof -
  let ?s1 = "snd (ingest_packet lib self packet)"
  obtain A where A: "window_rel (replay_window self) A"
    using assms(1) by (auto simp: protocol_wf_def window_wf_def)
  note recv = ingest_packet_receives [OF assms(1), of lib packet]
  have "open_packet (cipher lib) (secure_channel ?s1) packet = Inr a"
    using recv assms(2) by (simp add: receives_def)
  moreover have "window_rel (replay_window ?s1) (snd (spec_step A (ap_counter a)))"
    using window_accept_refines [OF A] ingest_packet_window [OF assms] by simp
  ultimately show ?thesis
    using recv spec_step_blocks by (auto simp: blocked_def receives_def)
qed

lemma blocked_rejected:
  assumes "blocked lib packet self"
  shows "ingest_packet lib self packet = (Inl ReplayDetected, self)"
proof -
  obtain b B where b: "open_packet (cipher lib) (secure_channel self) packet = Inr b"
    "window_rel (replay_window self) B" "\<not> spec_accept B (ap_counter b)"
    using assms by (auto simp: blocked_def)
  have acc: "\<not> fst (window_accept (replay_window self) (ap_counter b))"
    using window_accept_refines [OF b(2)] b(3) by (simp add: spec_step_def)
  then have "snd (window_accept (replay_window self) (ap_counter b)) = replay_window self"
    by (auto simp: window_accept_def Let_def split: option.splits if_splits)
  with acc have "window_accept (replay_window self) (ap_counter b) = (False, replay_window self)"
    by (simp add: prod_eq_iff)
  with b(1) show ?thesis by (simp add: ingest_packet_def)
qed

text \<open>
  C19. Duplicates are harmless to the protocol. Once an authentic packet has been ingested (whatever the
  outcome), every later copy of it is answered with \<open>ReplayDetected\<close> and leaves the protocol exactly as
  it was, after any number of further operations and packets; a packet that does not authenticate
  leaves the protocol as it was too.
\<close>

theorem duplicates_rejected:
  assumes "protocol_wf self"
    and "open_packet (cipher lib) (secure_channel self) packet = Inr a"
    and "open_packet (cipher lib) (secure_channel self') forged = Inl e"
    and "self' = snd (run (session_step lib) (snd (ingest_packet lib self packet)) events)"
  shows "ingest_packet lib self' packet = (Inl ReplayDetected, self') \<and>
    ingest_packet lib self' forged = (Inl (OpenFailed e), self')"
proof -
  have "blocked lib packet self'"
    unfolding assms(4) by (rule blocked.run_inv [OF ingest_blocks [OF assms(1,2)]])
  from blocked_rejected [OF this] assms(3) show ?thesis by (simp add: ingest_packet_def)
qed

subsection \<open>Acknowledgements and retransmission\<close>

text \<open>
  The specification of the sending side is a log: the instructions of every update built so far, and for
  each state number the length of the log when that state was built.
\<close>

record ('k, 'p) logged =
  lg_protocol :: "('k, 'p) client_protocol"
  lg_log :: "instruction list"
  lg_marks :: "(u64 \<times> nat) list"

fun built :: "session_event \<Rightarrow> session_output \<Rightarrow> instruction list option" where
  "built (BuildUpdate t batch) (Packets (Inr _)) = Some (instructions batch)"
| "built (BuildShutdown t batch) (Packets (Inr _)) = Some (instructions batch)"
| "built _ _ = None"

definition logged_step ::
    "('k, 'p, 'v) session_lib \<Rightarrow> ('k, 'p) logged \<Rightarrow> session_event \<Rightarrow> session_output \<times> ('k, 'p) logged" where
  "logged_step lib lg ev =
     (let (out, self) = session_step lib (lg_protocol lg) ev in
      (out, case built ev out of
         None \<Rightarrow> lg\<lparr>lg_protocol := self\<rparr>
       | Some is \<Rightarrow> \<lparr>lg_protocol = self, lg_log = lg_log lg @ is,
           lg_marks = (latest_local_state self, length (lg_log lg) + length is) # lg_marks lg\<rparr>))"

text \<open>
  The protocol refines the log: it keeps the part after some position \<open>n\<close>, and every sent state it keeps
  ends, counted from \<open>n\<close>, where the log ended when that state was built.
\<close>

definition log_position :: "('k, 'p) logged \<Rightarrow> nat \<Rightarrow> bool" where
  "log_position lg n \<longleftrightarrow> n \<le> length (lg_log lg) \<and> local_instructions (lg_protocol lg) = drop n (lg_log lg) \<and>
     (\<forall>s \<in> set (sent_states (lg_protocol lg)). (ss_state_id s, n + ss_instruction_end s) \<in> set (lg_marks lg))"

definition logged_wf :: "('k, 'p) logged \<Rightarrow> bool" where
  "logged_wf lg \<longleftrightarrow> protocol_wf (lg_protocol lg) \<and> (\<exists>n. log_position lg n)"

lemma log_position_same:
  "log_position lg n \<Longrightarrow> sent_states self = sent_states (lg_protocol lg) \<Longrightarrow>
   local_instructions self = local_instructions (lg_protocol lg) \<Longrightarrow> log_position (lg\<lparr>lg_protocol := self\<rparr>) n"
  by (simp add: log_position_def)

lemma log_position_ack:
  assumes wf: "protocol_wf (lg_protocol lg)" and pos: "log_position lg n"
    and ack: "ack_step (lg_protocol lg) self"
  shows "\<exists>n. log_position (lg\<lparr>lg_protocol := self\<rparr>) n"
proof (cases "sent_states self = sent_states (lg_protocol lg) \<and>
    local_instructions self = local_instructions (lg_protocol lg)")
  case True
  with pos show ?thesis using log_position_same by blast
next
  case False
  let ?p = "lg_protocol lg"
  from False ack obtain i where i: "i < length (sent_states ?p)"
    and self: "sent_states self = sent_states (acked ?p i)" "local_instructions self = local_instructions (acked ?p i)"
    by (auto simp: ack_step_def)
  let ?e = "ss_instruction_end (sent_states ?p ! i)"
  have sent: "sent_wf (sent_states ?p) (length (local_instructions ?p))"
    using wf by (simp add: protocol_wf_def)
  have le: "?e \<le> length (local_instructions ?p)" using sent_end_le [OF sent nth_mem [OF i]] .
  have "?e \<le> ss_instruction_end s \<and> s \<in> set (sent_states ?p)" if s: "s \<in> set (drop i (sent_states ?p))" for s
  proof -
    from s obtain k where "i + k < length (sent_states ?p)" "s = sent_states ?p ! (i + k)"
      using set_drop_nth [OF s] by blast
    with sent_end_mono [OF sent, of i "i + k"] show ?thesis by simp
  qed
  then have "log_position (lg\<lparr>lg_protocol := self\<rparr>) (n + ?e)"
    using pos le by (auto simp: log_position_def self acked_def Let_def add.commute)
  then show ?thesis by blast
qed

lemma log_position_build:
  assumes wf: "protocol_wf (lg_protocol lg)" and pos: "log_position lg n"
    and same: "same_but_channel (lg_protocol lg) s1"
    and self: "sent_states self = limit_states (sent_states (lg_protocol lg) @
       [\<lparr>ss_state_id = target, ss_instruction_end = length (local_instructions (lg_protocol lg)) + length is\<rparr>])"
      "local_instructions self = local_instructions (lg_protocol lg) @ is"
  shows "log_position \<lparr>lg_protocol = self, lg_log = lg_log lg @ is,
     lg_marks = (latest_local_state self, length (lg_log lg) + length is) # lg_marks lg\<rparr> n"
proof -
  let ?p = "lg_protocol lg"
  let ?new = "\<lparr>ss_state_id = target, ss_instruction_end = length (local_instructions ?p) + length is\<rparr>"
  have sent: "sent_wf (sent_states ?p) (length (local_instructions ?p))"
    using wf by (simp add: protocol_wf_def)
  have "sorted (map ss_instruction_end (sent_states ?p @ [?new]))"
    using sent sent_end_le [OF sent] by (force simp: sent_wf_def sorted_append)
  from limit_states_props [OF _ this]
  have "latest_local_state self = target" "set (sent_states self) \<subseteq> insert ?new (set (sent_states ?p))"
    by (auto simp: latest_local_state_def self)
  with pos show ?thesis
    by (auto simp: log_position_def self)
qed

lemma build_output:
  assumes "protocol_wf self" and "built ev out = Some is" and "session_step lib self ev = (out, self')"
  shows "\<exists>s1 target. same_but_channel self s1 \<and>
    sent_states self' = limit_states (sent_states self @
      [\<lparr>ss_state_id = target, ss_instruction_end = length (local_instructions self) + length is\<rparr>]) \<and>
    local_instructions self' = local_instructions self @ is"
proof (cases ev)
  case (BuildUpdate t batch)
  with assms obtain packets where out: "out = Packets (Inr packets)" "is = instructions batch"
    by (cases out; cases "case out of Packets r \<Rightarrow> r") (auto elim: built.elims)
  with BuildUpdate assms(3) build_state_update_cases [OF assms(1), of lib t batch "next_local_state self"]
  show ?thesis
    by (auto simp: build_update_def Let_def apfst_def map_prod_def split: if_splits prod.splits sum.splits)
next
  case (BuildShutdown t batch)
  with assms obtain packets where out: "out = Packets (Inr packets)" "is = instructions batch"
    by (cases out; cases "case out of Packets r \<Rightarrow> r") (auto elim: built.elims)
  with BuildShutdown assms(3) build_state_update_cases [OF assms(1), of lib t batch u64_MAX]
  show ?thesis
    by (auto simp: build_shutdown_def apfst_def map_prod_def split: if_splits prod.splits sum.splits)
qed (use assms in auto)

lemma same_but_channel_ack: "same_but_channel self self' \<Longrightarrow> ack_step self self'"
  using same_but_channel_fields(1,2) [of self self'] by simp

text \<open>Every other event leaves the sent history alone or acknowledges a prefix of it.\<close>

lemma other_output:
  assumes wf: "protocol_wf self" and "built ev out = None" and step: "session_step lib self ev = (out, self')"
  shows "ack_step self self'"
proof -
  have self': "self' = snd (session_step lib self ev)" by (simp add: step)
  show ?thesis
proof (cases ev)
  case (BuildUpdate t batch)
  obtain r s where r: "build_state_update lib self t batch (next_local_state self) = (r, s)" by fastforce
  with BuildUpdate assms(2) step build_state_update_cases [OF wf, of lib t batch "next_local_state self"]
  show ?thesis
    by (auto simp: build_update_def Let_def same_but_channel_ack split: if_splits sum.splits)
next
  case (BuildShutdown t batch)
  obtain r s where r: "build_state_update lib self t batch u64_MAX = (r, s)" by fastforce
  with BuildShutdown assms(2) step build_state_update_cases [OF wf, of lib t batch u64_MAX]
  show ?thesis
    by (cases r) (auto simp: build_shutdown_def same_but_channel_ack split: if_splits)
next
  case (BuildShutdownAck t)
  with self' build_shutdown_ack_frame [of self lib t] show ?thesis
    by (simp add: same_but_channel_ack)
next
  case (BuildAcknowledgement t)
  with self' build_acknowledgement_frame [OF wf, of lib t] show ?thesis
    by (simp add: same_but_channel_ack)
next
  case (RetransmitPending t)
  with self' retransmit_pending_frame [OF wf, of lib t] show ?thesis
    by (simp add: same_but_channel_ack)
next
  case (IngestPacket packet)
  with self' ingest_packet_receives [OF wf, of lib packet] show ?thesis
    by (simp add: receives_def)
next
  case (SetInitialViewport c r)
  with self' set_initial_remote_viewport_receives [OF wf, of lib c r] show ?thesis
    by (auto simp: receives_def)
next
  case (SetLocalCapabilities caps)
  with step show ?thesis by (auto simp: set_local_capabilities_def)
qed
qed

interpretation logged: invariant_machine "logged_step lib" logged_wf
  for lib :: "('a, 'b, 'c) session_lib"
proof
  fix lg :: "('a, 'b) logged" and ev
  assume "logged_wf lg"
  then obtain n where wf: "protocol_wf (lg_protocol lg)" and pos: "log_position lg n"
    by (auto simp: logged_wf_def)
  obtain out self where step: "session_step lib (lg_protocol lg) ev = (out, self)" by fastforce
  then have wf': "protocol_wf self" using session_step_wf [OF wf, of lib ev] by simp
  show "logged_wf (snd (logged_step lib lg ev))"
  proof (cases "built ev out")
    case None
    with log_position_ack [OF wf pos other_output [OF wf None step]] wf' show ?thesis
      by (simp add: logged_step_def step logged_wf_def)
  next
    case (Some "is")
    from build_output [OF wf Some step] log_position_build [OF wf pos] wf' Some show ?thesis
      by (fastforce simp: logged_step_def step logged_wf_def)
  qed
qed

lemma logged_new_wf:
  assumes "client_protocol_new lib key = Some self"
  shows "logged_wf \<lparr>lg_protocol = self, lg_log = [], lg_marks = [(0, 0)]\<rparr>"
proof -
  have "protocol_wf self" using client_protocol_new_wf [of lib key] assms by auto
  moreover have "local_instructions self = []" "sent_states self = [\<lparr>ss_state_id = 0, ss_instruction_end = 0\<rparr>]"
    using assms by (auto simp: client_protocol_new_def split: sum.splits option.splits)
  ultimately show ?thesis by (auto simp: logged_wf_def log_position_def)
qed

text \<open>
  C18. No input is lost or repeated by retransmission. After any sequence of operations, a retransmission
  sends, as the difference between the oldest retained sent state and the newest one, exactly the part
  of the log of built instructions between the points where these two states were built, and the newest
  one stands at the end of the log.
\<close>

theorem retransmission_complete:
  assumes "client_protocol_new lib key = Some self"
    and "lg = snd (run (logged_step lib) \<lparr>lg_protocol = self, lg_log = [], lg_marks = [(0, 0)]\<rparr> events)"
    and "has_pending_update (lg_protocol lg)"
  shows "\<exists>n. let confirmed = ss_state_id (hd (sent_states (lg_protocol lg)));
               latest = ss_state_id (last (sent_states (lg_protocol lg)))
           in (confirmed, n) \<in> set (lg_marks lg) \<and> (latest, length (lg_log lg)) \<in> set (lg_marks lg) \<and>
              retransmit_pending lib (lg_protocol lg) t =
                send_update lib (lg_protocol lg) t latest
                  ((state_update_new confirmed latest (latest_remote_state (lg_protocol lg)))
                    \<lparr>su_discard_before := confirmed,
                     su_delta := batch_encode_bytes (codec lib) (InstructionBatch (drop n (lg_log lg))),
                     su_capabilities := local_capabilities (lg_protocol lg)\<rparr>)"
proof -
  have "logged_wf lg"
    unfolding assms(2) by (rule logged.run_inv [OF logged_new_wf [OF assms(1)]])
  then obtain n where wf: "protocol_wf (lg_protocol lg)" and pos: "log_position lg n"
    by (auto simp: logged_wf_def)
  note ends = sent_ends [OF wf]
  have mark: "(ss_state_id s, n + ss_instruction_end s) \<in> set (lg_marks lg)"
    if "s \<in> set (sent_states (lg_protocol lg))" for s
    using pos that by (simp add: log_position_def)
  have "n + length (local_instructions (lg_protocol lg)) = length (lg_log lg)"
    and li: "local_instructions (lg_protocol lg) = drop n (lg_log lg)"
    using pos by (auto simp: log_position_def)
  with mark [OF hd_in_set [OF ends(1)]] mark [OF last_in_set [OF ends(1)]]
  show ?thesis
    by (intro exI [of _ n]) (simp add: Let_def retransmit_pending_eq [OF wf assms(3)] ends li)
qed

subsection \<open>Acknowledgement contents and delivery\<close>

text \<open>The instructions a sent state stands for, relative to the oldest retained one.\<close>

definition content :: "('k, 'p) client_protocol \<Rightarrow> sent_state \<Rightarrow> instruction list" where
  "content self s = take (ss_instruction_end s) (local_instructions self)"

text \<open>
  C20. An acknowledgement cuts exactly the acknowledged input. It never panics; the acknowledgement of an
  unknown state changes nothing; the acknowledgement of a known one keeps it and the states after it,
  under their numbers, and removes from each of them precisely the instructions of the acknowledged one.
\<close>

theorem acknowledgement_cuts_prefix:
  assumes "protocol_wf self" and "process_acknowledgement self acknowledged = (r, self')"
  shows "r = Inr () \<and>
    (acknowledged \<notin> ss_state_id ` set (sent_states self) \<longrightarrow> self' = self) \<and>
    (\<forall>i. position (\<lambda>s. ss_state_id s = acknowledged) (sent_states self) = Some i \<longrightarrow>
       map ss_state_id (sent_states self') = drop i (map ss_state_id (sent_states self)) \<and>
       (\<forall>j < length (sent_states self').
          content self (sent_states self ! (i + j)) =
            content self (sent_states self ! i) @ content self' (sent_states self' ! j)))"
proof (intro conjI allI impI)
  note eq = process_acknowledgement_eq [OF assms(1), of acknowledged]
  show "r = Inr ()" using assms(2) eq by simp
  show "self' = self" if "acknowledged \<notin> ss_state_id ` set (sent_states self)"
  proof -
    from that have "position (\<lambda>s. ss_state_id s = acknowledged) (sent_states self) = None"
      by (auto simp: position_None)
    with assms(2) eq show ?thesis by simp
  qed
  fix i assume i: "position (\<lambda>s. ss_state_id s = acknowledged) (sent_states self) = Some i"
  with assms(2) eq have self': "self' = acked self i" by simp
  show "map ss_state_id (sent_states self') = drop i (map ss_state_id (sent_states self))"
    by (simp add: self' acked_def Let_def comp_def drop_map)
  fix j assume j: "j < length (sent_states self')"
  have sent: "sent_wf (sent_states self) (length (local_instructions self))"
    using assms(1) by (simp add: protocol_wf_def)
  have ij: "i + j < length (sent_states self)" using j by (simp add: self' acked_def Let_def)
  let ?e = "ss_instruction_end (sent_states self ! i)"
  have "?e \<le> ss_instruction_end (sent_states self ! (i + j))"
    using sent_end_mono [OF sent, of i "i + j"] ij by simp
  then obtain d where "ss_instruction_end (sent_states self ! (i + j)) = ?e + d"
    using le_Suc_ex by blast
  moreover have "drop i (sent_states self) ! j = sent_states self ! (i + j)"
    using ij by (intro nth_drop) simp
  ultimately show "content self (sent_states self ! (i + j)) =
      content self (sent_states self ! i) @ content self' (sent_states self' ! j)"
    using ij by (simp add: content_def self' acked_def Let_def take_add)
qed

lemma decode_encoded_batch:
  assumes "codec_conforms lib" and "length (wire_encode (batch_fields b)) < usize_limit"
    and "su_delta u = batch_encode_bytes lib b"
  shows "decode_instructions lib u = Inr b"
  using assms validate_batch [OF assms(2)]
  by (simp add: codec_conforms_def decode_instructions_def batch_encode_bytes_def)

lemma accept_advance:
  assumes "accept_remote_update lib self u = (Inr (True, du), self')"
  shows "\<exists>diff. diff_from (terminal lib) (delivered_remote_state self') (delivered_remote_state self) = Inr diff \<and>
    du = u\<lparr>su_delta := batch_encode_bytes (codec lib) (into_instructions diff)\<rparr> \<and>
    latest_remote_state self' = su_target_state u \<and> latest_remote_state self < su_target_state u"
  using assms
  by (auto simp: accept_remote_update_def Let_def not_le split: if_splits option.splits sum.splits prod.splits)

text \<open>
  Delivery. When a server state advances the session, the update handed to the host is a transition
  from the state the host already shows to the new one: for a conforming codec and an emulator that
  reads its input as a stream, and under the conditions of the diff theorem (both states uncompacted,
  the new stream extends the delivered one, echo acknowledgement not behind), the update decodes to a
  batch which the previously delivered state accepts, and afterwards it has the emulator state,
  viewport and echo acknowledgement of the new one, whose number is the target of the update.
\<close>

theorem delivered_update_reaches_target:
  assumes "codec_conforms (codec lib)" "vt_streaming (terminal lib)" "protocol_wf self"
    and accept: "accept_remote_update lib self u = (Inr (True, du), self')"
    and "replayable (terminal lib) (delivered_remote_state self)"
    and "replayable (terminal lib) (delivered_remote_state self')"
    and "rts_initial_columns (delivered_remote_state self) = rts_initial_columns (delivered_remote_state self')"
    and "rts_initial_rows (delivered_remote_state self) = rts_initial_rows (delivered_remote_state self')"
    and "rts_echo_ack (delivered_remote_state self) \<le> rts_echo_ack (delivered_remote_state self')"
    and "prefix (op_stream (rts_ops (delivered_remote_state self)))
           (op_stream (rts_ops (delivered_remote_state self')))"
    and "sh_operation_count (rts_history (delivered_remote_state self)) +
         sh_operation_count (rts_history (delivered_remote_state self')) \<le> MAX_RETAINED_OPERATIONS"
    and small: "\<And>diff. diff_from (terminal lib) (delivered_remote_state self') (delivered_remote_state self) = Inr diff \<Longrightarrow>
           length (wire_encode (batch_fields (into_instructions diff))) < usize_limit"
  shows "latest_remote_state self' = su_target_state u \<and>
    (\<exists>batch st. decode_instructions (codec lib) du = Inr batch \<and>
       remote_state_apply (terminal lib) (delivered_remote_state self) batch = (Inr (), st) \<and>
       rts_parser st = rts_parser (delivered_remote_state self') \<and>
       rts_viewport st = rts_viewport (delivered_remote_state self') \<and>
       rts_echo_ack st = rts_echo_ack (delivered_remote_state self'))"
proof -
  have wf: "rts_wf (delivered_remote_state self)" "rts_wf (delivered_remote_state self')"
    using assms(3) accept_remote_update_accepts [OF assms(3), of lib u]
    by (auto simp: protocol_wf_def accepts_def accept)
  obtain diff where diff: "diff_from (terminal lib) (delivered_remote_state self') (delivered_remote_state self) = Inr diff"
    and du: "du = u\<lparr>su_delta := batch_encode_bytes (codec lib) (into_instructions diff)\<rparr>"
    and latest: "latest_remote_state self' = su_target_state u"
    using accept_advance [OF accept] by blast
  have "decode_instructions (codec lib) du = Inr (into_instructions diff)"
    by (rule decode_encoded_batch [OF assms(1) small [OF diff]]) (simp add: du)
  moreover obtain st where "remote_state_apply (terminal lib) (delivered_remote_state self) (into_instructions diff) = (Inr (), st)"
    "rts_parser st = rts_parser (delivered_remote_state self')"
    "rts_viewport st = rts_viewport (delivered_remote_state self')"
    "rts_echo_ack st = rts_echo_ack (delivered_remote_state self')"
    using diff_advances [OF assms(2) wf(2,1) assms(6,5,7-11)] diff by auto
  ultimately show ?thesis using latest by blast
qed

subsection \<open>Instances\<close>

definition example_lib :: "(bytes, (u16 \<times> u16) \<times> bytes, unit) session_lib" where
  "example_lib = \<lparr>cipher = example_cipher, codec = reference_codec, terminal = example_terminal\<rparr>"

definition example_protocol :: "(bytes, (u16 \<times> u16) \<times> bytes) client_protocol" where
  "example_protocol =
     \<lparr>secure_channel = example_channel Client, next_local_state = 1, latest_remote_state = 0,
      latest_peer_timestamp = None, assemblies = [], local_instructions = [],
      sent_states = [\<lparr>ss_state_id = 0, ss_instruction_end = 0\<rparr>], received_states = [(0, example_state)],
      delivered_remote_state = example_state, remote_throwaway_floor = 0, local_capabilities = [],
      remote_capabilities = [], replay_window = replay_window_default\<rparr>"

lemma example_state_clone: "remote_state_clone example_terminal example_state = Some example_state"
  by (simp add: remote_state_clone_def example_state_new [unfolded example_state_def] example_state_def
      history_operations_def history_default_def)

lemma example_protocol_new: "client_protocol_new example_lib (SessionKey (replicate 16 0)) = Some example_protocol"
  by (simp add: client_protocol_new_def example_lib_def DEFAULT_REMOTE_COLUMNS_def DEFAULT_REMOTE_ROWS_def
      example_state_new example_state_clone example_protocol_def example_channel_def)

lemma example_protocol_wf: "protocol_wf example_protocol"
  using client_protocol_new_wf [of example_lib "SessionKey (replicate 16 0)"] by (simp add: example_protocol_new)

theorem session_bounded_witness:
  "list_all (\<lambda>out. \<not> panics out)
     (fst (run (session_step example_lib) example_protocol ([IngestPacket [1, 2]] @ [BuildAcknowledgement 7])))"
  using session_bounded [OF example_protocol_new refl refl, of "[IngestPacket [1, 2]]" "[BuildAcknowledgement 7]"]
  by blast

theorem duplicates_rejected_witness:
  "\<exists>packet a. open_packet example_cipher (example_channel Client) packet = Inr a \<and>
     (let self = snd (ingest_packet example_lib example_protocol packet)
      in ingest_packet example_lib self packet = (Inl ReplayDetected, self) \<and>
         ingest_packet example_lib self [] = (Inl (OpenFailed PacketTooShort), self))"
proof -
  let ?n = "make_nonce (u64_to_be_bytes (direction_encode ServerToClient 0))"
  let ?packet = "u64_to_be_bytes (direction_encode ServerToClient 0) @ example_tag (replicate 16 0) ?n @ [7]"
  have "\<exists>a. open_packet example_cipher (example_channel Client) ?packet = Inr a"
    by (simp add: open_packet_def example_channel_def secure_channel_new_def example_cipher_def Let_def
        del: direction_encode.simps)
  then obtain a where a: "open_packet example_cipher (example_channel Client) ?packet = Inr a" by blast
  have "open_packet example_cipher ch [] = Inl PacketTooShort" for ch
    by (simp add: open_packet_def)
  with duplicates_rejected [OF example_protocol_wf, of example_lib ?packet a
      "snd (ingest_packet example_lib example_protocol ?packet)" "[]" PacketTooShort "[]"] a
  show ?thesis
    by (intro exI [of _ ?packet] exI [of _ a]) (simp add: example_lib_def example_protocol_def Let_def)
qed

text \<open>A codec of fixed one-byte messages, enough to build updates with.\<close>

definition tiny_lib :: "(bytes, (u16 \<times> u16) \<times> bytes, unit) session_lib" where
  "tiny_lib = example_lib\<lparr>codec :=
     \<lparr>prost_encode_update = (\<lambda>_. Some [1]), prost_decode_update = (\<lambda>_. None), prost_encode_batch = (\<lambda>_. []),
      prost_decode_batch = (\<lambda>_. None), zlib_compress = Some, zlib_read = (\<lambda>n c. Some (take n c))\<rparr>\<rparr>"

lemma tiny_protocol_new: "client_protocol_new tiny_lib (SessionKey (replicate 16 0)) = Some example_protocol"
  by (simp add: client_protocol_new_def tiny_lib_def example_lib_def DEFAULT_REMOTE_COLUMNS_def
      DEFAULT_REMOTE_ROWS_def example_state_new example_state_clone example_protocol_def example_channel_def)

lemma example_seal:
  "next_counter ch = Some c \<Longrightarrow> \<exists>packet ch'. seal_next example_cipher ch p = (Inr packet, ch')"
  by (simp add: seal_next_def example_cipher_def Let_def)

lemma tiny_send:
  assumes "next_counter (secure_channel self) = Some c" and "su_protocol_version u = PROTOCOL_VERSION"
  shows "\<exists>packets ch. send_update tiny_lib self t sid u = (Inr packets, self\<lparr>secure_channel := ch\<rparr>)"
proof -
  obtain f where f: "fragment_split [1] t (case latest_peer_timestamp self of None \<Rightarrow> NO_ECHO_TIMESTAMP | Some t \<Rightarrow> t) sid
      = Inr [f]"
    by (simp add: fragment_split_def MAX_FRAGMENT_BODY_BYTES_def chunks.simps [of 1214] chunk_fragment_def Let_def)
  obtain packet ch where "seal_next example_cipher (secure_channel self) (fragment_encode f) = (Inr packet, ch)"
    using example_seal [OF assms(1)] by blast
  with f assms(2) show ?thesis
    by (auto simp: send_update_def seal_fragments_def encode_compressed_update_def tiny_lib_def example_lib_def)
qed

theorem retransmission_complete_witness:
  "\<exists>lg. lg = snd (run (logged_step tiny_lib) \<lparr>lg_protocol = example_protocol, lg_log = [], lg_marks = [(0, 0)]\<rparr>
      [BuildUpdate 5 (InstructionBatch [host_bytes_instruction [97]])]) \<and>
     has_pending_update (lg_protocol lg) \<and> lg_log lg = [host_bytes_instruction [97]] \<and>
     (\<exists>n. (0, n) \<in> set (lg_marks lg) \<and> (1, 1) \<in> set (lg_marks lg))"
proof -
  let ?batch = "InstructionBatch [host_bytes_instruction [97]]"
  let ?u = "(state_update_new 0 1 0)\<lparr>su_discard_before := 0,
      su_delta := batch_encode_bytes (codec tiny_lib) ?batch, su_capabilities := []\<rparr>"
  let ?lg = "snd (run (logged_step tiny_lib) \<lparr>lg_protocol = example_protocol, lg_log = [], lg_marks = [(0, 0)]\<rparr>
      [BuildUpdate 5 ?batch])"
  obtain packets ch where send: "send_update tiny_lib example_protocol 5 1 ?u =
      (Inr packets, example_protocol\<lparr>secure_channel := ch\<rparr>)"
    using tiny_send [of example_protocol 0 ?u 5 1]
    by (auto simp: example_protocol_def example_channel_def secure_channel_new_def state_update_new_def)
  have "build_update tiny_lib example_protocol 5 ?batch = (Inr packets, example_protocol
     \<lparr>secure_channel := ch, local_instructions := [host_bytes_instruction [97]], next_local_state := 2,
      sent_states := [\<lparr>ss_state_id = 0, ss_instruction_end = 0\<rparr>, \<lparr>ss_state_id = 1, ss_instruction_end = 1\<rparr>]\<rparr>)"
    using send
    by (simp add: build_update_def build_state_update_def example_protocol_def deque_front_def deque_back_def
        usize_checked_add_def usize_limit_def limit_sent_states_def limit_states.simps MAXIMUM_SENT_STATES_def)
  then have lg: "has_pending_update (lg_protocol ?lg)" "lg_log ?lg = [host_bytes_instruction [97]]"
    "sent_states (lg_protocol ?lg) = [\<lparr>ss_state_id = 0, ss_instruction_end = 0\<rparr>, \<lparr>ss_state_id = 1, ss_instruction_end = 1\<rparr>]"
    by (simp_all add: logged_step_def has_pending_update_def)
  from retransmission_complete [OF tiny_protocol_new refl lg(1)] lg show ?thesis
    by (auto simp: Let_def)
qed

theorem acknowledgement_cuts_prefix_witness:
  "\<exists>self'. process_acknowledgement example_protocol 9 = (Inr (), self') \<and> self' = example_protocol"
  using acknowledgement_cuts_prefix [OF example_protocol_wf, of 9 "fst (process_acknowledgement example_protocol 9)"
      "snd (process_acknowledgement example_protocol 9)"]
  by (simp add: example_protocol_def process_acknowledgement_def)

text \<open>A server state with one line of output, on top of the blank state.\<close>

definition example_server_update :: state_update where
  "example_server_update = (state_update_new 0 1 0)\<lparr>su_delta := batch_encode_bytes reference_codec example_output\<rparr>"

abbreviation example_delivered :: instruction_batch where
  "example_delivered \<equiv> InstructionBatch [echo_instruction 4, host_bytes_instruction [104, 105]]"

lemma example_small:
  "length (wire_encode (batch_fields example_output)) < usize_limit"
  "length (wire_encode (batch_fields example_delivered)) < usize_limit"
  by (simp_all add: batch_fields_def instruction_fields_def message_field_def host_bytes_instruction_def
      run_fields_def bytes_field_def marker_fields_def varint_field_def wire_encode_Cons wire_key_def
      encode_varint_small usize_limit_def)

lemma example_state'_fields:
  "rts_parser example_state' = ((24, 80), [104, 105])" "rts_ops example_state' = [HostBytes [104, 105]]"
  "rts_initial_columns example_state' = 80" "rts_initial_rows example_state' = 24"
  "sh_operation_count (rts_history example_state') = 1" "rts_echo_ack example_state' = Some 4"
  by (simp_all add: example_state'_def example_state'_eq history_operations_def)

lemma example_diff: "diff_from example_terminal example_state' example_state = Inr (StateDiff example_delivered)"
proof -
  have "canonical_operations (rts_history example_state') = [HostBytes [104, 105]]"
    by (simp add: canonical_operations_def canonical_def canonical_step_def example_state'_fields)
  moreover have "canonical_operations (rts_history example_state) = []"
    by (simp add: canonical_operations_def canonical_def example_state_def history_operations_def
        history_default_def)
  ultimately show ?thesis
    by (simp add: diff_from_def history_suffix_start_def suffix_instructions_0 suffix_instruction_def
        example_state'_fields Let_def) (simp add: example_state_def)
qed

lemma example_clone': "remote_state_clone example_terminal example_state' = Some example_state'"
proof -
  have wf: "rts_wf example_state'"
    unfolding example_state'_def by (rule rts.run_inv [OF remote_state_new_wf [OF example_state_new]])
  have "replay example_terminal (vt_new example_terminal (rts_initial_rows example_state')
      (rts_initial_columns example_state')) (rts_ops example_state') = rts_parser example_state'"
    by (simp add: example_state'_fields) (simp add: example_terminal_def)
  then show ?thesis
    by (simp add: remote_state_clone_eq [OF wf])
qed

lemma example_accept_from:
  assumes "received_states self = [(0, example_state)]" "delivered_remote_state self = example_state"
    "latest_remote_state self = 0" "remote_throwaway_floor self = 0"
  shows "accept_remote_update example_lib self example_server_update =
     (Inr (True, example_server_update\<lparr>su_delta := batch_encode_bytes reference_codec example_delivered\<rparr>),
      self\<lparr>received_states := [(0, example_state), (1, example_state')], remote_throwaway_floor := 0,
        latest_remote_state := 1, delivered_remote_state := example_state'\<rparr>)"
proof -
  have "decode_instructions reference_codec example_server_update = Inr example_output"
    by (rule decode_encoded_batch [OF reference_codec_conforms example_small(1)])
      (simp add: example_server_update_def)
  moreover have "remote_state_apply example_terminal example_state example_output = (Inr (), example_state')"
    by (simp add: example_state'_def example_state'_eq)
  ultimately show ?thesis
    by (simp add: accept_remote_update_def example_lib_def assms example_state_clone example_clone'
        example_diff bt_retain_def MAXIMUM_RECEIVED_STATES_def Let_def)
      (simp add: example_server_update_def state_update_new_def)
qed

lemma example_accept:
  "accept_remote_update example_lib example_protocol example_server_update =
     (Inr (True, example_server_update\<lparr>su_delta := batch_encode_bytes reference_codec example_delivered\<rparr>),
      example_protocol\<lparr>received_states := [(0, example_state), (1, example_state')], latest_remote_state := 1,
        delivered_remote_state := example_state'\<rparr>)"
  using example_accept_from [of example_protocol] by (simp add: example_protocol_def)

theorem delivered_update_reaches_target_witness:
  "\<exists>batch st. decode_instructions reference_codec
       (example_server_update\<lparr>su_delta := batch_encode_bytes reference_codec example_delivered\<rparr>) = Inr batch \<and>
     remote_state_apply example_terminal example_state batch = (Inr (), st) \<and>
     rts_parser st = ((24, 80), [104, 105]) \<and> rts_echo_ack st = Some 4"
proof -
  have s: "rts_parser example_state = ((24, 80), [])" "rts_ops example_state = []"
    "rts_initial_columns example_state = 80" "rts_initial_rows example_state = 24"
    "sh_operation_count (rts_history example_state) = 0" "rts_echo_ack example_state = None"
    by (simp_all add: example_state_def history_default_def history_operations_def)
  have "replayable example_terminal example_state" "replayable example_terminal example_state'"
    by (simp_all add: s example_state'_fields replayable_def example_terminal_def)
  with delivered_update_reaches_target [OF _ _ example_protocol_wf example_accept] example_small(2)
  show ?thesis
    by (simp add: example_lib_def example_protocol_def reference_codec_conforms example_terminal_streaming s
        example_state'_fields example_diff MAX_RETAINED_OPERATIONS_def) blast
qed

end
