(* ===== verification/Runtime.thy ===== *)
theory Runtime
  imports Session
begin

section \<open>The host-facing runtime (\<open>crates/ferrumtty-runtime/src/lib.rs\<close>)\<close>

text \<open>
  \<open>SessionRuntime\<close> drives a \<open>ClientProtocol\<close> without sockets or clocks: the host supplies monotonic
  times, terminal input and datagrams and applies the returned actions in order. All its methods are
  modelled, with the timers at their 64-bit width, the round-trip estimator, the lifecycle and the
  bounded shutdown handshake. The redacting \<open>Debug\<close> output is modelled as the list of its fields.
\<close>

subsection \<open>Model: data\<close>

definition INITIAL_RETRANSMIT_MILLISECONDS :: u64 where "INITIAL_RETRANSMIT_MILLISECONDS = 1000"
definition MINIMUM_RETRANSMIT_MILLISECONDS :: u64 where "MINIMUM_RETRANSMIT_MILLISECONDS = 250"
definition MAXIMUM_RETRANSMIT_MILLISECONDS :: u64 where "MAXIMUM_RETRANSMIT_MILLISECONDS = 10000"
definition SERVER_UNRESPONSIVE_MILLISECONDS :: u64 where "SERVER_UNRESPONSIVE_MILLISECONDS = 30000"
definition MAXIMUM_QUEUED_INPUT_BYTES :: usize where "MAXIMUM_QUEUED_INPUT_BYTES = 1024 * 1024"
definition SHUTDOWN_RETRY_LIMIT :: u8 where "SHUTDOWN_RETRY_LIMIT = 16"
definition SHUTDOWN_TIMEOUT_MILLISECONDS :: u64 where "SHUTDOWN_TIMEOUT_MILLISECONDS = 10000"
definition EMBEDDING_API_VERSION :: u16 where "EMBEDDING_API_VERSION = 5"

datatype monotonic_time = MonotonicTime (milliseconds: u64)

definition elapsed_since :: "monotonic_time \<Rightarrow> monotonic_time \<Rightarrow> u64" where
  "elapsed_since now earlier = saturating_sub (milliseconds now) (milliseconds earlier)"

datatype shutdown_outcome = Acknowledged | PeerRequestedOutcome | TimedOut
datatype session_lifecycle = Running | Paused | Cancelled
datatype connection_state = Connecting | Connected | Interrupted

datatype diagnostic_event =
    DConnectionStateChanged connection_state
  | FreshUpdatePrepared u64 u64 u64 u64 u64
      \<comment> \<open>state, datagrams, datagram bytes, instructions, input bytes\<close>
  | RetransmissionPrepared u64 u64 u64 u64 \<comment> \<open>state, datagrams, datagram bytes, delay\<close>
  | InboundUpdateAccepted u64 u64 u64 u64 u64 u64 bool
      \<comment> \<open>counter, base, target, acknowledged, discard, delta bytes, advances\<close>
  | RoundTripUpdated u16
  | DSessionLifecycleChanged session_lifecycle
  | DUdpBindingChanged u64
  | ShutdownStarted
  | DShutdownComplete shutdown_outcome

datatype session_action =
    SendDatagram bytes
  | WriteTerminal bytes
  | ResizeTerminal u16 u16
  | AcknowledgePrediction u64
  | RemoteStateAdvanced u64
  | ConnectionStateChanged connection_state
  | RoundTripEstimate u16
  | CapabilitiesChanged bytes
  | RemoteSessionControl u32 bytes
  | SessionLifecycleChanged session_lifecycle
  | ShutdownComplete shutdown_outcome
  | UdpBindingChanged u64
  | Diagnostic diagnostic_event

datatype debug_value =
    DebugLength usize | DebugU16 u16 | DebugU32 u32 | DebugU64 u64 | DebugConnection connection_state
  | DebugLifecycle session_lifecycle | DebugOutcome shutdown_outcome | DebugDiagnostic diagnostic_event

text \<open>The \<open>Debug\<close> output of an action: the name and its fields, in order.\<close>

fun action_debug :: "session_action \<Rightarrow> string \<times> debug_value list" where
  "action_debug (SendDatagram bytes) = (''SendDatagram'', [DebugLength (length bytes)])"
| "action_debug (WriteTerminal bytes) = (''WriteTerminal'', [DebugLength (length bytes)])"
| "action_debug (ResizeTerminal columns rows) = (''ResizeTerminal'', [DebugU16 columns, DebugU16 rows])"
| "action_debug (AcknowledgePrediction v) = (''AcknowledgePrediction'', [DebugU64 v])"
| "action_debug (RemoteStateAdvanced v) = (''RemoteStateAdvanced'', [DebugU64 v])"
| "action_debug (ConnectionStateChanged v) = (''ConnectionStateChanged'', [DebugConnection v])"
| "action_debug (RoundTripEstimate v) = (''RoundTripEstimate'', [DebugU16 v])"
| "action_debug (CapabilitiesChanged v) = (''CapabilitiesChanged'', [DebugLength (length v)])"
| "action_debug (RemoteSessionControl kind payload) =
     (''RemoteSessionControl'', [DebugU32 kind, DebugLength (length payload)])"
| "action_debug (SessionLifecycleChanged v) = (''SessionLifecycleChanged'', [DebugLifecycle v])"
| "action_debug (ShutdownComplete v) = (''ShutdownComplete'', [DebugOutcome v])"
| "action_debug (UdpBindingChanged v) = (''UdpBindingChanged'', [DebugU64 v])"
| "action_debug (Diagnostic v) = (''Diagnostic'', [DebugDiagnostic v])"

datatype terminal_input_event = InputBytes bytes | InputResize u16 u16

fun input_event_debug :: "terminal_input_event \<Rightarrow> string \<times> debug_value list" where
  "input_event_debug (InputBytes bytes) = (''Bytes'', [DebugLength (length bytes)])"
| "input_event_debug (InputResize columns rows) = (''Resize'', [DebugU16 columns, DebugU16 rows])"

datatype shutdown_state =
    Open
  | LocalRequested (started_at: monotonic_time) (transmissions: u8)
  | PeerRequested
  | Complete shutdown_outcome

datatype association_state = Due | Sent

record ('k, 'p) session_runtime =
  protocol :: "('k, 'p) client_protocol"
  queued_instructions :: "instruction list"
  queued_input_bytes :: usize
  last_send :: "monotonic_time option"
  last_receive :: monotonic_time
  retransmit_milliseconds :: u64
  smoothed_round_trip_milliseconds :: "u64 option"
  round_trip_variation_milliseconds :: u64
  association :: association_state
  acknowledgement_due :: bool
  received_server_state :: bool
  round_trip_milliseconds :: "u16 option"
  connection_state :: connection_state
  lifecycle :: session_lifecycle
  udp_binding_generation :: u64
  shutdown :: shutdown_state
  peer_shutdown_acknowledgement_due :: bool

datatype runtime_error =
    InputQueueFull | CapabilityNotNegotiated | SessionPaused | SessionCancelled | ShutdownInProgress
  | SessionFailed session_error | UpdateMessageFailed message_error

text \<open>The \<open>Display\<close> text; the two wrapped errors append the \<open>Debug\<close> text of their contents, a parameter.\<close>

fun runtime_error_display ::
    "(session_error \<Rightarrow> string) \<Rightarrow> (message_error \<Rightarrow> string) \<Rightarrow> runtime_error \<Rightarrow> string" where
  "runtime_error_display dbg_s dbg_m InputQueueFull = ''terminal input queue is full''"
| "runtime_error_display dbg_s dbg_m CapabilityNotNegotiated = ''session-control capability was not negotiated''"
| "runtime_error_display dbg_s dbg_m SessionPaused = ''session is paused''"
| "runtime_error_display dbg_s dbg_m SessionCancelled = ''session is cancelled''"
| "runtime_error_display dbg_s dbg_m ShutdownInProgress = ''session shutdown is in progress''"
| "runtime_error_display dbg_s dbg_m (SessionFailed e) = ''session protocol failed: '' @ dbg_s e"
| "runtime_error_display dbg_s dbg_m (UpdateMessageFailed e) = ''session message failed: '' @ dbg_m e"

subsection \<open>Model: construction, queries and helpers\<close>

definition runtime_new ::
    "('k, 'p, 'v) session_lib \<Rightarrow> session_key \<Rightarrow> monotonic_time \<Rightarrow> ('k, 'p) session_runtime option" where
  "runtime_new lib key now =
     (case client_protocol_new lib key of
        None \<Rightarrow> None
      | Some p \<Rightarrow> Some
          \<lparr>protocol = p, queued_instructions = [], queued_input_bytes = 0, last_send = None,
           last_receive = now, retransmit_milliseconds = INITIAL_RETRANSMIT_MILLISECONDS,
           smoothed_round_trip_milliseconds = None, round_trip_variation_milliseconds = 0,
           association = Due, acknowledgement_due = False, received_server_state = False,
           round_trip_milliseconds = None, connection_state = Connecting, lifecycle = Running,
           udp_binding_generation = 0, shutdown = Open, peer_shutdown_acknowledgement_due = False\<rparr>)"

definition usize_as_u64 :: "usize \<Rightarrow> u64" where
  "usize_as_u64 v = (if v < usize_limit then of_nat v else u64_MAX)"

definition total_packet_bytes :: "bytes list \<Rightarrow> u64" where
  "total_packet_bytes packets =
     foldl (\<lambda>total packet. saturating_add total (usize_as_u64 (length packet))) 0 packets"

definition timestamp :: "monotonic_time \<Rightarrow> u16" where
  "timestamp now = ucast (milliseconds now AND 0xFFFF)"

definition send_actions :: "bytes list \<Rightarrow> session_action list" where
  "send_actions packets = map SendDatagram packets"

definition lifecycle_actions :: "session_lifecycle \<Rightarrow> session_action list" where
  "lifecycle_actions state = [SessionLifecycleChanged state, Diagnostic (DSessionLifecycleChanged state)]"

definition fresh_update_diagnostic :: "u64 \<Rightarrow> bytes list \<Rightarrow> usize \<Rightarrow> usize \<Rightarrow> diagnostic_event" where
  "fresh_update_diagnostic state_id packets instruction_count input_bytes =
     FreshUpdatePrepared state_id (usize_as_u64 (length packets)) (total_packet_bytes packets)
       (usize_as_u64 instruction_count) (usize_as_u64 input_bytes)"

definition retransmission_diagnostic :: "u64 \<Rightarrow> bytes list \<Rightarrow> u64 \<Rightarrow> diagnostic_event" where
  "retransmission_diagnostic state_id packets delay =
     RetransmissionPrepared state_id (usize_as_u64 (length packets)) (total_packet_bytes packets) delay"

definition is_server_responsive :: "('k, 'p) session_runtime \<Rightarrow> monotonic_time \<Rightarrow> bool" where
  "is_server_responsive rt now \<longleftrightarrow> elapsed_since now (last_receive rt) < SERVER_UNRESPONSIVE_MILLISECONDS"

definition milliseconds_since_server_response :: "('k, 'p) session_runtime \<Rightarrow> monotonic_time \<Rightarrow> u64" where
  "milliseconds_since_server_response rt now = elapsed_since now (last_receive rt)"

definition prediction_frame_id :: "('k, 'p) session_runtime \<Rightarrow> u64" where
  "prediction_frame_id rt = next_local_state (protocol rt)"

definition shutdown_outcome_of :: "('k, 'p) session_runtime \<Rightarrow> shutdown_outcome option" where
  "shutdown_outcome_of rt = (case shutdown rt of Complete outcome \<Rightarrow> Some outcome | _ \<Rightarrow> None)"

definition shutdown_in_progress :: "('k, 'p) session_runtime \<Rightarrow> bool" where
  "shutdown_in_progress rt = (case shutdown rt of Open \<Rightarrow> False | Complete _ \<Rightarrow> False | _ \<Rightarrow> True)"

definition runtime_has_negotiated_capability :: "('k, 'p) session_runtime \<Rightarrow> u8 \<Rightarrow> bool" where
  "runtime_has_negotiated_capability rt capability = has_negotiated_capability (protocol rt) capability"

definition runtime_set_local_capabilities ::
    "('k, 'p) session_runtime \<Rightarrow> bytes \<Rightarrow> ('k, 'p) session_runtime" where
  "runtime_set_local_capabilities rt capabilities =
     rt\<lparr>protocol := set_local_capabilities (protocol rt) capabilities\<rparr>"

definition ensure_running :: "('k, 'p) session_runtime \<Rightarrow> runtime_error + unit" where
  "ensure_running rt =
     (case lifecycle rt of Running \<Rightarrow> Inr () | Paused \<Rightarrow> Inl SessionPaused | Cancelled \<Rightarrow> Inl SessionCancelled)"

definition ensure_accepting_input :: "('k, 'p) session_runtime \<Rightarrow> runtime_error + unit" where
  "ensure_accepting_input rt =
     (case ensure_running rt of
        Inl e \<Rightarrow> Inl e
      | Inr _ \<Rightarrow> if shutdown rt \<noteq> Open then Inl ShutdownInProgress else Inr ())"

definition is_local_requested :: "shutdown_state \<Rightarrow> bool" where
  "is_local_requested s = (case s of LocalRequested _ _ \<Rightarrow> True | _ \<Rightarrow> False)"

definition shutdown_timed_out :: "('k, 'p) session_runtime \<Rightarrow> monotonic_time \<Rightarrow> bool" where
  "shutdown_timed_out rt now =
     (case shutdown rt of
        LocalRequested started transmitted \<Rightarrow>
          transmitted \<ge> SHUTDOWN_RETRY_LIMIT \<or> elapsed_since now started \<ge> SHUTDOWN_TIMEOUT_MILLISECONDS
      | _ \<Rightarrow> False)"

definition record_shutdown_transmission :: "('k, 'p) session_runtime \<Rightarrow> ('k, 'p) session_runtime" where
  "record_shutdown_transmission rt =
     (case shutdown rt of
        LocalRequested started transmitted \<Rightarrow>
          rt\<lparr>shutdown := LocalRequested started (saturating_add transmitted 1)\<rparr>
      | _ \<Rightarrow> rt)"

definition complete_shutdown ::
    "('k, 'p) session_runtime \<Rightarrow> shutdown_outcome \<Rightarrow> session_action list \<times> ('k, 'p) session_runtime" where
  "complete_shutdown rt outcome =
     ([ShutdownComplete outcome, Diagnostic (DShutdownComplete outcome)], rt\<lparr>shutdown := Complete outcome\<rparr>)"

definition complete_peer_shutdown_after_ack ::
    "('k, 'p) session_runtime \<Rightarrow> session_action list \<Rightarrow> session_action list \<times> ('k, 'p) session_runtime" where
  "complete_peer_shutdown_after_ack rt actions =
     (if peer_shutdown_acknowledgement_due rt then
        let rt = rt\<lparr>peer_shutdown_acknowledgement_due := False\<rparr>;
            (completed, rt) = complete_shutdown rt PeerRequestedOutcome
        in (actions @ completed, rt)
      else (actions, rt))"

definition connection_state_action ::
    "('k, 'p) session_runtime \<Rightarrow> monotonic_time \<Rightarrow> connection_state option \<times> ('k, 'p) session_runtime" where
  "connection_state_action rt now =
     (if connection_state rt = Connected \<and> \<not> is_server_responsive rt now
      then (Some Interrupted, rt\<lparr>connection_state := Interrupted\<rparr>)
      else (None, rt))"

definition update_retransmit_timeout :: "('k, 'p) session_runtime \<Rightarrow> u64 \<Rightarrow> ('k, 'p) session_runtime" where
  "update_retransmit_timeout rt sample =
     (let rt =
        (case smoothed_round_trip_milliseconds rt of
           Some smoothed \<Rightarrow>
             let difference = abs_diff smoothed sample in
             rt\<lparr>round_trip_variation_milliseconds :=
                  saturating_add (saturating_mul (round_trip_variation_milliseconds rt) 3) difference div 4,
                smoothed_round_trip_milliseconds :=
                  Some (saturating_add (saturating_mul smoothed 7) sample div 8)\<rparr>
         | None \<Rightarrow>
             rt\<lparr>smoothed_round_trip_milliseconds := Some sample,
                round_trip_variation_milliseconds := sample div 2\<rparr>);
          smoothed = (case smoothed_round_trip_milliseconds rt of None \<Rightarrow> sample | Some s \<Rightarrow> s)
      in rt\<lparr>retransmit_milliseconds :=
              max MINIMUM_RETRANSMIT_MILLISECONDS (min MAXIMUM_RETRANSMIT_MILLISECONDS
                (saturating_add smoothed (saturating_mul (round_trip_variation_milliseconds rt) 4)))\<rparr>)"

definition record_round_trip_sample ::
    "('k, 'p) session_runtime \<Rightarrow> u16 \<Rightarrow> session_action list \<times> ('k, 'p) session_runtime" where
  "record_round_trip_sample rt sample =
     (let rt = update_retransmit_timeout rt (ucast sample) in
      if round_trip_milliseconds rt = Some sample then ([], rt)
      else ([RoundTripEstimate sample, Diagnostic (RoundTripUpdated sample)],
            rt\<lparr>round_trip_milliseconds := Some sample\<rparr>))"

subsection \<open>Model: input and lifecycle\<close>

definition queue_sized ::
    "('k, 'p) session_runtime \<Rightarrow> usize \<Rightarrow> instruction \<Rightarrow> (runtime_error + unit) \<times> ('k, 'p) session_runtime" where
  "queue_sized rt additional i =
     (case usize_checked_add (queued_input_bytes rt) additional of
        None \<Rightarrow> (Inl InputQueueFull, rt)
      | Some new_size \<Rightarrow>
          if new_size > MAXIMUM_QUEUED_INPUT_BYTES then (Inl InputQueueFull, rt)
          else (Inr (), rt\<lparr>queued_input_bytes := new_size, queued_instructions := queued_instructions rt @ [i]\<rparr>))"

definition queue_input ::
    "('k, 'p) session_runtime \<Rightarrow> bytes \<Rightarrow> (runtime_error + unit) \<times> ('k, 'p) session_runtime" where
  "queue_input rt bytes =
     (case ensure_accepting_input rt of
        Inl e \<Rightarrow> (Inl e, rt)
      | Inr _ \<Rightarrow> queue_sized rt (length bytes)
          \<lparr>in_bytes = Some (ByteRun bytes), in_viewport = None, in_marker = None, in_session_control = None\<rparr>)"

definition queue_session_control ::
    "('k, 'p) session_runtime \<Rightarrow> u32 \<Rightarrow> bytes \<Rightarrow> (runtime_error + unit) \<times> ('k, 'p) session_runtime" where
  "queue_session_control rt kind payload =
     (case ensure_accepting_input rt of
        Inl e \<Rightarrow> (Inl e, rt)
      | Inr _ \<Rightarrow>
          if \<not> runtime_has_negotiated_capability rt SESSION_CONTROL_CAPABILITY
          then (Inl CapabilityNotNegotiated, rt)
          else queue_sized rt (length payload)
            \<lparr>in_bytes = None, in_viewport = None, in_marker = None,
             in_session_control = Some \<lparr>sc_kind = kind, sc_payload = payload\<rparr>\<rparr>)"

definition is_resize_instruction :: "instruction \<Rightarrow> bool" where
  "is_resize_instruction i \<longleftrightarrow>
     in_bytes i = None \<and> in_marker i = None \<and> in_session_control i = None \<and> in_viewport i \<noteq> None"

definition queue_resize ::
    "('k, 'p, 'v) session_lib \<Rightarrow> ('k, 'p) session_runtime \<Rightarrow> u16 \<Rightarrow> u16 \<Rightarrow>
     (runtime_error + unit) \<times> ('k, 'p) session_runtime" where
  "queue_resize lib rt columns rows =
     (if lifecycle rt \<noteq> Running \<or> shutdown rt \<noteq> Open then (Inr (), rt)
      else
        (case set_initial_remote_viewport lib (protocol rt) columns rows of
           (Inl e, p) \<Rightarrow> (Inl (SessionFailed e), rt\<lparr>protocol := p\<rparr>)
         | (Inr _, p) \<Rightarrow>
             let rt = rt\<lparr>protocol := p\<rparr>;
                 viewport = \<lparr>vp_columns = ucast columns, vp_rows = ucast rows\<rparr>;
                 queue = queued_instructions rt
             in (Inr (),
                 if queue \<noteq> [] \<and> is_resize_instruction (last queue)
                 then rt\<lparr>queued_instructions := butlast queue @ [(last queue)\<lparr>in_viewport := Some viewport\<rparr>]\<rparr>
                 else rt\<lparr>queued_instructions := queue @
                   [\<lparr>in_bytes = None, in_viewport = Some viewport, in_marker = None, in_session_control = None\<rparr>]\<rparr>)))"

definition queue_terminal_event ::
    "('k, 'p, 'v) session_lib \<Rightarrow> ('k, 'p) session_runtime \<Rightarrow> terminal_input_event \<Rightarrow>
     (runtime_error + unit) \<times> ('k, 'p) session_runtime" where
  "queue_terminal_event lib rt event =
     (case ensure_accepting_input rt of
        Inl e \<Rightarrow> (Inl e, rt)
      | Inr _ \<Rightarrow>
          (case event of
             InputBytes bytes \<Rightarrow> queue_input rt bytes
           | InputResize columns rows \<Rightarrow> queue_resize lib rt columns rows))"

definition pause :: "('k, 'p) session_runtime \<Rightarrow> session_action list \<times> ('k, 'p) session_runtime" where
  "pause rt =
     (if lifecycle rt \<noteq> Running then ([], rt)
      else (lifecycle_actions Paused, rt\<lparr>lifecycle := Paused\<rparr>))"

definition cancel :: "('k, 'p) session_runtime \<Rightarrow> session_action list \<times> ('k, 'p) session_runtime" where
  "cancel rt =
     (if lifecycle rt = Cancelled then ([], rt)
      else (lifecycle_actions Cancelled,
            rt\<lparr>lifecycle := Cancelled, queued_instructions := [], queued_input_bytes := 0\<rparr>))"

definition request_shutdown ::
    "('k, 'p) session_runtime \<Rightarrow> monotonic_time \<Rightarrow> (runtime_error + session_action list) \<times> ('k, 'p) session_runtime" where
  "request_shutdown rt now =
     (case ensure_running rt of
        Inl e \<Rightarrow> (Inl e, rt)
      | Inr _ \<Rightarrow>
          if shutdown rt = Open
          then (Inr [Diagnostic ShutdownStarted], rt\<lparr>shutdown := LocalRequested now 0\<rparr>)
          else (Inr [], rt))"

definition notify_udp_rebound ::
    "('k, 'p) session_runtime \<Rightarrow> session_action list \<times> ('k, 'p) session_runtime" where
  "notify_udp_rebound rt =
     (if lifecycle rt = Cancelled then ([], rt)
      else
        let rt = rt\<lparr>udp_binding_generation := saturating_add (udp_binding_generation rt) 1, last_send := None\<rparr>
        in ([UdpBindingChanged (udp_binding_generation rt),
             Diagnostic (DUdpBindingChanged (udp_binding_generation rt))], rt))"

definition resume_state :: "('k, 'p) session_runtime \<Rightarrow> monotonic_time \<Rightarrow> ('k, 'p) session_runtime" where
  "resume_state rt now =
     (if lifecycle rt = Cancelled then rt
      else rt\<lparr>lifecycle := Running, last_receive := now, last_send := None\<rparr>)"

definition resume :: "('k, 'p) session_runtime \<Rightarrow> monotonic_time \<Rightarrow> ('k, 'p) session_runtime" where
  "resume rt now = resume_state rt now"

definition resume_with_actions ::
    "('k, 'p) session_runtime \<Rightarrow> monotonic_time \<Rightarrow> session_action list \<times> ('k, 'p) session_runtime" where
  "resume_with_actions rt now =
     (if lifecycle rt = Cancelled then ([], rt)
      else
        let was_paused = (lifecycle rt = Paused); rt = resume_state rt now
        in (if was_paused then lifecycle_actions Running else [], rt))"

subsection \<open>Model: receiving\<close>

definition instruction_actions :: "instruction \<Rightarrow> session_action list" where
  "instruction_actions i =
     (case in_bytes i of None \<Rightarrow> [] | Some bytes \<Rightarrow> [WriteTerminal (run_value bytes)]) @
     (case in_viewport i of
        None \<Rightarrow> []
      | Some viewport \<Rightarrow>
          (case (u16_try_from (vp_columns viewport), u16_try_from (vp_rows viewport)) of
             (Some columns, Some rows) \<Rightarrow> [ResizeTerminal columns rows]
           | _ \<Rightarrow> [])) @
     (case in_marker i of None \<Rightarrow> [] | Some m \<Rightarrow> [AcknowledgePrediction (marker_value m)]) @
     (case in_session_control i of
        None \<Rightarrow> [] | Some control \<Rightarrow> [RemoteSessionControl (sc_kind control) (sc_payload control)])"

text \<open>The part of \<open>receive_datagram\<close> from the receipt's state on.\<close>

definition receive_state ::
    "('k, 'p, 'v) session_lib \<Rightarrow> ('k, 'p) session_runtime \<Rightarrow> session_action list \<Rightarrow> received_state \<Rightarrow>
     (runtime_error + session_action list) \<times> ('k, 'p) session_runtime" where
  "receive_state lib rt actions state =
     (let u = rs_update state;
          rt = rt\<lparr>acknowledgement_due := acknowledgement_due rt \<or> rs_advances_remote_state state,
                  received_server_state := True\<rparr>;
          rt = (if su_target_state u = u64_MAX then
                  let rt = rt\<lparr>peer_shutdown_acknowledgement_due := True\<rparr>
                  in if shutdown rt = Open then rt\<lparr>shutdown := PeerRequested\<rparr> else rt
                else rt);
          actions = actions @ [Diagnostic (InboundUpdateAccepted (rs_packet_counter state)
            (su_base_state u) (su_target_state u) (su_acknowledged_state u) (su_discard_before u)
            (usize_as_u64 (length (su_delta u))) (rs_advances_remote_state state))]
      in if \<not> rs_advances_remote_state state then (Inr actions, rt)
         else
           let actions = actions @ [RemoteStateAdvanced (su_target_state u)] in
           (case decode_instructions (codec lib) u of
              Inl e \<Rightarrow> (Inl (UpdateMessageFailed e), rt)
            | Inr batch \<Rightarrow> (Inr (actions @ concat (map instruction_actions (instructions batch))), rt)))"

definition receive_datagram ::
    "('k, 'p, 'v) session_lib \<Rightarrow> ('k, 'p) session_runtime \<Rightarrow> bytes \<Rightarrow> monotonic_time \<Rightarrow>
     (runtime_error + session_action list) \<times> ('k, 'p) session_runtime" where
  "receive_datagram lib rt packet now =
     (case ensure_running rt of
        Inl e \<Rightarrow> (Inl e, rt)
      | Inr _ \<Rightarrow>
          let previous_capabilities = remote_capabilities (protocol rt) in
          (case ingest_packet lib (protocol rt) packet of
             (Inl e, p) \<Rightarrow> (Inl (SessionFailed e), rt\<lparr>protocol := p\<rparr>)
           | (Inr r, p) \<Rightarrow>
               let rt = rt\<lparr>protocol := p, last_receive := now\<rparr>;
                   actions = (if remote_capabilities p \<noteq> previous_capabilities
                              then [CapabilitiesChanged (remote_capabilities p)] else []);
                   (actions, rt) =
                     (if connection_state rt \<noteq> Connected
                      then (actions @ [ConnectionStateChanged Connected,
                              Diagnostic (DConnectionStateChanged Connected)],
                            rt\<lparr>connection_state := Connected\<rparr>)
                      else (actions, rt));
                   (actions, rt) =
                     (if pr_echoed_timestamp r \<noteq> u16_MAX then
                        let elapsed = timestamp now - pr_echoed_timestamp r in
                        if elapsed \<le> 30000 then
                          let (samples, rt) = record_round_trip_sample rt elapsed in (actions @ samples, rt)
                        else (actions, rt)
                      else (actions, rt))
               in (case pr_state r of
                     None \<Rightarrow> (Inr actions, rt)
                   | Some state \<Rightarrow> receive_state lib rt actions state)))"

definition receive_datagram_lossy ::
    "('k, 'p, 'v) session_lib \<Rightarrow> ('k, 'p) session_runtime \<Rightarrow> bytes \<Rightarrow> monotonic_time \<Rightarrow>
     session_action list \<times> ('k, 'p) session_runtime" where
  "receive_datagram_lossy lib rt packet now =
     (case receive_datagram lib rt packet now of
        (Inl _, rt) \<Rightarrow> ([], rt)
      | (Inr actions, rt) \<Rightarrow> (actions, rt))"

subsection \<open>Model: polling\<close>

definition local_shutdown_unsent :: "('k, 'p) session_runtime \<Rightarrow> bool" where
  "local_shutdown_unsent rt \<longleftrightarrow> is_local_requested (shutdown rt) \<and> \<not> local_shutdown_sent (protocol rt)"

definition acknowledges_peer_shutdown :: "('k, 'p) session_runtime \<Rightarrow> bool" where
  "acknowledges_peer_shutdown rt \<longleftrightarrow>
     peer_shutdown_acknowledgement_due rt \<and> local_shutdown_acknowledged (protocol rt)"

definition build_queued_update ::
    "('k, 'p, 'v) session_lib \<Rightarrow> ('k, 'p) session_runtime \<Rightarrow> monotonic_time \<Rightarrow>
     (runtime_error + bytes list \<times> diagnostic_event) \<times> ('k, 'p) session_runtime" where
  "build_queued_update lib rt now =
     (let state_id = (if local_shutdown_unsent rt \<or> acknowledges_peer_shutdown rt then u64_MAX
                      else next_local_state (protocol rt));
          input_bytes = queued_input_bytes rt;
          batch = InstructionBatch (queued_instructions rt);
          instruction_count = length (instructions batch);
          rt = rt\<lparr>queued_instructions := [], queued_input_bytes := 0, acknowledgement_due := False\<rparr>;
          (result, p) =
            (if acknowledges_peer_shutdown rt then build_shutdown_ack lib (protocol rt) (timestamp now)
             else if local_shutdown_unsent rt then build_shutdown lib (protocol rt) (timestamp now) batch
             else build_update lib (protocol rt) (timestamp now) batch);
          rt = rt\<lparr>protocol := p\<rparr>
      in (case result of
            Inl e \<Rightarrow> (Inl (SessionFailed e), rt)
          | Inr packets \<Rightarrow>
              (Inr (packets, fresh_update_diagnostic state_id packets instruction_count input_bytes),
               rt\<lparr>last_send := Some now\<rparr>)))"

text \<open>The last part of \<open>poll\<close>: a queued update, a retransmission, or an acknowledgement or heartbeat.\<close>

definition poll_queued ::
    "('k, 'p, 'v) session_lib \<Rightarrow> ('k, 'p) session_runtime \<Rightarrow> monotonic_time \<Rightarrow> session_action list \<Rightarrow>
     (runtime_error + session_action list) \<times> ('k, 'p) session_runtime" where
  "poll_queued lib rt now actions =
     (case build_queued_update lib rt now of
        (Inl e, rt) \<Rightarrow> (Inl e, rt)
      | (Inr (packets, diagnostic), rt) \<Rightarrow>
          let actions = actions @ send_actions packets @ [Diagnostic diagnostic];
              rt = record_shutdown_transmission rt;
              (actions, rt) = complete_peer_shutdown_after_ack rt actions
          in (Inr actions, rt))"

definition poll_retransmit ::
    "('k, 'p, 'v) session_lib \<Rightarrow> ('k, 'p) session_runtime \<Rightarrow> monotonic_time \<Rightarrow> session_action list \<Rightarrow>
     (runtime_error + session_action list) \<times> ('k, 'p) session_runtime" where
  "poll_retransmit lib rt now actions =
     (if \<not> acknowledgement_due rt \<and>
         (case last_send rt of
            None \<Rightarrow> False
          | Some sent \<Rightarrow> elapsed_since now sent < retransmit_milliseconds rt)
      then (Inr actions, rt)
      else
        (case retransmit_pending lib (protocol rt) (timestamp now) of
           (Inl e, p) \<Rightarrow> (Inl (SessionFailed e), rt\<lparr>protocol := p\<rparr>)
         | (Inr packets, p) \<Rightarrow>
             let rt = rt\<lparr>protocol := p\<rparr>;
                 diagnostic = retransmission_diagnostic (latest_local_state p) packets (retransmit_milliseconds rt);
                 rt = rt\<lparr>last_send := Some now, acknowledgement_due := False\<rparr>;
                 actions = actions @ send_actions packets @ [Diagnostic diagnostic];
                 rt = record_shutdown_transmission rt;
                 (actions, rt) = complete_peer_shutdown_after_ack rt actions
             in (Inr actions, rt)))"

definition heartbeat_due :: "('k, 'p) session_runtime \<Rightarrow> monotonic_time \<Rightarrow> bool" where
  "heartbeat_due rt now =
     (case last_send rt of None \<Rightarrow> True | Some sent \<Rightarrow> elapsed_since now sent \<ge> retransmit_milliseconds rt)"

definition poll_heartbeat ::
    "('k, 'p, 'v) session_lib \<Rightarrow> ('k, 'p) session_runtime \<Rightarrow> monotonic_time \<Rightarrow> session_action list \<Rightarrow>
     (runtime_error + session_action list) \<times> ('k, 'p) session_runtime" where
  "poll_heartbeat lib rt now actions =
     (if \<not> acknowledgement_due rt \<and> \<not> heartbeat_due rt now then (Inr actions, rt)
      else
        (case build_acknowledgement lib (protocol rt) (timestamp now) of
           (Inl e, p) \<Rightarrow> (Inl (SessionFailed e), rt\<lparr>protocol := p\<rparr>)
         | (Inr packets, p) \<Rightarrow>
             let rt = rt\<lparr>protocol := p\<rparr>;
                 diagnostic = fresh_update_diagnostic (latest_local_state p) packets 0 0;
                 rt = rt\<lparr>last_send := Some now, acknowledgement_due := False\<rparr>;
                 actions = actions @ send_actions packets @ [Diagnostic diagnostic];
                 (actions, rt) = complete_peer_shutdown_after_ack rt actions
             in (Inr actions, rt)))"

definition poll_transport ::
    "('k, 'p, 'v) session_lib \<Rightarrow> ('k, 'p) session_runtime \<Rightarrow> monotonic_time \<Rightarrow> session_action list \<Rightarrow>
     (runtime_error + session_action list) \<times> ('k, 'p) session_runtime" where
  "poll_transport lib rt now actions =
     (let (changed, rt) = connection_state_action rt now;
          actions = actions @
            (case changed of
               None \<Rightarrow> []
             | Some state \<Rightarrow> [ConnectionStateChanged state, Diagnostic (DConnectionStateChanged state)]);
          has_queued_state = (queued_instructions rt \<noteq> [])
      in if (has_queued_state \<or> local_shutdown_unsent rt) \<and> \<not> has_pending_update (protocol rt)
         then poll_queued lib rt now actions
         else if has_pending_update (protocol rt) then poll_retransmit lib rt now actions
         else poll_heartbeat lib rt now actions)"

definition poll_association ::
    "('k, 'p, 'v) session_lib \<Rightarrow> ('k, 'p) session_runtime \<Rightarrow> monotonic_time \<Rightarrow>
     (runtime_error + session_action list) \<times> ('k, 'p) session_runtime" where
  "poll_association lib rt now =
     (if association rt = Due then
        (case build_association lib (protocol rt) (timestamp now) of
           (Inl e, p) \<Rightarrow> (Inl (SessionFailed e), rt\<lparr>protocol := p\<rparr>)
         | (Inr packets, p) \<Rightarrow>
             (Inr (send_actions packets @ [Diagnostic (fresh_update_diagnostic 0 packets 0 0)]),
              rt\<lparr>protocol := p, association := Sent, last_send := Some now\<rparr>))
      else (Inr [], rt))"

definition poll ::
    "('k, 'p, 'v) session_lib \<Rightarrow> ('k, 'p) session_runtime \<Rightarrow> monotonic_time \<Rightarrow>
     (runtime_error + session_action list) \<times> ('k, 'p) session_runtime" where
  "poll lib rt now =
     (if lifecycle rt \<noteq> Running then (Inr [], rt)
      else if shutdown_outcome_of rt \<noteq> None then (Inr [], rt)
      else
        (case poll_association lib rt now of
           (Inl e, rt) \<Rightarrow> (Inl e, rt)
         | (Inr actions, rt) \<Rightarrow>
             if local_shutdown_acknowledged (protocol rt) \<and> \<not> peer_shutdown_acknowledgement_due rt
             then apfst Inr (complete_shutdown rt Acknowledged)
             else if \<not> peer_shutdown_acknowledgement_due rt \<and> shutdown_timed_out rt now
             then apfst Inr (complete_shutdown rt TimedOut)
             else poll_transport lib rt now actions))"

definition protocol_wait :: "('k, 'p) session_runtime \<Rightarrow> monotonic_time \<Rightarrow> u64" where
  "protocol_wait rt now =
     (let can_send_queued = (\<not> has_pending_update (protocol rt)) in
      if association rt = Due \<or> acknowledgement_due rt \<or>
         can_send_queued \<and> queued_instructions rt \<noteq> [] \<or>
         is_local_requested (shutdown rt) \<and> \<not> local_shutdown_sent (protocol rt) \<and> can_send_queued
      then 0
      else
        (case last_send rt of
           None \<Rightarrow> 0
         | Some sent \<Rightarrow> saturating_sub (retransmit_milliseconds rt) (elapsed_since now sent)))"

definition milliseconds_until_next_poll :: "('k, 'p) session_runtime \<Rightarrow> monotonic_time \<Rightarrow> u64" where
  "milliseconds_until_next_poll rt now =
     (if lifecycle rt \<noteq> Running \<or> shutdown_outcome_of rt \<noteq> None then u64_MAX
      else
        (case shutdown rt of
           LocalRequested started transmitted \<Rightarrow>
             let timeout_wait =
                   (if transmitted \<ge> SHUTDOWN_RETRY_LIMIT then 0
                    else saturating_sub SHUTDOWN_TIMEOUT_MILLISECONDS (elapsed_since now started))
             in min (protocol_wait rt now) timeout_wait
         | _ \<Rightarrow> protocol_wait rt now))"

end
