(* ===== verification/Runtime_Safety.thy ===== *)
theory Runtime_Safety
  imports Runtime Session_Safety
begin

section \<open>Invariants of the runtime\<close>

text \<open>
  The invariant \<open>runtime_wf\<close> and its preservation by every operation of \<open>SessionRuntime\<close>: the protocol is
  well formed, unsent input is counted exactly and bounded, the retransmission timer stays between its
  limits, at most one state is in flight, state numbers ascend and nothing is sent after the shutdown
  state, and the shutdown handshake counts at most 16 transmissions.
\<close>

subsection \<open>The invariant\<close>

definition input_size :: "instruction \<Rightarrow> nat" where
  "input_size i =
     (case in_bytes i of None \<Rightarrow> 0 | Some r \<Rightarrow> length (run_value r)) +
     (case in_session_control i of None \<Rightarrow> 0 | Some c \<Rightarrow> length (sc_payload c))"

definition queue_wf :: "('k, 'p) session_runtime \<Rightarrow> bool" where
  "queue_wf rt \<longleftrightarrow>
     queued_input_bytes rt = sum_list (map input_size (queued_instructions rt)) \<and>
     queued_input_bytes rt \<le> MAXIMUM_QUEUED_INPUT_BYTES"

definition timer_wf :: "('k, 'p) session_runtime \<Rightarrow> bool" where
  "timer_wf rt \<longleftrightarrow>
     MINIMUM_RETRANSMIT_MILLISECONDS \<le> retransmit_milliseconds rt \<and>
     retransmit_milliseconds rt \<le> MAXIMUM_RETRANSMIT_MILLISECONDS \<and>
     unat (round_trip_variation_milliseconds rt) \<le> 65535 \<and>
     (\<forall>s. smoothed_round_trip_milliseconds rt = Some s \<longrightarrow> unat s \<le> 65535)"

abbreviation sent_ids :: "('k, 'p) client_protocol \<Rightarrow> u64 list" where
  "sent_ids p \<equiv> map ss_state_id (sent_states p)"

definition flight_wf :: "('k, 'p) client_protocol \<Rightarrow> bool" where
  "flight_wf p \<longleftrightarrow>
     length (sent_states p) \<le> 2 \<and> sorted_wrt (<) (sent_ids p) \<and>
     (\<forall>i \<in> set (sent_ids p). i \<noteq> u64_MAX \<longrightarrow> i < next_local_state p)"

definition shutdown_wf :: "('k, 'p) session_runtime \<Rightarrow> bool" where
  "shutdown_wf rt \<longleftrightarrow>
     (local_shutdown_sent (protocol rt) \<longrightarrow>
        queued_instructions rt = [] \<and> (is_local_requested (shutdown rt) \<or> shutdown_outcome_of rt \<noteq> None)) \<and>
     (\<forall>started n. shutdown rt = LocalRequested started n \<longrightarrow> n \<le> SHUTDOWN_RETRY_LIMIT)"

definition runtime_wf :: "('k, 'p) session_runtime \<Rightarrow> bool" where
  "runtime_wf rt \<longleftrightarrow>
     protocol_wf (protocol rt) \<and> queue_wf rt \<and> timer_wf rt \<and> flight_wf (protocol rt) \<and> shutdown_wf rt"

lemmas runtime_wfs = runtime_wf_def queue_wf_def timer_wf_def shutdown_wf_def

subsection \<open>The protocol under the runtime\<close>

text \<open>Operations that leave the sent states and their numbering alone.\<close>

definition same_flight :: "('k, 'p) client_protocol \<Rightarrow> ('k, 'p) client_protocol \<Rightarrow> bool" where
  "same_flight p p' \<longleftrightarrow> protocol_wf p' \<and> sent_states p' = sent_states p \<and> next_local_state p' = next_local_state p"

lemma same_flight_wf: "same_flight p p' \<Longrightarrow> flight_wf p \<Longrightarrow> flight_wf p'"
  by (simp add: same_flight_def flight_wf_def)

lemma same_flight_sent: "same_flight p p' \<Longrightarrow> local_shutdown_sent p' = local_shutdown_sent p"
  by (simp add: same_flight_def local_shutdown_sent_def)

lemma same_but_channel_flight: "same_but_channel p p' \<Longrightarrow> protocol_wf p \<Longrightarrow> same_flight p p'"
  using same_but_channel_fields(1,4) [of p p'] same_but_channel_wf [of p p'] by (simp add: same_flight_def)

lemma same_flight_runtime:
  assumes "runtime_wf rt" "same_flight (protocol rt) p"
  shows "runtime_wf (rt\<lparr>protocol := p\<rparr>)"
  using assms same_flight_wf [OF assms(2)] same_flight_sent [OF assms(2)]
  by (auto simp: runtime_wfs same_flight_def shutdown_outcome_of_def)

text \<open>A build when nothing is in flight appends the target state.\<close>

lemma build_when_idle:
  assumes wf: "protocol_wf p" and idle: "\<not> has_pending_update p"
    and build: "build_state_update lib p t batch target = (r, p')"
  shows "r \<noteq> Inl Panic \<and> protocol_wf p' \<and> next_local_state p' = next_local_state p \<and>
    (case r of
       Inl _ \<Rightarrow> sent_states p' = sent_states p
     | Inr _ \<Rightarrow> sent_ids p' = sent_ids p @ [target])"
proof -
  have one: "length (sent_states p) = 1"
    using idle sent_ends(1) [OF wf] by (cases "sent_states p") (auto simp: has_pending_update_def)
  have limit: "limit_states (sent_states p @ [s]) = sent_states p @ [s]" for s
    using one by (simp add: limit_states.simps [of "sent_states p @ [s]"] MAXIMUM_SENT_STATES_def)
  note cases = build_state_update_cases [OF wf, of lib t batch target]
  have "protocol_wf p'" "r \<noteq> Inl Panic"
    using build_state_update_wf [OF wf, of lib t batch target] by (simp_all add: build)
  moreover have "next_local_state p' = next_local_state p \<and>
      (case r of Inl _ \<Rightarrow> sent_states p' = sent_states p | Inr _ \<Rightarrow> sent_ids p' = sent_ids p @ [target])"
    using cases same_but_channel_fields(1,4)
    by (cases r) (fastforce simp: build limit)+
  ultimately show ?thesis by simp
qed

lemma idle_sent:
  assumes "protocol_wf p" "\<not> has_pending_update p"
  shows "\<exists>s. sent_states p = [s]"
  using assms sent_ends(1) [OF assms(1)]
  by (cases "sent_states p"; cases "tl (sent_states p)") (auto simp: has_pending_update_def)

lemma build_update_flight:
  assumes wf: "protocol_wf p" "flight_wf p" and idle: "\<not> has_pending_update p" "\<not> local_shutdown_sent p"
    and build: "build_update lib p t batch = (r, p')"
  shows "r \<noteq> Inl Panic \<and> protocol_wf p' \<and> flight_wf p' \<and> \<not> local_shutdown_sent p'"
proof (cases "next_local_state p = u64_MAX")
  case True
  with assms show ?thesis by (auto simp: build_update_def)
next
  case False
  obtain s where s: "sent_states p = [s]" using idle_sent [OF wf(1) idle(1)] by blast
  have below: "ss_state_id s < next_local_state p"
    using wf(2) idle(2) by (auto simp: flight_wf_def local_shutdown_sent_def s deque_back_def)
  obtain r1 p1 where b: "build_state_update lib p t batch (next_local_state p) = (r1, p1)" by fastforce
  note idle' = build_when_idle [OF wf(1) idle(1) b]
  show ?thesis
  proof (cases r1)
    case (Inl e)
    with idle' build False b wf(2) idle(2) show ?thesis
      by (auto simp: build_update_def flight_wf_def local_shutdown_sent_def)
  next
    case (Inr packets)
    with idle' have ids: "sent_ids p1 = [ss_state_id s, next_local_state p]" by (simp add: s)
    then obtain a c where sent: "sent_states p1 = [a, c]" "ss_state_id a = ss_state_id s"
      "ss_state_id c = next_local_state p" by (auto simp: map_eq_Cons_conv)
    have p': "p' = p1\<lparr>next_local_state := next_local_state p + 1\<rparr>" "r = r1"
      using build False b Inr by (auto simp: build_update_def)
    have "next_local_state p < next_local_state p + 1" using False by (rule u64_Suc_mono)
    with below idle' False sent show ?thesis
      by (auto simp: p' Inr flight_wf_def local_shutdown_sent_def deque_back_def protocol_wf_def)
  qed
qed

lemma build_shutdown_flight:
  assumes wf: "protocol_wf p" "flight_wf p" and idle: "\<not> has_pending_update p"
    and build: "build_shutdown lib p t batch = (r, p')"
  shows "r \<noteq> Inl Panic \<and> protocol_wf p' \<and> flight_wf p'"
proof (cases "local_shutdown_sent p")
  case True
  with assms show ?thesis by (auto simp: build_shutdown_def)
next
  case False
  obtain s where s: "sent_states p = [s]" using idle_sent [OF wf(1) idle] by blast
  have ne: "ss_state_id s \<noteq> u64_MAX" using False by (simp add: local_shutdown_sent_def s deque_back_def)
  have b: "build_state_update lib p t batch u64_MAX = (r, p')"
    using build False by (simp add: build_shutdown_def)
  note idle' = build_when_idle [OF wf(1) idle b]
  show ?thesis
  proof (cases r)
    case (Inl e)
    with idle' wf(2) show ?thesis by (simp add: flight_wf_def)
  next
    case (Inr packets)
    with idle' have "sent_ids p' = [ss_state_id s, u64_MAX]" by (simp add: s)
    moreover have "length (sent_states p') = length (sent_ids p')" by simp
    ultimately show ?thesis
      using idle' wf(2) u64_neq_MAX_less [OF ne] ne by (simp add: flight_wf_def s Inr)
  qed
qed

text \<open>Receiving keeps the numbering and only drops acknowledged states.\<close>

lemma acked_flight:
  assumes "flight_wf p" "i < length (sent_states p)"
  shows "flight_wf (acked p i)"
proof -
  have "sent_ids (acked p i) = drop i (sent_ids p)"
    by (simp add: acked_def Let_def comp_def drop_map)
  moreover have "next_local_state (acked p i) = next_local_state p" "length (sent_states (acked p i)) \<le> length (sent_states p)"
    by (simp_all add: acked_def Let_def)
  ultimately show ?thesis
    using assms sorted_wrt_drop [of "(<)" "sent_ids p" i]
    by (auto simp: flight_wf_def dest!: in_set_dropD)
qed

lemma acked_sent:
  assumes "i < length (sent_states p)"
  shows "local_shutdown_sent (acked p i) = local_shutdown_sent p"
proof -
  have "sent_states p \<noteq> []" "drop i (sent_states p) \<noteq> []" using assms by auto
  then show ?thesis
    by (simp add: local_shutdown_sent_def acked_def Let_def last_map)
qed

lemma ack_step_flight:
  assumes "ack_step p p'" "next_local_state p' = next_local_state p" "flight_wf p"
  shows "flight_wf p' \<and> local_shutdown_sent p' = local_shutdown_sent p"
proof (cases "sent_states p' = sent_states p")
  case True
  with assms show ?thesis by (simp add: flight_wf_def local_shutdown_sent_def)
next
  case False
  with assms(1) obtain i where i: "i < length (sent_states p)" "sent_states p' = sent_states (acked p i)"
    by (auto simp: ack_step_def)
  have "next_local_state (acked p i) = next_local_state p" by (simp add: acked_def Let_def)
  with acked_flight [OF assms(3) i(1)] acked_sent [OF i(1)] i(2) assms(2) show ?thesis
    by (simp add: flight_wf_def local_shutdown_sent_def)
qed

subsection \<open>The retransmission timer\<close>

text \<open>The estimator over natural numbers: the saturating 64-bit arithmetic never saturates on it.\<close>

definition rto_nat :: "nat \<Rightarrow> nat \<Rightarrow> nat" where
  "rto_nat smoothed variation = max 250 (min 10000 (smoothed + 4 * variation))"

lemma unat_abs_diff: "unat (abs_diff a b) = (if unat a < unat b then unat b - unat a else unat a - unat b)"
  by (simp add: abs_diff_def word_less_nat_alt unat_sub word_le_nat_alt)

lemma unat_clamp:
  "unat (max MINIMUM_RETRANSMIT_MILLISECONDS (min MAXIMUM_RETRANSMIT_MILLISECONDS w)) = max 250 (min 10000 (unat w))"
  by (simp add: max_def min_def MINIMUM_RETRANSMIT_MILLISECONDS_def MAXIMUM_RETRANSMIT_MILLISECONDS_def
      word_le_nat_alt)

lemma unat_rto:
  assumes "unat smoothed \<le> 65535" "unat variation \<le> 65535"
  shows "unat (max MINIMUM_RETRANSMIT_MILLISECONDS (min MAXIMUM_RETRANSMIT_MILLISECONDS
      (saturating_add smoothed (saturating_mul variation 4)))) = rto_nat (unat smoothed) (unat (variation :: u64))"
  unfolding unat_clamp rto_nat_def
  using assms by (simp add: unat_saturating_add unat_saturating_mul min_def max_def)

lemma update_retransmit_timeout_nat:
  assumes "timer_wf rt" "unat sample \<le> 65535"
  shows "\<exists>smoothed. smoothed_round_trip_milliseconds (update_retransmit_timeout rt sample) = Some smoothed \<and>
    unat smoothed = (case smoothed_round_trip_milliseconds rt of None \<Rightarrow> unat sample
      | Some s \<Rightarrow> (7 * unat s + unat sample) div 8) \<and>
    unat (round_trip_variation_milliseconds (update_retransmit_timeout rt sample)) =
      (case smoothed_round_trip_milliseconds rt of None \<Rightarrow> unat sample div 2
       | Some s \<Rightarrow> (3 * unat (round_trip_variation_milliseconds rt) +
           (if unat s < unat sample then unat sample - unat s else unat s - unat sample)) div 4) \<and>
    unat (retransmit_milliseconds (update_retransmit_timeout rt sample)) =
      rto_nat (unat smoothed) (unat (round_trip_variation_milliseconds (update_retransmit_timeout rt sample)))"
proof (cases "smoothed_round_trip_milliseconds rt")
  case None
  have "unat (sample div 2) \<le> 65535" using assms(2) by (simp add: unat_div)
  with None unat_rto [OF assms(2) this] show ?thesis
    by (simp add: update_retransmit_timeout_def Let_def unat_div)
next
  case (Some s)
  let ?v = "round_trip_variation_milliseconds rt"
  let ?s' = "saturating_add (saturating_mul s 7) sample div 8"
  let ?v' = "saturating_add (saturating_mul ?v 3) (abs_diff s sample) div 4"
  from assms Some have b: "unat s \<le> 65535" "unat ?v \<le> 65535" by (auto simp: timer_wf_def)
  have s': "unat ?s' = (7 * unat s + unat sample) div 8"
    using b assms(2) by (simp add: unat_div unat_saturating_add unat_saturating_mul min_def mult.commute)
  have v': "unat ?v' = (3 * unat ?v + (if unat s < unat sample then unat sample - unat s else unat s - unat sample)) div 4"
    using b assms(2)
    by (auto simp: unat_div unat_saturating_add unat_saturating_mul unat_abs_diff min_def mult.commute)
  have "unat ?s' \<le> 65535" "unat ?v' \<le> 65535"
    unfolding s' v' using b assms(2) by auto
  with Some s' v' unat_rto [of ?s' ?v'] show ?thesis
    by (simp add: update_retransmit_timeout_def Let_def)
qed

lemma update_retransmit_timeout_wf:
  assumes "timer_wf rt" "unat sample \<le> 65535"
  shows "timer_wf (update_retransmit_timeout rt sample)"
proof -
  let ?rt = "update_retransmit_timeout rt sample"
  from update_retransmit_timeout_nat [OF assms] obtain s where
    s: "smoothed_round_trip_milliseconds ?rt = Some s"
      "unat s = (case smoothed_round_trip_milliseconds rt of None \<Rightarrow> unat sample
        | Some s \<Rightarrow> (7 * unat s + unat sample) div 8)"
    and v: "unat (round_trip_variation_milliseconds ?rt) =
      (case smoothed_round_trip_milliseconds rt of None \<Rightarrow> unat sample div 2
       | Some s \<Rightarrow> (3 * unat (round_trip_variation_milliseconds rt) +
           (if unat s < unat sample then unat sample - unat s else unat s - unat sample)) div 4)"
    and r: "unat (retransmit_milliseconds ?rt) = rto_nat (unat s) (unat (round_trip_variation_milliseconds ?rt))"
    by blast
  have "unat s \<le> 65535" using assms s(2) by (auto simp: timer_wf_def split: option.splits)
  moreover have "unat (round_trip_variation_milliseconds ?rt) \<le> 65535"
    using assms unfolding v by (auto simp: timer_wf_def split: option.splits)
  ultimately show ?thesis
    using s(1) r by (simp add: timer_wf_def MINIMUM_RETRANSMIT_MILLISECONDS_def MAXIMUM_RETRANSMIT_MILLISECONDS_def
        word_le_nat_alt rto_nat_def)
qed

lemma update_retransmit_timeout_frame:
  "protocol (update_retransmit_timeout rt s) = protocol rt"
  "queued_instructions (update_retransmit_timeout rt s) = queued_instructions rt"
  "queued_input_bytes (update_retransmit_timeout rt s) = queued_input_bytes rt"
  "shutdown (update_retransmit_timeout rt s) = shutdown rt"
  "lifecycle (update_retransmit_timeout rt s) = lifecycle rt"
  "peer_shutdown_acknowledgement_due (update_retransmit_timeout rt s) = peer_shutdown_acknowledgement_due rt"
  by (auto simp: update_retransmit_timeout_def Let_def split: option.splits)

lemma record_round_trip_sample_wf:
  assumes "runtime_wf rt"
  shows "runtime_wf (snd (record_round_trip_sample rt sample)) \<and>
    shutdown (snd (record_round_trip_sample rt sample)) = shutdown rt \<and>
    lifecycle (snd (record_round_trip_sample rt sample)) = lifecycle rt \<and>
    protocol (snd (record_round_trip_sample rt sample)) = protocol rt"
proof -
  have "unat (ucast sample :: u64) \<le> 65535"
    using unat_u16_less [of sample] by (simp add: unsigned_ucast_eq take_bit_nat_eq_self)
  with assms update_retransmit_timeout_wf [of rt "ucast sample"] show ?thesis
    by (auto simp: record_round_trip_sample_def Let_def runtime_wf_def queue_wf_def shutdown_wf_def
        timer_wf_def update_retransmit_timeout_frame shutdown_outcome_of_def)
qed

subsection \<open>Preservation: input and lifecycle\<close>

lemma ensure_accepting_input_iff:
  "ensure_accepting_input rt = Inr () \<longleftrightarrow> lifecycle rt = Running \<and> shutdown rt = Open"
  by (auto simp: ensure_accepting_input_def ensure_running_def split: session_lifecycle.splits)

lemma open_not_sent: "runtime_wf rt \<Longrightarrow> shutdown rt = Open \<Longrightarrow> \<not> local_shutdown_sent (protocol rt)"
  by (auto simp: runtime_wf_def shutdown_wf_def is_local_requested_def shutdown_outcome_of_def)

lemma queue_sized_wf:
  assumes "runtime_wf rt" "shutdown rt = Open" "input_size i = n"
  shows "runtime_wf (snd (queue_sized rt n i))"
  using assms open_not_sent [OF assms(1,2)]
  by (auto simp: queue_sized_def usize_checked_add_def runtime_wfs shutdown_outcome_of_def split: option.splits)

lemma queue_input_wf: "runtime_wf rt \<Longrightarrow> runtime_wf (snd (queue_input rt bytes))"
  using queue_sized_wf [of rt] ensure_accepting_input_iff [of rt]
  by (auto simp: queue_input_def input_size_def split: sum.splits)

lemma queue_session_control_wf: "runtime_wf rt \<Longrightarrow> runtime_wf (snd (queue_session_control rt kind payload))"
  using queue_sized_wf [of rt] ensure_accepting_input_iff [of rt]
  by (auto simp: queue_session_control_def input_size_def split: sum.splits)

lemma set_initial_remote_viewport_flight:
  "protocol_wf p \<Longrightarrow> same_flight p (snd (set_initial_remote_viewport lib p c r))"
  using set_initial_remote_viewport_receives [of p lib c r]
  by (auto simp: same_flight_def receives_def set_initial_remote_viewport_def split: sum.splits option.splits)

lemma queue_resize_wf:
  assumes wf: "runtime_wf rt"
  shows "runtime_wf (snd (queue_resize lib rt c r)) \<and> fst (queue_resize lib rt c r) \<noteq> Inl (SessionFailed Panic)"
proof (cases "lifecycle rt \<noteq> Running \<or> shutdown rt \<noteq> Open")
  case True
  with wf show ?thesis by (auto simp: queue_resize_def)
next
  case False
  have wfp: "protocol_wf (protocol rt)" using wf by (simp add: runtime_wf_def)
  obtain res p where set: "set_initial_remote_viewport lib (protocol rt) c r = (res, p)" by fastforce
  have flight: "same_flight (protocol rt) p"
    using set_initial_remote_viewport_flight [OF wfp, of lib c r] by (simp add: set)
  have ok: "res = Inr ()"
    using set set_initial_remote_viewport_receives [OF wfp, of lib c r]
    by (auto simp: set_initial_remote_viewport_def split: sum.splits option.splits if_splits)
  note rt' = same_flight_runtime [OF wf flight]
  have "shutdown (rt\<lparr>protocol := p\<rparr>) = Open" using False by simp
  note unsent = open_not_sent [OF rt' this]
  have last: "sum_list (map input_size (queued_instructions rt)) =
      sum_list (map input_size (butlast (queued_instructions rt)))"
    if ne: "queued_instructions rt \<noteq> []" and res: "is_resize_instruction (last (queued_instructions rt))"
  proof -
    obtain q x where "queued_instructions rt = q @ [x]"
      using ne rev_exhaust by blast
    with ne res show ?thesis by (simp add: is_resize_instruction_def input_size_def)
  qed
  show ?thesis
  proof (cases "queued_instructions rt \<noteq> [] \<and> is_resize_instruction (last (queued_instructions rt))")
    case True
    with False ok set rt' unsent last show ?thesis
      by (auto simp: queue_resize_def Let_def runtime_wfs input_size_def is_resize_instruction_def)
  next
    case no: False
    with False ok set rt' unsent show ?thesis
      by (auto simp: queue_resize_def Let_def runtime_wfs input_size_def)
  qed
qed

lemma queue_terminal_event_wf:
  assumes "runtime_wf rt"
  shows "runtime_wf (snd (queue_terminal_event lib rt ev)) \<and>
    fst (queue_terminal_event lib rt ev) \<noteq> Inl (SessionFailed Panic)"
proof -
  have "fst (queue_input rt bs) \<noteq> Inl (SessionFailed Panic)" for bs
    by (auto simp: queue_input_def queue_sized_def ensure_accepting_input_def ensure_running_def
        split: sum.splits option.splits session_lifecycle.splits if_splits)
  with queue_input_wf [OF assms] queue_resize_wf [OF assms, of lib] assms show ?thesis
    by (auto simp: queue_terminal_event_def ensure_accepting_input_def ensure_running_def
        split: sum.splits terminal_input_event.splits session_lifecycle.splits if_splits)
qed

lemma lifecycle_ops_wf:
  assumes "runtime_wf rt"
  shows "runtime_wf (snd (pause rt))" "runtime_wf (snd (cancel rt))" "runtime_wf (snd (request_shutdown rt now))"
    "runtime_wf (snd (notify_udp_rebound rt))" "runtime_wf (resume_state rt now)"
    "runtime_wf (snd (resume_with_actions rt now))" "runtime_wf (runtime_set_local_capabilities rt caps)"
proof -
  show "runtime_wf (snd (pause rt))"
    using assms by (auto simp: pause_def runtime_wfs shutdown_outcome_of_def)
  show "runtime_wf (snd (cancel rt))"
    using assms by (auto simp: cancel_def runtime_wfs shutdown_outcome_of_def)
  show "runtime_wf (snd (request_shutdown rt now))"
    using assms open_not_sent [OF assms]
    by (auto simp: request_shutdown_def runtime_wfs shutdown_outcome_of_def split: sum.splits)
  show "runtime_wf (snd (notify_udp_rebound rt))"
    using assms by (auto simp: notify_udp_rebound_def runtime_wfs shutdown_outcome_of_def Let_def)
  show resume: "runtime_wf (resume_state rt now)"
    using assms by (auto simp: resume_state_def runtime_wfs shutdown_outcome_of_def)
  then show "runtime_wf (snd (resume_with_actions rt now))"
    using assms by (auto simp: resume_with_actions_def)
  have "same_flight (protocol rt) (set_local_capabilities (protocol rt) caps)"
    using assms by (auto simp: same_flight_def set_local_capabilities_def runtime_wf_def protocol_wf_def)
  from same_flight_runtime [OF assms this] show "runtime_wf (runtime_set_local_capabilities rt caps)"
    by (simp add: runtime_set_local_capabilities_def)
qed

lemma runtime_new_wf: "\<exists>rt. runtime_new lib key now = Some rt \<and> runtime_wf rt"
proof -
  obtain p where p: "client_protocol_new lib key = Some p" "protocol_wf p"
    using client_protocol_new_wf by blast
  then have "next_local_state p = 1" "sent_states p = [\<lparr>ss_state_id = 0, ss_instruction_end = 0\<rparr>]"
    by (auto simp: client_protocol_new_def split: sum.splits option.splits)
  with p show ?thesis
    by (simp add: runtime_new_def runtime_wfs flight_wf_def local_shutdown_sent_def deque_back_def
        INITIAL_RETRANSMIT_MILLISECONDS_def MINIMUM_RETRANSMIT_MILLISECONDS_def
        MAXIMUM_RETRANSMIT_MILLISECONDS_def)
qed

subsection \<open>Preservation: receiving\<close>

lemma receives_runtime:
  assumes "runtime_wf rt" "receives (protocol rt) p"
  shows "runtime_wf (rt\<lparr>protocol := p\<rparr>)"
proof -
  from assms ack_step_flight [of "protocol rt" p]
  have "flight_wf p" "local_shutdown_sent p = local_shutdown_sent (protocol rt)" "protocol_wf p"
    by (auto simp: receives_def runtime_wf_def)
  with assms(1) show ?thesis by (auto simp: runtime_wfs shutdown_outcome_of_def)
qed

text \<open>Changing fields outside the invariant.\<close>

lemma runtime_wf_cong:
  assumes "runtime_wf rt" "protocol rt' = protocol rt" "queued_instructions rt' = queued_instructions rt"
    "queued_input_bytes rt' = queued_input_bytes rt" "retransmit_milliseconds rt' = retransmit_milliseconds rt"
    "smoothed_round_trip_milliseconds rt' = smoothed_round_trip_milliseconds rt"
    "round_trip_variation_milliseconds rt' = round_trip_variation_milliseconds rt" "shutdown rt' = shutdown rt"
  shows "runtime_wf rt'"
  using assms by (simp add: runtime_wfs shutdown_outcome_of_def)

lemma receive_state_wf:
  assumes wf: "runtime_wf rt"
  shows "runtime_wf (snd (receive_state lib rt actions state)) \<and>
    fst (receive_state lib rt actions state) \<noteq> Inl (SessionFailed Panic)"
proof -
  let ?flags = "rt\<lparr>acknowledgement_due := acknowledgement_due rt \<or> rs_advances_remote_state state,
    received_server_state := True\<rparr>"
  have flags: "runtime_wf ?flags" by (rule runtime_wf_cong [OF wf]) simp_all
  then have "runtime_wf (?flags\<lparr>peer_shutdown_acknowledgement_due := True\<rparr>)"
    by (rule runtime_wf_cong) simp_all
  moreover have "runtime_wf (?flags\<lparr>peer_shutdown_acknowledgement_due := True, shutdown := PeerRequested\<rparr>)"
    if "shutdown rt = Open"
    using that wf open_not_sent [OF wf that] by (auto simp: runtime_wfs)
  ultimately show ?thesis
    using flags by (auto simp: receive_state_def Let_def split: sum.splits)
qed

lemma receive_datagram_wf:
  assumes wf: "runtime_wf rt"
  shows "runtime_wf (snd (receive_datagram lib rt packet now)) \<and>
    fst (receive_datagram lib rt packet now) \<noteq> Inl (SessionFailed Panic)"
proof (cases "ensure_running rt")
  case (Inl e)
  with wf show ?thesis
    by (auto simp: receive_datagram_def ensure_running_def split: session_lifecycle.splits)
next
  case run: (Inr u)
  obtain r p where ingest: "ingest_packet lib (protocol rt) packet = (r, p)" by fastforce
  have recv: "receives (protocol rt) p" "r \<noteq> Inl Panic"
    using ingest_packet_receives [of "protocol rt" lib packet] wf by (simp_all add: runtime_wf_def ingest)
  note rt1 = receives_runtime [OF wf recv(1)]
  show ?thesis
  proof (cases r)
    case (Inl e)
    with run ingest rt1 recv show ?thesis by (simp add: receive_datagram_def Let_def)
  next
    case (Inr receipt)
    let ?rt1 = "rt\<lparr>protocol := p, last_receive := now\<rparr>"
    let ?rt2 = "if connection_state rt \<noteq> Connected then ?rt1\<lparr>connection_state := Connected\<rparr> else ?rt1"
    let ?el = "timestamp now - pr_echoed_timestamp receipt"
    let ?rt3 = "if pr_echoed_timestamp receipt \<noteq> u16_MAX \<and> ?el \<le> 30000
       then snd (record_round_trip_sample ?rt2 ?el) else ?rt2"
    have rt2: "runtime_wf ?rt2" by (rule runtime_wf_cong [OF rt1]) simp_all
    then have rt3: "runtime_wf ?rt3" by (simp add: record_round_trip_sample_wf)
    have "\<exists>actions. receive_datagram lib rt packet now =
      (case pr_state receipt of None \<Rightarrow> (Inr actions, ?rt3) | Some state \<Rightarrow> receive_state lib ?rt3 actions state)"
      using run ingest Inr
      by (cases "pr_state receipt") (auto simp: receive_datagram_def Let_def split: prod.splits)
    with rt3 receive_state_wf [OF rt3, of lib] show ?thesis
      by (auto split: option.splits)
  qed
qed

subsection \<open>Preservation: polling\<close>

lemma complete_shutdown_wf:
  assumes "runtime_wf rt" "queued_instructions rt = [] \<or> \<not> local_shutdown_sent (protocol rt)"
  shows "runtime_wf (snd (complete_shutdown rt outcome))"
  using assms by (auto simp: complete_shutdown_def runtime_wfs shutdown_outcome_of_def)

lemma sent_queue: "runtime_wf rt \<Longrightarrow> queued_instructions rt = [] \<or> \<not> local_shutdown_sent (protocol rt)"
  by (auto simp: runtime_wfs)

lemma after_ack_wf:
  assumes "runtime_wf rt"
  shows "runtime_wf (snd (complete_peer_shutdown_after_ack rt actions))"
proof -
  have "runtime_wf (rt\<lparr>peer_shutdown_acknowledgement_due := False\<rparr>)"
    by (rule runtime_wf_cong [OF assms]) simp_all
  from complete_shutdown_wf [OF this sent_queue [OF this], of PeerRequestedOutcome] assms show ?thesis
    by (simp add: complete_peer_shutdown_after_ack_def complete_shutdown_def Let_def)
qed

lemma record_transmission_wf:
  assumes "runtime_wf rt" and "\<And>s n. shutdown rt = LocalRequested s n \<Longrightarrow> n < SHUTDOWN_RETRY_LIMIT"
  shows "runtime_wf (record_shutdown_transmission rt)"
proof (cases "\<exists>s n. shutdown rt = LocalRequested s n")
  case True
  then obtain s n where s: "shutdown rt = LocalRequested s n" by blast
  with assms(2) have "n < SHUTDOWN_RETRY_LIMIT" by simp
  then have "saturating_add n 1 \<le> SHUTDOWN_RETRY_LIMIT"
    by (simp add: word_le_nat_alt word_less_nat_alt unat_saturating_add SHUTDOWN_RETRY_LIMIT_def)
  with s assms(1) show ?thesis
    by (auto simp: record_shutdown_transmission_def runtime_wfs is_local_requested_def shutdown_outcome_of_def)
next
  case False
  then have "record_shutdown_transmission rt = rt"
    by (auto simp: record_shutdown_transmission_def split: shutdown_state.splits)
  with assms(1) show ?thesis by simp
qed

text \<open>The end of a transmission: count it, and complete if the peer waits for it.\<close>

lemma transmission_wf:
  assumes wf: "runtime_wf rt"
    and room: "peer_shutdown_acknowledgement_due rt \<or> (\<forall>s n. shutdown rt = LocalRequested s n \<longrightarrow> n < SHUTDOWN_RETRY_LIMIT)"
  shows "runtime_wf (snd (complete_peer_shutdown_after_ack (record_shutdown_transmission rt) actions))"
proof (cases "peer_shutdown_acknowledgement_due rt")
  case False
  with room record_transmission_wf [OF wf] show ?thesis by (intro after_ack_wf) simp
next
  case True
  let ?rt = "rt\<lparr>peer_shutdown_acknowledgement_due := False\<rparr>"
  have "runtime_wf ?rt" by (rule runtime_wf_cong [OF wf]) simp_all
  then have "runtime_wf (snd (complete_shutdown ?rt PeerRequestedOutcome))"
    by (rule complete_shutdown_wf) (rule sent_queue, fact)
  with True show ?thesis
    by (auto simp: complete_peer_shutdown_after_ack_def complete_shutdown_def record_shutdown_transmission_def
        Let_def split: shutdown_state.splits)
qed

definition may_send :: "('k, 'p) session_runtime \<Rightarrow> monotonic_time \<Rightarrow> bool" where
  "may_send rt now \<longleftrightarrow> peer_shutdown_acknowledgement_due rt \<or> \<not> shutdown_timed_out rt now"

lemma may_send_room:
  "may_send rt now \<Longrightarrow>
   peer_shutdown_acknowledgement_due rt \<or> (\<forall>s n. shutdown rt = LocalRequested s n \<longrightarrow> n < SHUTDOWN_RETRY_LIMIT)"
  by (auto simp: may_send_def shutdown_timed_out_def not_le)

text \<open>What the protocol does when the queue is built into an update, a shutdown or its acknowledgement.\<close>

lemma queued_build_flight:
  assumes wf: "runtime_wf rt" and idle: "\<not> has_pending_update (protocol rt)"
    and work: "queued_instructions rt \<noteq> [] \<or> local_shutdown_unsent rt"
    and q: "(if acknowledges_peer_shutdown rt then build_shutdown_ack lib (protocol rt) t
     else if local_shutdown_unsent rt then build_shutdown lib (protocol rt) t batch
     else build_update lib (protocol rt) t batch) = (res, q)"
  shows "res \<noteq> Inl Panic \<and> protocol_wf q \<and> flight_wf q \<and>
    (local_shutdown_sent q \<longrightarrow> is_local_requested (shutdown rt) \<or> shutdown_outcome_of rt \<noteq> None)"
proof -
  have p: "protocol_wf (protocol rt)" "flight_wf (protocol rt)" using wf by (simp_all add: runtime_wf_def)
  consider (ack) "acknowledges_peer_shutdown rt"
    | (down) "\<not> acknowledges_peer_shutdown rt" "local_shutdown_unsent rt"
    | (update) "\<not> acknowledges_peer_shutdown rt" "\<not> local_shutdown_unsent rt" by blast
  then show ?thesis
  proof cases
    case ack
    with q build_shutdown_ack_frame [of "protocol rt" lib t]
    have "same_flight (protocol rt) q" "res \<noteq> Inl Panic"
      using same_but_channel_flight [OF _ p(1)] by auto
    with same_flight_wf [OF this(1) p(2)] same_flight_sent [OF this(1)] wf show ?thesis
      by (auto simp: same_flight_def runtime_wfs)
  next
    case down
    with q build_shutdown_flight [OF p idle, of lib t batch res q] show ?thesis
      by (auto simp: local_shutdown_unsent_def)
  next
    case update
    with work have "\<not> local_shutdown_sent (protocol rt)" using wf by (auto simp: runtime_wfs)
    with update q build_update_flight [OF p idle _, of lib t batch res q] show ?thesis
      by auto
  qed
qed

lemma build_queued_update_wf:
  assumes wf: "runtime_wf rt" and idle: "\<not> has_pending_update (protocol rt)"
    and work: "queued_instructions rt \<noteq> [] \<or> local_shutdown_unsent rt"
    and build: "build_queued_update lib rt now = (r, rt')"
  shows "runtime_wf rt' \<and> r \<noteq> Inl (SessionFailed Panic) \<and> shutdown rt' = shutdown rt \<and>
    peer_shutdown_acknowledgement_due rt' = peer_shutdown_acknowledgement_due rt \<and> queued_instructions rt' = []"
proof -
  let ?rt = "rt\<lparr>queued_instructions := [], queued_input_bytes := 0, acknowledgement_due := False\<rparr>"
  let ?batch = "InstructionBatch (queued_instructions rt)"
  obtain res q where q: "(if acknowledges_peer_shutdown rt then build_shutdown_ack lib (protocol rt) (timestamp now)
     else if local_shutdown_unsent rt then build_shutdown lib (protocol rt) (timestamp now) ?batch
     else build_update lib (protocol rt) (timestamp now) ?batch) = (res, q)" by fastforce
  have flags: "acknowledges_peer_shutdown ?rt = acknowledges_peer_shutdown rt"
    "local_shutdown_unsent ?rt = local_shutdown_unsent rt" "protocol ?rt = protocol rt"
    by (simp_all add: acknowledges_peer_shutdown_def local_shutdown_unsent_def)
  have rt': "rt' = (case res of Inl e \<Rightarrow> ?rt\<lparr>protocol := q\<rparr> | Inr _ \<Rightarrow> ?rt\<lparr>protocol := q, last_send := Some now\<rparr>)"
    "r = Inl (SessionFailed Panic) \<Longrightarrow> res = Inl Panic"
    using build unfolding build_queued_update_def Let_def flags q by (auto split: sum.splits)
  note step = queued_build_flight [OF wf idle work q]
  have "runtime_wf (?rt\<lparr>protocol := q\<rparr>)" "runtime_wf (?rt\<lparr>protocol := q, last_send := Some now\<rparr>)"
    using step wf by (auto simp: runtime_wfs shutdown_outcome_of_def)
  with step rt' show ?thesis by (auto split: sum.splits)
qed

lemma poll_queued_wf:
  assumes wf: "runtime_wf rt" and idle: "\<not> has_pending_update (protocol rt)" and may: "may_send rt now"
    and work: "queued_instructions rt \<noteq> [] \<or> local_shutdown_unsent rt"
  shows "runtime_wf (snd (poll_queued lib rt now actions)) \<and>
    fst (poll_queued lib rt now actions) \<noteq> Inl (SessionFailed Panic)"
proof -
  obtain r rt1 where b: "build_queued_update lib rt now = (r, rt1)" by fastforce
  note b' = build_queued_update_wf [OF wf idle work b]
  have "runtime_wf (snd (complete_peer_shutdown_after_ack (record_shutdown_transmission rt1) acts))" for acts
    using b' may_send_room [OF may] by (intro transmission_wf) auto
  with b b' show ?thesis
    by (auto simp: poll_queued_def Let_def split: sum.splits prod.splits) (metis snd_conv)+
qed

lemma poll_retransmit_wf:
  assumes wf: "runtime_wf rt" and may: "may_send rt now"
  shows "runtime_wf (snd (poll_retransmit lib rt now actions)) \<and>
    fst (poll_retransmit lib rt now actions) \<noteq> Inl (SessionFailed Panic)"
proof -
  have p: "protocol_wf (protocol rt)" using wf by (simp add: runtime_wf_def)
  obtain r q where q: "retransmit_pending lib (protocol rt) (timestamp now) = (r, q)" by fastforce
  have frame: "same_flight (protocol rt) q" "r \<noteq> Inl Panic"
    using retransmit_pending_frame [OF p, of lib "timestamp now"] same_but_channel_flight [OF _ p] by (auto simp: q)
  note rt1 = same_flight_runtime [OF wf frame(1)]
  let ?rt2 = "rt\<lparr>protocol := q, last_send := Some now, acknowledgement_due := False\<rparr>"
  have "runtime_wf ?rt2" by (rule runtime_wf_cong [OF rt1]) simp_all
  then have "runtime_wf (snd (complete_peer_shutdown_after_ack (record_shutdown_transmission ?rt2) acts))" for acts
    using may_send_room [OF may] by (intro transmission_wf) auto
  with wf rt1 frame q show ?thesis
    by (auto simp: poll_retransmit_def Let_def split: sum.splits prod.splits) (metis snd_conv)+
qed

lemma poll_heartbeat_wf:
  assumes wf: "runtime_wf rt"
  shows "runtime_wf (snd (poll_heartbeat lib rt now actions)) \<and>
    fst (poll_heartbeat lib rt now actions) \<noteq> Inl (SessionFailed Panic)"
proof -
  have p: "protocol_wf (protocol rt)" using wf by (simp add: runtime_wf_def)
  obtain r q where q: "build_acknowledgement lib (protocol rt) (timestamp now) = (r, q)" by fastforce
  have frame: "same_flight (protocol rt) q" "r \<noteq> Inl Panic"
    using build_acknowledgement_frame [OF p, of lib "timestamp now"] same_but_channel_flight [OF _ p] by (auto simp: q)
  note rt1 = same_flight_runtime [OF wf frame(1)]
  let ?rt2 = "rt\<lparr>protocol := q, last_send := Some now, acknowledgement_due := False\<rparr>"
  have "runtime_wf ?rt2" by (rule runtime_wf_cong [OF rt1]) simp_all
  then have "runtime_wf (snd (complete_peer_shutdown_after_ack ?rt2 acts))" for acts
    by (rule after_ack_wf)
  with wf rt1 frame q show ?thesis
    by (auto simp: poll_heartbeat_def Let_def split: sum.splits prod.splits) (metis snd_conv)+
qed

lemma poll_transport_wf:
  assumes wf: "runtime_wf rt" and may: "may_send rt now"
  shows "runtime_wf (snd (poll_transport lib rt now actions)) \<and>
    fst (poll_transport lib rt now actions) \<noteq> Inl (SessionFailed Panic)"
proof -
  obtain c rt1 where c: "connection_state_action rt now = (c, rt1)" by fastforce
  then have rt1: "runtime_wf rt1" "may_send rt1 now"
    using wf may runtime_wf_cong [OF wf, of rt1]
    by (auto simp: connection_state_action_def may_send_def shutdown_timed_out_def split: if_splits)
  show ?thesis
    using c poll_queued_wf [OF rt1(1) _ rt1(2), of lib] poll_retransmit_wf [OF rt1, of lib]
      poll_heartbeat_wf [OF rt1(1), of lib now]
    by (auto simp: poll_transport_def Let_def)
qed

lemma poll_wf:
  assumes wf: "runtime_wf rt"
  shows "runtime_wf (snd (poll lib rt now)) \<and> fst (poll lib rt now) \<noteq> Inl (SessionFailed Panic)"
proof -
  have p: "protocol_wf (protocol rt)" using wf by (simp add: runtime_wf_def)
  obtain r q where q: "build_association lib (protocol rt) (timestamp now) = (r, q)" by fastforce
  have frame: "same_flight (protocol rt) q" "r \<noteq> Inl Panic"
    using build_acknowledgement_frame [OF p, of lib "timestamp now"] same_but_channel_flight [OF _ p] q
    by (auto simp: build_association_def)
  note rt1 = same_flight_runtime [OF wf frame(1)]
  have rt2: "runtime_wf (rt\<lparr>protocol := q, association := Sent, last_send := Some now\<rparr>)"
    by (rule runtime_wf_cong [OF rt1]) simp_all
  obtain a rt3 where assoc: "poll_association lib rt now = (a, rt3)" by fastforce
  have rt3: "runtime_wf rt3" "a \<noteq> Inl (SessionFailed Panic)"
    using assoc wf q rt1 rt2 frame by (auto simp: poll_association_def split: if_splits sum.splits)
  note completed = complete_shutdown_wf [OF rt3(1) sent_queue [OF rt3(1)]]
  have trans: "runtime_wf (snd (poll_transport lib rt3 now actions)) \<and>
      fst (poll_transport lib rt3 now actions) \<noteq> Inl (SessionFailed Panic)" if "may_send rt3 now" for actions
    by (rule poll_transport_wf [OF rt3(1) that])
  show ?thesis
    using assoc wf rt3 completed trans by (auto simp: poll_def may_send_def split: sum.splits)
qed

subsection \<open>The machine of runtime events\<close>

datatype runtime_event =
    QueueTerminalEvent terminal_input_event
  | QueueInput bytes
  | QueueResize u16 u16
  | QueueSessionControl u32 bytes
  | SetCapabilities bytes
  | PauseEv | CancelEv
  | RequestShutdown monotonic_time
  | UdpRebound
  | Resume monotonic_time
  | ResumeWithActions monotonic_time
  | ReceiveDatagram bytes monotonic_time
  | ReceiveDatagramLossy bytes monotonic_time
  | Poll monotonic_time

text \<open>Every public operation with its result reduced to the actions it returns.\<close>

fun runtime_step ::
    "('k, 'p, 'v) session_lib \<Rightarrow> ('k, 'p) session_runtime \<Rightarrow> runtime_event \<Rightarrow>
     (runtime_error + session_action list) \<times> ('k, 'p) session_runtime" where
  "runtime_step lib rt (QueueTerminalEvent ev) = apfst (map_sum id (\<lambda>_. [])) (queue_terminal_event lib rt ev)"
| "runtime_step lib rt (QueueInput bytes) = apfst (map_sum id (\<lambda>_. [])) (queue_input rt bytes)"
| "runtime_step lib rt (QueueResize c r) = apfst (map_sum id (\<lambda>_. [])) (queue_resize lib rt c r)"
| "runtime_step lib rt (QueueSessionControl kind payload) =
     apfst (map_sum id (\<lambda>_. [])) (queue_session_control rt kind payload)"
| "runtime_step lib rt (SetCapabilities caps) = (Inr [], runtime_set_local_capabilities rt caps)"
| "runtime_step lib rt PauseEv = apfst Inr (pause rt)"
| "runtime_step lib rt CancelEv = apfst Inr (cancel rt)"
| "runtime_step lib rt (RequestShutdown now) = request_shutdown rt now"
| "runtime_step lib rt UdpRebound = apfst Inr (notify_udp_rebound rt)"
| "runtime_step lib rt (Resume now) = (Inr [], resume rt now)"
| "runtime_step lib rt (ResumeWithActions now) = apfst Inr (resume_with_actions rt now)"
| "runtime_step lib rt (ReceiveDatagram packet now) = receive_datagram lib rt packet now"
| "runtime_step lib rt (ReceiveDatagramLossy packet now) = apfst Inr (receive_datagram_lossy lib rt packet now)"
| "runtime_step lib rt (Poll now) = poll lib rt now"

lemma map_sum_no_panic: "map_sum id f r = Inl e \<longleftrightarrow> r = Inl e"
  by (cases r) auto

lemma host_calls_no_panic:
  "fst (queue_input rt bs) \<noteq> Inl (SessionFailed Panic)"
  "fst (queue_session_control rt k bs) \<noteq> Inl (SessionFailed Panic)"
  "fst (request_shutdown rt now) \<noteq> Inl (SessionFailed Panic)"
  by (auto simp: queue_input_def queue_session_control_def request_shutdown_def queue_sized_def
      ensure_accepting_input_def ensure_running_def
      split: sum.splits option.splits session_lifecycle.splits if_splits)

lemma runtime_step_wf:
  assumes wf: "runtime_wf rt"
  shows "runtime_wf (snd (runtime_step lib rt ev)) \<and> fst (runtime_step lib rt ev) \<noteq> Inl (SessionFailed Panic)"
proof -
  have "runtime_wf (snd (receive_datagram_lossy lib rt packet now))" for packet now
    using receive_datagram_wf [OF wf, of lib packet now]
    by (auto simp: receive_datagram_lossy_def split: prod.splits sum.splits)
  with host_calls_no_panic [of rt] show ?thesis
    using queue_terminal_event_wf [OF wf, of lib] queue_input_wf [OF wf] queue_resize_wf [OF wf, of lib]
      queue_session_control_wf [OF wf] lifecycle_ops_wf [OF wf] receive_datagram_wf [OF wf, of lib]
      poll_wf [OF wf, of lib]
    by (cases ev) (simp_all add: map_sum_no_panic resume_def)
qed

interpretation runtime: invariant_machine "runtime_step lib" runtime_wf for lib
  by unfold_locales (simp add: runtime_step_wf)

end
