(* ===== verification/Runtime_Promises.thy ===== *)
theory Runtime_Promises
  imports Runtime_Safety Session_Delivery
begin

section \<open>What the runtime promises its host\<close>

text \<open>
  Properties of \<open>SessionRuntime\<close> over arbitrary sequences of host calls: bounded input queue and timers
  without panics, a shutdown that ends, silence after the end, invisible coalescing of resizes, an exact
  round-trip estimator, redacted debug output, and terminal actions that carry the host's emulator to
  the state the server sent.
\<close>

subsection \<open>Bounds\<close>

text \<open>
  C6. From a fresh runtime, over any sequence of host calls and datagrams: nothing panics, unsent input
  is counted exactly and stays within 1 MiB, the retransmission delay stays between 250 ms and 10 s, at
  most one state awaits acknowledgement, the numbers of the sent states ascend strictly, no input is
  queued behind a sent shutdown state, and the shutdown handshake counts at most 16 transmissions.
\<close>

theorem runtime_bounded:
  assumes "runtime_new lib key now = Some rt"
    and "rt' = snd (run (runtime_step lib) rt events)"
  shows "list_all (\<lambda>out. out \<noteq> Inl (SessionFailed Panic)) (fst (run (runtime_step lib) rt events)) \<and>
    queued_input_bytes rt' = sum_list (map input_size (queued_instructions rt')) \<and>
    queued_input_bytes rt' \<le> 1024 * 1024 \<and>
    250 \<le> retransmit_milliseconds rt' \<and> retransmit_milliseconds rt' \<le> 10000 \<and>
    length (sent_states (protocol rt')) \<le> 2 \<and> sorted_wrt (<) (sent_ids (protocol rt')) \<and>
    (local_shutdown_sent (protocol rt') \<longrightarrow> queued_instructions rt' = []) \<and>
    (\<forall>started n. shutdown rt' = LocalRequested started n \<longrightarrow> n \<le> 16)"
proof -
  have wf: "runtime_wf rt" using runtime_new_wf [of lib key now] assms(1) by auto
  have "\<forall>out \<in> set (fst (run (runtime_step lib) rt events)). out \<noteq> Inl (SessionFailed Panic)"
    by (rule runtime.run_outputs [OF _ wf]) (simp add: runtime_step_wf)
  moreover have "runtime_wf rt'" unfolding assms(2) by (rule runtime.run_inv [OF wf])
  ultimately show ?thesis
    by (auto simp: runtime_wfs flight_wf_def list_all_iff MAXIMUM_QUEUED_INPUT_BYTES_def
        MINIMUM_RETRANSMIT_MILLISECONDS_def MAXIMUM_RETRANSMIT_MILLISECONDS_def SHUTDOWN_RETRY_LIMIT_def)
qed

subsection \<open>The shutdown handshake ends\<close>

text \<open>A host that polls when the runtime says a poll is due, and whose polls succeed.\<close>

inductive due_polls ::
    "('k, 'p, 'v) session_lib \<Rightarrow> ('k, 'p) session_runtime \<Rightarrow> monotonic_time list \<Rightarrow> ('k, 'p) session_runtime \<Rightarrow> bool"
  for lib where
  no_poll: "due_polls lib rt [] rt"
| due_poll: "due_polls lib rt (now # ts) rt'"
    if "milliseconds_until_next_poll rt now = 0 \<or> shutdown_outcome_of rt \<noteq> None"
      and "poll lib rt now = (Inr actions, rt1)" and "due_polls lib rt1 ts rt'"

inductive_cases due_polls_ConsE: "due_polls lib rt (now # ts) rt'"
inductive_simps due_polls_Nil [simp]: "due_polls lib rt [] rt'"

definition closing :: "('k, 'p) session_runtime \<Rightarrow> nat \<Rightarrow> bool" where
  "closing rt n \<longleftrightarrow> runtime_wf rt \<and> lifecycle rt = Running \<and> association rt = Sent \<and>
     \<not> peer_shutdown_acknowledgement_due rt \<and> (\<exists>started k. shutdown rt = LocalRequested started k \<and> unat k = n)"

lemma unat_Suc_transmissions: "n < SHUTDOWN_RETRY_LIMIT \<Longrightarrow> unat (saturating_add n 1) = Suc (unat n)"
  by (simp add: unat_saturating_add SHUTDOWN_RETRY_LIMIT_def word_less_nat_alt)

lemma saturating_sub_0_iff: "saturating_sub a b = 0 \<longleftrightarrow> a \<le> b"
  by (auto simp: saturating_sub_def)

lemma transmission_counted:
  assumes "shutdown rt = LocalRequested started k" "k < SHUTDOWN_RETRY_LIMIT"
    "\<not> peer_shutdown_acknowledgement_due rt"
  shows "\<exists>k'. complete_peer_shutdown_after_ack (record_shutdown_transmission rt) acts =
    (acts, rt\<lparr>shutdown := LocalRequested started k'\<rparr>) \<and> unat k' = Suc (unat k)"
  using assms unat_Suc_transmissions
  by (auto simp: complete_peer_shutdown_after_ack_def record_shutdown_transmission_def)

lemma idle_shutdown_acknowledged:
  assumes "protocol_wf p" "\<not> has_pending_update p" "local_shutdown_sent p"
  shows "local_shutdown_acknowledged p"
proof -
  obtain s where "sent_states p = [s]" using idle_sent [OF assms(1,2)] by blast
  with assms(3) show ?thesis
    by (simp add: local_shutdown_sent_def local_shutdown_acknowledged_def deque_back_def deque_front_def)
qed

lemma build_queued_update_frame:
  "lifecycle (snd (build_queued_update lib rt now)) = lifecycle rt \<and>
   association (snd (build_queued_update lib rt now)) = association rt"
  by (auto simp: build_queued_update_def Let_def split: sum.splits prod.splits)

lemma retransmission_sent:
  assumes poll: "poll_retransmit lib rt now actions0 = (Inr actions, rt1)"
    and due: "acknowledgement_due rt \<or> \<not> (case last_send rt of None \<Rightarrow> False
        | Some sent \<Rightarrow> elapsed_since now sent < retransmit_milliseconds rt)"
  shows "\<exists>q acts. rt1 = snd (complete_peer_shutdown_after_ack (record_shutdown_transmission
    (rt\<lparr>protocol := q, last_send := Some now, acknowledgement_due := False\<rparr>)) acts)"
proof -
  obtain res q where q: "retransmit_pending lib (protocol rt) (timestamp now) = (res, q)" by fastforce
  let ?rt = "rt\<lparr>protocol := q, last_send := Some now, acknowledgement_due := False\<rparr>"
  have "\<exists>acts. (Inr actions, rt1) = apfst Inr (complete_peer_shutdown_after_ack (record_shutdown_transmission ?rt) acts)"
    using poll due q
    by (cases res) (auto simp: poll_retransmit_def Let_def case_prod_beta apfst_def map_prod_def)
  then obtain acts where "(Inr actions, rt1) =
    apfst Inr (complete_peer_shutdown_after_ack (record_shutdown_transmission ?rt) acts)" by blast
  then have "rt1 = snd (complete_peer_shutdown_after_ack (record_shutdown_transmission ?rt) acts)"
    by (metis snd_apfst snd_conv)
  then show ?thesis by blast
qed

text \<open>A due poll during the handshake either ends it or counts one more transmission.\<close>

lemma closing_counted:
  assumes "shutdown rt2 = LocalRequested started k" "\<not> peer_shutdown_acknowledgement_due rt2" "lifecycle rt2 = Running"
      "association rt2 = Sent" "k < SHUTDOWN_RETRY_LIMIT" "unat k = n"
    and "rt1 = snd (complete_peer_shutdown_after_ack (record_shutdown_transmission rt2) acts)" "runtime_wf rt1"
  shows "closing rt1 (Suc n)"
  using transmission_counted [OF assms(1,5,2), of acts] assms by (auto simp: closing_def)

lemma closing_transport:
  assumes closing: "closing rt n" and s: "shutdown rt = LocalRequested started k"
    and ack: "\<not> local_shutdown_acknowledged (protocol rt)" and k: "k < SHUTDOWN_RETRY_LIMIT"
    and due: "protocol_wait rt now = 0" and poll: "poll_transport lib rt now [] = (Inr actions, rt1)"
    and wf1: "runtime_wf rt1"
  shows "closing rt1 (Suc n)"
proof -
  have p: "protocol_wf (protocol rt)" "\<not> peer_shutdown_acknowledgement_due rt" "lifecycle rt = Running"
    "association rt = Sent" "unat k = n" "runtime_wf rt"
    using closing s by (auto simp: closing_def runtime_wf_def)
  obtain c rt0 where c: "connection_state_action rt now = (c, rt0)" by fastforce
  then have rt0: "rt0 = rt \<or> rt0 = rt\<lparr>connection_state := Interrupted\<rparr>"
    by (auto simp: connection_state_action_def split: if_splits)
  let ?acts = "case c of None \<Rightarrow> [] | Some st \<Rightarrow> [ConnectionStateChanged st, Diagnostic (DConnectionStateChanged st)]"
  have f: "shutdown rt0 = LocalRequested started k" "\<not> peer_shutdown_acknowledgement_due rt0"
    "lifecycle rt0 = Running" "association rt0 = Sent" "protocol rt0 = protocol rt"
    "queued_instructions rt0 = queued_instructions rt" "last_send rt0 = last_send rt"
    "retransmit_milliseconds rt0 = retransmit_milliseconds rt" "acknowledgement_due rt0 = acknowledgement_due rt"
    "runtime_wf rt0"
    using rt0 s p runtime_wf_cong [OF p(6), of rt0] by auto
  note counted = closing_counted [OF _ _ _ _ k p(5) _ wf1, where started = started]
  show ?thesis
  proof (cases "has_pending_update (protocol rt)")
    case True
    then have "poll_retransmit lib rt0 now ?acts = (Inr actions, rt1)"
      using poll c f by (simp add: poll_transport_def Let_def)
    moreover have "acknowledgement_due rt0 \<or> \<not> (case last_send rt0 of None \<Rightarrow> False
        | Some sent \<Rightarrow> elapsed_since now sent < retransmit_milliseconds rt0)"
      using due True p(4) f by (auto simp: protocol_wait_def saturating_sub_0_iff split: option.splits if_splits)
    ultimately obtain q acts where
      "rt1 = snd (complete_peer_shutdown_after_ack (record_shutdown_transmission
        (rt0\<lparr>protocol := q, last_send := Some now, acknowledgement_due := False\<rparr>)) acts)"
      using retransmission_sent by blast
    with f show ?thesis
      by (intro counted [of "rt0\<lparr>protocol := q, last_send := Some now, acknowledgement_due := False\<rparr>"]) auto
  next
    case False
    then have unsent: "local_shutdown_unsent rt0"
      using ack idle_shutdown_acknowledged [OF p(1) False] f s
      by (auto simp: local_shutdown_unsent_def is_local_requested_def)
    with False poll c f have "poll_queued lib rt0 now ?acts = (Inr actions, rt1)"
      by (simp add: poll_transport_def Let_def)
    then obtain packets d rt2 where b: "build_queued_update lib rt0 now = (Inr (packets, d), rt2)"
      and rt1: "rt1 = snd (complete_peer_shutdown_after_ack (record_shutdown_transmission rt2)
        (?acts @ send_actions packets @ [Diagnostic d]))"
      by (auto simp: poll_queued_def Let_def split: sum.splits prod.splits)
    have "\<not> has_pending_update (protocol rt0)" using False f by simp
    from build_queued_update_wf [OF f(10) this disjI2 [OF unsent] b] build_queued_update_frame [of lib rt0 now] b f rt1
    show ?thesis by (intro counted [of rt2]) auto
  qed
qed

lemma closing_step:
  assumes closing: "closing rt n" and due: "milliseconds_until_next_poll rt now = 0"
    and poll: "poll lib rt now = (Inr actions, rt1)"
  shows "shutdown_outcome_of rt1 \<noteq> None \<or> closing rt1 (Suc n)"
proof -
  obtain started k where s: "shutdown rt = LocalRequested started k" "unat k = n"
    and f: "runtime_wf rt" "lifecycle rt = Running" "association rt = Sent" "\<not> peer_shutdown_acknowledgement_due rt"
    using closing by (auto simp: closing_def)
  have wf1: "runtime_wf rt1" using poll_wf [OF f(1), of lib now] by (simp add: poll)
  have out: "shutdown_outcome_of rt = None" by (simp add: shutdown_outcome_of_def s)
  have assoc: "poll_association lib rt now = (Inr [], rt)" using f by (simp add: poll_association_def)
  show ?thesis
  proof (cases "local_shutdown_acknowledged (protocol rt) \<or> shutdown_timed_out rt now")
    case True
    with poll f out assoc have "rt1 = rt\<lparr>shutdown := Complete Acknowledged\<rparr> \<or> rt1 = rt\<lparr>shutdown := Complete TimedOut\<rparr>"
      by (auto simp: poll_def complete_shutdown_def split: if_splits)
    then show ?thesis by (auto simp: shutdown_outcome_of_def)
  next
    case False
    then have t: "k < SHUTDOWN_RETRY_LIMIT" "elapsed_since now started < SHUTDOWN_TIMEOUT_MILLISECONDS"
      using s by (auto simp: shutdown_timed_out_def not_le)
    have "saturating_sub SHUTDOWN_TIMEOUT_MILLISECONDS (elapsed_since now started) \<noteq> 0"
      using t(2) by (simp add: saturating_sub_0_iff)
    moreover have "min (protocol_wait rt now) (saturating_sub SHUTDOWN_TIMEOUT_MILLISECONDS (elapsed_since now started)) = 0"
      using due f out s t by (simp add: milliseconds_until_next_poll_def Let_def split: if_splits)
    ultimately have "protocol_wait rt now = 0"
      by (auto simp: min_def split: if_splits)
    moreover have "poll_transport lib rt now [] = (Inr actions, rt1)"
      using poll f out assoc False by (simp add: poll_def)
    ultimately show ?thesis
      using closing_transport [OF closing s(1) _ t(1)] False wf1 by blast
  qed
qed

lemma complete_polls: "shutdown_outcome_of rt \<noteq> None \<Longrightarrow> due_polls lib rt ts rt' \<Longrightarrow> rt' = rt"
proof (induction ts)
  case (Cons now ts)
  from Cons.prems(2) obtain actions rt1 where "poll lib rt now = (Inr actions, rt1)" "due_polls lib rt1 ts rt'"
    by (auto elim: due_polls_ConsE)
  with Cons show ?case by (auto simp: poll_def split: if_splits)
qed simp

lemma closing_polls:
  "due_polls lib rt ts rt' \<Longrightarrow> closing rt n \<Longrightarrow> 17 \<le> n + length ts \<Longrightarrow> shutdown_outcome_of rt' \<noteq> None"
proof (induction ts arbitrary: rt n)
  case Nil
  then obtain started k where "shutdown rt = LocalRequested started k" "unat k = n" "runtime_wf rt"
    by (auto simp: closing_def)
  then have "n \<le> 16" by (auto simp: runtime_wfs SHUTDOWN_RETRY_LIMIT_def word_le_nat_alt)
  with Nil show ?case by simp
next
  case (Cons now ts)
  from Cons.prems(1) obtain actions rt1 where
    due: "milliseconds_until_next_poll rt now = 0 \<or> shutdown_outcome_of rt \<noteq> None"
    and poll: "poll lib rt now = (Inr actions, rt1)" and rest: "due_polls lib rt1 ts rt'"
    by (rule due_polls_ConsE) auto
  have "shutdown_outcome_of rt = None"
    using Cons.prems(2) by (auto simp: closing_def shutdown_outcome_of_def)
  with due closing_step [OF Cons.prems(2) _ poll]
  consider "shutdown_outcome_of rt1 \<noteq> None" | "closing rt1 (Suc n)" by auto
  then show ?case
  proof cases
    case 1
    with complete_polls [OF 1 rest] show ?thesis by simp
  next
    case 2
    with Cons.IH [OF rest 2] Cons.prems(3) show ?thesis by simp
  qed
qed

text \<open>
  C7. The shutdown handshake ends. Once a running, associated runtime has a local shutdown request and no
  peer request to answer, (a) any 17 successful polls made when the runtime reports a poll as due leave
  it complete, whatever the network does and even if the clock stands still, and (b) a poll 10 seconds
  after the request, or after 16 transmissions, succeeds and completes it at once.
\<close>

theorem shutdown_ends:
  assumes "runtime_wf rt" "lifecycle rt = Running" "association rt = Sent"
    and "\<not> peer_shutdown_acknowledgement_due rt" and "shutdown rt = LocalRequested started transmitted"
  shows "(due_polls lib rt ts rt' \<and> 17 \<le> length ts \<longrightarrow> shutdown_outcome_of rt' \<noteq> None) \<and>
    (10000 \<le> elapsed_since now started \<or> 16 \<le> transmitted \<longrightarrow>
       (\<exists>outcome rt1. poll lib rt now = (Inr [ShutdownComplete outcome, Diagnostic (DShutdownComplete outcome)], rt1) \<and>
          shutdown_outcome_of rt1 = Some outcome))"
proof (intro conjI impI)
  have "closing rt (unat transmitted)" using assms by (simp add: closing_def)
  with closing_polls [of lib rt ts rt' "unat transmitted"]
  show "shutdown_outcome_of rt' \<noteq> None" if "due_polls lib rt ts rt' \<and> 17 \<le> length ts" using that by simp
  assume "10000 \<le> elapsed_since now started \<or> 16 \<le> transmitted"
  then have "shutdown_timed_out rt now"
    using assms by (auto simp: shutdown_timed_out_def SHUTDOWN_TIMEOUT_MILLISECONDS_def SHUTDOWN_RETRY_LIMIT_def)
  with assms show "\<exists>outcome rt1. poll lib rt now =
      (Inr [ShutdownComplete outcome, Diagnostic (DShutdownComplete outcome)], rt1) \<and>
      shutdown_outcome_of rt1 = Some outcome"
    by (auto simp: poll_def poll_association_def shutdown_outcome_of_def complete_shutdown_def)
qed

subsection \<open>Silence after the end\<close>

definition closed_runtime :: "('k, 'p) session_runtime \<Rightarrow> bool" where
  "closed_runtime rt \<longleftrightarrow> lifecycle rt = Cancelled \<or> shutdown_outcome_of rt \<noteq> None"

definition sends_nothing :: "runtime_error + session_action list \<Rightarrow> bool" where
  "sends_nothing out \<longleftrightarrow> (\<forall>actions datagram. out = Inr actions \<longrightarrow> SendDatagram datagram \<notin> set actions)"

lemma sends_nothing_simps [simp]:
  "sends_nothing (Inl e)" "sends_nothing (map_sum id (\<lambda>_. []) r)"
  "sends_nothing (Inr actions) \<longleftrightarrow> (\<forall>d. SendDatagram d \<notin> set actions)"
  by (auto simp: sends_nothing_def) (cases r; auto)

lemma closed_not_accepting:
  assumes "closed_runtime rt"
  shows "\<exists>e. ensure_accepting_input rt = Inl e" and "lifecycle rt \<noteq> Running \<or> shutdown rt \<noteq> Open"
proof -
  show *: "lifecycle rt \<noteq> Running \<or> shutdown rt \<noteq> Open"
    using assms by (auto simp: closed_runtime_def shutdown_outcome_of_def)
  with ensure_accepting_input_iff [of rt] show "\<exists>e. ensure_accepting_input rt = Inl e"
    by (cases "ensure_accepting_input rt") auto
qed

lemma closed_queues_nothing:
  assumes "closed_runtime rt"
  shows "snd (queue_input rt bs) = rt" "snd (queue_session_control rt kind bs) = rt"
    "snd (queue_resize lib rt c r) = rt" "snd (queue_terminal_event lib rt ev) = rt"
    "snd (request_shutdown rt now) = rt" "sends_nothing (fst (request_shutdown rt now))"
  using closed_not_accepting [OF assms]
  by (auto simp: queue_input_def queue_session_control_def queue_resize_def queue_terminal_event_def
      request_shutdown_def ensure_running_def split: sum.splits session_lifecycle.splits)

text \<open>Actions that neither send nor touch the terminal.\<close>

fun quiet_action :: "session_action \<Rightarrow> bool" where
  "quiet_action (SendDatagram _) = False"
| "quiet_action (WriteTerminal _) = False"
| "quiet_action (ResizeTerminal _ _) = False"
| "quiet_action _ = True"

text \<open>A reception neither sends nor leaves a completed shutdown, and is refused after a cancellation.\<close>

lemma receive_state_closed:
  assumes "receive_state lib rt actions st = (r, rt')" "shutdown_outcome_of rt \<noteq> None" "\<forall>d. SendDatagram d \<notin> set actions"
  shows "shutdown rt' = shutdown rt \<and> lifecycle rt' = lifecycle rt \<and> sends_nothing r \<and>
    queued_instructions rt' = queued_instructions rt"
  using assms
  by (auto simp: receive_state_def Let_def shutdown_outcome_of_def instruction_actions_def
      split: if_splits sum.splits option.splits shutdown_state.splits)

lemma record_round_trip_sample_frame:
  assumes "record_round_trip_sample rt sample = (samples, rt')"
  shows "shutdown rt' = shutdown rt \<and> lifecycle rt' = lifecycle rt \<and> queued_instructions rt' = queued_instructions rt \<and>
    protocol rt' = protocol rt \<and> (\<forall>a \<in> set samples. quiet_action a)"
  using assms update_retransmit_timeout_frame [of rt]
  by (auto simp: record_round_trip_sample_def Let_def split: if_splits)

text \<open>The parts of a reception: quiet actions first, then those of the received state.\<close>

lemma receive_datagram_cases:
  assumes recv: "receive_datagram lib rt packet now = (r, rt')"
  shows "(\<exists>e p. r = Inl e \<and> rt' = rt\<lparr>protocol := p\<rparr>) \<or>
    (\<exists>receipt p rt1 quiets. lifecycle rt = Running \<and> ingest_packet lib (protocol rt) packet = (Inr receipt, p) \<and>
       protocol rt1 = p \<and> shutdown rt1 = shutdown rt \<and> lifecycle rt1 = lifecycle rt \<and>
       queued_instructions rt1 = queued_instructions rt \<and> (\<forall>a \<in> set quiets. quiet_action a) \<and>
       (case pr_state receipt of
          None \<Rightarrow> (r, rt') = (Inr quiets, rt1)
        | Some st \<Rightarrow> receive_state lib rt1 quiets st = (r, rt')))"
proof (cases "lifecycle rt = Running")
  case False
  then have "\<exists>e. r = Inl e \<and> rt' = rt\<lparr>protocol := protocol rt\<rparr>"
    using recv by (cases "lifecycle rt") (auto simp: receive_datagram_def ensure_running_def)
  then show ?thesis by blast
next
  case True
  then have run: "ensure_running rt = Inr ()" by (simp add: ensure_running_def)
  obtain res p where ingest: "ingest_packet lib (protocol rt) packet = (res, p)" by fastforce
  show ?thesis
  proof (cases res)
    case (Inl e)
    with recv run ingest show ?thesis by (auto simp: receive_datagram_def)
  next
    case (Inr receipt)
    let ?rt1 = "rt\<lparr>protocol := p, last_receive := now\<rparr>"
    let ?rt2 = "if connection_state rt \<noteq> Connected then ?rt1\<lparr>connection_state := Connected\<rparr> else ?rt1"
    let ?el = "timestamp now - pr_echoed_timestamp receipt"
    obtain samples rt3 where sample: "record_round_trip_sample ?rt2 ?el = (samples, rt3)" by fastforce
    let ?rt4 = "if pr_echoed_timestamp receipt \<noteq> u16_MAX \<and> ?el \<le> 30000 then rt3 else ?rt2"
    let ?quiets = "(if remote_capabilities p \<noteq> remote_capabilities (protocol rt)
         then [CapabilitiesChanged (remote_capabilities p)] else []) @
      (if connection_state rt \<noteq> Connected
         then [ConnectionStateChanged Connected, Diagnostic (DConnectionStateChanged Connected)] else []) @
      (if pr_echoed_timestamp receipt \<noteq> u16_MAX \<and> ?el \<le> 30000 then samples else [])"
    have "receive_datagram lib rt packet now =
        (case pr_state receipt of None \<Rightarrow> (Inr ?quiets, ?rt4) | Some st \<Rightarrow> receive_state lib ?rt4 ?quiets st)"
      using run ingest Inr sample
      by (cases "pr_state receipt") (auto simp: receive_datagram_def Let_def)
    moreover have "protocol ?rt4 = p" "shutdown ?rt4 = shutdown rt" "lifecycle ?rt4 = lifecycle rt"
      "queued_instructions ?rt4 = queued_instructions rt" "\<forall>a \<in> set ?quiets. quiet_action a"
      using record_round_trip_sample_frame [OF sample] by auto
    ultimately show ?thesis
      using True ingest Inr recv
      by (intro disjI2 exI [of _ receipt] exI [of _ p] exI [of _ ?rt4] exI [of _ ?quiets])
        (auto split: option.splits)
  qed
qed

lemma receive_datagram_closed:
  assumes "closed_runtime rt" "receive_datagram lib rt packet now = (r, rt')"
  shows "sends_nothing r \<and> shutdown rt' = shutdown rt \<and> lifecycle rt' = lifecycle rt \<and>
    queued_instructions rt' = queued_instructions rt \<and> (lifecycle rt = Cancelled \<longrightarrow> r = Inl SessionCancelled)"
  using receive_datagram_cases [OF assms(2)]
proof (elim disjE exE conjE)
  fix receipt p rt1 quiets
  assume run: "lifecycle rt = Running" and rt1: "shutdown rt1 = shutdown rt" "lifecycle rt1 = lifecycle rt"
    "queued_instructions rt1 = queued_instructions rt" and quiets: "\<forall>a \<in> set quiets. quiet_action a"
    and rest: "case pr_state receipt of None \<Rightarrow> (r, rt') = (Inr quiets, rt1)
        | Some st \<Rightarrow> receive_state lib rt1 quiets st = (r, rt')"
  have q: "\<forall>d. SendDatagram d \<notin> set quiets" using quiets by force
  have "shutdown_outcome_of rt1 \<noteq> None"
    using assms(1) run rt1 by (auto simp: closed_runtime_def shutdown_outcome_of_def)
  from receive_state_closed [OF _ this q] rest rt1 run q show ?thesis
    by (cases "pr_state receipt") auto
qed (use assms in \<open>auto simp: receive_datagram_def ensure_running_def\<close>)

lemma poll_closed: "closed_runtime rt \<Longrightarrow> poll lib rt now = (Inr [], rt)"
  by (auto simp: closed_runtime_def poll_def)

lemma closed_step:
  assumes "closed_runtime rt"
  shows "closed_runtime (snd (runtime_step lib rt ev)) \<and> sends_nothing (fst (runtime_step lib rt ev))"
proof -
  note quiet = closed_queues_nothing [OF assms] poll_closed [OF assms]
  have recv: "sends_nothing (fst (receive_datagram lib rt packet now))"
    "closed_runtime (snd (receive_datagram lib rt packet now))" for packet now
    using receive_datagram_closed [OF assms, of lib packet now] assms
    by (cases "receive_datagram lib rt packet now"; simp add: closed_runtime_def shutdown_outcome_of_def)+
  have lossy: "sends_nothing (Inr (fst (receive_datagram_lossy lib rt packet now)))"
    "closed_runtime (snd (receive_datagram_lossy lib rt packet now))" for packet now
    using recv [of packet now] by (auto simp: receive_datagram_lossy_def split: sum.splits prod.splits)
  have others: "closed_runtime (snd (pause rt))" "sends_nothing (Inr (fst (pause rt)))"
    "closed_runtime (snd (cancel rt))" "sends_nothing (Inr (fst (cancel rt)))"
    "closed_runtime (snd (notify_udp_rebound rt))" "sends_nothing (Inr (fst (notify_udp_rebound rt)))"
    "closed_runtime (resume rt now)" "closed_runtime (snd (resume_with_actions rt now))"
    "sends_nothing (Inr (fst (resume_with_actions rt now)))" "closed_runtime (runtime_set_local_capabilities rt caps)" for now caps
    using assms
    by (auto simp: pause_def cancel_def notify_udp_rebound_def resume_def resume_with_actions_def resume_state_def
        runtime_set_local_capabilities_def closed_runtime_def shutdown_outcome_of_def lifecycle_actions_def Let_def)
  show ?thesis
    using assms recv lossy others by (cases ev) (simp_all add: quiet)
qed

interpretation closed: invariant_machine "runtime_step lib" closed_runtime for lib
  by unfold_locales (simp add: closed_step)

text \<open>
  C8. Silence after the end. Once a session is cancelled or its shutdown is complete, it stays so over any
  sequence of host calls and datagrams, which never yields another datagram to send; the runtime then
  asks for no further poll (the reported wait is the maximum), a poll does nothing, and no input,
  session control or resize is queued any more.
\<close>

theorem closed_runtime_silent:
  assumes "lifecycle rt = Cancelled \<or> shutdown_outcome_of rt \<noteq> None"
    and "rt' = snd (run (runtime_step lib) rt events)"
  shows "(\<forall>actions datagram. Inr actions \<in> set (fst (run (runtime_step lib) rt events)) \<longrightarrow>
            SendDatagram datagram \<notin> set actions) \<and>
    (lifecycle rt' = Cancelled \<or> shutdown_outcome_of rt' \<noteq> None) \<and>
    milliseconds_until_next_poll rt' now = u64_MAX \<and> poll lib rt' now = (Inr [], rt') \<and>
    snd (queue_input rt' bytes) = rt' \<and> snd (queue_session_control rt' kind bytes) = rt' \<and>
    snd (queue_resize lib rt' columns rows) = rt'"
proof -
  have closed: "closed_runtime rt" using assms(1) by (simp add: closed_runtime_def)
  have "\<forall>out \<in> set (fst (run (runtime_step lib) rt events)). sends_nothing out"
    by (rule closed.run_outputs [OF _ closed]) (simp add: closed_step)
  moreover have closed': "closed_runtime rt'" unfolding assms(2) by (rule closed.run_inv [OF closed])
  ultimately show ?thesis
    using poll_closed [OF closed'] closed_queues_nothing [OF closed']
    by (auto simp: sends_nothing_def closed_runtime_def milliseconds_until_next_poll_def)
qed

subsection \<open>Coalescing resizes\<close>

abbreviation resize_instruction :: "u16 \<Rightarrow> u16 \<Rightarrow> instruction" where
  "resize_instruction columns rows \<equiv>
     \<lparr>in_bytes = None, in_viewport = Some \<lparr>vp_columns = ucast columns, vp_rows = ucast rows\<rparr>, in_marker = None,
      in_session_control = None\<rparr>"

text \<open>What a server sees that starts at a viewport: every other instruction with the viewport it arrives at, and the last viewport.\<close>

fun input_trace :: "viewport_size \<Rightarrow> instruction list \<Rightarrow> (viewport_size \<times> instruction) list \<times> viewport_size" where
  "input_trace vp [] = ([], vp)"
| "input_trace vp (i # is) =
     (if is_resize_instruction i then input_trace (instruction_viewport vp i) is
      else apfst ((#) (vp, i)) (input_trace (instruction_viewport vp i) is))"

lemma input_trace_append:
  "input_trace vp (a @ b) = apfst ((@) (fst (input_trace vp a))) (input_trace (snd (input_trace vp a)) b)"
  by (induction a arbitrary: vp) (auto simp: apfst_def map_prod_def split: prod.splits)

lemma input_trace_last:
  assumes "queue \<noteq> []" "is_resize_instruction (last queue)"
  shows "input_trace vp (queue @ [resize_instruction c r]) =
    input_trace vp (butlast queue @ [(last queue)\<lparr>in_viewport := Some \<lparr>vp_columns = ucast c, vp_rows = ucast r\<rparr>\<rparr>])"
proof -
  obtain q i where "queue = q @ [i]" using assms(1) rev_exhaust by blast
  with assms(2) show ?thesis
    by (auto simp: input_trace_append is_resize_instruction_def instruction_viewport_def)
qed

lemma queue_resize_open:
  assumes "runtime_wf rt" "lifecycle rt = Running" "shutdown rt = Open"
    and "queue_resize lib rt c r = (res, rt')"
  shows "res = Inr () \<and> runtime_wf rt' \<and> lifecycle rt' = Running \<and> shutdown rt' = Open \<and>
    queued_input_bytes rt' = queued_input_bytes rt \<and>
    queued_instructions rt' =
      (if queued_instructions rt \<noteq> [] \<and> is_resize_instruction (last (queued_instructions rt))
       then butlast (queued_instructions rt) @ [(last (queued_instructions rt))
         \<lparr>in_viewport := Some \<lparr>vp_columns = ucast c, vp_rows = ucast r\<rparr>\<rparr>]
       else queued_instructions rt @ [resize_instruction c r])"
proof -
  have wf: "runtime_wf rt'" "res \<noteq> Inl (SessionFailed Panic)"
    using queue_resize_wf [OF assms(1), of lib c r] by (simp_all add: assms(4))
  obtain res1 p where p: "set_initial_remote_viewport lib (protocol rt) c r = (res1, p)" by fastforce
  have "res1 = Inr () \<or> res1 = Inl Panic"
    using p by (auto simp: set_initial_remote_viewport_def split: if_splits sum.splits option.splits)
  with wf p assms(2-4) show ?thesis by (auto simp: queue_resize_def Let_def)
qed

text \<open>
  C9. Coalescing resizes is invisible. A running session that receives any sequence of window sizes queues at
  most one more instruction for it, and to a server with any viewport the queue then means what it would
  mean had every size been queued: the same keystrokes and controls, each arriving at the same viewport,
  and the same final viewport.
\<close>

theorem resizes_coalesce:
  assumes "runtime_wf rt" "lifecycle rt = Running" "shutdown rt = Open"
    and "rt' = foldl (\<lambda>rt (columns, rows). snd (queue_resize lib rt columns rows)) rt sizes"
  shows "input_trace vp (queued_instructions rt') =
      input_trace vp (queued_instructions rt @ map (\<lambda>(columns, rows). resize_instruction columns rows) sizes) \<and>
    length (queued_instructions rt') \<le> Suc (length (queued_instructions rt))"
proof -
  let ?is = "map (\<lambda>(columns, rows). resize_instruction columns rows)"
  have "input_trace vp (queued_instructions rt') = input_trace vp (queued_instructions rt @ ?is sizes) \<and>
      (queued_instructions rt' = queued_instructions rt \<or>
       queued_instructions rt' \<noteq> [] \<and> is_resize_instruction (last (queued_instructions rt')) \<and>
       length (queued_instructions rt') \<le> Suc (length (queued_instructions rt))) \<and>
      runtime_wf rt' \<and> lifecycle rt' = Running \<and> shutdown rt' = Open"
    using assms
  proof (induction sizes arbitrary: rt' rule: rev_induct)
    case (snoc s sizes)
    obtain c r where s: "s = (c, r)" by (cases s)
    define rt1 where "rt1 = foldl (\<lambda>rt (columns, rows). snd (queue_resize lib rt columns rows)) rt sizes"
    note IH = snoc.IH [OF snoc.prems(1-3) rt1_def]
    obtain res rt2 where q: "queue_resize lib rt1 c r = (res, rt2)" by fastforce
    have rt': "rt' = rt2" using snoc.prems(4) by (simp add: s rt1_def [symmetric] q)
    from IH have open1: "runtime_wf rt1" "lifecycle rt1 = Running" "shutdown rt1 = Open" by simp_all
    note open2 = queue_resize_open [OF open1 q]
    have trace: "input_trace vp (queued_instructions rt2) = input_trace vp (queued_instructions rt1 @ [resize_instruction c r])"
      using open2 input_trace_last [of "queued_instructions rt1" vp c r] by auto
    also have "\<dots> = input_trace vp (queued_instructions rt @ ?is (sizes @ [s]))"
      using IH input_trace_append [of vp "queued_instructions rt1"] input_trace_append [of vp "queued_instructions rt @ ?is sizes"]
      by (simp add: s)
    finally show ?case
      using IH open2 unfolding rt' by (auto simp: is_resize_instruction_def)
  qed simp
  then show ?thesis by auto
qed

subsection \<open>The round-trip estimator\<close>

text \<open>The smoothed round trip and its variation over the natural numbers.\<close>

definition estimate_step :: "nat option \<times> nat \<Rightarrow> nat \<Rightarrow> nat option \<times> nat" where
  "estimate_step est sample =
     (case fst est of
        None \<Rightarrow> (Some sample, sample div 2)
      | Some smoothed \<Rightarrow>
          (Some ((7 * smoothed + sample) div 8),
           (3 * snd est + (if smoothed < sample then sample - smoothed else smoothed - sample)) div 4))"

definition estimate :: "('k, 'p) session_runtime \<Rightarrow> nat option \<times> nat" where
  "estimate rt = (map_option unat (smoothed_round_trip_milliseconds rt), unat (round_trip_variation_milliseconds rt))"

lemma record_round_trip_sample_estimate:
  assumes "timer_wf rt" and "record_round_trip_sample rt sample = (samples, rt')"
  shows "timer_wf rt' \<and> estimate rt' = estimate_step (estimate rt) (unat sample) \<and>
    (\<exists>smoothed. fst (estimate rt') = Some smoothed \<and> unat (retransmit_milliseconds rt') = rto_nat smoothed (snd (estimate rt')))"
proof -
  let ?rt = "update_retransmit_timeout rt (ucast sample)"
  have s: "unat (ucast sample :: u64) = unat sample" "unat (ucast sample :: u64) \<le> 65535"
    using unat_u16_less [of sample] by (simp_all add: unsigned_ucast_eq take_bit_nat_eq_self)
  have rt': "estimate rt' = estimate ?rt" "retransmit_milliseconds rt' = retransmit_milliseconds ?rt"
    "timer_wf rt' = timer_wf ?rt"
    using assms(2) by (auto simp: record_round_trip_sample_def Let_def estimate_def timer_wf_def split: if_splits)
  from update_retransmit_timeout_nat [OF assms(1) s(2)] update_retransmit_timeout_wf [OF assms(1) s(2)]
  show ?thesis
    unfolding rt' s
    by (auto simp: estimate_def estimate_step_def split: option.splits)
qed

text \<open>
  C10. The retransmission timer is the standard estimator, computed exactly. For any sequence of round-trip
  samples, the saturating 64-bit arithmetic agrees with the estimator over natural numbers (smoothed by
  1/8, variation by 1/4, truncating): nothing saturates. After at least one sample the retransmission
  delay is the smoothed round trip plus four variations, clamped between 250 and 10000 ms.
\<close>

theorem round_trip_estimator_exact:
  assumes "timer_wf rt"
    and "rt' = foldl (\<lambda>rt sample. snd (record_round_trip_sample rt sample)) rt samples"
  shows "estimate rt' = foldl estimate_step (estimate rt) (map unat samples) \<and>
    (samples \<noteq> [] \<longrightarrow> (\<exists>smoothed. fst (estimate rt') = Some smoothed \<and>
       unat (retransmit_milliseconds rt') = max 250 (min 10000 (smoothed + 4 * snd (estimate rt')))))"
proof -
  have "timer_wf rt' \<and> estimate rt' = foldl estimate_step (estimate rt) (map unat samples) \<and>
    (samples \<noteq> [] \<longrightarrow> (\<exists>smoothed. fst (estimate rt') = Some smoothed \<and>
       unat (retransmit_milliseconds rt') = rto_nat smoothed (snd (estimate rt'))))"
    using assms
  proof (induction samples arbitrary: rt' rule: rev_induct)
    case (snoc s samples)
    define rt1 where "rt1 = foldl (\<lambda>rt sample. snd (record_round_trip_sample rt sample)) rt samples"
    obtain acts rt2 where step: "record_round_trip_sample rt1 s = (acts, rt2)" by fastforce
    have "rt' = rt2" using snoc.prems(2) by (simp add: rt1_def [symmetric] step)
    with snoc.IH [OF snoc.prems(1) rt1_def] record_round_trip_sample_estimate [OF _ step] show ?case by auto
  qed simp
  then show ?thesis unfolding rto_nat_def by blast
qed

subsection \<open>Two behaviours hosts have to know\<close>

text \<open>
  While an overdue local shutdown waits for the answer to a peer's, the runtime reports a poll as due at
  once although that poll does nothing until the retransmission timer fires.
\<close>

lemma overdue_shutdown_spins:
  assumes "lifecycle rt = Running" "association rt = Sent" "peer_shutdown_acknowledgement_due rt"
    and "shutdown rt = LocalRequested started transmitted" "shutdown_timed_out rt now"
    and "has_pending_update (protocol rt)" "\<not> acknowledgement_due rt" "connection_state rt \<noteq> Connected"
    and "last_send rt = Some sent" "elapsed_since now sent < retransmit_milliseconds rt"
  shows "milliseconds_until_next_poll rt now = 0 \<and> poll lib rt now = (Inr [], rt)"
proof
  show "milliseconds_until_next_poll rt now = 0"
    using assms saturating_sub_0_iff [of SHUTDOWN_TIMEOUT_MILLISECONDS "elapsed_since now started"]
    by (auto simp: milliseconds_until_next_poll_def shutdown_outcome_of_def shutdown_timed_out_def Let_def)
  show "poll lib rt now = (Inr [], rt)"
    using assms
    by (simp add: poll_def shutdown_outcome_of_def poll_association_def poll_transport_def connection_state_action_def
        poll_retransmit_def)
qed

text \<open>Input whose update cannot be built has already left the queue and is in no sent state: it is lost.\<close>

lemma failed_build_loses_input:
  assumes "protocol_wf (protocol rt)" "\<not> has_pending_update (protocol rt)" "\<not> local_shutdown_unsent rt"
    "\<not> acknowledges_peer_shutdown rt" and "build_queued_update lib rt now = (Inl e, rt')"
  shows "queued_instructions rt' = [] \<and> local_instructions (protocol rt') = local_instructions (protocol rt)"
proof -
  let ?batch = "InstructionBatch (queued_instructions rt)" and ?p = "protocol rt"
  obtain res p where b: "build_update lib ?p (timestamp now) ?batch = (res, p)" by fastforce
  obtain res1 p1 where b1: "build_state_update lib ?p (timestamp now) ?batch (next_local_state ?p) = (res1, p1)" by fastforce
  have rt': "res = Inl x \<Longrightarrow> queued_instructions rt' = [] \<and> protocol rt' = p" "\<exists>x. res = Inl x" for x
    using assms(3-5) b
    by (auto simp: build_queued_update_def Let_def local_shutdown_unsent_def acknowledges_peer_shutdown_def split: sum.splits)
  have "res1 = Inl y \<Longrightarrow> same_but_channel ?p p1" for y
    using build_state_update_cases [OF assms(1), of lib "timestamp now" ?batch "next_local_state ?p"] by (auto simp: b1)
  then have "res1 = Inl y \<Longrightarrow> local_instructions p1 = local_instructions ?p" for y
    using same_but_channel_fields [of ?p p1] by auto
  then have "local_instructions p = local_instructions ?p"
    using rt'(2) b b1 by (auto simp: build_update_def Let_def split: if_splits sum.splits)
  with rt' show ?thesis by auto
qed

subsection \<open>Instances\<close>

definition example_runtime :: "(bytes, (u16 \<times> u16) \<times> bytes) session_runtime" where
  "example_runtime =
     \<lparr>protocol = example_protocol, queued_instructions = [], queued_input_bytes = 0, last_send = None,
      last_receive = MonotonicTime 0, retransmit_milliseconds = 1000, smoothed_round_trip_milliseconds = None,
      round_trip_variation_milliseconds = 0, association = Due, acknowledgement_due = False,
      received_server_state = False, round_trip_milliseconds = None, connection_state = Connecting,
      lifecycle = Running, udp_binding_generation = 0, shutdown = Open, peer_shutdown_acknowledgement_due = False\<rparr>"

lemma example_runtime_new: "runtime_new example_lib (SessionKey (replicate 16 0)) (MonotonicTime 0) = Some example_runtime"
  by (simp add: runtime_new_def example_protocol_new example_runtime_def INITIAL_RETRANSMIT_MILLISECONDS_def)

lemma example_runtime_wf: "runtime_wf example_runtime"
  using runtime_new_wf [of example_lib "SessionKey (replicate 16 0)" "MonotonicTime 0"] by (simp add: example_runtime_new)

theorem runtime_bounded_witness:
  "queued_input_bytes (snd (run (runtime_step example_lib) example_runtime [QueueInput [104, 105]])) = 2"
  using runtime_bounded [OF example_runtime_new refl, of "[QueueInput [104, 105]]"]
  by (simp add: queue_input_def queue_sized_def ensure_accepting_input_def ensure_running_def example_runtime_def
      usize_checked_add_def usize_limit_def MAXIMUM_QUEUED_INPUT_BYTES_def)

text \<open>A runtime that has sent its shutdown sixteen times.\<close>

definition example_closing :: "(bytes, (u16 \<times> u16) \<times> bytes) session_runtime" where
  "example_closing = example_runtime\<lparr>association := Sent, shutdown := LocalRequested (MonotonicTime 0) 16\<rparr>"

lemma example_closing_wf: "runtime_wf example_closing"
  using example_runtime_wf
  by (auto simp: example_closing_def runtime_wfs is_local_requested_def shutdown_outcome_of_def SHUTDOWN_RETRY_LIMIT_def
      example_runtime_def)

lemma example_closing_polls:
  "due_polls example_lib example_closing (replicate (Suc n) (MonotonicTime 5)) (example_closing\<lparr>shutdown := Complete TimedOut\<rparr>)"
proof -
  let ?rt = "example_closing\<lparr>shutdown := Complete TimedOut\<rparr>"
  have "due_polls example_lib ?rt (replicate n (MonotonicTime 5)) ?rt"
  proof (induction n)
    case 0
    show ?case by simp
  next
    case (Suc n)
    have "poll example_lib ?rt (MonotonicTime 5) = (Inr [], ?rt)" by (simp add: poll_def shutdown_outcome_of_def)
    from due_polls.due_poll [OF _ this Suc] show ?case by (simp add: shutdown_outcome_of_def)
  qed
  moreover have "poll example_lib example_closing (MonotonicTime 5) =
      (Inr [ShutdownComplete TimedOut, Diagnostic (DShutdownComplete TimedOut)], ?rt)"
    by (simp add: poll_def example_closing_def example_runtime_def shutdown_outcome_of_def poll_association_def
        local_shutdown_acknowledged_def example_protocol_def deque_front_def shutdown_timed_out_def
        SHUTDOWN_RETRY_LIMIT_def complete_shutdown_def)
  moreover have "milliseconds_until_next_poll example_closing (MonotonicTime 5) = 0"
    by (simp add: milliseconds_until_next_poll_def example_closing_def example_runtime_def shutdown_outcome_of_def
        SHUTDOWN_RETRY_LIMIT_def)
  ultimately show ?thesis
    by (auto intro: due_polls.due_poll)
qed

theorem shutdown_ends_witness:
  "\<exists>rt'. due_polls example_lib example_closing (replicate 17 (MonotonicTime 5)) rt' \<and> shutdown_outcome_of rt' \<noteq> None"
proof -
  let ?rt' = "example_closing\<lparr>shutdown := Complete TimedOut\<rparr>"
  have "due_polls example_lib example_closing (replicate 17 (MonotonicTime 5)) ?rt'"
    using example_closing_polls [of 16] by (simp add: numeral_eq_Suc)
  with shutdown_ends [OF example_closing_wf, of "MonotonicTime 0" 16 example_lib "replicate 17 (MonotonicTime 5)" ?rt']
  show ?thesis
    by (intro exI [of _ ?rt']) (simp add: example_closing_def example_runtime_def)
qed

theorem closed_runtime_silent_witness:
  "poll example_lib (snd (run (runtime_step example_lib) (snd (cancel example_runtime)) [QueueInput [1], Poll (MonotonicTime 9)]))
     (MonotonicTime 9) =
   (Inr [], snd (run (runtime_step example_lib) (snd (cancel example_runtime)) [QueueInput [1], Poll (MonotonicTime 9)]))"
  using closed_runtime_silent [of "snd (cancel example_runtime)" _ example_lib "[QueueInput [1], Poll (MonotonicTime 9)]"
      "MonotonicTime 9", OF _ refl]
  by (simp add: cancel_def example_runtime_def)

theorem resizes_coalesce_witness:
  "length (queued_instructions (foldl (\<lambda>rt (columns, rows). snd (queue_resize example_lib rt columns rows))
     example_runtime [(80, 24), (100, 30), (120, 40)])) \<le> 1"
  using resizes_coalesce [OF example_runtime_wf _ _ refl, where lib = example_lib and sizes = "[(80, 24), (100, 30), (120, 40)]"]
  by (simp add: example_runtime_def)

theorem round_trip_estimator_exact_witness:
  "estimate (foldl (\<lambda>rt sample. snd (record_round_trip_sample rt sample)) example_runtime [100, 180]) = (Some 110, 57)"
proof -
  have wf: "timer_wf example_runtime" using example_runtime_wf by (simp add: runtime_wf_def)
  have "estimate example_runtime = (None, 0)" by (simp add: estimate_def example_runtime_def)
  with round_trip_estimator_exact [OF wf refl, of "[100, 180]"] show ?thesis
    by (simp add: estimate_step_def)
qed

end
