(* ===== verification/Host_Delivery.thy ===== *)
theory Host_Delivery
  imports Runtime_Promises
begin

section \<open>The host's terminal follows the server\<close>

text \<open>
  End to end through decryption, reassembly, decoding, state replay and diffing: the terminal actions
  that \<open>receive_datagram\<close> returns take an emulator that shows the delivered state to the new delivered
  state, and every datagram that does not advance the session leaves both alone.
\<close>

subsection \<open>What a datagram does to the delivered state\<close>

definition delivers ::
    "('k, 'p, 'v) session_lib \<Rightarrow> ('k, 'p) client_protocol \<Rightarrow> received_state option \<Rightarrow> ('k, 'p) client_protocol \<Rightarrow> bool" where
  "delivers lib self received self' \<longleftrightarrow>
     (case received of
        Some st \<Rightarrow>
          if rs_advances_remote_state st then
            latest_remote_state self < latest_remote_state self' \<and>
            (\<exists>diff u. diff_from (terminal lib) (delivered_remote_state self') (delivered_remote_state self) = Inr diff \<and>
               rs_update st = u\<lparr>su_delta := batch_encode_bytes (codec lib) (into_instructions diff)\<rparr>)
          else delivered_remote_state self' = delivered_remote_state self \<and>
               latest_remote_state self' = latest_remote_state self
      | None \<Rightarrow> delivered_remote_state self' = delivered_remote_state self \<and>
               latest_remote_state self' = latest_remote_state self)"

lemma delivers_cong:
  assumes "delivers lib s0 received s1"
    and "delivered_remote_state self = delivered_remote_state s0" "latest_remote_state self = latest_remote_state s0"
    and "delivered_remote_state self' = delivered_remote_state s1" "latest_remote_state self' = latest_remote_state s1"
  shows "delivers lib self received self'"
  using assms by (auto simp: delivers_def split: option.splits if_splits)

lemma process_acknowledgement_delivered:
  assumes "process_acknowledgement self n = (r, self')"
  shows "delivered_remote_state self' = delivered_remote_state self \<and> latest_remote_state self' = latest_remote_state self"
  using assms by (auto simp: process_acknowledgement_def Let_def split: option.splits if_splits)

lemma accept_no_advance:
  assumes "accept_remote_update lib self u = (Inr (False, du), self')"
  shows "delivered_remote_state self' = delivered_remote_state self \<and> latest_remote_state self' = latest_remote_state self"
  using assms
  by (auto simp: accept_remote_update_def Let_def split: if_splits option.splits sum.splits prod.splits)

lemma accept_delivers:
  assumes "accept_remote_update lib self u = (Inr (advances, du), self')"
    and "rs_advances_remote_state st = advances" "rs_update st = du"
  shows "delivers lib self (Some st) self'"
proof (cases advances)
  case True
  with accept_advance [of lib self u du self'] assms show ?thesis by (auto simp: delivers_def)
next
  case False
  with accept_no_advance [of lib self u du self'] assms show ?thesis by (auto simp: delivers_def)
qed

lemma ingest_message_delivers:
  assumes "ingest_message lib self packet header compressed = (Inr st, self')"
  shows "delivers lib self (Some st) self'"
proof -
  from assms obtain u s1 adv du s2 where
    ack: "process_acknowledgement self (su_acknowledged_state u) = (Inr (), s1)"
    and accept: "accept_remote_update lib s1 u = (Inr (adv, du), s2)"
    and st: "rs_advances_remote_state st = adv" "rs_update st = du"
    and self': "delivered_remote_state self' = delivered_remote_state s2" "latest_remote_state self' = latest_remote_state s2"
    by (auto simp: ingest_message_def Let_def split: sum.splits prod.splits if_splits)
  from delivers_cong [OF accept_delivers [OF accept st] _ _ self'] process_acknowledgement_delivered [OF ack]
  show ?thesis by simp
qed

lemma ingest_fragment_delivers:
  assumes "ingest_fragment lib self packet f = (Inr received, self')"
  shows "delivers lib self received self'"
proof -
  have same: "delivers lib self None (self\<lparr>assemblies := a\<rparr>)" for a by (simp add: delivers_def)
  have message: "delivers lib self (Some st) s"
    if "ingest_message lib (self\<lparr>assemblies := a\<rparr>) packet h c = (Inr st, s)" for a h c st s
    using delivers_cong [OF ingest_message_delivers [OF that], of self s] by simp
  from assms show ?thesis
    by (auto simp: ingest_fragment_def Let_def intro: same message split: sum.splits option.splits prod.splits if_splits)
qed

lemma ingest_packet_delivers:
  assumes "ingest_packet lib self packet = (Inr r, self')"
  shows "delivers lib self (pr_state r) self'"
proof -
  have same: "delivers lib self None (self\<lparr>replay_window := w, latest_peer_timestamp := t\<rparr>)" for w t
    by (simp add: delivers_def)
  have frag: "delivers lib self st s"
    if "ingest_fragment lib (self\<lparr>replay_window := w, latest_peer_timestamp := t\<rparr>) a f = (Inr st, s)" for w t a f st s
    using delivers_cong [OF ingest_fragment_delivers [OF that], of self s] by simp
  from assms show ?thesis
    by (auto simp: ingest_packet_def Let_def receipt_def intro: same frag split: sum.splits prod.splits if_splits)
qed

subsection \<open>The host\<close>

text \<open>An emulator of the host's, which applies the terminal actions it is handed.\<close>

fun host_apply :: "('p, 'v) term_lib \<Rightarrow> 'p \<Rightarrow> session_action \<Rightarrow> 'p" where
  "host_apply lib p (WriteTerminal bytes) = vt_process lib p bytes"
| "host_apply lib p (ResizeTerminal columns rows) = vt_set_size lib p rows columns"
| "host_apply lib p _ = p"

lemma host_instruction:
  assumes "vt_streaming lib" "in_viewport i \<noteq> Some vp" "\<And>v. in_viewport i = Some v \<Longrightarrow> viewport_ok v"
  shows "foldl (host_apply lib) p (instruction_actions i) = replay lib p (instruction_ops vp i)"
  using assms viewport_okD [OF assms(3)]
  by (auto simp: instruction_actions_def instruction_ops_def vt_streaming_def split: option.splits)

lemma host_batch:
  assumes "vt_streaming lib" "check_viewports is = Inr ()" "resizes_change vp is"
  shows "foldl (host_apply lib) p (concat (map instruction_actions is)) = replay lib p (batch_ops vp is)"
  using assms(2,3)
proof (induction "is" arbitrary: p vp)
  case (Cons i "is")
  have ok: "\<And>v. in_viewport i = Some v \<Longrightarrow> viewport_ok v" "check_viewports is = Inr ()"
    using Cons.prems(1) by (simp_all add: check_viewports_iff del: check_viewports.simps)
  with Cons host_instruction [OF assms(1) _ ok(1), where vp = vp and p = p] show ?case by simp
qed simp

lemma apply_parser:
  assumes "vt_streaming lib" "remote_state_apply lib st batch = (Inr (), st')"
  shows "rts_parser st' = replay lib (rts_parser st) (batch_ops (rts_viewport st) (instructions batch))"
  using assms
  by (cases rule: remote_state_apply_cases [of lib st batch]) (auto simp: advanced_def admitted_def split: if_splits)

text \<open>
  Neither state has been compacted: each is what a replay of its history gives, from the same initial size. The diff
  between them fits into memory when it is encoded. The new state extends the delivered one when it adds to its stream.
\<close>

definition uncompacted :: "('k, 'p, 'v) session_lib \<Rightarrow> 'p remote_terminal_state \<Rightarrow> 'p remote_terminal_state \<Rightarrow> bool" where
  "uncompacted lib old new \<longleftrightarrow>
     replayable (terminal lib) old \<and> replayable (terminal lib) new \<and>
     rts_initial_columns old = rts_initial_columns new \<and> rts_initial_rows old = rts_initial_rows new \<and>
     (\<forall>diff. diff_from (terminal lib) new old = Inr diff \<longrightarrow>
        length (wire_encode (batch_fields (into_instructions diff))) < usize_limit)"

definition extends_delivered ::
    "('k, 'p, 'v) session_lib \<Rightarrow> 'p remote_terminal_state \<Rightarrow> 'p remote_terminal_state \<Rightarrow> bool" where
  "extends_delivered lib old new \<longleftrightarrow> uncompacted lib old new \<and> prefix (op_stream (rts_ops old)) (op_stream (rts_ops new))"

lemma delivered_actions:
  assumes "codec_conforms (codec lib)" "vt_streaming (terminal lib)" "rts_wf new" "rts_wf old"
    and states: "uncompacted lib old new" and diff: "diff_from (terminal lib) new old = Inr diff"
    and u: "su_delta u = batch_encode_bytes (codec lib) (into_instructions diff)"
  obtains batch where "decode_instructions (codec lib) u = Inr batch"
    and "prefix (op_stream (rts_ops old)) (op_stream (rts_ops new)) \<Longrightarrow>
      foldl (host_apply (terminal lib)) (rts_parser old) (concat (map instruction_actions (instructions batch))) = rts_parser new"
    and "vt_redraws (terminal lib) display \<Longrightarrow>
      display (foldl (host_apply (terminal lib)) (rts_parser old) (concat (map instruction_actions (instructions batch)))) =
        display (rts_parser new)"
proof -
  let ?b = "into_instructions diff"
  have d: "decode_instructions (codec lib) u = Inr ?b"
    by (rule decode_encoded_batch [OF assms(1) _ u]) (use states diff in \<open>simp add: uncompacted_def\<close>)
  have carries: "check_viewports (instructions ?b) = Inr ()" "resizes_change (rts_viewport old) (instructions ?b)"
    "prefix (op_stream (rts_ops old)) (op_stream (rts_ops new)) \<Longrightarrow>
       replay (terminal lib) (rts_parser old) (batch_ops (rts_viewport old) (instructions ?b)) = rts_parser new"
    "vt_redraws (terminal lib) display \<Longrightarrow>
       display (replay (terminal lib) (rts_parser old) (batch_ops (rts_viewport old) (instructions ?b))) = display (rts_parser new)"
    using diff_carries [OF assms(2-4) _ _ _ _ diff, of display] states by (simp_all add: uncompacted_def)
  from that [OF d] carries(3,4) host_batch [OF assms(2) carries(1,2)] show ?thesis by simp
qed

subsection \<open>Datagrams\<close>

lemma host_quiet: "\<forall>a \<in> set actions. quiet_action a \<Longrightarrow> foldl (host_apply lib) p actions = p"
proof (induction actions)
  case (Cons a actions)
  then show ?case by (cases a) auto
qed simp

lemma receive_state_protocol: "protocol (snd (receive_state lib rt actions st)) = protocol rt"
  by (auto simp: receive_state_def Let_def split: sum.splits)

text \<open>What the host shows after a datagram, exactly and by what is displayed.\<close>

abbreviation delivered_of :: "('k, 'p) session_runtime \<Rightarrow> 'p remote_terminal_state" where
  "delivered_of rt \<equiv> delivered_remote_state (protocol rt)"

lemma datagram_carries:
  assumes "codec_conforms (codec lib)" "vt_streaming (terminal lib)" "runtime_wf rt"
    and recv: "receive_datagram lib rt packet now = (Inr actions, rt')"
    and states: "latest_remote_state (protocol rt') \<noteq> latest_remote_state (protocol rt) \<Longrightarrow>
      uncompacted lib (delivered_of rt) (delivered_of rt')"
  defines "host \<equiv> foldl (host_apply (terminal lib)) (rts_parser (delivered_of rt)) actions"
  shows "(vt_redraws (terminal lib) display \<longrightarrow> display host = display (rts_parser (delivered_of rt'))) \<and>
    (latest_remote_state (protocol rt') = latest_remote_state (protocol rt) \<or>
       prefix (op_stream (rts_ops (delivered_of rt))) (op_stream (rts_ops (delivered_of rt'))) \<longrightarrow>
       host = rts_parser (delivered_of rt'))"
proof -
  let ?old = "delivered_remote_state (protocol rt)" and ?new = "delivered_remote_state (protocol rt')"
  have wf: "rts_wf ?old" "rts_wf ?new"
    using assms(3) receive_datagram_wf [OF assms(3), of lib packet now]
    by (simp_all add: recv runtime_wf_def protocol_wf_def)
  obtain receipt p rt1 quiets where ingest: "ingest_packet lib (protocol rt) packet = (Inr receipt, p)"
    and p: "protocol rt1 = p" and quiets: "\<forall>a \<in> set quiets. quiet_action a"
    and rest: "case pr_state receipt of
       None \<Rightarrow> (Inr actions, rt') = (Inr quiets, rt1)
     | Some st \<Rightarrow> receive_state lib rt1 quiets st = (Inr actions, rt')"
    using receive_datagram_cases [OF recv] by (auto split: option.splits)
  have p': "protocol rt' = p"
    using rest p receive_state_protocol [of lib rt1 quiets] by (auto split: option.splits) (metis snd_conv)
  note del = ingest_packet_delivers [OF ingest, folded p']
  show ?thesis
  proof (cases "\<exists>st. pr_state receipt = Some st \<and> rs_advances_remote_state st")
    case False
    then have "\<forall>a \<in> set actions. quiet_action a" "?new = ?old"
      using rest quiets del
      by (auto simp: delivers_def receive_state_def Let_def split: option.splits if_splits)
    then show ?thesis by (simp add: host_quiet host_def)
  next
    case True
    then obtain st diff u where st: "pr_state receipt = Some st" "rs_advances_remote_state st"
      and diff: "diff_from (terminal lib) ?new ?old = Inr diff"
      and u: "rs_update st = u\<lparr>su_delta := batch_encode_bytes (codec lib) (into_instructions diff)\<rparr>"
      and less: "latest_remote_state (protocol rt) < latest_remote_state (protocol rt')"
      using del by (auto simp: delivers_def)
    have advanced: "latest_remote_state (protocol rt') \<noteq> latest_remote_state (protocol rt)" using less by simp
    obtain batch where batch: "decode_instructions (codec lib) (rs_update st) = Inr batch"
      and exact: "prefix (op_stream (rts_ops ?old)) (op_stream (rts_ops ?new)) \<Longrightarrow>
        foldl (host_apply (terminal lib)) (rts_parser ?old) (concat (map instruction_actions (instructions batch))) = rts_parser ?new"
      and shown: "vt_redraws (terminal lib) display \<Longrightarrow>
        display (foldl (host_apply (terminal lib)) (rts_parser ?old) (concat (map instruction_actions (instructions batch)))) =
          display (rts_parser ?new)"
      using delivered_actions [OF assms(1,2) wf(2,1) states [OF advanced] diff, of "rs_update st" display] u by auto
    from st rest batch obtain quiets' where
      "actions = quiets' @ concat (map instruction_actions (instructions batch))" "\<forall>a \<in> set quiets'. quiet_action a"
      using quiets by (auto simp: receive_state_def Let_def)
    with exact shown advanced show ?thesis by (simp add: host_quiet host_def)
  qed
qed

lemma datagram_tracks:
  assumes "codec_conforms (codec lib)" "vt_streaming (terminal lib)" "runtime_wf rt"
    and recv: "receive_datagram lib rt packet now = (Inr actions, rt')"
    and ext: "latest_remote_state (protocol rt') \<noteq> latest_remote_state (protocol rt) \<Longrightarrow>
      extends_delivered lib (delivered_of rt) (delivered_of rt')"
  shows "foldl (host_apply (terminal lib)) (rts_parser (delivered_of rt)) actions = rts_parser (delivered_of rt')"
  using datagram_carries [OF assms(1-4)] ext by (auto simp: extends_delivered_def)

text \<open>
  C1. The host's terminal follows the server, end to end. Let \<open>receive_datagram\<close> succeed on a well-formed runtime, and
  let an emulator in the state last delivered apply the returned terminal actions in order. If the session advances,
  let the states delivered before and after be uncompacted (each the replay of its history, from the same initial
  size) and the diff between them fit into memory. Then the emulator displays the newly delivered screen, also when
  the histories have diverged and the client repaints by a screen diff, whose contract is \<open>vt_redraws\<close>. It is in
  exactly the delivered state, inside an incomplete escape sequence too, if the datagram does not advance the session,
  or the new history extends the old one, however long both are. The codec conforms, and the emulator reads a stream.
\<close>

theorem host_terminal_tracks_remote:
  assumes "codec_conforms (codec lib)" "vt_streaming (terminal lib)" "vt_redraws (terminal lib) display" "runtime_wf rt"
    and "receive_datagram lib rt packet now = (Inr actions, rt')"
    and "latest_remote_state (protocol rt') \<noteq> latest_remote_state (protocol rt) \<Longrightarrow>
      uncompacted lib (delivered_remote_state (protocol rt)) (delivered_remote_state (protocol rt'))"
  shows "display (foldl (host_apply (terminal lib)) (rts_parser (delivered_remote_state (protocol rt))) actions) =
      display (rts_parser (delivered_remote_state (protocol rt'))) \<and>
    (latest_remote_state (protocol rt') = latest_remote_state (protocol rt) \<or>
       prefix (op_stream (rts_ops (delivered_remote_state (protocol rt))))
         (op_stream (rts_ops (delivered_remote_state (protocol rt')))) \<longrightarrow>
       foldl (host_apply (terminal lib)) (rts_parser (delivered_remote_state (protocol rt))) actions =
         rts_parser (delivered_remote_state (protocol rt')))"
  using datagram_carries [OF assms(1,2,4-6), of display] assms(3) by blast

subsection \<open>Instance: one line of output, from the sealed datagram to the screen\<close>

definition example_fragment :: fragment where
  "example_fragment =
     \<lparr>fr_header = \<lparr>fh_sent_timestamp = 7, fh_echoed_timestamp = u16_MAX, fh_state_id = 1, fh_index = 0, fh_is_final = True\<rparr>,
      fr_body = wire_encode (update_fields example_server_update)\<rparr>"

definition example_datagram :: bytes where
  "example_datagram = u64_to_be_bytes (direction_encode ServerToClient 0) @
     example_tag (replicate 16 0) (make_nonce (u64_to_be_bytes (direction_encode ServerToClient 0))) @
     fragment_encode example_fragment"

lemma example_update_small: "length (wire_encode (update_fields example_server_update)) \<le> 64"
proof -
  let ?b = "wire_encode (batch_fields example_output)"
  have "length ?b \<le> 32"
    by (simp add: batch_fields_def instruction_fields_def message_field_def host_bytes_instruction_def
        run_fields_def bytes_field_def marker_fields_def varint_field_def wire_encode_Cons wire_key_def
        encode_varint_small)
  moreover from this have "(of_nat (length ?b) :: u64) < 128"
    by (simp add: word_less_nat_alt unat_of_nat_usize usize_limit_def)
  ultimately show ?thesis
    by (simp add: example_server_update_def state_update_new_def update_fields_def varint_field_def bytes_field_def
        batch_encode_bytes_def reference_codec_def PROTOCOL_VERSION_def wire_encode_Cons wire_key_def
        encode_varint_small)
qed

lemma example_decode: "decode_compressed_update reference_codec (fr_body example_fragment) = Inr example_server_update"
proof -
  have "su_protocol_version example_server_update = PROTOCOL_VERSION"
    "su_delta example_server_update = batch_encode_bytes reference_codec example_output"
    by (simp_all add: example_server_update_def state_update_new_def)
  from compressed_roundtrip [OF reference_codec_conforms this example_small(1)] example_update_small
  obtain c where "encode_compressed_update reference_codec example_server_update = Inr c"
    "decode_compressed_update reference_codec c = Inr example_server_update"
    by (auto simp: usize_limit_def MAXIMUM_DECOMPRESSED_BYTES_def)
  then show ?thesis
    by (auto simp: example_fragment_def encode_compressed_update_def reference_codec_def split: if_splits)
qed

lemma example_open:
  "open_packet example_cipher (example_channel Client) example_datagram =
     Inr \<lparr>ap_counter = 0, ap_plaintext = fragment_encode example_fragment\<rparr>"
  by (simp add: example_datagram_def open_packet_def example_channel_def secure_channel_new_def
      example_cipher_def Let_def del: direction_encode.simps)

lemma example_parse:
  "fragment_parse (fragment_encode example_fragment) = Inr example_fragment"
  "14 \<le> length (fragment_encode example_fragment)"
  using fragment_parse_encode [of example_fragment] example_update_small
  by (simp_all add: example_fragment_def fragment_encode_def Let_def MAX_RECEIVED_FRAGMENT_BODY_BYTES_def)

lemma example_push:
  "\<exists>acc. accumulator_push (accumulator_new 1 MAXIMUM_REASSEMBLED_BYTES) example_fragment =
     (Inr (Some (fr_body example_fragment)), acc)"
  using example_update_small
  by (simp add: accumulator_push_def accumulator_new_def example_fragment_def Let_def usize_checked_add_def
      usize_limit_def MAXIMUM_REASSEMBLED_BYTES_def try_complete_def)

lemma example_ingest:
  "\<exists>receipt p. ingest_packet example_lib example_protocol example_datagram = (Inr receipt, p) \<and>
     pr_echoed_timestamp receipt = u16_MAX \<and> delivered_remote_state p = example_state' \<and>
     (\<exists>st. pr_state receipt = Some st \<and> rs_advances_remote_state st \<and> rs_update st =
        example_server_update\<lparr>su_delta := batch_encode_bytes reference_codec example_delivered\<rparr>)"
proof -
  let ?e = "fragment_encode example_fragment"
  have stamps: "from_be_bytes [?e ! 0, ?e ! 1] = (7 :: u16)" "from_be_bytes [?e ! 2, ?e ! 3] = u16_MAX"
    by (simp_all add: fragment_encode_def example_fragment_def Let_def nth_append nth_to_be_bytes_2 [simplified])
  obtain w where w: "window_accept (replay_window example_protocol) 0 = (True, w)"
    by (simp add: example_protocol_def window_accept_def replay_window_default_def)
  obtain acc where acc: "accumulator_push (accumulator_new 1 MAXIMUM_REASSEMBLED_BYTES) example_fragment =
    (Inr (Some (fr_body example_fragment)), acc)" using example_push by blast
  let ?p = "\<lambda>a. example_protocol\<lparr>replay_window := w, latest_peer_timestamp := Some 7, assemblies := a\<rparr>"
  have ack: "process_acknowledgement (?p a) (su_acknowledged_state example_server_update) = (Inr (), ?p a)" for a
    by (simp add: process_acknowledgement_def example_server_update_def state_update_new_def example_protocol_def
        deque_front_def)
  have message: "\<exists>st p. ingest_message example_lib (?p a) packet header (fr_body example_fragment) = (Inr st, p) \<and>
      delivered_remote_state p = example_state' \<and> rs_advances_remote_state st \<and> rs_update st =
        example_server_update\<lparr>su_delta := batch_encode_bytes reference_codec example_delivered\<rparr>" for a packet header
    using example_accept_from [of "?p a"] ack [of a] example_decode
    by (simp add: ingest_message_def example_lib_def [THEN arg_cong [of _ _ codec]] example_protocol_def)
  let ?a = "\<lparr>ap_counter = 0, ap_plaintext = ?e\<rparr>"
  obtain st p where st: "ingest_fragment example_lib (example_protocol\<lparr>replay_window := w, latest_peer_timestamp := Some 7\<rparr>)
      ?a example_fragment = (Inr (Some st), p)" "delivered_remote_state p = example_state'" "rs_advances_remote_state st"
    "rs_update st = example_server_update\<lparr>su_delta := batch_encode_bytes reference_codec example_delivered\<rparr>"
    using message [of "bt_remove 1 (bt_insert 1 acc [])" ?a "fr_header example_fragment"] acc
    by (auto simp: ingest_fragment_def Let_def example_protocol_def example_fragment_def MAXIMUM_ACTIVE_ASSEMBLIES_def)
  have "ingest_packet example_lib example_protocol example_datagram = (Inr (receipt ?a 7 u16_MAX (Some st)), p)"
    using example_open w example_parse stamps st(1)
    by (simp add: ingest_packet_def example_lib_def [THEN arg_cong [of _ _ cipher]]
        example_protocol_def [THEN arg_cong [of _ _ secure_channel]] TIMESTAMP_HEADER_BYTES_def
        MINIMUM_FRAGMENT_PLAINTEXT_BYTES_def)
  with st show ?thesis by (auto simp: receipt_def)
qed

lemma example_received:
  assumes "protocol rt = example_protocol" "lifecycle rt = Running"
  shows "\<exists>actions rt'. receive_datagram example_lib rt example_datagram now = (Inr actions, rt') \<and>
     delivered_remote_state (protocol rt') = example_state' \<and> (\<forall>c r. ResizeTerminal c r \<notin> set actions)"
proof -
  obtain receipt p st where ingest: "ingest_packet example_lib example_protocol example_datagram = (Inr receipt, p)"
    and r: "pr_echoed_timestamp receipt = u16_MAX" "delivered_remote_state p = example_state'"
    and st: "pr_state receipt = Some st" "rs_advances_remote_state st"
      "rs_update st = example_server_update\<lparr>su_delta := batch_encode_bytes reference_codec example_delivered\<rparr>"
    using example_ingest by blast
  have dec: "decode_instructions reference_codec (rs_update st) = Inr example_delivered"
    by (rule decode_encoded_batch [OF reference_codec_conforms example_small(2)]) (simp add: st)
  show ?thesis
    using assms ingest r st(1,2) dec
    by (auto simp: receive_datagram_def ensure_running_def receive_state_def Let_def
        example_lib_def [THEN arg_cong [of _ _ codec]] instruction_actions_def host_bytes_instruction_def)
qed

lemma example_runtime_running: "protocol example_runtime = example_protocol" "lifecycle example_runtime = Running"
  by (simp_all add: example_runtime_def)

lemma example_delivered_state: "rts_parser example_state = ((24, 80), [])"
  "delivered_remote_state (protocol example_runtime) = example_state"
  by (simp_all add: example_runtime_def example_protocol_def example_state_def)

lemma example_extends: "extends_delivered example_lib example_state example_state'"
proof -
  have s: "rts_parser example_state = ((24, 80), [])" "rts_ops example_state = []"
    "rts_initial_columns example_state = 80" "rts_initial_rows example_state = 24"
    "sh_operation_count (rts_history example_state) = 0" "rts_echo_ack example_state = None"
    by (simp_all add: example_state_def history_default_def history_operations_def)
  then have "replayable example_terminal example_state" "replayable example_terminal example_state'"
    by (simp_all add: example_state'_fields replayable_def example_terminal_def)
  with s example_small(2) show ?thesis
    by (simp add: extends_delivered_def uncompacted_def example_lib_def example_state'_fields example_diff)
qed

theorem host_terminal_tracks_remote_witness:
  "\<exists>actions rt'. receive_datagram example_lib example_runtime example_datagram (MonotonicTime 5) = (Inr actions, rt') \<and>
     foldl (host_apply example_terminal) ((24, 80), []) actions = ((24, 80), [104, 105])"
proof -
  obtain actions rt' where recv: "receive_datagram example_lib example_runtime example_datagram (MonotonicTime 5) = (Inr actions, rt')"
    and rt': "delivered_remote_state (protocol rt') = example_state'"
    using example_received [OF example_runtime_running, of "MonotonicTime 5"] by blast
  have "codec_conforms (codec example_lib)" "vt_streaming (terminal example_lib)"
    "vt_redraws (terminal example_lib) (map_prod id last_page)"
    by (simp_all add: example_lib_def reference_codec_conforms example_terminal_streaming example_terminal_redraws)
  from host_terminal_tracks_remote [OF this example_runtime_wf recv] example_extends recv rt' show ?thesis
    by (simp add: extends_delivered_def example_lib_def example_delivered_state example_state'_fields)
qed

end
