(* ===== verification/Text_Encoding.thy ===== *)
theory Text_Encoding
  imports Prelude
begin

section \<open>Text of Rust's standard library: characters, UTF-8 and decimal numbers\<close>

text \<open>
  A Rust \<open>char\<close> is a Unicode scalar value, here a natural number with the predicate \<open>is_scalar\<close>. The
  theory models \<open>char::encode_utf8\<close>, the validation of \<open>str::from_utf8\<close>, the character classes the
  source asks for and the decimal output of \<open>format!\<close>, and proves that decoding inverts encoding.
\<close>

subsection \<open>Characters and UTF-8\<close>

type_synonym rust_char = nat

definition is_scalar :: "nat \<Rightarrow> bool" where
  "is_scalar c \<longleftrightarrow> c < 0xD800 \<or> 0xE000 \<le> c \<and> c < 0x110000"

definition char_from_u32 :: "u32 \<Rightarrow> rust_char option" where
  "char_from_u32 v = (if is_scalar (unat v) then Some (unat v) else None)"

definition char_is_ascii :: "rust_char \<Rightarrow> bool" where
  "char_is_ascii c \<longleftrightarrow> c < 128"

definition char_is_control :: "rust_char \<Rightarrow> bool" where
  "char_is_control c \<longleftrightarrow> c < 32 \<or> 127 \<le> c \<and> c < 160"

definition is_ascii_graphic :: "u8 \<Rightarrow> bool" where
  "is_ascii_graphic b \<longleftrightarrow> 0x21 \<le> b \<and> b \<le> 0x7E"

definition encode_utf8 :: "rust_char \<Rightarrow> bytes" where
  "encode_utf8 c =
     (if c < 0x80 then [of_nat c]
      else if c < 0x800 then [of_nat (0xC0 + c div 64), of_nat (0x80 + c mod 64)]
      else if c < 0x10000 then
        [of_nat (0xE0 + c div 4096), of_nat (0x80 + c div 64 mod 64), of_nat (0x80 + c mod 64)]
      else
        [of_nat (0xF0 + c div 262144), of_nat (0x80 + c div 4096 mod 64),
         of_nat (0x80 + c div 64 mod 64), of_nat (0x80 + c mod 64)])"

definition continuation :: "nat \<Rightarrow> bool" where
  "continuation b \<longleftrightarrow> 0x80 \<le> b \<and> b < 0xC0"

text \<open>The first character of a byte string: overlong forms, surrogates and values past the last scalar are refused.\<close>

fun decode_char :: "nat list \<Rightarrow> (rust_char \<times> nat) option" where
  "decode_char [] = None"
| "decode_char (a # bs) =
     (if a < 0x80 then Some (a, 1)
      else if 0xC2 \<le> a \<and> a < 0xE0 then
        (case bs of
           b # _ \<Rightarrow> if continuation b then Some ((a - 0xC0) * 64 + (b - 0x80), 2) else None
         | _ \<Rightarrow> None)
      else if 0xE0 \<le> a \<and> a < 0xF0 then
        (case bs of
           b # c # _ \<Rightarrow>
             let v = (a - 0xE0) * 4096 + (b - 0x80) * 64 + (c - 0x80) in
             if continuation b \<and> continuation c \<and> 0x800 \<le> v \<and> is_scalar v then Some (v, 3) else None
         | _ \<Rightarrow> None)
      else if 0xF0 \<le> a \<and> a < 0xF5 then
        (case bs of
           b # c # d # _ \<Rightarrow>
             let v = (a - 0xF0) * 262144 + (b - 0x80) * 4096 + (c - 0x80) * 64 + (d - 0x80) in
             if continuation b \<and> continuation c \<and> continuation d \<and> 0x10000 \<le> v \<and> is_scalar v
             then Some (v, 4) else None
         | _ \<Rightarrow> None)
      else None)"

lemma decode_char_length: "decode_char bs = Some (c, n) \<Longrightarrow> 0 < n \<and> n \<le> length bs"
  by (cases bs rule: decode_char.cases) (auto simp: Let_def split: if_splits list.splits)

function chars_of :: "nat list \<Rightarrow> rust_char list option" where
  "chars_of bs =
     (if bs = [] then Some []
      else
        (case decode_char bs of
           None \<Rightarrow> None
         | Some (c, n) \<Rightarrow> map_option ((#) c) (chars_of (drop n bs))))"
  by pat_completeness auto
termination
  by (relation "measure length") (auto dest: decode_char_length)

declare chars_of.simps [simp del]

definition from_utf8 :: "bytes \<Rightarrow> rust_char list option" where
  "from_utf8 bs = chars_of (map unat bs)"

lemma unat_byte [simp]: "n < 256 \<Longrightarrow> unat (of_nat n :: u8) = n"
  by (simp add: unat_of_nat)

lemma encode_utf8_bound:
  assumes "is_scalar c"
  shows "0 < length (encode_utf8 c) \<and> length (encode_utf8 c) \<le> 4"
  by (simp add: encode_utf8_def)

lemma base64_digits:
  "(c :: nat) = 64 * (c div 64) + c mod 64" "c div 64 = 64 * (c div 4096) + c div 64 mod 64"
  using div_mult2_eq [of c 64 64] by simp_all

text \<open>Decoding inverts encoding, whatever follows.\<close>

lemma decode_char_encode:
  assumes "is_scalar c"
  shows "decode_char (map unat (encode_utf8 c) @ rest) = Some (c, length (encode_utf8 c))"
proof -
  have c: "c < 0x110000" using assms by (auto simp: is_scalar_def)
  consider (one) "c < 0x80" | (two) "0x80 \<le> c" "c < 0x800" | (three) "0x800 \<le> c" "c < 0x10000" | (four) "0x10000 \<le> c"
    by linarith
  then show ?thesis
  proof cases
    case one
    then show ?thesis by (simp add: encode_utf8_def)
  next
    case two
    then have "c div 64 < 32" "2 \<le> c div 64" by (auto simp: div_less_iff_less_mult less_eq_div_iff_mult_less_eq)
    moreover have "c mod 64 < 64" by simp
    ultimately show ?thesis using two by (simp add: encode_utf8_def continuation_def del: of_nat_add)
  next
    case three
    then have d: "c div 4096 < 16" by (auto simp: div_less_iff_less_mult)
    have m: "c div 64 mod 64 < 64" "c mod 64 < 64" by simp_all
    have "c div 4096 * 4096 + c div 64 mod 64 * 64 + c mod 64 = c"
      using base64_digits [of c] by linarith
    with three d m assms show ?thesis by (simp add: encode_utf8_def continuation_def Let_def del: of_nat_add)
  next
    case four
    then have d: "c div 262144 < 5" using c by (auto simp: div_less_iff_less_mult)
    have m: "c div 4096 mod 64 < 64" "c div 64 mod 64 < 64" "c mod 64 < 64" by simp_all
    have "c div 262144 * 262144 + c div 4096 mod 64 * 4096 + c div 64 mod 64 * 64 + c mod 64 = c"
    proof -
      have d: "c div 64 div 64 = c div 4096" "c div 64 div 4096 = c div 262144"
        using div_mult2_eq [of c 64 64] div_mult2_eq [of c 64 4096] by simp_all
      show ?thesis
        using base64_digits(1) [of c] base64_digits(2) [of c] base64_digits(2) [of "c div 64", unfolded d] by linarith
    qed
    with four d m assms show ?thesis by (simp add: encode_utf8_def continuation_def Let_def del: of_nat_add)
  qed
qed

lemma from_utf8_encode:
  "list_all is_scalar cs \<Longrightarrow> from_utf8 (concat (map encode_utf8 cs)) = Some cs"
proof (induction cs)
  case Nil
  show ?case by (simp add: from_utf8_def chars_of.simps)
next
  case (Cons c cs)
  let ?rest = "map unat (concat (map encode_utf8 cs))"
  have "decode_char (map unat (encode_utf8 c) @ ?rest) = Some (c, length (encode_utf8 c))"
    using Cons.prems by (intro decode_char_encode) simp
  moreover have "encode_utf8 c \<noteq> []" by (simp add: encode_utf8_def)
  ultimately show ?case
    using Cons by (simp add: from_utf8_def chars_of.simps [of "map unat (encode_utf8 c) @ ?rest"])
qed

subsection \<open>Decimal numbers\<close>

text \<open>The output of \<open>format!\<close> for an unsigned integer, and the value of a digit string.\<close>

fun decimal :: "nat \<Rightarrow> bytes" where
  "decimal n = (if n < 10 then [of_nat (0x30 + n)] else decimal (n div 10) @ [of_nat (0x30 + n mod 10)])"

declare decimal.simps [simp del]

definition is_digit :: "u8 \<Rightarrow> bool" where
  "is_digit b \<longleftrightarrow> 0x30 \<le> b \<and> b \<le> 0x39"

definition digit_value :: "u8 \<Rightarrow> nat" where
  "digit_value b = unat b - 0x30"

definition digits_value :: "bytes \<Rightarrow> nat" where
  "digits_value bs = foldl (\<lambda>n b. 10 * n + digit_value b) 0 bs"

lemma decimal_digit: "n < 10 \<Longrightarrow> is_digit (of_nat (48 + n)) \<and> digit_value (of_nat (48 + n)) = n"
  by (simp add: is_digit_def digit_value_def word_le_nat_alt del: of_nat_add)

lemma decimal_digits: "decimal n \<noteq> [] \<and> list_all is_digit (decimal n) \<and> digits_value (decimal n) = n"
proof (induction n rule: decimal.induct)
  case (1 n)
  show ?case
  proof (cases "n < 10")
    case True
    with decimal_digit [OF True] show ?thesis by (simp add: decimal.simps [of n] digits_value_def del: of_nat_add)
  next
    case False
    have "n mod 10 < 10" by simp
    from decimal_digit [OF this] 1 [OF False] False show ?thesis
      by (simp add: decimal.simps [of n] digits_value_def del: of_nat_add)
  qed
qed

text \<open>The parser of \<open>str::parse\<close> for unsigned integers: an optional plus sign, then at least one digit.\<close>

definition parse_unsigned :: "nat \<Rightarrow> bytes \<Rightarrow> nat option" where
  "parse_unsigned maximum bs =
     (let digits = (if bs \<noteq> [] \<and> hd bs = 0x2b then tl bs else bs) in
      if digits = [] \<or> \<not> list_all is_digit digits \<or> digits_value digits > maximum then None
      else Some (digits_value digits))"

definition parse_u16 :: "bytes \<Rightarrow> u16 option" where
  "parse_u16 bs = map_option of_nat (parse_unsigned 0xFFFF bs)"

lemma parse_unsigned_decimal: "n \<le> maximum \<Longrightarrow> parse_unsigned maximum (decimal n) = Some n"
  using decimal_digits [of n] by (cases "decimal n") (auto simp: parse_unsigned_def is_digit_def)

lemma parse_u16_decimal: "parse_u16 (decimal (unat n)) = Some n"
  using unat_u16_less [of n] by (simp add: parse_u16_def parse_unsigned_decimal)

end
