(* ===== verification/Predict.thy ===== *)
theory Predict
  imports Text_Encoding
begin

section \<open>Prediction overlays (\<open>crates/ferrumtty-predict/src/lib.rs\<close>)\<close>

text \<open>
  \<open>PredictionOverlay\<close> echoes single-column edits locally before the server confirms them. The model has
  all its operations, with the metrics at their 64-bit width. A \<open>char\<close> is a Unicode scalar value.
\<close>

subsection \<open>Model: data\<close>

definition UNDERLINE_RENDITION :: bytes where "UNDERLINE_RENDITION = [0x1b, 0x5b, 0x34, 0x6d]"
definition NO_UNDERLINE_RENDITION :: bytes where "NO_UNDERLINE_RENDITION = [0x1b, 0x5b, 0x32, 0x34, 0x6d]"
definition INSERT_CHARACTER :: bytes where "INSERT_CHARACTER = [0x1b, 0x5b, 0x40]"
definition DELETE_CHARACTER :: bytes where "DELETE_CHARACTER = [0x1b, 0x5b, 0x50]"
definition CURSOR_LEFT :: bytes where "CURSOR_LEFT = [0x1b, 0x5b, 0x44]"
definition CURSOR_RIGHT :: bytes where "CURSOR_RIGHT = [0x1b, 0x5b, 0x43]"
definition ADAPTIVE_DISPLAY_MILLISECONDS :: u16 where "ADAPTIVE_DISPLAY_MILLISECONDS = 20"
definition MAXIMUM_PENDING_PREDICTIONS :: usize where "MAXIMUM_PENDING_PREDICTIONS = 1024"

datatype prediction_display = Adaptive | Always | Never

datatype input_kind = KeyInput | PasteInput | MouseInput | FocusInput

datatype prediction_action =
    PrintableAscii u8 | PrintableUtf8 rust_char | PredictBackspace | PredictLeft | PredictRight | PredictBarrier

text \<open>The \<open>Debug\<close> output hides the character.\<close>

fun prediction_action_debug :: "prediction_action \<Rightarrow> string" where
  "prediction_action_debug (PrintableAscii _) = ''PrintableAscii([REDACTED])''"
| "prediction_action_debug (PrintableUtf8 _) = ''PrintableUtf8([REDACTED])''"
| "prediction_action_debug PredictBackspace = ''Backspace''"
| "prediction_action_debug PredictLeft = ''Left''"
| "prediction_action_debug PredictRight = ''Right''"
| "prediction_action_debug PredictBarrier = ''Barrier''"

record prediction_metrics =
  pm_offered :: u64
  pm_displayed :: u64
  pm_latest_acknowledgement :: "u64 option"
  pm_reconciled :: u64

record prediction_entry =
  pe_frame_id :: u64
  pe_action :: prediction_action

record predicted_cell =
  pc_frame_id :: u64
  pc_acknowledged :: bool

record prediction_context =
  px_row :: u16
  px_column :: u16
  px_columns :: u16
  px_attributes :: bytes
  px_cursor_state :: bytes

datatype line_confidence_level = Tentative | LineAcknowledged

record prediction_line_status =
  pl_row :: u16
  pl_confidence :: line_confidence_level

datatype prediction_reconciliation = NoReconciliation | LocalReconciliation bytes | Redraw

record prediction_overlay =
  po_display :: prediction_display
  po_overwrite :: bool
  po_round_trip_milliseconds :: "u16 option"
  po_pending :: "prediction_entry list"
  po_predicted_ascii :: "predicted_cell list"
  po_cursor_offset :: usize
  po_highest_frame_id :: "u64 option"
  po_displayed_cells :: usize
  po_rollback_cells :: usize
  po_overlay_active :: bool
  po_reconciliation_required :: bool
  po_line_context :: "prediction_context option"
  po_metrics :: prediction_metrics

subsection \<open>Model: operations\<close>

definition single_printable_action :: "bytes \<Rightarrow> prediction_action option" where
  "single_printable_action bs =
     (case from_utf8 bs of
        None \<Rightarrow> None
      | Some [] \<Rightarrow> None
      | Some (character # others) \<Rightarrow>
          if others \<noteq> [] \<or> char_is_control character then None
          else if char_is_ascii character then Some (PrintableAscii (of_nat character))
          else Some (PrintableUtf8 character))"

definition prediction_overlay_new :: "prediction_display \<Rightarrow> bool \<Rightarrow> prediction_overlay" where
  "prediction_overlay_new display overwrite =
     \<lparr>po_display = display, po_overwrite = overwrite, po_round_trip_milliseconds = None, po_pending = [],
      po_predicted_ascii = [], po_cursor_offset = 0, po_highest_frame_id = None, po_displayed_cells = 0,
      po_rollback_cells = 0, po_overlay_active = False, po_reconciliation_required = False,
      po_line_context = None,
      po_metrics = \<lparr>pm_offered = 0, pm_displayed = 0, pm_latest_acknowledgement = None, pm_reconciled = 0\<rparr>\<rparr>"

definition set_round_trip_milliseconds :: "prediction_overlay \<Rightarrow> u16 option \<Rightarrow> prediction_overlay" where
  "set_round_trip_milliseconds po milliseconds = po\<lparr>po_round_trip_milliseconds := milliseconds\<rparr>"

definition invalidate_span :: "prediction_overlay \<Rightarrow> prediction_overlay" where
  "invalidate_span po =
     po\<lparr>po_pending := [], po_predicted_ascii := [], po_cursor_offset := 0,
        po_reconciliation_required := po_reconciliation_required po \<or> po_overlay_active po\<rparr>"

definition predict_printable ::
    "prediction_overlay \<Rightarrow> u64 \<Rightarrow> bytes \<Rightarrow> prediction_context option \<Rightarrow> bytes option \<times> prediction_overlay" where
  "predict_printable po frame_id bs context =
     (if po_cursor_offset po \<noteq> length (po_predicted_ascii po) then (None, po)
      else
        let (misplaced, po) =
          (case context of
             None \<Rightarrow> (False, po)
           | Some ctx \<Rightarrow>
               let anchor = (case po_line_context po of None \<Rightarrow> ctx | Some a \<Rightarrow> a) in
               (px_row anchor \<noteq> px_row ctx \<or> px_column anchor \<noteq> px_column ctx \<or> px_columns anchor \<noteq> px_columns ctx \<or>
                usize_saturating_add (unat (px_column anchor)) (po_cursor_offset po)
                  \<ge> unat (saturating_sub (px_columns anchor) 1),
                po\<lparr>po_line_context := Some anchor\<rparr>))
        in
        if misplaced then (None, invalidate_span po)
        else
          (Some ((if po_overwrite po then [] else INSERT_CHARACTER) @ UNDERLINE_RENDITION @ bs @
             (case context of None \<Rightarrow> NO_UNDERLINE_RENDITION | Some ctx \<Rightarrow> px_attributes ctx)),
           po\<lparr>po_predicted_ascii := po_predicted_ascii po @ [\<lparr>pc_frame_id = frame_id, pc_acknowledged = False\<rparr>],
              po_cursor_offset := usize_saturating_add (po_cursor_offset po) 1,
              po_displayed_cells := usize_saturating_add (po_displayed_cells po) 1,
              po_rollback_cells := usize_saturating_add (po_rollback_cells po) 1,
              po_overlay_active := True\<rparr>))"

definition predict_backspace :: "prediction_overlay \<Rightarrow> bytes option \<times> prediction_overlay" where
  "predict_backspace po =
     (if po_cursor_offset po = 0 \<or> po_cursor_offset po \<noteq> length (po_predicted_ascii po) then (None, po)
      else if po_predicted_ascii po \<noteq> [] \<and>
        (case pm_latest_acknowledgement (po_metrics po) of
           None \<Rightarrow> False
         | Some acknowledgement \<Rightarrow> pc_frame_id (last (po_predicted_ascii po)) \<le> acknowledgement)
      then (None, po)
      else if po_overwrite po then (None, invalidate_span po)
      else
        (Some (CURSOR_LEFT @ DELETE_CHARACTER),
         po\<lparr>po_predicted_ascii := butlast (po_predicted_ascii po), po_cursor_offset := po_cursor_offset po - 1,
            po_displayed_cells := po_displayed_cells po - 1, po_rollback_cells := po_rollback_cells po - 1,
            po_overlay_active := True\<rparr>))"

definition predict_left :: "prediction_overlay \<Rightarrow> bytes option \<times> prediction_overlay" where
  "predict_left po =
     (if po_cursor_offset po = 0 then (None, po)
      else (Some CURSOR_LEFT, po\<lparr>po_cursor_offset := po_cursor_offset po - 1, po_overlay_active := True\<rparr>))"

definition predict_right :: "prediction_overlay \<Rightarrow> bytes option \<times> prediction_overlay" where
  "predict_right po =
     (if po_cursor_offset po \<ge> length (po_predicted_ascii po) then (None, po)
      else (Some CURSOR_RIGHT, po\<lparr>po_cursor_offset := po_cursor_offset po + 1, po_overlay_active := True\<rparr>))"

definition display_enabled :: "prediction_overlay \<Rightarrow> bool" where
  "display_enabled po =
     (case po_display po of
        Adaptive \<Rightarrow>
          (case po_round_trip_milliseconds po of
             None \<Rightarrow> False
           | Some milliseconds \<Rightarrow> milliseconds \<ge> ADAPTIVE_DISPLAY_MILLISECONDS)
      | Always \<Rightarrow> True
      | Never \<Rightarrow> False)"

definition predict_action ::
    "prediction_overlay \<Rightarrow> u64 \<Rightarrow> prediction_action \<Rightarrow> prediction_context option \<Rightarrow> bytes option \<times> prediction_overlay" where
  "predict_action po frame_id action context =
     (case action of
        PrintableAscii byte \<Rightarrow>
          if is_ascii_graphic byte \<or> byte = 0x20 then predict_printable po frame_id [byte] context
          else (None, invalidate_span po)
      | PrintableUtf8 character \<Rightarrow>
          if \<not> char_is_control character then predict_printable po frame_id (encode_utf8 character) context
          else (None, invalidate_span po)
      | PredictBackspace \<Rightarrow> predict_backspace po
      | PredictLeft \<Rightarrow> predict_left po
      | PredictRight \<Rightarrow> predict_right po
      | PredictBarrier \<Rightarrow> (None, po))"

definition offer_for_frame_with_context ::
    "prediction_overlay \<Rightarrow> u64 \<Rightarrow> prediction_action \<Rightarrow> prediction_context option \<Rightarrow> bytes option \<times> prediction_overlay" where
  "offer_for_frame_with_context po frame_id action context =
     (let po = po\<lparr>po_metrics := (po_metrics po)\<lparr>pm_offered := saturating_add (pm_offered (po_metrics po)) 1\<rparr>\<rparr> in
      if (case po_highest_frame_id po of None \<Rightarrow> False | Some highest \<Rightarrow> frame_id < highest) then (None, po)
      else
        let po = po\<lparr>po_highest_frame_id := Some frame_id\<rparr> in
        if action = PredictBarrier then (None, invalidate_span po)
        else if \<not> display_enabled po then (None, po)
        else if po_reconciliation_required po then (None, po)
        else if length (po_pending po) \<ge> MAXIMUM_PENDING_PREDICTIONS \<or>
                length (po_predicted_ascii po) \<ge> MAXIMUM_PENDING_PREDICTIONS
        then (None, invalidate_span po)
        else
          (case predict_action po frame_id action context of
             (None, po) \<Rightarrow> (None, po)
           | (Some output, po) \<Rightarrow>
               (Some output,
                po\<lparr>po_pending := po_pending po @ [\<lparr>pe_frame_id = frame_id, pe_action = action\<rparr>],
                   po_metrics := (po_metrics po)\<lparr>pm_displayed := saturating_add (pm_displayed (po_metrics po)) 1\<rparr>\<rparr>)))"

definition offer_for_frame ::
    "prediction_overlay \<Rightarrow> u64 \<Rightarrow> prediction_action \<Rightarrow> bytes option \<times> prediction_overlay" where
  "offer_for_frame po frame_id action = offer_for_frame_with_context po frame_id action None"

definition offer :: "prediction_overlay \<Rightarrow> input_kind \<Rightarrow> bytes \<Rightarrow> bytes option \<times> prediction_overlay" where
  "offer po kind bs =
     (case (case po_highest_frame_id po of Some highest \<Rightarrow> checked_add highest 1 | None \<Rightarrow> Some 0) of
        None \<Rightarrow> (None, po)
      | Some frame_id \<Rightarrow>
          offer_for_frame po frame_id
            (if kind = KeyInput
             then (case single_printable_action bs of None \<Rightarrow> PredictBarrier | Some action \<Rightarrow> action)
             else PredictBarrier))"

definition local_reconciliation :: "prediction_overlay \<Rightarrow> bytes option" where
  "local_reconciliation po =
     map_option (\<lambda>context.
       (if po_rollback_cells po \<noteq> 0 then
          [0x1b, 0x5b] @ decimal (unat (saturating_add (px_row context) 1)) @ [0x3b] @
          decimal (unat (saturating_add (px_column context) 1)) @ [0x48] @
          [0x1b, 0x5b] @ decimal (po_rollback_cells po) @ [0x50]
        else []) @ px_cursor_state context) (po_line_context po)"

definition take_reconciliation :: "prediction_overlay \<Rightarrow> prediction_reconciliation \<times> prediction_overlay" where
  "take_reconciliation po =
     (if \<not> po_overlay_active po \<and> \<not> po_reconciliation_required po then (NoReconciliation, po)
      else
        (case (if po_overwrite po then None else local_reconciliation po) of
           None \<Rightarrow> Redraw | Some bs \<Rightarrow> LocalReconciliation bs,
         po\<lparr>po_displayed_cells := 0,
            po_metrics := (po_metrics po)\<lparr>pm_reconciled := saturating_add (pm_reconciled (po_metrics po))
              (if po_displayed_cells po < usize_limit then of_nat (po_displayed_cells po) else u64_MAX)\<rparr>,
            po_pending := [], po_predicted_ascii := [], po_cursor_offset := 0, po_overlay_active := False,
            po_reconciliation_required := False, po_rollback_cells := 0, po_line_context := None\<rparr>))"

definition reconcile :: "prediction_overlay \<Rightarrow> bool \<times> prediction_overlay" where
  "reconcile po = apfst (\<lambda>r. r \<noteq> NoReconciliation) (take_reconciliation po)"

definition acknowledge :: "prediction_overlay \<Rightarrow> u64 \<Rightarrow> prediction_overlay" where
  "acknowledge po acknowledgement =
     (case po_highest_frame_id po of
        None \<Rightarrow> po
      | Some highest_frame_id \<Rightarrow>
          if acknowledgement > highest_frame_id \<or>
             (case pm_latest_acknowledgement (po_metrics po) of
                None \<Rightarrow> False
              | Some current \<Rightarrow> acknowledgement \<le> current)
          then po
          else
            po\<lparr>po_metrics := (po_metrics po)\<lparr>pm_latest_acknowledgement := Some acknowledgement\<rparr>,
               po_pending := dropWhile (\<lambda>entry. pe_frame_id entry \<le> acknowledgement) (po_pending po),
               po_predicted_ascii := map (\<lambda>cell. if pc_frame_id cell \<le> acknowledgement
                 then cell\<lparr>pc_acknowledged := True\<rparr> else cell) (po_predicted_ascii po)\<rparr>)"

definition line_confidence :: "prediction_overlay \<Rightarrow> line_confidence_level option" where
  "line_confidence po =
     (if po_predicted_ascii po = [] then None
      else Some (if list_all pc_acknowledged (po_predicted_ascii po) then LineAcknowledged else Tentative))"

definition line_status :: "prediction_overlay \<Rightarrow> prediction_line_status option" where
  "line_status po =
     (case po_line_context po of
        None \<Rightarrow> None
      | Some context \<Rightarrow>
          map_option (\<lambda>confidence. \<lparr>pl_row = px_row context, pl_confidence = confidence\<rparr>) (line_confidence po))"

end
