(* ===== verification/Predict_Safety.thy ===== *)
theory Predict_Safety
  imports Predict
begin

section \<open>Prediction overlays: invariants and guarantees\<close>

text \<open>
  The overlay as a machine of its operations: bounded bookkeeping that counts exactly the cells on
  display, which the trace of outputs tells, and the anchor that a key in the last
  column leaves behind.
\<close>

subsection \<open>The machine\<close>

datatype overlay_event =
    OfferInput input_kind bytes
  | OfferAction u64 prediction_action "prediction_context option"
  | TakeReconciliation
  | Acknowledge u64
  | SetRoundTrip "u16 option"

text \<open>Every operation, with the bytes it displays as the output.\<close>

fun overlay_step :: "prediction_overlay \<Rightarrow> overlay_event \<Rightarrow> bytes option \<times> prediction_overlay" where
  "overlay_step po (OfferInput kind bs) = offer po kind bs"
| "overlay_step po (OfferAction frame_id action context) = offer_for_frame_with_context po frame_id action context"
| "overlay_step po TakeReconciliation = (None, snd (take_reconciliation po))"
| "overlay_step po (Acknowledge acknowledgement) = (None, acknowledge po acknowledgement)"
| "overlay_step po (SetRoundTrip milliseconds) = (None, set_round_trip_milliseconds po milliseconds)"

subsection \<open>The invariant\<close>

definition overlay_wf :: "prediction_overlay \<Rightarrow> bool" where
  "overlay_wf po \<longleftrightarrow>
     po_cursor_offset po \<le> length (po_predicted_ascii po) \<and>
     length (po_predicted_ascii po) \<le> MAXIMUM_PENDING_PREDICTIONS \<and>
     length (po_pending po) \<le> MAXIMUM_PENDING_PREDICTIONS \<and>
     po_rollback_cells po = po_displayed_cells po \<and> po_displayed_cells po \<le> MAXIMUM_PENDING_PREDICTIONS \<and>
     (if po_reconciliation_required po then po_overlay_active po \<and> po_predicted_ascii po = [] \<and> po_pending po = []
      else po_displayed_cells po = length (po_predicted_ascii po)) \<and>
     (\<not> po_overlay_active po \<longrightarrow> po_displayed_cells po = 0 \<and> po_pending po = [])"

lemma usize_saturating_add_small: "a + b < usize_limit \<Longrightarrow> usize_saturating_add a b = a + b"
  by (simp add: usize_saturating_add_def)

lemma invalidate_span_wf: "overlay_wf po \<Longrightarrow> overlay_wf (invalidate_span po)"
  by (auto simp: overlay_wf_def invalidate_span_def split: if_splits)

text \<open>The context a printable prediction works with, and the result when its place is right.\<close>

lemma predict_printable_cases:
  assumes "predict_printable po frame_id bs context = (out, po')"
  shows "out = None \<and> po' = po \<or>
    (\<exists>anchor. out = None \<and> po' = invalidate_span (po\<lparr>po_line_context := anchor\<rparr>)) \<or>
    (\<exists>anchor output. out = Some output \<and> po_cursor_offset po = length (po_predicted_ascii po) \<and>
       po' = po\<lparr>po_line_context := anchor,
          po_predicted_ascii := po_predicted_ascii po @ [\<lparr>pc_frame_id = frame_id, pc_acknowledged = False\<rparr>],
          po_cursor_offset := usize_saturating_add (po_cursor_offset po) 1,
          po_displayed_cells := usize_saturating_add (po_displayed_cells po) 1,
          po_rollback_cells := usize_saturating_add (po_rollback_cells po) 1, po_overlay_active := True\<rparr>)"
  using assms
  by (cases "context")
    (auto simp: predict_printable_def Let_def split: if_splits intro: exI [of _ "po_line_context po"])

definition offerable :: "prediction_overlay \<Rightarrow> bool" where
  "offerable po \<longleftrightarrow> overlay_wf po \<and> \<not> po_reconciliation_required po \<and>
     length (po_pending po) < MAXIMUM_PENDING_PREDICTIONS \<and> length (po_predicted_ascii po) < MAXIMUM_PENDING_PREDICTIONS"

text \<open>What one prediction keeps: the invariant, and room in the queue of pending entries.\<close>

definition predicts :: "prediction_overlay \<Rightarrow> bytes option \<Rightarrow> prediction_overlay \<Rightarrow> bool" where
  "predicts po out po' \<longleftrightarrow>
     overlay_wf po' \<and> length (po_pending po') < MAXIMUM_PENDING_PREDICTIONS \<and>
     po_display po' = po_display po \<and> po_overwrite po' = po_overwrite po \<and>
     po_round_trip_milliseconds po' = po_round_trip_milliseconds po \<and>
     (if out = None then po_overlay_active po' = po_overlay_active po
      else po_overlay_active po' \<and> \<not> po_reconciliation_required po')"

lemma predict_printable_predicts:
  assumes ok: "offerable po" and run: "predict_printable po frame_id bs context = (out, po')"
  shows "predicts po out po'"
proof -
  have wf: "overlay_wf po" using ok by (simp add: offerable_def)
  have inv: "overlay_wf (invalidate_span (po\<lparr>po_line_context := a\<rparr>))" for a
    by (rule invalidate_span_wf) (use wf in \<open>simp add: overlay_wf_def\<close>)
  from predict_printable_cases [OF run] show ?thesis
  proof (elim disjE exE conjE)
    assume "out = None" "po' = po"
    with ok show ?thesis by (simp add: predicts_def offerable_def)
  next
    fix a assume "out = None" "po' = invalidate_span (po\<lparr>po_line_context := a\<rparr>)"
    with inv [of a] show ?thesis
      by (simp add: predicts_def invalidate_span_def MAXIMUM_PENDING_PREDICTIONS_def)
  next
    fix a shown
    assume "out = Some shown" and po': "po' = po\<lparr>po_line_context := a,
          po_predicted_ascii := po_predicted_ascii po @ [\<lparr>pc_frame_id = frame_id, pc_acknowledged = False\<rparr>],
          po_cursor_offset := usize_saturating_add (po_cursor_offset po) 1,
          po_displayed_cells := usize_saturating_add (po_displayed_cells po) 1,
          po_rollback_cells := usize_saturating_add (po_rollback_cells po) 1, po_overlay_active := True\<rparr>"
      and "po_cursor_offset po = length (po_predicted_ascii po)"
    with ok show ?thesis
      by (auto simp: predicts_def offerable_def overlay_wf_def usize_saturating_add_def usize_limit_def
          MAXIMUM_PENDING_PREDICTIONS_def)
  qed
qed

lemma predict_edits_predict:
  assumes "offerable po"
  shows "predicts po (fst (predict_backspace po)) (snd (predict_backspace po))"
    "predicts po (fst (predict_left po)) (snd (predict_left po))"
    "predicts po (fst (predict_right po)) (snd (predict_right po))"
    "predicts po None (invalidate_span po)" "predicts po None po"
proof -
  have wf: "overlay_wf po" using assms by (simp add: offerable_def)
  show inv: "predicts po None (invalidate_span po)"
    using invalidate_span_wf [OF wf] by (simp add: predicts_def invalidate_span_def MAXIMUM_PENDING_PREDICTIONS_def)
  show "predicts po None po" using assms by (simp add: predicts_def offerable_def)
  show "predicts po (fst (predict_left po)) (snd (predict_left po))"
    using assms by (auto simp: predict_left_def predicts_def offerable_def overlay_wf_def)
  show "predicts po (fst (predict_right po)) (snd (predict_right po))"
    using assms by (auto simp: predict_right_def predicts_def offerable_def overlay_wf_def)
  show "predicts po (fst (predict_backspace po)) (snd (predict_backspace po))"
    using assms inv by (auto simp: predict_backspace_def predicts_def offerable_def overlay_wf_def)
qed

lemma predict_action_predicts:
  assumes "offerable po" "predict_action po frame_id action context = (out, po')"
  shows "predicts po out po'"
  using assms predict_edits_predict [OF assms(1)] predict_printable_predicts [OF assms(1)]
  by (auto simp: predict_action_def split: prediction_action.splits if_splits)

text \<open>An offer displays nothing, or displays under the display policy.\<close>

lemma offer_cases:
  assumes wf: "overlay_wf po" and run: "offer_for_frame_with_context po frame_id action context = (out, po')"
  shows "overlay_wf po' \<and> po_display po' = po_display po \<and> po_overwrite po' = po_overwrite po \<and>
    po_round_trip_milliseconds po' = po_round_trip_milliseconds po \<and>
    (if out = None then po_overlay_active po' = po_overlay_active po
     else po_overlay_active po' \<and> \<not> po_reconciliation_required po' \<and> display_enabled po)"
proof -
  let ?p1 = "po\<lparr>po_metrics := (po_metrics po)\<lparr>pm_offered := saturating_add (pm_offered (po_metrics po)) 1\<rparr>\<rparr>"
  let ?p2 = "?p1\<lparr>po_highest_frame_id := Some frame_id\<rparr>"
  have wf2: "overlay_wf ?p1" "overlay_wf ?p2" using wf by (simp_all add: overlay_wf_def)
  have en: "display_enabled ?p2 = display_enabled po" by (simp add: display_enabled_def split: prediction_display.split)
  note inv = invalidate_span_wf [OF wf2(2)]
  show ?thesis
  proof (cases "action \<noteq> PredictBarrier \<and> display_enabled po \<and> offerable ?p2 \<and>
      \<not> (case po_highest_frame_id po of None \<Rightarrow> False | Some highest \<Rightarrow> frame_id < highest)")
    case False
    with run wf2 inv en have "out = None" "po' = ?p1 \<or> po' = ?p2 \<or> po' = invalidate_span ?p2"
      by (auto simp: offer_for_frame_with_context_def Let_def offerable_def not_le split: if_splits)
    with wf2 inv show ?thesis by (auto simp: invalidate_span_def)
  next
    case True
    obtain out1 p3 where p3: "predict_action ?p2 frame_id action context = (out1, p3)" by fastforce
    have "predicts ?p2 out1 p3" using predict_action_predicts [OF _ p3] True by blast
    moreover have "out = out1" "po' = p3 \<and> out1 = None \<or> out1 \<noteq> None \<and> po' = p3\<lparr>po_pending := po_pending p3 @ [\<lparr>pe_frame_id = frame_id, pe_action = action\<rparr>],
        po_metrics := (po_metrics p3)\<lparr>pm_displayed := saturating_add (pm_displayed (po_metrics p3)) 1\<rparr>\<rparr>"
      using run True p3 en
      by (auto simp: offer_for_frame_with_context_def Let_def offerable_def not_le split: option.splits)
    ultimately show ?thesis
      using True by (auto simp: predicts_def overlay_wf_def)
  qed
qed

lemma offer_wf:
  assumes "overlay_wf po" "offer po kind bs = (out, po')"
  shows "overlay_wf po' \<and> po_display po' = po_display po \<and> po_overwrite po' = po_overwrite po \<and>
    (if out = None then po_overlay_active po' = po_overlay_active po
     else po_overlay_active po' \<and> \<not> po_reconciliation_required po' \<and> display_enabled po)"
  using assms offer_cases [OF assms(1)]
  by (auto simp: offer_def offer_for_frame_def split: option.splits)

lemma take_reconciliation_wf:
  assumes "overlay_wf po"
  shows "overlay_wf (snd (take_reconciliation po)) \<and> \<not> po_overlay_active (snd (take_reconciliation po)) \<and>
    (fst (take_reconciliation po) = NoReconciliation \<longleftrightarrow> \<not> po_overlay_active po)"
  using assms by (auto simp: take_reconciliation_def overlay_wf_def split: option.splits)

lemma acknowledge_wf: "overlay_wf po \<Longrightarrow> overlay_wf (acknowledge po n)"
  using length_dropWhile_le [of "\<lambda>entry. pe_frame_id entry \<le> n" "po_pending po"]
  by (auto simp: acknowledge_def overlay_wf_def split: option.splits)

text \<open>One step: what it keeps, and that \<open>po_overlay_active\<close> says whether something is on display.\<close>

lemma overlay_step_cases:
  assumes wf: "overlay_wf po" and step: "overlay_step po ev = (out, po')"
  shows "overlay_wf po' \<and> po_display po' = po_display po \<and> po_overwrite po' = po_overwrite po \<and>
    (out \<noteq> None \<longrightarrow> display_enabled po) \<and>
    (po_overlay_active po' \<longleftrightarrow> out \<noteq> None \<or> po_overlay_active po \<and> ev \<noteq> TakeReconciliation)"
proof (cases ev)
  case (OfferInput kind bs)
  with step offer_wf [OF wf, of kind bs] show ?thesis by (auto split: if_splits)
next
  case (OfferAction frame_id action ctx)
  with step offer_cases [OF wf, of frame_id action ctx] show ?thesis by (auto split: if_splits)
next
  case TakeReconciliation
  with step take_reconciliation_wf [OF wf] show ?thesis by (auto simp: take_reconciliation_def split: if_splits)
next
  case (Acknowledge n)
  with step acknowledge_wf [OF wf, of n] show ?thesis by (auto simp: acknowledge_def split: option.splits if_splits)
next
  case (SetRoundTrip ms)
  with step wf show ?thesis by (auto simp: set_round_trip_milliseconds_def overlay_wf_def)
qed

interpretation overlay: invariant_machine overlay_step overlay_wf
  by unfold_locales (metis overlay_step_cases prod.collapse)

lemma prediction_overlay_new_wf [simp, wf_intros]: "overlay_wf (prediction_overlay_new display overwrite)"
  by (simp add: overlay_wf_def prediction_overlay_new_def MAXIMUM_PENDING_PREDICTIONS_def)

lemma prediction_overlay_new_fields [simp]:
  "po_display (prediction_overlay_new display overwrite) = display"
  "po_overwrite (prediction_overlay_new display overwrite) = overwrite"
  "\<not> po_overlay_active (prediction_overlay_new display overwrite)"
  by (simp_all add: prediction_overlay_new_def)

text \<open>Whether anything is on display, read off the trace: an output since the last reconciliation.\<close>

fun on_display :: "bool \<Rightarrow> overlay_event list \<Rightarrow> bytes option list \<Rightarrow> bool" where
  "on_display shown (ev # evs) (out # outs) = on_display (out \<noteq> None \<or> shown \<and> ev \<noteq> TakeReconciliation) evs outs"
| "on_display shown _ _ = shown"

lemma active_iff_on_display:
  assumes "overlay_wf po"
  shows "po_overlay_active (snd (run overlay_step po evs)) \<longleftrightarrow>
    on_display (po_overlay_active po) evs (fst (run overlay_step po evs))"
  using assms
proof (induction evs arbitrary: po)
  case (Cons ev evs)
  obtain out po' where step: "overlay_step po ev = (out, po')" by fastforce
  note c = overlay_step_cases [OF Cons.prems step]
  with Cons.IH [of po'] show ?case by (simp add: run_Cons step del: run.simps(2))
qed simp

lemma display_policy:
  assumes "overlay_wf po" "po_display po = Never"
  shows "list_all (\<lambda>out. out = None) (fst (run overlay_step po evs))"
  using assms
proof (induction evs arbitrary: po)
  case (Cons ev evs)
  obtain out po' where step: "overlay_step po ev = (out, po')" by fastforce
  from overlay_step_cases [OF Cons.prems(1) step] Cons.prems(2) have "overlay_wf po'" "po_display po' = Never" "out = None"
    by (auto simp: display_enabled_def)
  with Cons.IH [of po'] show ?case by (simp add: run_Cons step del: run.simps(2))
qed simp

text \<open>
  C31. The overlay's bookkeeping is bounded and exact. From a new overlay, over any operations: the cursor
  stays within the predicted span, span and pending queue hold at most 1024 entries, the cells to roll
  back are exactly the cells counted as displayed, and these are the predicted ones until a
  reconciliation becomes due. Under the policy \<open>Never\<close> nothing is ever displayed.
\<close>

theorem overlay_bounded:
  assumes "po = snd (run overlay_step (prediction_overlay_new display overwrite) events)"
  shows "po_cursor_offset po \<le> length (po_predicted_ascii po) \<and> length (po_predicted_ascii po) \<le> 1024 \<and>
    length (po_pending po) \<le> 1024 \<and> po_rollback_cells po = po_displayed_cells po \<and>
    (\<not> po_reconciliation_required po \<longrightarrow> po_displayed_cells po = length (po_predicted_ascii po)) \<and>
    (display = Never \<longrightarrow> list_all (\<lambda>out. out = None)
       (fst (run overlay_step (prediction_overlay_new display overwrite) events)))"
proof -
  have "overlay_wf po" unfolding assms by (rule overlay.run_inv) simp
  moreover have "display = Never \<Longrightarrow> list_all (\<lambda>out. out = None)
      (fst (run overlay_step (prediction_overlay_new display overwrite) events))"
    by (rule display_policy) simp_all
  ultimately show ?thesis
    by (auto simp: overlay_wf_def MAXIMUM_PENDING_PREDICTIONS_def)
qed

lemma overlay_run_keeps:
  assumes "overlay_wf po"
  shows "overlay_wf (snd (run overlay_step po evs)) \<and> po_overwrite (snd (run overlay_step po evs)) = po_overwrite po"
proof (induction evs rule: rev_induct)
  case Nil
  show ?case using assms by simp
next
  case (snoc ev evs)
  obtain out po' where "overlay_step (snd (run overlay_step po evs)) ev = (out, po')" by fastforce
  with snoc overlay_step_cases [OF _ this] show ?case by (simp add: run_append_snd run_Cons del: run.simps(2))
qed

subsection \<open>The anchor left behind in the last column\<close>

text \<open>The operations as the client uses them: every offer but a barrier carries the cursor's context.\<close>

fun client_event :: "overlay_event \<Rightarrow> bool" where
  "client_event (OfferInput _ _) = False"
| "client_event (OfferAction _ action context) = (action = PredictBarrier \<or> context \<noteq> None)"
| "client_event _ = True"

definition at_right_edge :: "prediction_context \<Rightarrow> bool" where
  "at_right_edge context \<longleftrightarrow> unat (saturating_sub (px_columns context) 1) \<le> unat (px_column context)"

definition stuck :: "prediction_overlay \<Rightarrow> bool" where
  "stuck po \<longleftrightarrow> \<not> po_overlay_active po \<and> \<not> po_reconciliation_required po \<and> po_predicted_ascii po = [] \<and>
     po_cursor_offset po = 0 \<and> (\<exists>anchor. po_line_context po = Some anchor \<and> at_right_edge anchor)"

lemma unat_u16_usize: "unat (w :: u16) < usize_limit - 1"
  using unat_u16_less [of w] by (simp add: usize_limit_def)

lemma invalidate_span_stuck: "stuck po \<Longrightarrow> stuck (invalidate_span po)"
  by (simp add: stuck_def invalidate_span_def)

lemma predict_printable_stuck:
  assumes "stuck po"
  shows "fst (predict_printable po frame_id bs (Some ctx)) = None \<and> stuck (snd (predict_printable po frame_id bs (Some ctx)))"
proof -
  from assms obtain anchor where a: "po_line_context po = Some anchor" "at_right_edge anchor"
    and po: "po_cursor_offset po = 0" "po_predicted_ascii po = []" by (auto simp: stuck_def)
  have st: "stuck (invalidate_span (po\<lparr>po_line_context := Some anchor\<rparr>))"
    by (rule invalidate_span_stuck) (use assms a in \<open>simp add: stuck_def\<close>)
  have "usize_saturating_add (unat (px_column anchor)) 0 \<ge> unat (saturating_sub (px_columns anchor) 1)"
    using a(2) unat_u16_usize [of "px_column anchor"] by (simp add: at_right_edge_def usize_saturating_add_def)
  then show ?thesis using a po st by (auto simp: predict_printable_def Let_def)
qed

lemma predict_action_stuck:
  assumes "stuck po" "action \<noteq> PredictBarrier"
  shows "fst (predict_action po frame_id action (Some ctx)) = None \<and> stuck (snd (predict_action po frame_id action (Some ctx)))"
  using assms predict_printable_stuck [OF assms(1)] invalidate_span_stuck [OF assms(1)]
  by (cases action) (auto simp: predict_action_def predict_backspace_def predict_left_def predict_right_def stuck_def)

lemma overlay_step_stuck:
  assumes po: "stuck po" and ev: "client_event ev" and step: "overlay_step po ev = (out, po')"
  shows "out = None \<and> stuck po'"
proof (cases ev)
  case (OfferAction frame_id action ctx)
  let ?p1 = "po\<lparr>po_metrics := (po_metrics po)\<lparr>pm_offered := saturating_add (pm_offered (po_metrics po)) 1\<rparr>\<rparr>"
  let ?p2 = "?p1\<lparr>po_highest_frame_id := Some frame_id\<rparr>"
  have st: "stuck ?p1" "stuck ?p2" using po by (simp_all add: stuck_def)
  note inv = invalidate_span_stuck [OF st(2)]
  show ?thesis
  proof (cases "action = PredictBarrier")
    case True
    with step OfferAction st inv show ?thesis
      by (auto simp: offer_for_frame_with_context_def Let_def split: if_splits)
  next
    case False
    with ev OfferAction obtain cx where cx: "ctx = Some cx" by auto
    obtain out1 p3 where p3: "predict_action ?p2 frame_id action (Some cx) = (out1, p3)" by fastforce
    with predict_action_stuck [OF st(2) False, of frame_id cx] have "out1 = None" "stuck p3" by simp_all
    with step OfferAction cx st inv p3 False show ?thesis
      by (auto simp: offer_for_frame_with_context_def Let_def split: if_splits)
  qed
qed (use assms in \<open>auto simp: take_reconciliation_def stuck_def acknowledge_def set_round_trip_milliseconds_def
      split: option.splits if_splits\<close>)

lemma overlay_run_stuck:
  "stuck po \<Longrightarrow> list_all client_event evs \<Longrightarrow> list_all (\<lambda>out. out = None) (fst (run overlay_step po evs))"
proof (induction evs arbitrary: po)
  case (Cons ev evs)
  obtain out po' where step: "overlay_step po ev = (out, po')" by fastforce
  with Cons overlay_step_stuck [OF Cons.prems(1) _ step] show ?case
    by (simp add: run_Cons step del: run.simps(2))
qed simp

text \<open>
  A key typed in the last column turns prediction off for good. When an enabled overlay with nothing on
  display is offered a printable character while the cursor is in the last column, the rejected offer still
  stores the anchor, and no later operation of the client clears it: reconciliations return early because
  nothing is on display, and every later offer is compared with the stale anchor and rejected. Nothing is
  ever displayed again.
\<close>

theorem last_column_disables_prediction:
  assumes "\<not> po_overlay_active po" "\<not> po_reconciliation_required po" "po_predicted_ascii po = []"
    and "po_cursor_offset po = 0" "po_line_context po = None" "po_pending po = []"
    and "display_enabled po" "po_highest_frame_id po = None \<or> po_highest_frame_id po = Some highest \<and> highest \<le> frame_id"
    and "is_ascii_graphic byte" "unat (px_columns context) \<le> unat (px_column context) + 1"
    and "offer_for_frame_with_context po frame_id (PrintableAscii byte) (Some context) = (out, po')"
    and "list_all client_event events"
  shows "out = None \<and> list_all (\<lambda>out. out = None) (fst (run overlay_step po' events))"
proof -
  let ?p1 = "po\<lparr>po_metrics := (po_metrics po)\<lparr>pm_offered := saturating_add (pm_offered (po_metrics po)) 1\<rparr>\<rparr>"
  let ?p2 = "?p1\<lparr>po_highest_frame_id := Some frame_id\<rparr>"
  let ?p3 = "?p2\<lparr>po_line_context := Some context\<rparr>"
  have en: "display_enabled ?p2" using assms(7) by (simp add: display_enabled_def split: prediction_display.splits)
  have edge: "at_right_edge context" using assms(10) by (simp add: at_right_edge_def unat_saturating_sub)
  have st3: "stuck ?p3" using assms(1-5) edge by (simp add: stuck_def)
  have "usize_saturating_add (unat (px_column context)) 0 \<ge> unat (saturating_sub (px_columns context) 1)"
    using edge unat_u16_usize [of "px_column context"] by (simp add: at_right_edge_def usize_saturating_add_def)
  then have "predict_action ?p2 frame_id (PrintableAscii byte) (Some context) = (None, invalidate_span ?p3)"
    using assms(3-5,9) by (simp add: predict_action_def predict_printable_def)
  moreover have "\<not> (case po_highest_frame_id ?p1 of None \<Rightarrow> False | Some highest \<Rightarrow> frame_id < highest)"
    using assms(8) by auto
  ultimately have "(out, po') = (None, invalidate_span ?p3)"
    using assms(2,3,6) en unfolding assms(11) [symmetric] offer_for_frame_with_context_def Let_def
    by (simp add: MAXIMUM_PENDING_PREDICTIONS_def)
  then show ?thesis
    using overlay_run_stuck [OF invalidate_span_stuck [OF st3] assms(12)] by simp
qed

subsection \<open>Instances\<close>

definition example_cursor :: "u16 \<Rightarrow> prediction_context" where
  "example_cursor column = \<lparr>px_row = 0, px_column = column, px_columns = 80, px_attributes = [], px_cursor_state = []\<rparr>"

theorem overlay_bounded_witness:
  "length (po_predicted_ascii (snd (run overlay_step (prediction_overlay_new Always False)
     [OfferAction 1 (PrintableAscii 0x61) (Some (example_cursor 0))]))) \<le> 1024"
  using overlay_bounded [OF refl] by blast

theorem last_column_disables_prediction_witness:
  "fst (run overlay_step (snd (offer_for_frame_with_context (prediction_overlay_new Always False) 1 (PrintableAscii 0x61)
     (Some (example_cursor 79)))) [TakeReconciliation, OfferAction 2 (PrintableAscii 0x62) (Some (example_cursor 0))]) =
   [None, None]"
proof -
  let ?po = "prediction_overlay_new Always False"
  let ?evs = "[TakeReconciliation, OfferAction 2 (PrintableAscii 0x62) (Some (example_cursor 0))]"
  obtain out po' where run: "offer_for_frame_with_context ?po 1 (PrintableAscii 0x61) (Some (example_cursor 79)) = (out, po')"
    by fastforce
  have "list_all (\<lambda>out. out = None) (fst (run overlay_step po' ?evs))"
    using last_column_disables_prediction [OF _ _ _ _ _ _ _ _ _ _ run, of 0 ?evs]
    by (simp add: prediction_overlay_new_def display_enabled_def is_ascii_graphic_def example_cursor_def)
  then show ?thesis by (simp add: run list_all_iff split: prod.splits)
qed

end
