(* ===== verification/Predict_Line.thy ===== *)
theory Predict_Line
  imports Predict_Safety
begin

section \<open>Prediction overlays: what is shown is undone\<close>

text \<open>
  What the bytes of the overlay do to a screen, by a reference reading of the editing commands of ECMA-48 on a grid of
  cells: predictions and their reconciliation together leave the grid as it was. The reading has one cell per
  character, as the overlay has; a character that takes two columns is outside it.
\<close>

subsection \<open>A grid of cells and its editing commands\<close>

datatype line_edit =
    InsertCell | DrawCell bytes bytes \<comment> \<open>glyph, rendition restored after it\<close> | StepLeft | StepRight | DeleteCell
  | DeleteCells nat | MoveTo nat nat \<comment> \<open>row and column, from one\<close>

fun edit_bytes :: "line_edit \<Rightarrow> bytes" where
  "edit_bytes InsertCell = [0x1b, 0x5b, 0x40]"
| "edit_bytes (DrawCell glyph rendition) = [0x1b, 0x5b, 0x34, 0x6d] @ glyph @ rendition"
| "edit_bytes StepLeft = [0x1b, 0x5b, 0x44]"
| "edit_bytes StepRight = [0x1b, 0x5b, 0x43]"
| "edit_bytes DeleteCell = [0x1b, 0x5b, 0x50]"
| "edit_bytes (DeleteCells n) = [0x1b, 0x5b] @ decimal n @ [0x50]"
| "edit_bytes (MoveTo row column) = [0x1b, 0x5b] @ decimal row @ [0x3b] @ decimal column @ [0x48]"

abbreviation edits_bytes :: "line_edit list \<Rightarrow> bytes" where
  "edits_bytes edits \<equiv> concat (map edit_bytes edits)"

definition blank :: bytes where
  "blank = [0x20]"

text \<open>The grid, and the row and column of the cursor.\<close>

type_synonym grid = "(nat \<Rightarrow> bytes list) \<times> nat \<times> nat"

definition delete_cells :: "nat \<Rightarrow> nat \<Rightarrow> bytes list \<Rightarrow> bytes list" where
  "delete_cells column n cells = take column cells @ drop (column + n) cells @ replicate n blank"

fun edit_grid :: "grid \<Rightarrow> line_edit \<Rightarrow> grid" where
  "edit_grid (cells, row, column) InsertCell =
     (cells(row := take column (cells row) @ blank # butlast (drop column (cells row))), row, column)"
| "edit_grid (cells, row, column) (DrawCell glyph _) = (cells(row := (cells row)[column := glyph]), row, Suc column)"
| "edit_grid (cells, row, column) StepLeft = (cells, row, column - 1)"
| "edit_grid (cells, row, column) StepRight = (cells, row, Suc column)"
| "edit_grid (cells, row, column) DeleteCell = (cells(row := delete_cells column 1 (cells row)), row, column)"
| "edit_grid (cells, row, column) (DeleteCells n) = (cells(row := delete_cells column n (cells row)), row, column)"
| "edit_grid (cells, row, column) (MoveTo r c) = (cells, r - 1, c - 1)"

text \<open>A line with cells inserted at a column; what shifts past the end is lost.\<close>

definition with_inserted :: "bytes list \<Rightarrow> nat \<Rightarrow> bytes list \<Rightarrow> bytes list" where
  "with_inserted line column inserted =
     take column line @ inserted @ take (length line - column - length inserted) (drop column line)"

lemma with_inserted_Nil [simp]: "with_inserted line column [] = line"
  by (simp add: with_inserted_def)

lemma with_inserted_append:
  assumes "column + length inserted < length line"
  shows "(take (column + length inserted) (with_inserted line column inserted) @
      blank # butlast (drop (column + length inserted) (with_inserted line column inserted)))
        [column + length inserted := glyph] = with_inserted line column (inserted @ [glyph])"
proof -
  let ?rest = "take (length line - column - length inserted) (drop column line)"
  have "butlast ?rest = take (length line - column - Suc (length inserted)) (drop column line)"
    by (subst butlast_take) (use assms in auto)
  with assms show ?thesis by (simp add: with_inserted_def list_update_append)
qed

lemma blank_end:
  assumes "\<forall>i < length line. length line \<le> i + n \<longrightarrow> line ! i = blank" "n \<le> length line"
  shows "take (length line - n) line @ replicate n blank = line"
  using assms by (intro nth_equalityI) (auto simp: nth_append)

lemma with_inserted_butlast:
  assumes "inserted \<noteq> []" "column + length inserted < length line"
    and "\<forall>i < length line. length line \<le> i + length inserted \<longrightarrow> line ! i = blank"
  shows "delete_cells (column + length inserted - 1) 1 (with_inserted line column inserted) =
    with_inserted line column (butlast inserted)"
proof -
  obtain front glyph where ins: "inserted = front @ [glyph]" using assms(1) by (cases inserted rule: rev_cases) auto
  let ?k = "length line - column - Suc (length front)"
  have fits: "column + Suc (length front) < length line" using assms(2) by (simp add: ins)
  have "line ! (column + ?k) = blank" using assms(3) fits by (simp add: ins)
  then have "take (Suc ?k) (drop column line) = take ?k (drop column line) @ [blank]"
    using fits by (subst take_Suc_conv_app_nth) simp_all
  moreover have "Suc ?k = length line - column - length front" using fits by simp
  ultimately show ?thesis
    using fits by (simp add: ins delete_cells_def with_inserted_def)
qed

lemma with_inserted_undone:
  assumes "column + length inserted < length line"
    and "\<forall>i < length line. length line \<le> i + length inserted \<longrightarrow> line ! i = blank"
  shows "delete_cells column (length inserted) (with_inserted line column inserted) = line"
proof -
  let ?n = "length inserted"
  have "take column line @ take (length line - column - ?n) (drop column line) = take (length line - ?n) line"
    using assms(1) take_add [of column "length line - column - ?n" line] by simp
  then show ?thesis
    using assms(1) blank_end [OF assms(2)] by (simp add: delete_cells_def with_inserted_def flip: append_assoc)
qed

subsection \<open>The edits of a prediction and of its undoing\<close>

text \<open>What an event is to show when the cursor's context is \<open>ctx\<close>, and what is to undo \<open>n\<close> inserted cells.\<close>

fun event_edits :: "prediction_context \<Rightarrow> overlay_event \<Rightarrow> line_edit list" where
  "event_edits ctx (OfferAction _ (PrintableAscii byte) _) = [InsertCell, DrawCell [byte] (px_attributes ctx)]"
| "event_edits ctx (OfferAction _ (PrintableUtf8 character) _) =
     [InsertCell, DrawCell (encode_utf8 character) (px_attributes ctx)]"
| "event_edits ctx (OfferAction _ PredictBackspace _) = [StepLeft, DeleteCell]"
| "event_edits ctx (OfferAction _ PredictLeft _) = [StepLeft]"
| "event_edits ctx (OfferAction _ PredictRight _) = [StepRight]"
| "event_edits ctx _ = []"

definition undo_edits :: "prediction_context \<Rightarrow> nat \<Rightarrow> line_edit list" where
  "undo_edits ctx n =
     (if n = 0 then [] else [MoveTo (Suc (unat (px_row ctx))) (Suc (unat (px_column ctx))), DeleteCells n])"

definition displays_event :: "prediction_context \<Rightarrow> overlay_event \<Rightarrow> bytes option \<Rightarrow> bool" where
  "displays_event ctx ev out \<longleftrightarrow> out = None \<or> out = Some (edits_bytes (event_edits ctx ev))"

definition shown_edits :: "prediction_context \<Rightarrow> overlay_event list \<Rightarrow> bytes option list \<Rightarrow> line_edit list" where
  "shown_edits ctx events outs = concat (map2 (\<lambda>ev out. if out = None then [] else event_edits ctx ev) events outs)"

text \<open>The events between two reconciliations: every offer but a barrier carries the context of the same cursor.\<close>

fun offered_at :: "prediction_context \<Rightarrow> overlay_event \<Rightarrow> bool" where
  "offered_at ctx (OfferAction _ action context) \<longleftrightarrow> action = PredictBarrier \<or> context = Some ctx"
| "offered_at ctx (Acknowledge _) \<longleftrightarrow> True"
| "offered_at ctx (SetRoundTrip _) \<longleftrightarrow> True"
| "offered_at ctx _ \<longleftrightarrow> False"

definition same_place :: "prediction_context \<Rightarrow> prediction_context \<Rightarrow> bool" where
  "same_place a ctx \<longleftrightarrow> px_row a = px_row ctx \<and> px_column a = px_column ctx \<and> px_columns a = px_columns ctx"

abbreviation anchor_of :: "prediction_context \<Rightarrow> prediction_overlay \<Rightarrow> prediction_context" where
  "anchor_of ctx po \<equiv> (case po_line_context po of None \<Rightarrow> ctx | Some a \<Rightarrow> a)"

subsection \<open>One step of the overlay\<close>

text \<open>What a step does to the count of cells, the cursor's offset and the anchor, by the edits it shows.\<close>

definition silent :: "prediction_context \<Rightarrow> prediction_overlay \<Rightarrow> prediction_overlay \<Rightarrow> bool" where
  "silent ctx po po' \<longleftrightarrow> po_rollback_cells po' = po_rollback_cells po \<and>
     po_line_context po' \<in> {po_line_context po, Some (anchor_of ctx po)} \<and>
     (\<not> po_reconciliation_required po' \<longrightarrow>
        \<not> po_reconciliation_required po \<and> po_cursor_offset po' = po_cursor_offset po)"

definition drawn :: "prediction_context \<Rightarrow> prediction_overlay \<Rightarrow> prediction_overlay \<Rightarrow> bool" where
  "drawn ctx po po' \<longleftrightarrow> po_cursor_offset po = po_rollback_cells po \<and>
     po_rollback_cells po' = Suc (po_rollback_cells po) \<and> po_cursor_offset po' = Suc (po_cursor_offset po) \<and>
     po_line_context po' = Some (anchor_of ctx po) \<and> same_place (anchor_of ctx po) ctx \<and>
     unat (px_column ctx) + Suc (po_rollback_cells po) < unat (px_columns ctx)"

definition erased :: "prediction_overlay \<Rightarrow> prediction_overlay \<Rightarrow> bool" where
  "erased po po' \<longleftrightarrow> 0 < po_rollback_cells po \<and> po_cursor_offset po = po_rollback_cells po \<and>
     po_rollback_cells po' = po_rollback_cells po - 1 \<and> po_cursor_offset po' = po_cursor_offset po - 1 \<and>
     po_line_context po' = po_line_context po"

definition stepped :: "nat \<Rightarrow> nat \<Rightarrow> prediction_overlay \<Rightarrow> prediction_overlay \<Rightarrow> bool" where
  "stepped down up po po' \<longleftrightarrow> 0 < po_rollback_cells po \<and> down \<le> po_cursor_offset po \<and>
     po_rollback_cells po' = po_rollback_cells po \<and> po_cursor_offset po' + down = po_cursor_offset po + up \<and>
     po_line_context po' = po_line_context po"

definition step_shown :: "prediction_context \<Rightarrow> line_edit list \<Rightarrow> prediction_overlay \<Rightarrow> prediction_overlay \<Rightarrow> bool" where
  "step_shown ctx edits po po' \<longleftrightarrow> \<not> po_reconciliation_required po \<and>
     ((\<exists>glyph. edits = [InsertCell, DrawCell glyph (px_attributes ctx)]) \<and> drawn ctx po po' \<or>
      edits = [StepLeft, DeleteCell] \<and> erased po po' \<or>
      edits = [StepLeft] \<and> stepped 1 0 po po' \<or> edits = [StepRight] \<and> stepped 0 1 po po')"

definition explains ::
    "prediction_context \<Rightarrow> line_edit list \<Rightarrow> prediction_overlay \<Rightarrow> bytes option \<Rightarrow> prediction_overlay \<Rightarrow> bool" where
  "explains ctx edits po out po' \<longleftrightarrow>
     (case out of None \<Rightarrow> silent ctx po po' | Some bs \<Rightarrow> bs = edits_bytes edits \<and> step_shown ctx edits po po')"

lemma silent_refl: "silent ctx po po"
  by (simp add: silent_def)

lemma silent_invalidate:
  assumes "overlay_wf po" "a \<in> {po_line_context po, Some (anchor_of ctx po)}"
  shows "silent ctx po (invalidate_span (po\<lparr>po_line_context := a\<rparr>))"
  using assms by (auto simp: silent_def invalidate_span_def overlay_wf_def)

lemma predict_printable_explained:
  assumes ok: "offerable po" "\<not> po_overwrite po"
    and run: "predict_printable po frame_id glyph (Some ctx) = (out, po')"
  shows "explains ctx [InsertCell, DrawCell glyph (px_attributes ctx)] po out po'"
proof -
  let ?a = "anchor_of ctx po"
  have wf: "overlay_wf po" using ok(1) by (simp add: offerable_def)
  have n: "po_cursor_offset po \<le> 1024" "po_rollback_cells po \<le> 1024"
    "po_rollback_cells po = length (po_predicted_ascii po)" "\<not> po_reconciliation_required po"
    using ok(1) by (auto simp: offerable_def overlay_wf_def MAXIMUM_PENDING_PREDICTIONS_def)
  have sat: "usize_saturating_add (unat (px_column ?a)) (po_cursor_offset po) = unat (px_column ?a) + po_cursor_offset po"
    using unat_u16_less [of "px_column ?a"] n(1) by (intro usize_saturating_add_small) (simp add: usize_limit_def)
  have one: "usize_saturating_add k 1 = Suc k" if "k \<le> 1024" for k
    using that by (simp add: usize_saturating_add_def usize_limit_def)
  show ?thesis
  proof (cases out)
    case None
    with run silent_refl silent_invalidate [OF wf, of "Some ?a" ctx] show ?thesis
      by (auto simp: predict_printable_def Let_def explains_def split: if_splits)
  next
    case (Some bs)
    with run n one sat ok(2) show ?thesis
      by (auto simp: predict_printable_def Let_def explains_def step_shown_def drawn_def same_place_def
          unat_saturating_sub INSERT_CHARACTER_def UNDERLINE_RENDITION_def split: if_splits)
  qed
qed

lemma predict_edits_explained:
  assumes "offerable po" "\<not> po_overwrite po"
  shows "explains ctx [StepLeft, DeleteCell] po (fst (predict_backspace po)) (snd (predict_backspace po))"
    "explains ctx [StepLeft] po (fst (predict_left po)) (snd (predict_left po))"
    "explains ctx [StepRight] po (fst (predict_right po)) (snd (predict_right po))"
  using assms
  by (auto simp: explains_def step_shown_def erased_def stepped_def silent_refl offerable_def overlay_wf_def
      predict_backspace_def predict_left_def predict_right_def CURSOR_LEFT_def CURSOR_RIGHT_def DELETE_CHARACTER_def)

lemma predict_action_explained:
  assumes ok: "offerable po" "\<not> po_overwrite po" and "action \<noteq> PredictBarrier"
    and run: "predict_action po frame_id action (Some ctx) = (out, po')"
  shows "explains ctx (event_edits ctx (OfferAction frame_id action (Some ctx))) po out po'"
proof -
  have wf: "overlay_wf po" using ok by (simp add: offerable_def)
  have inv: "explains ctx edits po None (invalidate_span po)" for edits
    using silent_invalidate [OF wf, of "po_line_context po" ctx] by (simp add: explains_def)
  show ?thesis
    using run assms(3) inv predict_printable_explained [OF ok] predict_edits_explained [OF ok, of ctx]
    by (cases action) (auto simp: predict_action_def split: if_splits)
qed

lemma explains_fields:
  assumes "po_rollback_cells p = po_rollback_cells q" "po_line_context p = po_line_context q"
    "po_reconciliation_required p = po_reconciliation_required q" "po_cursor_offset p = po_cursor_offset q"
    and "po_rollback_cells p' = po_rollback_cells q'" "po_line_context p' = po_line_context q'"
    "po_reconciliation_required p' = po_reconciliation_required q'" "po_cursor_offset p' = po_cursor_offset q'"
  shows "explains ctx edits p out p' = explains ctx edits q out q'"
  using assms by (cases out) (simp_all add: explains_def silent_def step_shown_def drawn_def erased_def stepped_def)

lemma offer_explained:
  assumes wf: "overlay_wf po" and ow: "\<not> po_overwrite po" and at: "offered_at ctx (OfferAction frame_id action context)"
    and run: "offer_for_frame_with_context po frame_id action context = (out, po')"
  shows "explains ctx (event_edits ctx (OfferAction frame_id action context)) po out po'"
proof -
  let ?p1 = "po\<lparr>po_metrics := (po_metrics po)\<lparr>pm_offered := saturating_add (pm_offered (po_metrics po)) 1\<rparr>\<rparr>"
  let ?p2 = "?p1\<lparr>po_highest_frame_id := Some frame_id\<rparr>"
  have wf2: "overlay_wf ?p2" using wf by (simp add: overlay_wf_def)
  have inv: "silent ctx po (invalidate_span ?p2)"
    using silent_invalidate [OF wf2, of "po_line_context po" ctx] by (simp add: silent_def invalidate_span_def)
  show ?thesis
  proof (cases "action \<noteq> PredictBarrier \<and> display_enabled ?p2 \<and> offerable ?p2 \<and>
      \<not> (case po_highest_frame_id po of None \<Rightarrow> False | Some highest \<Rightarrow> frame_id < highest)")
    case False
    with run wf2 have "out = None" "po' = ?p1 \<or> po' = ?p2 \<or> po' = invalidate_span ?p2"
      by (auto simp: offer_for_frame_with_context_def Let_def offerable_def not_le split: if_splits)
    with inv show ?thesis by (auto simp: explains_def silent_def)
  next
    case True
    then have cx: "context = Some ctx" using at by simp
    obtain out1 p3 where p3: "predict_action ?p2 frame_id action (Some ctx) = (out1, p3)" by fastforce
    have ex: "explains ctx (event_edits ctx (OfferAction frame_id action context)) ?p2 out1 p3"
      using predict_action_explained [OF _ _ _ p3] True ow by (simp add: cx)
    have po': "out = out1" "po' = p3 \<and> out1 = None \<or> out1 \<noteq> None \<and> po' = p3\<lparr>po_pending := po_pending p3 @ [\<lparr>pe_frame_id = frame_id, pe_action = action\<rparr>],
        po_metrics := (po_metrics p3)\<lparr>pm_displayed := saturating_add (pm_displayed (po_metrics p3)) 1\<rparr>\<rparr>"
      using run True p3 cx
      by (auto simp: offer_for_frame_with_context_def Let_def offerable_def not_le split: option.splits)
    then show ?thesis using ex unfolding po'(1) by (elim disjE conjE) (auto elim!: explains_fields [THEN iffD1, rotated -1])
  qed
qed

lemma overlay_step_explained:
  assumes "overlay_wf po" "\<not> po_overwrite po" "offered_at ctx ev" "overlay_step po ev = (out, po')"
  shows "explains ctx (event_edits ctx ev) po out po'"
proof (cases ev)
  case (OfferAction frame_id action ctx')
  with assms show ?thesis by (auto intro: offer_explained)
qed (use assms in \<open>auto simp: explains_def silent_def acknowledge_def set_round_trip_milliseconds_def
      split: option.splits if_splits\<close>)

subsection \<open>The row while predictions are on display\<close>

text \<open>
  The grid shows the row with the cells to roll back inserted at the place of the anchor, and the cursor is at the
  predicted offset until a reconciliation is due.
\<close>

definition depicts ::
    "(nat \<Rightarrow> bytes list) \<Rightarrow> prediction_context \<Rightarrow> prediction_context \<Rightarrow> grid \<Rightarrow> prediction_overlay \<Rightarrow> bool" where
  "depicts cells ctx anchor now po \<longleftrightarrow>
     (let row = unat (px_row ctx); column = unat (px_column ctx); n = po_rollback_cells po in
      (\<exists>inserted at. length inserted = n \<and> now = (cells(row := with_inserted (cells row) column inserted), row, at) \<and>
         (n = 0 \<longrightarrow> at = column) \<and> (\<not> po_reconciliation_required po \<longrightarrow> at = column + po_cursor_offset po)) \<and>
      (0 < n \<longrightarrow> column + n < length (cells row)) \<and>
      anchor_of ctx po = anchor \<and>
      (po_overlay_active po \<longrightarrow> po_line_context po = Some anchor \<and> same_place anchor ctx))"

lemma depictsE:
  assumes "depicts cells ctx anchor now po"
  obtains inserted at where "length inserted = po_rollback_cells po"
    "now = (cells(unat (px_row ctx) := with_inserted (cells (unat (px_row ctx))) (unat (px_column ctx)) inserted),
       unat (px_row ctx), at)"
    "po_rollback_cells po = 0 \<longrightarrow> at = unat (px_column ctx)"
    "\<not> po_reconciliation_required po \<longrightarrow> at = unat (px_column ctx) + po_cursor_offset po"
    "0 < po_rollback_cells po \<longrightarrow> unat (px_column ctx) + po_rollback_cells po < length (cells (unat (px_row ctx)))"
    "anchor_of ctx po = anchor" "po_overlay_active po \<longrightarrow> po_line_context po = Some anchor \<and> same_place anchor ctx"
  using assms unfolding depicts_def Let_def by (elim conjE exE) (rule that, assumption+)

lemma depicts_silent:
  assumes "depicts cells ctx anchor now po" "silent ctx po po'" "po_overlay_active po' = po_overlay_active po"
  shows "depicts cells ctx anchor now po'"
  using assms unfolding depicts_def silent_def Let_def by (elim conjE exE) (auto split: option.splits)

text \<open>The edits of one step keep the picture, while the end of the row has room for the cells.\<close>

lemma depicts_shown:
  assumes dep: "depicts cells ctx anchor now po" and shown: "step_shown ctx edits po po'"
    and active: "po_overlay_active po'" "0 < po_rollback_cells po \<longrightarrow> po_overlay_active po"
    and row: "length (cells (unat (px_row ctx))) = unat (px_columns ctx)"
    and room: "\<forall>i < length (cells (unat (px_row ctx))).
      length (cells (unat (px_row ctx))) \<le> i + po_rollback_cells po \<longrightarrow> cells (unat (px_row ctx)) ! i = blank"
  shows "depicts cells ctx anchor (foldl edit_grid now edits) po'"
proof -
  let ?row = "unat (px_row ctx)" and ?column = "unat (px_column ctx)"
  from dep obtain inserted where n: "length inserted = po_rollback_cells po"
    and now: "now = (cells(?row := with_inserted (cells ?row) ?column inserted), ?row, ?column + po_cursor_offset po)"
    and fits: "0 < po_rollback_cells po \<longrightarrow> ?column + po_rollback_cells po < length (cells ?row)"
    and anchor: "anchor_of ctx po = anchor" "po_overlay_active po \<longrightarrow> po_line_context po = Some anchor \<and> same_place anchor ctx"
    using shown by (elim depictsE) (simp add: step_shown_def)
  from shown consider glyph where "edits = [InsertCell, DrawCell glyph (px_attributes ctx)]" "drawn ctx po po'"
    | "edits = [StepLeft, DeleteCell]" "erased po po'" | "edits = [StepLeft]" "stepped 1 0 po po'"
    | "edits = [StepRight]" "stepped 0 1 po po'"
    by (auto simp: step_shown_def)
  then show ?thesis
  proof cases
    case (1 glyph)
    with n now row anchor with_inserted_append [of ?column inserted "cells ?row" glyph] show ?thesis
      unfolding depicts_def Let_def drawn_def
      by (intro conjI exI [of _ "inserted @ [glyph]"] exI [of _ "Suc (?column + po_cursor_offset po)"]) auto
  next
    case 2
    have "delete_cells (?column + length inserted - 1) 1 (with_inserted (cells ?row) ?column inserted) =
        with_inserted (cells ?row) ?column (butlast inserted)"
      using 2 n fits room by (intro with_inserted_butlast) (auto simp: erased_def)
    then have "foldl edit_grid now edits =
        (cells(?row := with_inserted (cells ?row) ?column (butlast inserted)), ?row, ?column + po_cursor_offset po - 1)"
      using 2 n by (simp add: now erased_def)
    with 2 n fits anchor active(2) show ?thesis
      unfolding depicts_def Let_def erased_def
      by (intro conjI exI [of _ "butlast inserted"] exI [of _ "?column + po_cursor_offset po - 1"]) auto
  next
    case 3
    with n now fits anchor active(2) show ?thesis
      unfolding depicts_def Let_def stepped_def
      by (intro conjI exI [of _ inserted] exI [of _ "?column + po_cursor_offset po - 1"]) auto
  next
    case 4
    with n now fits anchor active(2) show ?thesis
      unfolding depicts_def Let_def stepped_def
      by (intro conjI exI [of _ inserted] exI [of _ "Suc (?column + po_cursor_offset po)"]) auto
  qed
qed

lemma step_shown_grows: "step_shown ctx edits po po' \<Longrightarrow> po_rollback_cells po' \<le> Suc (po_rollback_cells po)"
  by (auto simp: step_shown_def drawn_def erased_def stepped_def)

lemma depicts_run:
  assumes "depicts cells ctx anchor now po" "overlay_wf po" "\<not> po_overwrite po" "list_all (offered_at ctx) events"
    and row: "length (cells (unat (px_row ctx))) = unat (px_columns ctx)"
    and "\<forall>i < length (cells (unat (px_row ctx))). length (cells (unat (px_row ctx))) \<le> i + (po_rollback_cells po + length events) \<longrightarrow>
      cells (unat (px_row ctx)) ! i = blank"
    and "run overlay_step po events = (outs, po1)"
  shows "list_all2 (displays_event ctx) events outs \<and>
    depicts cells ctx anchor (foldl edit_grid now (shown_edits ctx events outs)) po1 \<and>
    po_rollback_cells po1 \<le> po_rollback_cells po + length events"
  using assms(1-4,6,7)
proof (induction events arbitrary: now po outs)
  case Nil
  then show ?case by (simp add: shown_edits_def)
next
  case (Cons ev events)
  obtain out po' where step: "overlay_step po ev = (out, po')" by fastforce
  obtain outs' where run: "run overlay_step po' events = (outs', po1)" and outs: "outs = out # outs'"
    using Cons.prems(6) by (auto simp: step split: prod.splits)
  have at: "offered_at ctx ev" "list_all (offered_at ctx) events" using Cons.prems(4) by simp_all
  have ex: "explains ctx (event_edits ctx ev) po out po'"
    by (rule overlay_step_explained [OF Cons.prems(2,3) at(1) step])
  note c = overlay_step_cases [OF Cons.prems(2) step]
  have take: "ev \<noteq> TakeReconciliation" using at(1) by auto
  let ?now = "foldl edit_grid now (if out = None then [] else event_edits ctx ev)"
  have act: "0 < po_rollback_cells po \<longrightarrow> po_overlay_active po" using Cons.prems(2) by (auto simp: overlay_wf_def)
  have "depicts cells ctx anchor ?now po' \<and> po_rollback_cells po' \<le> Suc (po_rollback_cells po) \<and> displays_event ctx ev out"
  proof (cases out)
    case None
    with ex Cons.prems(1) c take show ?thesis
      by (auto simp: explains_def displays_event_def silent_def [of _ _ po'] intro!: depicts_silent [OF Cons.prems(1)])
  next
    case (Some bs)
    then have sh: "step_shown ctx (event_edits ctx ev) po po'" and bs: "bs = edits_bytes (event_edits ctx ev)"
      using ex by (simp_all add: explains_def)
    have "depicts cells ctx anchor (foldl edit_grid now (event_edits ctx ev)) po'"
      by (rule depicts_shown [OF Cons.prems(1) sh _ act row]) (use c Some Cons.prems(5) in auto)
    with Some bs step_shown_grows [OF sh] show ?thesis by (simp add: displays_event_def)
  qed
  moreover from this c have "list_all2 (displays_event ctx) events outs' \<and>
      depicts cells ctx anchor (foldl edit_grid ?now (shown_edits ctx events outs')) po1 \<and>
      po_rollback_cells po1 \<le> po_rollback_cells po' + length events"
    using Cons.prems(3,5) at(2) run by (intro Cons.IH) auto
  ultimately show ?case by (auto simp: outs shown_edits_def)
qed

lemma depicts_undone:
  assumes dep: "depicts cells ctx anchor now po" and active: "po_overlay_active po"
    and row: "unat (px_row ctx) < 65535" "unat (px_column ctx) < unat (px_columns ctx)"
    and room: "\<forall>i < length (cells (unat (px_row ctx))). length (cells (unat (px_row ctx))) \<le> i + po_rollback_cells po \<longrightarrow>
      cells (unat (px_row ctx)) ! i = blank"
  shows "local_reconciliation po = Some (edits_bytes (undo_edits ctx (po_rollback_cells po)) @ px_cursor_state anchor) \<and>
    foldl edit_grid now (undo_edits ctx (po_rollback_cells po)) = (cells, unat (px_row ctx), unat (px_column ctx))"
proof -
  let ?row = "unat (px_row ctx)" and ?column = "unat (px_column ctx)"
  from dep active obtain inserted at where n: "length inserted = po_rollback_cells po"
    and now: "now = (cells(?row := with_inserted (cells ?row) ?column inserted), ?row, at)" "po_rollback_cells po = 0 \<longrightarrow> at = ?column"
    and fits: "0 < po_rollback_cells po \<longrightarrow> ?column + po_rollback_cells po < length (cells ?row)"
    and anchor: "po_line_context po = Some anchor" "same_place anchor ctx"
    by (elim depictsE) simp
  have "unat (saturating_add (px_row ctx) 1) = Suc ?row" "unat (saturating_add (px_column ctx) 1) = Suc ?column"
    using row unat_u16_less [of "px_columns ctx"] by (simp_all add: unat_saturating_add)
  with anchor have "local_reconciliation po = Some (edits_bytes (undo_edits ctx (po_rollback_cells po)) @ px_cursor_state anchor)"
    by (simp add: local_reconciliation_def undo_edits_def same_place_def)
  moreover have "foldl edit_grid now (undo_edits ctx (po_rollback_cells po)) = (cells, ?row, ?column)"
    using n now fits room with_inserted_undone [of ?column inserted "cells ?row"]
    by (cases "po_rollback_cells po = 0") (auto simp: undo_edits_def)
  ultimately show ?thesis ..
qed

lemma on_display_untaken:
  assumes "length events = length outs" "list_all (\<lambda>ev. ev \<noteq> TakeReconciliation) events"
  shows "on_display shown events outs \<longleftrightarrow> shown \<or> \<not> list_all (\<lambda>out. out = None) outs"
  using assms by (induction events outs arbitrary: shown rule: list_induct2) auto

lemma offered_at_untaken: "offered_at ctx ev \<Longrightarrow> ev \<noteq> TakeReconciliation"
  by auto

text \<open>
  C30. What the predictions show, the reconciliation undoes. Take an overlay after any operations with nothing on
  display, and offers made at one place of the screen until the next reconciliation: a row below 65535, a column
  within the row, and as many blank cells at the end of the row as there are events. Each event displays nothing or
  exactly its edits: a character inserted underlined with the attributes restored, the cursor stepped back and the
  cell deleted, a step to the left or to the right. The reconciliation has nothing to do exactly when nothing was
  displayed, and leaves an empty overlay. In overwrite mode it is a redraw. In insert mode it is local: its bytes
  move to the place and delete cells, then restore the state of the cursor, and carried out after the displayed
  edits they leave every cell of the screen and the cursor as they were before the first of them. The grid has one
  cell per character.
\<close>

theorem reconciliation_restores_screen:
  assumes "po = snd (run overlay_step (prediction_overlay_new display overwrite) earlier)" "\<not> po_overlay_active po"
    and "run overlay_step po events = (outs, po1)" "take_reconciliation po1 = (r, po2)"
    and "list_all (offered_at ctx) events" "unat (px_row ctx) < 65535" "unat (px_column ctx) < unat (px_columns ctx)"
    and "start = (cells, unat (px_row ctx), unat (px_column ctx))" "line = cells (unat (px_row ctx))"
    and "length line = unat (px_columns ctx)"
    and "\<forall>i < length line. length line \<le> i + length events \<longrightarrow> line ! i = blank"
  shows "(r = NoReconciliation \<longleftrightarrow> list_all (\<lambda>out. out = None) outs) \<and>
    po_pending po2 = [] \<and> po_predicted_ascii po2 = [] \<and> po_rollback_cells po2 = 0 \<and> \<not> po_overlay_active po2 \<and>
    (r \<noteq> NoReconciliation \<longrightarrow>
      (if overwrite then r = Redraw
       else list_all2 (displays_event ctx) events outs \<and>
         (\<exists>n. r = LocalReconciliation (edits_bytes (undo_edits ctx n) @ px_cursor_state (anchor_of ctx po)) \<and>
            foldl edit_grid start (shown_edits ctx events outs @ undo_edits ctx n) = start)))"
proof -
  let ?new = "prediction_overlay_new display overwrite"
  have wf: "overlay_wf po" "po_overwrite po = overwrite" "overlay_wf po1" "po_overwrite po1 = overwrite"
    using overlay_run_keeps [of ?new earlier] overlay_run_keeps [of po events] assms(1,3) by simp_all
  have len: "length events = length outs" using length_run [of overlay_step po events] assms(3) by simp
  have "po_overlay_active po1 \<longleftrightarrow> on_display False events outs"
    using active_iff_on_display [OF wf(1), of events] assms(2,3) by simp
  also have "\<dots> \<longleftrightarrow> \<not> list_all (\<lambda>out. out = None) outs"
    by (subst on_display_untaken) (use len assms(5) in \<open>auto simp: list_all_iff dest: offered_at_untaken\<close>)
  finally have act: "po_overlay_active po1 \<longleftrightarrow> \<not> list_all (\<lambda>out. out = None) outs" .
  have taken: "overlay_wf po2 \<and> \<not> po_overlay_active po2 \<and> (r = NoReconciliation \<longleftrightarrow> \<not> po_overlay_active po1)"
    using take_reconciliation_wf [OF wf(3)] by (simp add: assms(4))
  have local: "list_all2 (displays_event ctx) events outs \<and>
      (\<exists>n. r = LocalReconciliation (edits_bytes (undo_edits ctx n) @ px_cursor_state (anchor_of ctx po)) \<and>
        foldl edit_grid start (shown_edits ctx events outs @ undo_edits ctx n) = start)"
    if ow: "\<not> overwrite" and active: "po_overlay_active po1"
  proof -
    have first: "depicts cells ctx (anchor_of ctx po) start po" "po_rollback_cells po = 0"
      using wf(1) assms(2) by (auto simp: depicts_def overlay_wf_def assms(8))
    have run: "list_all2 (displays_event ctx) events outs \<and>
        depicts cells ctx (anchor_of ctx po) (foldl edit_grid start (shown_edits ctx events outs)) po1 \<and>
        po_rollback_cells po1 \<le> po_rollback_cells po + length events"
      using depicts_run [OF first(1) wf(1) _ assms(5) _ _ assms(3)] ow wf(2) first(2) assms(9-11) by simp
    have "local_reconciliation po1 = Some (edits_bytes (undo_edits ctx (po_rollback_cells po1)) @ px_cursor_state (anchor_of ctx po)) \<and>
        foldl edit_grid (foldl edit_grid start (shown_edits ctx events outs)) (undo_edits ctx (po_rollback_cells po1)) = start"
      unfolding assms(8)
      by (rule depicts_undone [OF _ active assms(6,7)]) (use run first(2) assms(8-11) in auto)
    with run assms(4) active ow wf(4) show ?thesis by (auto simp: take_reconciliation_def)
  qed
  have "r = Redraw" if "overwrite" "r \<noteq> NoReconciliation"
    using that assms(4) wf(4) by (auto simp: take_reconciliation_def split: if_splits)
  with taken act local show ?thesis by (auto simp: overlay_wf_def split: if_splits)
qed

subsection \<open>Instances\<close>

text \<open>Two characters and a step to the left in the second row of a screen of eighty blank columns, after a prompt.\<close>

definition example_line :: prediction_context where
  "example_line = \<lparr>px_row = 1, px_column = 2, px_columns = 80, px_attributes = [0x1b, 0x5b, 0x6d], px_cursor_state = [0x1b, 0x5b, 0x32, 0x3b, 0x33, 0x48]\<rparr>"

definition example_cells :: "nat \<Rightarrow> bytes list" where
  "example_cells = (\<lambda>row. if row = 1 then [0x24] # replicate 79 blank else [])"

definition example_offers :: "overlay_event list" where
  "example_offers = [OfferAction 1 (PrintableAscii 0x61) (Some example_line), OfferAction 2 (PrintableUtf8 0xe9) (Some example_line),
     OfferAction 2 PredictLeft (Some example_line)]"

theorem reconciliation_restores_screen_witness:
  "\<exists>n. fst (take_reconciliation (snd (run overlay_step (prediction_overlay_new Always False) example_offers))) =
      LocalReconciliation (edits_bytes (undo_edits example_line n) @ [0x1b, 0x5b, 0x32, 0x3b, 0x33, 0x48]) \<and>
    foldl edit_grid (example_cells, 1, 2) (shown_edits example_line example_offers
      (fst (run overlay_step (prediction_overlay_new Always False) example_offers)) @ undo_edits example_line n) = (example_cells, 1, 2)"
proof -
  let ?new = "prediction_overlay_new Always False"
  obtain outs po1 where run: "run overlay_step ?new example_offers = (outs, po1)" by fastforce
  obtain r po2 where taken: "take_reconciliation po1 = (r, po2)" by fastforce
  have "\<exists>out. hd outs = Some out \<and> outs \<noteq> []"
    using run by (auto simp: example_offers_def example_line_def offer_for_frame_with_context_def prediction_overlay_new_def display_enabled_def
        predict_action_def is_ascii_graphic_def predict_printable_def usize_saturating_add_def usize_limit_def
        saturating_sub_def MAXIMUM_PENDING_PREDICTIONS_def split: prod.splits)
  then have shown: "\<not> list_all (\<lambda>out. out = None) outs" by (cases outs) auto
  have at: "unat (px_row example_line) = 1" "unat (px_column example_line) = 2" "unat (px_columns example_line) = 80"
    "anchor_of example_line ?new = example_line"
    by (simp_all add: example_line_def prediction_overlay_new_def)
  have "r = LocalReconciliation (edits_bytes (undo_edits example_line n) @ px_cursor_state example_line) \<and>
      foldl edit_grid (example_cells, 1, 2) (shown_edits example_line example_offers outs @ undo_edits example_line n) = (example_cells, 1, 2)"
    if "r = LocalReconciliation (edits_bytes (undo_edits example_line n) @ px_cursor_state (anchor_of example_line ?new)) \<and>
      foldl edit_grid (example_cells, 1, 2) (shown_edits example_line example_offers outs @ undo_edits example_line n) = (example_cells, 1, 2)" for n
    using that at(4) by simp
  moreover have "\<exists>n. r = LocalReconciliation (edits_bytes (undo_edits example_line n) @ px_cursor_state (anchor_of example_line ?new)) \<and>
      foldl edit_grid (example_cells, 1, 2) (shown_edits example_line example_offers outs @ undo_edits example_line n) = (example_cells, 1, 2)"
    using reconciliation_restores_screen [where earlier = "[]" and display = Always and overwrite = False,
        OF _ _ run taken, of example_line "(example_cells, 1, 2)" example_cells "[0x24] # replicate 79 blank"] shown
    by (simp add: at example_cells_def example_offers_def nth_Cons')
  ultimately show ?thesis by (auto simp: run taken example_line_def)
qed

end
