(* ===== verification/Title_Filter.thy ===== *)
theory Title_Filter
  imports Prelude
begin

section \<open>Remote titles (\<open>TitleOutputFilter\<close> of \<open>crates/ferrumtty-terminal/src/lib.rs\<close>)\<close>

text \<open>
  The filter rewrites the OSC commands that set the window or icon title so that the title shown locally
  carries the marker \<open>[mosh]\<close>; every other byte is passed on. It works byte by byte and keeps its state
  across the fragments of server output. All its operations are modelled.
\<close>

subsection \<open>Model: data\<close>

definition MOSH_TITLE_PREFIX :: bytes where
  "MOSH_TITLE_PREFIX = [0x5b, 0x6d, 0x6f, 0x73, 0x68, 0x5d, 0x20]"
definition MAX_OSC_COMMAND_BYTES :: usize where "MAX_OSC_COMMAND_BYTES = 16"
definition MAX_REMOTE_TITLE_BYTES :: usize where "MAX_REMOTE_TITLE_BYTES = 1024"

datatype title_policy = PreserveRemote | MoshPrefix

datatype osc_title_command = IconAndWindow | Icon | Window

datatype title_filter_state =
    Ground
  | Escape
  | OscHeader bytes bool
  | Title osc_title_command bytes bool
  | PassthroughOsc bool
  | DiscardTitle bool

record remote_titles =
  rt_initialized :: bool
  rt_icon :: bytes
  rt_window :: bytes

record title_output_filter =
  tf_policy :: title_policy
  tf_state :: title_filter_state
  tf_remote :: remote_titles
  tf_prefix_active :: bool
  tf_displayed :: "(bytes \<times> bytes) option"

text \<open>The fields that \<open>Debug\<close> shows: no title content.\<close>

definition title_filter_debug :: "title_output_filter \<Rightarrow> title_policy \<times> bool \<times> bool" where
  "title_filter_debug tf = (tf_policy tf, rt_initialized (tf_remote tf), tf_prefix_active tf)"

subsection \<open>Model: operations\<close>

definition title_filter_new :: "title_policy \<Rightarrow> title_output_filter" where
  "title_filter_new policy =
     \<lparr>tf_policy = policy, tf_state = Ground, tf_remote = \<lparr>rt_initialized = False, rt_icon = [], rt_window = []\<rparr>,
      tf_prefix_active = (policy = MoshPrefix), tf_displayed = None\<rparr>"

definition starts_with_escape :: "bytes \<Rightarrow> bool" where
  "starts_with_escape bs \<longleftrightarrow> take 2 bs = [0x1b, 0x5d]"

definition osc_command_length :: "bytes \<Rightarrow> usize" where
  "osc_command_length bs = length bs - (if starts_with_escape bs then 2 else 1)"

definition title_command :: "bytes \<Rightarrow> osc_title_command option" where
  "title_command bs =
     (let offset = (if starts_with_escape bs then 2 else 1) in
      if offset > length bs then None
      else
        let command = drop offset bs in
        if command = [] \<or> command = [0x30] then Some IconAndWindow
        else if command = [0x31] then Some Icon
        else if command = [0x32] then Some Window
        else None)"

definition encode_titles :: "bytes \<Rightarrow> bytes \<Rightarrow> bytes" where
  "encode_titles icon window =
     (if icon = window then [0x1b, 0x5d, 0x30, 0x3b] @ window @ [0x07]
      else [0x1b, 0x5d, 0x31, 0x3b] @ icon @ [0x07, 0x1b, 0x5d, 0x32, 0x3b] @ window @ [0x07])"

definition set_remote_title :: "title_output_filter \<Rightarrow> osc_title_command \<Rightarrow> bytes \<Rightarrow> title_output_filter" where
  "set_remote_title tf command bs =
     tf\<lparr>tf_remote :=
       (case command of
          IconAndWindow \<Rightarrow> (tf_remote tf)\<lparr>rt_initialized := True, rt_icon := bs, rt_window := bs\<rparr>
        | Icon \<Rightarrow> (tf_remote tf)\<lparr>rt_initialized := True, rt_icon := bs\<rparr>
        | Window \<Rightarrow> (tf_remote tf)\<lparr>rt_initialized := True, rt_window := bs\<rparr>)\<rparr>"

definition emit_titles :: "title_output_filter \<Rightarrow> bytes \<times> title_output_filter" where
  "emit_titles tf =
     (if \<not> rt_initialized (tf_remote tf) then ([], tf)
      else
        let window = (if tf_prefix_active tf then MOSH_TITLE_PREFIX else []) @ rt_window (tf_remote tf);
            icon = (if tf_prefix_active tf \<and> rt_icon (tf_remote tf) = rt_window (tf_remote tf) then window
                    else rt_icon (tf_remote tf))
        in if tf_displayed tf = Some (icon, window) then ([], tf)
           else (encode_titles icon window, tf\<lparr>tf_displayed := Some (icon, window)\<rparr>))"

text \<open>The state a byte in a terminated OSC leads to, shared by the two states that ignore its content.\<close>

definition ends_osc :: "u8 \<Rightarrow> bool" where
  "ends_osc byte \<longleftrightarrow> byte = 0x07 \<or> byte = 0x9c \<or> byte = 0x18 \<or> byte = 0x1a"

definition header_byte :: "bytes \<Rightarrow> u8 \<Rightarrow> bytes \<times> title_filter_state" where
  "header_byte bs byte =
     (if ends_osc byte then (bs @ [byte], Ground)
      else if byte = 0x1b then ([], OscHeader bs True)
      else if byte = 0x3b then
        (case title_command bs of
           Some command \<Rightarrow> ([], Title command [] False)
         | None \<Rightarrow> (bs @ [byte], PassthroughOsc False))
      else if osc_command_length (bs @ [byte]) > MAX_OSC_COMMAND_BYTES then (bs @ [byte], PassthroughOsc False)
      else ([], OscHeader (bs @ [byte]) False))"

definition title_byte ::
    "title_output_filter \<Rightarrow> osc_title_command \<Rightarrow> bytes \<Rightarrow> bool \<Rightarrow> u8 \<Rightarrow> bytes \<times> title_output_filter" where
  "title_byte tf command bs capacity_reached byte =
     (if byte = 0x07 \<or> byte = 0x9c then
        apsnd (\<lambda>tf. tf\<lparr>tf_state := Ground\<rparr>) (emit_titles (set_remote_title tf command bs))
      else if byte = 0x18 \<or> byte = 0x1a then ([], tf\<lparr>tf_state := Ground\<rparr>)
      else if byte = 0x1b then ([], tf\<lparr>tf_state := Title command bs True\<rparr>)
      else if capacity_reached \<or> length bs = MAX_REMOTE_TITLE_BYTES then ([], tf\<lparr>tf_state := DiscardTitle False\<rparr>)
      else ([], tf\<lparr>tf_state := Title command (bs @ [byte]) False\<rparr>))"

definition process_byte :: "title_output_filter \<Rightarrow> u8 \<Rightarrow> bytes \<times> title_output_filter" where
  "process_byte tf byte =
     (let ground = tf\<lparr>tf_state := Ground\<rparr> in
      case tf_state tf of
        Ground \<Rightarrow>
          if byte = 0x1b then ([], tf\<lparr>tf_state := Escape\<rparr>)
          else if byte = 0x9d then ([], tf\<lparr>tf_state := OscHeader [byte] False\<rparr>)
          else ([byte], ground)
      | Escape \<Rightarrow>
          if byte = 0x5d then ([], tf\<lparr>tf_state := OscHeader [0x1b, 0x5d] False\<rparr>)
          else ([0x1b, byte], ground)
      | OscHeader bs escape_pending \<Rightarrow>
          if escape_pending \<and> byte = 0x5c then (bs @ [0x1b, 0x5c], ground)
          else
            (case header_byte (if escape_pending then bs @ [0x1b] else bs) byte of
               (out, state) \<Rightarrow> (out, tf\<lparr>tf_state := state\<rparr>))
      | Title command bs escape_pending \<Rightarrow>
          if escape_pending \<and> byte = 0x5c then emit_titles (set_remote_title ground command bs)
          else
            let room = (length bs < MAX_REMOTE_TITLE_BYTES)
            in title_byte tf command (if escape_pending \<and> room then bs @ [0x1b] else bs) (escape_pending \<and> \<not> room) byte
      | PassthroughOsc escape_pending \<Rightarrow>
          ([byte],
           if escape_pending \<and> byte = 0x5c \<or> ends_osc byte then ground
           else tf\<lparr>tf_state := PassthroughOsc (byte = 0x1b)\<rparr>)
      | DiscardTitle escape_pending \<Rightarrow>
          ([],
           if escape_pending \<and> byte = 0x5c \<or> ends_osc byte then ground
           else tf\<lparr>tf_state := DiscardTitle (byte = 0x1b)\<rparr>))"

fun process_bytes :: "title_output_filter \<Rightarrow> bytes \<Rightarrow> bytes \<times> title_output_filter" where
  "process_bytes tf [] = ([], tf)"
| "process_bytes tf (byte # bs) =
     (let (out, tf) = process_byte tf byte; (rest, tf) = process_bytes tf bs in (out @ rest, tf))"

definition title_process :: "title_output_filter \<Rightarrow> bytes \<Rightarrow> bytes \<times> title_output_filter" where
  "title_process tf bs = (if tf_policy tf = PreserveRemote then (bs, tf) else process_bytes tf bs)"

definition restore_remote_title :: "title_output_filter \<Rightarrow> bytes \<times> title_output_filter" where
  "restore_remote_title tf =
     (if tf_policy tf \<noteq> MoshPrefix \<or> \<not> tf_prefix_active tf then ([], tf)
      else emit_titles (tf\<lparr>tf_prefix_active := False\<rparr>))"

definition reapply_policy :: "title_output_filter \<Rightarrow> bytes \<times> title_output_filter" where
  "reapply_policy tf =
     (if tf_policy tf \<noteq> MoshPrefix \<or> tf_prefix_active tf then ([], tf)
      else emit_titles (tf\<lparr>tf_prefix_active := True\<rparr>))"

end
