(* ===== verification/Title_Promises.thy ===== *)
theory Title_Promises
  imports Title_Filter
begin

section \<open>Remote titles: guarantees and limits\<close>

text \<open>
  The filter is independent of how server output is cut into fragments, withholds nothing but title
  commands, and makes a terminal that reads title commands show and restore exactly the remote titles; and three
  inputs on which it does not do what it is for.
\<close>

subsection \<open>Fragments\<close>

lemma process_bytes_append:
  "process_bytes tf (a @ b) =
     (let (out1, tf) = process_bytes tf a; (out2, tf) = process_bytes tf b in (out1 @ out2, tf))"
  by (induction a arbitrary: tf) (auto simp: Let_def split: prod.splits)

lemma emit_titles_policy: "tf_policy (snd (emit_titles tf)) = tf_policy tf"
  by (simp add: emit_titles_def Let_def)

lemma set_remote_title_policy: "tf_policy (set_remote_title tf c bs) = tf_policy tf"
  by (simp add: set_remote_title_def)

lemma process_byte_policy: "tf_policy (snd (process_byte tf byte)) = tf_policy tf"
  by (auto simp: process_byte_def title_byte_def Let_def emit_titles_policy set_remote_title_policy
      split: title_filter_state.splits prod.splits)

lemma process_bytes_policy: "tf_policy (snd (process_bytes tf bs)) = tf_policy tf"
  using process_byte_policy by (induction bs arbitrary: tf) (auto simp: Let_def split: prod.splits, metis snd_conv)

interpretation title: stream_transducer title_process
proof
  fix tf :: title_output_filter and a b :: bytes
  show "title_process tf [] = ([], tf)" by (simp add: title_process_def)
  show "title_process tf (a @ b) =
      (fst (title_process tf a) @ fst (title_process (snd (title_process tf a)) b),
       snd (title_process (snd (title_process tf a)) b))"
    using process_bytes_policy [of tf a]
    by (auto simp: title_process_def process_bytes_append Let_def split: prod.splits)
qed

text \<open>However server output is cut into fragments, the filter writes the same bytes and ends in the same state.\<close>

lemma title_fragments: "apfst concat (run title_process tf fragments) = title_process tf (concat fragments)"
  by (simp add: title.run_concat prod_eq_iff)

subsection \<open>Nothing but titles is withheld\<close>

text \<open>The bytes the filter holds back until it knows what they are, and the states that drop bytes.\<close>

fun held :: "title_filter_state \<Rightarrow> bytes" where
  "held Escape = [0x1b]"
| "held (OscHeader bs escape_pending) = bs @ (if escape_pending then [0x1b] else [])"
| "held _ = []"

fun dropping :: "title_filter_state \<Rightarrow> bool" where
  "dropping (Title _ _ _) = True"
| "dropping (DiscardTitle _) = True"
| "dropping _ = False"

fun title_free :: "title_output_filter \<Rightarrow> bytes \<Rightarrow> bool" where
  "title_free tf [] = (\<not> dropping (tf_state tf))"
| "title_free tf (byte # bs) = (\<not> dropping (tf_state tf) \<and> title_free (snd (process_byte tf byte)) bs)"

lemma process_byte_lossless:
  assumes "\<not> dropping (tf_state tf)" "\<not> dropping (tf_state (snd (process_byte tf byte)))"
  shows "fst (process_byte tf byte) @ held (tf_state (snd (process_byte tf byte))) = held (tf_state tf) @ [byte] \<and>
    tf_remote (snd (process_byte tf byte)) = tf_remote tf"
  using assms
  by (cases "tf_state tf") (auto simp: process_byte_def header_byte_def Let_def split: option.splits if_splits prod.splits)

lemma title_free_start: "title_free tf bs \<Longrightarrow> \<not> dropping (tf_state tf)"
  by (cases bs) auto

text \<open>
  C33. Nothing but titles is withheld. As long as no title command begins, what the filter has written
  followed by what it still holds back is exactly what it held back before followed by its input: no
  byte is lost, duplicated, reordered or changed, and the remembered titles stay as they are.
\<close>

theorem title_filter_lossless:
  assumes "title_free tf bytes" and "process_bytes tf bytes = (out, tf')"
  shows "out @ held (tf_state tf') = held (tf_state tf) @ bytes \<and> tf_remote tf' = tf_remote tf"
  using assms
proof (induction bytes arbitrary: tf out)
  case (Cons byte bs)
  obtain out1 tf1 where p: "process_byte tf byte = (out1, tf1)" by fastforce
  obtain out2 where r: "process_bytes tf1 bs = (out2, tf')" "out = out1 @ out2"
    using Cons.prems(2) p by (auto simp: Let_def split: prod.splits)
  from Cons.prems(1) p have free: "title_free tf1 bs" by simp
  have "out1 @ held (tf_state tf1) = held (tf_state tf) @ [byte]" "tf_remote tf1 = tf_remote tf"
    using process_byte_lossless [of tf byte] title_free_start [OF free] Cons.prems(1) p by simp_all
  with Cons.IH [OF free r(1)] r(2) show ?case by simp
qed simp

subsection \<open>Titles are shown with the marker and restored without it\<close>

text \<open>Bytes that neither end nor interrupt an OSC.\<close>

definition plain :: "u8 \<Rightarrow> bool" where
  "plain byte \<longleftrightarrow> \<not> ends_osc byte \<and> byte \<noteq> 0x1b"

lemma process_bytes_Title:
  assumes "list_all plain body" "length bs + length body \<le> MAX_REMOTE_TITLE_BYTES"
    and "tf_state tf = Title osc bs False"
  shows "process_bytes tf body = ([], tf\<lparr>tf_state := Title osc (bs @ body) False\<rparr>)"
  using assms
proof (induction body arbitrary: bs tf)
  case (Cons b body)
  have "process_byte tf b = ([], tf\<lparr>tf_state := Title osc (bs @ [b]) False\<rparr>)"
    using Cons.prems by (simp add: process_byte_def title_byte_def plain_def ends_osc_def)
  with Cons.IH [of "bs @ [b]" "tf\<lparr>tf_state := Title osc (bs @ [b]) False\<rparr>"] Cons.prems show ?case by simp
qed simp

text \<open>The forms of a title command.\<close>

definition introduces :: "bytes \<Rightarrow> bool" where
  "introduces intro \<longleftrightarrow> intro = [0x1b, 0x5d] \<or> intro = [0x9d]"

definition terminates :: "bytes \<Rightarrow> bool" where
  "terminates ender \<longleftrightarrow> ender = [0x07] \<or> ender = [0x9c] \<or> ender = [0x1b, 0x5c]"

definition names_title :: "bytes \<Rightarrow> osc_title_command \<Rightarrow> bool" where
  "names_title name command \<longleftrightarrow>
     command = IconAndWindow \<and> (name = [] \<or> name = [0x30]) \<or> command = Icon \<and> name = [0x31] \<or>
     command = Window \<and> name = [0x32]"

lemma process_bytes_header:
  assumes "introduces intro" "names_title name command" "tf_state tf = Ground"
  shows "process_bytes tf (intro @ name @ [0x3b]) = ([], tf\<lparr>tf_state := Title command [] False\<rparr>)"
  using assms
  by (auto simp: introduces_def names_title_def process_byte_def header_byte_def ends_osc_def title_command_def
      starts_with_escape_def osc_command_length_def MAX_OSC_COMMAND_BYTES_def Let_def)

lemma emit_titles_state: "emit_titles (tf\<lparr>tf_state := s\<rparr>) = apsnd (\<lambda>tf. tf\<lparr>tf_state := s\<rparr>) (emit_titles tf)"
  by (simp add: emit_titles_def Let_def)

lemma set_remote_title_state: "set_remote_title (tf\<lparr>tf_state := s\<rparr>) c bs = (set_remote_title tf c bs)\<lparr>tf_state := s\<rparr>"
  by (cases c) (simp_all add: set_remote_title_def)

lemma ground_id: "tf_state tf = Ground \<Longrightarrow> tf\<lparr>tf_state := Ground\<rparr> = tf"
  by simp

lemma title_command_processed:
  assumes "introduces intro" "names_title name command" "terminates ender" "tf_state tf = Ground"
    and "list_all plain text" "length text \<le> MAX_REMOTE_TITLE_BYTES"
  shows "process_bytes tf (intro @ name @ [0x3b] @ text @ ender) = emit_titles (set_remote_title tf command text)"
proof -
  let ?t = "tf\<lparr>tf_state := Title command text False\<rparr>"
  have "process_bytes tf ((intro @ name @ [0x3b]) @ text @ ender) = process_bytes ?t ender"
    using process_bytes_header [OF assms(1,2,4)] process_bytes_Title [OF assms(5), of "[]" "tf\<lparr>tf_state := Title command [] False\<rparr>" command]
      assms(6) by (simp add: process_bytes_append Let_def split: prod.splits)
  also have "\<dots> = emit_titles (set_remote_title (tf\<lparr>tf_state := Ground\<rparr>) command text)"
    using assms(3,6)
    by (auto simp: terminates_def process_byte_def title_byte_def Let_def set_remote_title_state emit_titles_state
        apsnd_def map_prod_def split: prod.splits)
  finally show ?thesis using assms(4) by (simp add: ground_id)
qed

text \<open>The titles the local terminal should show.\<close>

definition presented :: "title_output_filter \<Rightarrow> bytes \<times> bytes" where
  "presented tf =
     (let window = (if tf_prefix_active tf then MOSH_TITLE_PREFIX else []) @ rt_window (tf_remote tf)
      in (if tf_prefix_active tf \<and> rt_icon (tf_remote tf) = rt_window (tf_remote tf) then window
          else rt_icon (tf_remote tf), window))"

lemma emit_titles_presented:
  assumes "rt_initialized (tf_remote tf)"
  shows "emit_titles tf =
    (if tf_displayed tf = Some (presented tf) then [] else encode_titles (fst (presented tf)) (snd (presented tf)),
     tf\<lparr>tf_displayed := Some (presented tf)\<rparr>)"
  using assms by (auto simp: emit_titles_def presented_def Let_def)

lemma presented_update [simp]:
  "presented (tf\<lparr>tf_displayed := d\<rparr>) = presented tf" "presented (tf\<lparr>tf_state := s\<rparr>) = presented tf"
  by (simp_all add: presented_def Let_def)

text \<open>
  A terminal that reads title commands: the command 0 sets both titles, 1 the icon's, 2 the window's. Output shows
  titles when it is a sequence of commands that lead to them.
\<close>

definition osc_title :: "nat \<times> bytes \<Rightarrow> bytes" where
  "osc_title command = [0x1b, 0x5d, of_nat (0x30 + fst command), 0x3b] @ snd command @ [0x07]"

definition retitle :: "bytes \<times> bytes \<Rightarrow> nat \<times> bytes \<Rightarrow> bytes \<times> bytes" where
  "retitle titles command =
     (if fst command = 0 then (snd command, snd command)
      else if fst command = 1 then (snd command, snd titles)
      else if fst command = 2 then (fst titles, snd command)
      else titles)"

definition shows_titles :: "bytes \<times> bytes \<Rightarrow> bytes \<Rightarrow> bytes \<times> bytes \<Rightarrow> bool" where
  "shows_titles before out after \<longleftrightarrow>
     (\<exists>commands. out = concat (map osc_title commands) \<and> foldl retitle before commands = after)"

text \<open>The titles of the server, and how the user is to see them: the window's with the marker, the icon's too if it is the same.\<close>

abbreviation remote_of :: "title_output_filter \<Rightarrow> bytes \<times> bytes" where
  "remote_of tf \<equiv> (rt_icon (tf_remote tf), rt_window (tf_remote tf))"

definition marked :: "bytes \<times> bytes \<Rightarrow> bytes \<times> bytes" where
  "marked titles =
     (let window = map of_char ''[mosh] '' @ snd titles
      in (if fst titles = snd titles then window else fst titles, window))"

fun command_number :: "osc_title_command \<Rightarrow> nat" where
  "command_number IconAndWindow = 0"
| "command_number Icon = 1"
| "command_number Window = 2"

lemma encode_titles_shows: "shows_titles titles (encode_titles icon window) (icon, window)"
proof (cases "icon = window")
  case True
  then show ?thesis
    by (auto simp: shows_titles_def encode_titles_def osc_title_def retitle_def intro!: exI [of _ "[(0, window)]"])
next
  case False
  then show ?thesis
    by (auto simp: shows_titles_def encode_titles_def osc_title_def retitle_def intro!: exI [of _ "[(1, icon), (2, window)]"])
qed

lemma encode_pair_shows: "shows_titles titles (encode_titles (fst target) (snd target)) target"
  using encode_titles_shows [of titles "fst target" "snd target"] by simp

lemma shows_same: "shows_titles titles [] titles"
  by (auto simp: shows_titles_def intro!: exI [of _ "[]"])

lemma set_remote_title_retitles:
  "remote_of (set_remote_title tf command text) = retitle (remote_of tf) (command_number command, text)"
  by (cases command) (simp_all add: set_remote_title_def retitle_def)

lemma presented_marked:
  "presented tf = (if tf_prefix_active tf then marked (remote_of tf) else remote_of tf)"
  by (simp add: presented_def marked_def MOSH_TITLE_PREFIX_def of_char_def Let_def)

lemma marked_differs: "marked titles \<noteq> titles"
  by (cases titles) (auto simp: marked_def Let_def)

text \<open>
  C32. Titles are shown with the marker, and restored. Take a complete title command: either introducer, any of the
  three terminators, a text of at most 1024 bytes without escape, BEL, CAN, SUB and ST. A filter in its ground state that
  reads it remembers the new titles of the server, and what it writes makes a local terminal that shows the titles last
  written show the new ones, the window's with the marker \<open>[mosh]\<close> in front; it writes nothing if they are shown
  already. On suspension it writes what shows exactly the titles of the server, and on resumption what shows the marked
  ones again, back in the same state.
\<close>

theorem titles_rewritten_and_restored:
  assumes "tf_policy tf = MoshPrefix" "tf_prefix_active tf" "tf_state tf = Ground"
    and "introduces intro" "names_title name command" "terminates ender"
    and "list_all plain text" "length text \<le> 1024"
    and "process_bytes tf (intro @ name @ [0x3b] @ text @ ender) = (out, tf')"
    and "tf_displayed tf = None \<or> tf_displayed tf = Some shown"
  shows "remote_of tf' = retitle (remote_of tf) (command_number command, text) \<and> tf_state tf' = Ground \<and>
    shows_titles shown out (marked (remote_of tf')) \<and>
    (tf_displayed tf = Some (marked (remote_of tf')) \<longrightarrow> out = []) \<and>
    (case restore_remote_title tf' of
       (restored, tf'') \<Rightarrow>
         shows_titles (marked (remote_of tf')) restored (remote_of tf') \<and>
         (case reapply_policy tf'' of
            (again, tf3) \<Rightarrow> shows_titles (remote_of tf') again (marked (remote_of tf')) \<and> tf3 = tf'))"
proof -
  let ?tf = "set_remote_title tf command text"
  have set: "rt_initialized (tf_remote ?tf)" "tf_displayed ?tf = tf_displayed tf" "tf_state ?tf = Ground"
    "tf_prefix_active ?tf" "tf_policy ?tf = MoshPrefix"
    using assms(1-3) by (cases command; simp add: set_remote_title_def)+
  have run: "out = (if tf_displayed tf = Some (presented ?tf) then []
        else encode_titles (fst (presented ?tf)) (snd (presented ?tf)))" "tf' = ?tf\<lparr>tf_displayed := Some (presented ?tf)\<rparr>"
    using title_command_processed [OF assms(4-6,3,7)] assms(8,9) emit_titles_presented [OF set(1)] set(2)
    by (auto simp: MAX_REMOTE_TITLE_BYTES_def)
  have shown: "presented ?tf = marked (remote_of tf')" "remote_of tf' = remote_of ?tf"
    using set(4) by (simp_all add: presented_marked run(2))
  let ?off = "tf'\<lparr>tf_prefix_active := False\<rparr>"
  have off: "presented ?off = remote_of tf'" by (simp add: presented_marked)
  have restore: "restore_remote_title tf' =
      (encode_titles (fst (remote_of tf')) (snd (remote_of tf')), ?off\<lparr>tf_displayed := Some (remote_of tf')\<rparr>)"
    using set shown marked_differs [of "remote_of tf'"] emit_titles_presented [of ?off] off
    by (simp add: restore_remote_title_def run(2))
  let ?on = "?off\<lparr>tf_displayed := Some (remote_of tf'), tf_prefix_active := True\<rparr>"
  have on: "?on\<lparr>tf_displayed := Some (presented ?tf)\<rparr> = tf'" "presented ?on = presented ?tf" "rt_initialized (tf_remote ?on)"
    using set(1,4) by (simp_all add: run(2) presented_marked)
  have reapply: "reapply_policy (?off\<lparr>tf_displayed := Some (remote_of tf')\<rparr>) =
      (encode_titles (fst (presented ?tf)) (snd (presented ?tf)), tf')"
    using set(5) shown(1) marked_differs [of "remote_of tf'"] emit_titles_presented [OF on(3)] on(1,2)
    by (simp add: reapply_policy_def run(2))
  have "shows_titles shown out (marked (remote_of tf'))"
    using assms(10) run(1) shown(1) encode_pair_shows [of shown "presented ?tf"] shows_same [of shown] by (auto split: if_splits)
  moreover have "tf_state tf' = Ground" by (simp add: run(2) set(3))
  moreover have "remote_of tf' = retitle (remote_of tf) (command_number command, text)"
    using shown(2) set_remote_title_retitles [of tf command "text"] by simp
  moreover have "tf_displayed tf = Some (marked (remote_of tf')) \<longrightarrow> out = []" using run(1) shown(1) by simp
  ultimately show ?thesis
    unfolding restore prod.case reapply shown(1) by (intro conjI encode_pair_shows refl)
qed

subsection \<open>Where the filter fails\<close>

lemma process_bytes_ground:
  assumes "list_all (\<lambda>b. b \<noteq> 0x1b \<and> b \<noteq> 0x9d) bs" "tf_state tf = Ground"
  shows "process_bytes tf bs = (bs, tf)"
  using assms
proof (induction bs)
  case (Cons b bs)
  then have "process_byte tf b = ([b], tf)" by (simp add: process_byte_def Let_def ground_id)
  with Cons show ?case by simp
qed simp

text \<open>
  C40. The filter takes the last byte of a right double quotation mark (E2 80 9D in UTF-8) for the 8-bit OSC
  introducer. When server output contains that character followed by a semicolon, the rest of the line
  up to 1024 bytes is not displayed: the filter writes the first two bytes of the character, holds
  everything after it as a title, and discards it if more follows.
\<close>

theorem quotation_mark_swallows_output:
  assumes "tf_policy tf = MoshPrefix" "tf_state tf = Ground" and "list_all plain text" "length text \<le> 1024"
  shows "title_process tf ([0xE2, 0x80, 0x9D, 0x3B] @ text) =
      ([0xE2, 0x80], tf\<lparr>tf_state := Title IconAndWindow text False\<rparr>) \<and>
    (length text = 1024 \<longrightarrow> plain b \<longrightarrow>
       title_process tf ([0xE2, 0x80, 0x9D, 0x3B] @ text @ [b]) = ([0xE2, 0x80], tf\<lparr>tf_state := DiscardTitle False\<rparr>))"
proof -
  let ?t = "tf\<lparr>tf_state := Title IconAndWindow [] False\<rparr>"
  have "process_bytes tf [0xE2, 0x80] = ([0xE2, 0x80], tf)"
    using assms(2) by (intro process_bytes_ground) simp_all
  moreover have "process_bytes tf ([0x9D] @ [] @ [0x3b]) = ([], ?t)"
    using process_bytes_header [of "[0x9D]" "[]" IconAndWindow tf] assms(2)
    by (simp add: introduces_def names_title_def)
  moreover have t: "process_bytes ?t text = ([], tf\<lparr>tf_state := Title IconAndWindow text False\<rparr>)"
    using process_bytes_Title [OF assms(3), of "[]" ?t IconAndWindow] assms(4) by (simp add: MAX_REMOTE_TITLE_BYTES_def)
  ultimately have *: "process_bytes tf (([0xE2, 0x80] @ ([0x9D] @ [] @ [0x3b])) @ text @ more) =
      (case process_bytes (tf\<lparr>tf_state := Title IconAndWindow text False\<rparr>) more of (out, tf) \<Rightarrow> ([0xE2, 0x80] @ out, tf))" for more
    unfolding process_bytes_append by (simp add: Let_def split: prod.splits)
  have "process_byte (tf\<lparr>tf_state := Title IconAndWindow text False\<rparr>) b = ([], tf\<lparr>tf_state := DiscardTitle False\<rparr>)"
    if "length text = 1024" "plain b"
    using that by (simp add: process_byte_def title_byte_def plain_def ends_osc_def MAX_REMOTE_TITLE_BYTES_def)
  with * [of "[]"] * [of "[b]"] assms(1) show ?thesis by (simp add: title_process_def)
qed

text \<open>
  The header of an OSC is not bounded: the limit of 16 bytes is checked for every byte but an escape. After
  an introducer and \<open>n + 1\<close> escape bytes the filter has written nothing and holds all of them.
\<close>

theorem osc_header_unbounded:
  assumes "tf_policy tf = MoshPrefix" "tf_state tf = Ground"
  shows "title_process tf ([0x1b, 0x5d] @ replicate (Suc n) 0x1b) =
    ([], tf\<lparr>tf_state := OscHeader ([0x1b, 0x5d] @ replicate n 0x1b) True\<rparr>)"
proof -
  have step: "process_bytes (tf\<lparr>tf_state := OscHeader bs True\<rparr>) (replicate k 0x1b) =
      ([], tf\<lparr>tf_state := OscHeader (bs @ replicate k 0x1b) True\<rparr>)" for k bs
  proof (induction k arbitrary: bs)
    case (Suc k)
    from Suc [of "bs @ [0x1b]"] show ?case by (simp add: process_byte_def header_byte_def ends_osc_def)
  qed simp
  from step [of "[0x1b, 0x5d]" n] assms show ?thesis
    by (simp add: title_process_def process_byte_def header_byte_def ends_osc_def)
qed

text \<open>
  A doubled escape hides a title command from the filter: a command introduced by two escape bytes, which a
  terminal reads as one, is written out unchanged, so its title appears without the marker.
\<close>

theorem doubled_escape_bypasses_marker:
  assumes "tf_policy tf = MoshPrefix" "tf_state tf = Ground"
    and "list_all (\<lambda>b. plain b \<and> b \<noteq> 0x9d) text"
  shows "title_process tf ([0x1b, 0x1b, 0x5d, 0x32, 0x3b] @ text @ [0x07]) =
    ([0x1b, 0x1b, 0x5d, 0x32, 0x3b] @ text @ [0x07], tf)"
proof -
  have "list_all (\<lambda>b. b \<noteq> 0x1b \<and> b \<noteq> 0x9d) ([0x5d, 0x32, 0x3b] @ text @ [0x07])"
    using assms(3) by (auto simp: list_all_iff plain_def)
  from process_bytes_ground [OF this assms(2)] assms(1,2) show ?thesis
    by (simp add: title_process_def process_byte_def ground_id Let_def)
qed

subsection \<open>Instances\<close>

definition example_filter :: title_output_filter where
  "example_filter = title_filter_new MoshPrefix"

lemma example_filter_fields:
  "tf_policy example_filter = MoshPrefix" "tf_state example_filter = Ground" "tf_prefix_active example_filter"
  "tf_displayed example_filter = None"
  by (simp_all add: example_filter_def title_filter_new_def)

theorem title_filter_lossless_witness:
  "fst (process_bytes example_filter [0x61, 0x1b, 0x5b, 0x4b, 0x1b]) @ [0x1b] = [0x61, 0x1b, 0x5b, 0x4b, 0x1b]"
  using title_filter_lossless [of example_filter "[0x61, 0x1b, 0x5b, 0x4b, 0x1b]"
      "fst (process_bytes example_filter [0x61, 0x1b, 0x5b, 0x4b, 0x1b])"
      "snd (process_bytes example_filter [0x61, 0x1b, 0x5b, 0x4b, 0x1b])"]
  by (simp add: process_byte_def example_filter_fields)

theorem titles_rewritten_and_restored_witness:
  "shows_titles ([0x73, 0x68], [0x73, 0x68]) (fst (process_bytes example_filter [0x1b, 0x5d, 0x32, 0x3b, 0x61, 0x07]))
     ([], map of_char ''[mosh] a'')"
proof -
  obtain out tf' where run: "process_bytes example_filter ([0x1b, 0x5d] @ [0x32] @ [0x3b] @ [0x61] @ [0x07]) = (out, tf')"
    by (meson surj_pair)
  have "remote_of example_filter = ([], [])" by (simp add: example_filter_def title_filter_new_def)
  with titles_rewritten_and_restored [OF example_filter_fields(1,3,2) _ _ _ _ _ run, of Window "([0x73, 0x68], [0x73, 0x68])"]
  have "remote_of tf' = ([], [0x61])" "shows_titles ([0x73, 0x68], [0x73, 0x68]) out (marked (remote_of tf'))"
    by (auto simp: introduces_def names_title_def terminates_def plain_def ends_osc_def example_filter_fields retitle_def)
  moreover have "marked ([], [0x61]) = ([], map of_char ''[mosh] a'')" by (simp add: marked_def of_char_def)
  ultimately show ?thesis using run by (simp del: process_bytes.simps)
qed

theorem quotation_mark_swallows_output_witness:
  "fst (title_process example_filter [0xE2, 0x80, 0x9D, 0x3B, 0x20, 0x61]) = [0xE2, 0x80]"
  using quotation_mark_swallows_output [OF example_filter_fields(1,2), of "[0x20, 0x61]" 0]
  by (simp add: plain_def ends_osc_def)

theorem osc_header_unbounded_witness:
  "tf_state (snd (title_process example_filter ([0x1b, 0x5d] @ replicate 1000 0x1b))) =
     OscHeader ([0x1b, 0x5d] @ replicate 999 0x1b) True"
  using osc_header_unbounded [OF example_filter_fields(1,2), of 999] by simp

theorem doubled_escape_bypasses_marker_witness:
  "title_process example_filter [0x1b, 0x1b, 0x5d, 0x32, 0x3b, 0x61, 0x07] =
   ([0x1b, 0x1b, 0x5d, 0x32, 0x3b, 0x61, 0x07], example_filter)"
  using doubled_escape_bypasses_marker [OF example_filter_fields(1,2), of "[0x61]"]
  by (simp add: plain_def ends_osc_def)

end
