(* ===== verification/Terminal_Input.thy ===== *)
theory Terminal_Input
  imports Text_Encoding Messages
begin

section \<open>Local input (\<open>crates/ferrumtty-terminal/src/lib.rs\<close>)\<close>

text \<open>
  The interpreter of the local command prefix and the encoders of key, mouse, paste and focus events. The
  events are those of the \<open>crossterm\<close> crate; their types are modelled with the constructors the source
  matches on and one, \<open>OtherKey\<close>, for the key codes it does not.
\<close>

subsection \<open>Model: the command prefix\<close>

definition DEFAULT_ESCAPE_BYTE :: u8 where "DEFAULT_ESCAPE_BYTE = 0x1e"

datatype escape_action = Hold | Forward bytes | Help | Quit | Suspend

datatype escape_debug = DebugName string | DebugForward usize

fun escape_action_debug :: "escape_action \<Rightarrow> escape_debug" where
  "escape_action_debug Hold = DebugName ''Hold''"
| "escape_action_debug (Forward bs) = DebugForward (length bs)"
| "escape_action_debug Help = DebugName ''Help''"
| "escape_action_debug Quit = DebugName ''Quit''"
| "escape_action_debug Suspend = DebugName ''Suspend''"

record escape_interpreter =
  ei_escape_byte :: u8
  ei_prefix_held :: bool
  ei_at_line_start :: bool

definition escape_interpreter_new :: "u8 \<Rightarrow> escape_interpreter" where
  "escape_interpreter_new escape_byte =
     \<lparr>ei_escape_byte = escape_byte, ei_prefix_held = False, ei_at_line_start = True\<rparr>"

definition escape_interpreter_default :: escape_interpreter where
  "escape_interpreter_default = escape_interpreter_new DEFAULT_ESCAPE_BYTE"

definition literal_escape_suffix :: "escape_interpreter \<Rightarrow> u8" where
  "literal_escape_suffix ei =
     (if 1 \<le> ei_escape_byte ei \<and> ei_escape_byte ei \<le> 31 then ei_escape_byte ei + 64
      else if ei_escape_byte ei = 127 then 0x3f
      else ei_escape_byte ei)"

definition forward :: "escape_interpreter \<Rightarrow> bytes \<Rightarrow> escape_action \<times> escape_interpreter" where
  "forward ei bs =
     (Forward bs, ei\<lparr>ei_at_line_start := bs \<noteq> [] \<and> (last bs = 0x0d \<or> last bs = 0x0a)\<rparr>)"

definition escape_input :: "escape_interpreter \<Rightarrow> bytes \<Rightarrow> escape_action \<times> escape_interpreter" where
  "escape_input ei bs =
     (if \<not> ei_prefix_held ei then
        let printable_escape = (is_ascii_graphic (ei_escape_byte ei) \<or> ei_escape_byte ei = 0x20) in
        if bs = [ei_escape_byte ei] \<and> (\<not> printable_escape \<or> ei_at_line_start ei)
        then (Hold, ei\<lparr>ei_prefix_held := True\<rparr>)
        else forward ei bs
      else
        let ei = ei\<lparr>ei_prefix_held := False\<rparr> in
        if bs = [0x2e] then (Quit, ei)
        else if bs = [0x3f] then (Help, ei)
        else if bs = [0x1a] then (Suspend, ei)
        else if bs = [literal_escape_suffix ei] then forward ei [ei_escape_byte ei]
        else forward ei (ei_escape_byte ei # bs))"

definition escape_flush :: "escape_interpreter \<Rightarrow> bytes option \<times> escape_interpreter" where
  "escape_flush ei =
     (if ei_prefix_held ei then
        (Some [ei_escape_byte ei], ei\<lparr>ei_prefix_held := False, ei_at_line_start := False\<rparr>)
      else (None, ei))"

subsection \<open>Model: keys\<close>

definition CSI_MODIFIER_BASE :: u8 where "CSI_MODIFIER_BASE = 1"
definition SHIFT_MODIFIER_VALUE :: u8 where "SHIFT_MODIFIER_VALUE = 1"
definition ALT_MODIFIER_VALUE :: u8 where "ALT_MODIFIER_VALUE = 2"
definition CONTROL_MODIFIER_VALUE :: u8 where "CONTROL_MODIFIER_VALUE = 4"

datatype cursor_key_mode = NormalCursor | ApplicationCursor

record key_modifiers =
  km_shift :: bool
  km_alt :: bool
  km_control :: bool

datatype key_code =
    CharKey rust_char | EnterKey | BackspaceKey | TabKey | BackTabKey | EscKey | UpKey | DownKey | RightKey
  | LeftKey | HomeKey | EndKey | PageUpKey | PageDownKey | InsertKey | DeleteKey | FunctionKey u8 | OtherKey

record key_event =
  ke_code :: key_code
  ke_modifiers :: key_modifiers

definition bool_u8 :: "bool \<Rightarrow> u8" where "bool_u8 b = (if b then 1 else 0)"
definition bool_u16 :: "bool \<Rightarrow> u16" where "bool_u16 b = (if b then 1 else 0)"

definition key_modifier_parameter :: "key_modifiers \<Rightarrow> u8 option" where
  "key_modifier_parameter m =
     (let modifier_value = bool_u8 (km_shift m) * SHIFT_MODIFIER_VALUE + bool_u8 (km_alt m) * ALT_MODIFIER_VALUE +
            bool_u8 (km_control m) * CONTROL_MODIFIER_VALUE
      in if modifier_value \<noteq> 0 then Some (CSI_MODIFIER_BASE + modifier_value) else None)"

definition encode_control :: "rust_char \<Rightarrow> u8 option" where
  "encode_control c =
     (if 0x40 \<le> c \<and> c \<le> 0x5f then Some (of_nat (c - 0x40))
      else if 0x61 \<le> c \<and> c \<le> 0x7a then Some (of_nat (c - 0x61 + 1))
      else if c = 0x32 then Some 0x00
      else if c = 0x33 then Some 0x1b
      else if c = 0x34 then Some 0x1c
      else if c = 0x35 then Some 0x1d
      else if c = 0x36 then Some 0x1e
      else if c = 0x37 then Some 0x1f
      else if c = 0x38 \<or> c = 0x3f then Some 0x7f
      else None)"

definition encode_cursor_key :: "u8 \<Rightarrow> key_modifiers \<Rightarrow> cursor_key_mode \<Rightarrow> bytes" where
  "encode_cursor_key final_byte modifiers mode =
     (case key_modifier_parameter modifiers of
        Some parameter \<Rightarrow> [0x1b, 0x5b, 0x31, 0x3b] @ decimal (unat parameter) @ [final_byte]
      | None \<Rightarrow> [0x1b, case mode of NormalCursor \<Rightarrow> 0x5b | ApplicationCursor \<Rightarrow> 0x4f, final_byte])"

text \<open>The parameter of the function keys 5 to 12; the source's \<open>unreachable!\<close> is the last case.\<close>

definition function_key_parameter :: "u8 \<Rightarrow> nat" where
  "function_key_parameter number =
     (if number = 5 then 15 else if number = 6 then 17 else if number = 7 then 18 else if number = 8 then 19
      else if number = 9 then 20 else if number = 10 then 21 else if number = 11 then 23 else 24)"

definition encode_function_key :: "u8 \<Rightarrow> key_modifiers \<Rightarrow> bytes option" where
  "encode_function_key number modifiers =
     (if 1 \<le> number \<and> number \<le> 4 then
        Some (case key_modifier_parameter modifiers of
                None \<Rightarrow> [0x1b, 0x4f, 0x50 + number - 1]
              | Some parameter \<Rightarrow> [0x1b, 0x5b, 0x31, 0x3b] @ decimal (unat parameter) @ [0x50 + number - 1])
      else if 5 \<le> number \<and> number \<le> 12 then
        Some (case key_modifier_parameter modifiers of
                Some parameter \<Rightarrow>
                  [0x1b, 0x5b] @ decimal (function_key_parameter number) @ [0x3b] @ decimal (unat parameter) @ [0x7e]
              | None \<Rightarrow> [0x1b, 0x5b] @ decimal (function_key_parameter number) @ [0x7e])
      else None)"

definition encode_key_with_mode :: "key_event \<Rightarrow> cursor_key_mode \<Rightarrow> bytes option" where
  "encode_key_with_mode event mode =
     (let modifiers = ke_modifiers event in
      case ke_code event of
        CharKey c \<Rightarrow>
          if km_control modifiers then map_option (\<lambda>byte. [byte]) (encode_control c)
          else Some ((if km_alt modifiers then [0x1b] else []) @ encode_utf8 c)
      | EnterKey \<Rightarrow> Some [0x0d]
      | BackspaceKey \<Rightarrow> Some [0x7f]
      | TabKey \<Rightarrow> Some [0x09]
      | BackTabKey \<Rightarrow> Some [0x1b, 0x5b, 0x5a]
      | EscKey \<Rightarrow> Some [0x1b]
      | UpKey \<Rightarrow> Some (encode_cursor_key 0x41 modifiers mode)
      | DownKey \<Rightarrow> Some (encode_cursor_key 0x42 modifiers mode)
      | RightKey \<Rightarrow> Some (encode_cursor_key 0x43 modifiers mode)
      | LeftKey \<Rightarrow> Some (encode_cursor_key 0x44 modifiers mode)
      | HomeKey \<Rightarrow> Some [0x1b, 0x5b, 0x48]
      | EndKey \<Rightarrow> Some [0x1b, 0x5b, 0x46]
      | PageUpKey \<Rightarrow> Some [0x1b, 0x5b, 0x35, 0x7e]
      | PageDownKey \<Rightarrow> Some [0x1b, 0x5b, 0x36, 0x7e]
      | InsertKey \<Rightarrow> Some [0x1b, 0x5b, 0x32, 0x7e]
      | DeleteKey \<Rightarrow> Some [0x1b, 0x5b, 0x33, 0x7e]
      | FunctionKey number \<Rightarrow> encode_function_key number modifiers
      | OtherKey \<Rightarrow> None)"

definition encode_key :: "key_event \<Rightarrow> bytes option" where
  "encode_key event = encode_key_with_mode event NormalCursor"

subsection \<open>Model: instructions, paste, mouse and focus\<close>

definition bytes_instruction :: "bytes \<Rightarrow> instruction" where
  "bytes_instruction v = \<lparr>in_bytes = Some (ByteRun v), in_viewport = None, in_marker = None, in_session_control = None\<rparr>"

definition viewport_instruction :: "u16 \<Rightarrow> u16 \<Rightarrow> instruction" where
  "viewport_instruction columns rows =
     \<lparr>in_bytes = None, in_viewport = Some \<lparr>vp_columns = ucast columns, vp_rows = ucast rows\<rparr>, in_marker = None,
      in_session_control = None\<rparr>"

definition encode_paste_with_mode :: "bytes \<Rightarrow> bool \<Rightarrow> bytes" where
  "encode_paste_with_mode contents bracketed_paste =
     (if \<not> bracketed_paste then contents
      else [0x1b, 0x5b, 0x32, 0x30, 0x30, 0x7e] @ contents @ [0x1b, 0x5b, 0x32, 0x30, 0x31, 0x7e])"

definition encode_paste :: "bytes \<Rightarrow> bytes" where
  "encode_paste contents = encode_paste_with_mode contents True"

datatype mouse_tracking_mode = MouseDisabled | MousePress | MousePressRelease | MouseButtonMotion | MouseAnyMotion
datatype mouse_encoding = MouseDefault | MouseUtf8 | MouseSgr
datatype mouse_button = LeftButton | MiddleButton | RightButton
datatype mouse_event_kind =
    MouseDown mouse_button | MouseUp mouse_button | MouseDrag mouse_button | MouseMoved
  | MouseScrollUp | MouseScrollDown | MouseScrollLeft | MouseScrollRight

record mouse_event =
  me_kind :: mouse_event_kind
  me_column :: u16
  me_row :: u16
  me_modifiers :: key_modifiers

fun mouse_button_code :: "mouse_button \<Rightarrow> u16" where
  "mouse_button_code LeftButton = 0"
| "mouse_button_code MiddleButton = 1"
| "mouse_button_code RightButton = 2"

fun mouse_event_is_reportable :: "mouse_event_kind \<Rightarrow> mouse_tracking_mode \<Rightarrow> bool" where
  "mouse_event_is_reportable kind MouseDisabled = False"
| "mouse_event_is_reportable kind MousePress =
     (case kind of MouseDown _ \<Rightarrow> True | MouseScrollUp \<Rightarrow> True | MouseScrollDown \<Rightarrow> True | MouseScrollLeft \<Rightarrow> True
      | MouseScrollRight \<Rightarrow> True | _ \<Rightarrow> False)"
| "mouse_event_is_reportable kind MousePressRelease =
     (case kind of MouseDrag _ \<Rightarrow> False | MouseMoved \<Rightarrow> False | _ \<Rightarrow> True)"
| "mouse_event_is_reportable kind MouseButtonMotion = (kind \<noteq> MouseMoved)"
| "mouse_event_is_reportable kind MouseAnyMotion = True"

fun mouse_base_code :: "mouse_event_kind \<Rightarrow> u16 \<times> bool" where
  "mouse_base_code (MouseDown button) = (mouse_button_code button, False)"
| "mouse_base_code (MouseUp button) = (mouse_button_code button, True)"
| "mouse_base_code (MouseDrag button) = (mouse_button_code button + 32, False)"
| "mouse_base_code MouseMoved = (35, False)"
| "mouse_base_code MouseScrollUp = (64, False)"
| "mouse_base_code MouseScrollDown = (65, False)"
| "mouse_base_code MouseScrollLeft = (66, False)"
| "mouse_base_code MouseScrollRight = (67, False)"

definition u8_try_from :: "nat \<Rightarrow> u8 option" where
  "u8_try_from v = (if v < 256 then Some (of_nat v) else None)"

definition encode_legacy_mouse :: "mouse_event \<Rightarrow> u16 \<Rightarrow> bool \<Rightarrow> bool \<Rightarrow> bytes option" where
  "encode_legacy_mouse event code released utf8 =
     (let legacy_code = (if released then 3 else code) + 32;
          column = (ucast (me_column event) :: u32) + 33;
          row = (ucast (me_row event) :: u32) + 33
      in if utf8 then
           (case (char_from_u32 (ucast legacy_code), char_from_u32 column, char_from_u32 row) of
              (Some a, Some b, Some c) \<Rightarrow> Some ([0x1b, 0x5b, 0x4d] @ encode_utf8 a @ encode_utf8 b @ encode_utf8 c)
            | _ \<Rightarrow> None)
         else
           (case (u8_try_from (unat legacy_code), u8_try_from (unat column), u8_try_from (unat row)) of
              (Some a, Some b, Some c) \<Rightarrow> Some ([0x1b, 0x5b, 0x4d] @ [a, b, c])
            | _ \<Rightarrow> None))"

definition encode_mouse_with_mode :: "mouse_event \<Rightarrow> mouse_tracking_mode \<Rightarrow> mouse_encoding \<Rightarrow> bytes option" where
  "encode_mouse_with_mode event tracking encoding =
     (if \<not> mouse_event_is_reportable (me_kind event) tracking then None
      else
        let (base_code, released) = mouse_base_code (me_kind event);
            modifier_code = bool_u16 (km_shift (me_modifiers event)) * 4 + bool_u16 (km_alt (me_modifiers event)) * 8 +
              bool_u16 (km_control (me_modifiers event)) * 16;
            code = base_code + modifier_code
        in (case encoding of
              MouseSgr \<Rightarrow>
                Some ([0x1b, 0x5b, 0x3c] @ decimal (unat code) @ [0x3b] @
                  decimal (unat ((ucast (me_column event) :: u32) + 1)) @ [0x3b] @
                  decimal (unat ((ucast (me_row event) :: u32) + 1)) @ [if released then 0x6d else 0x4d])
            | MouseDefault \<Rightarrow> encode_legacy_mouse event code released False
            | MouseUtf8 \<Rightarrow> encode_legacy_mouse event code released True))"

definition encode_mouse :: "mouse_event \<Rightarrow> bytes option" where
  "encode_mouse event = encode_mouse_with_mode event MouseAnyMotion MouseSgr"

definition encode_focus :: "bool \<Rightarrow> bytes" where
  "encode_focus focused = (if focused then [0x1b, 0x5b, 0x49] else [0x1b, 0x5b, 0x4f])"

definition encode_focus_with_mode :: "bool \<Rightarrow> bool \<Rightarrow> bytes option" where
  "encode_focus_with_mode focused focus_reporting = (if focus_reporting then Some (encode_focus focused) else None)"

end
