(* ===== verification/Input_Promises.thy ===== *)
theory Input_Promises
  imports Terminal_Input
begin

section \<open>Local input: nothing lost, everything decodable\<close>

text \<open>
  The command prefix is transparent to input that is no local command, and typed twice it is not what the help text
  says. Key and mouse reports read back to the event they encode, by readers written from the conventions of xterm and
  not from the encoders.
\<close>

subsection \<open>The command prefix\<close>

definition held_prefix :: "escape_interpreter \<Rightarrow> bytes" where
  "held_prefix ei = (if ei_prefix_held ei then [ei_escape_byte ei] else [])"

fun forwarded :: "escape_action \<Rightarrow> bytes" where
  "forwarded (Forward bs) = bs"
| "forwarded _ = []"

text \<open>
  Input that asks for a local command or for the literal prefix when the prefix is held, by the code or by the help
  text, which promises the literal prefix for the prefix typed twice.
\<close>

definition local_command :: "u8 \<Rightarrow> bytes \<Rightarrow> bool" where
  "local_command escape_byte bs \<longleftrightarrow>
     bs = [0x2e] \<or> bs = [0x3f] \<or> bs = [0x1a] \<or> bs = [literal_escape_suffix (escape_interpreter_new escape_byte)] \<or>
     bs = [escape_byte]"

lemma literal_escape_suffix_cong:
  "ei_escape_byte ei = ei_escape_byte ei' \<Longrightarrow> literal_escape_suffix ei = literal_escape_suffix ei'"
  by (simp add: literal_escape_suffix_def)

lemma escape_input_conserves:
  assumes "escape_input ei bs = (action, ei')"
  shows "ei_escape_byte ei' = ei_escape_byte ei \<and>
    (ei_prefix_held ei \<longrightarrow> \<not> local_command (ei_escape_byte ei) bs \<longrightarrow>
       forwarded action @ held_prefix ei' = held_prefix ei @ bs) \<and>
    (\<not> ei_prefix_held ei \<longrightarrow> forwarded action @ held_prefix ei' = held_prefix ei @ bs)"
proof -
  have "literal_escape_suffix (ei\<lparr>ei_prefix_held := False\<rparr>) =
      literal_escape_suffix (escape_interpreter_new (ei_escape_byte ei))"
    by (rule literal_escape_suffix_cong) (simp add: escape_interpreter_new_def)
  with assms show ?thesis
    by (auto simp: escape_input_def forward_def held_prefix_def local_command_def Let_def split: if_splits)
qed

text \<open>No input in the sequence is a local command at a point where the prefix is held.\<close>

fun no_commands :: "escape_interpreter \<Rightarrow> bytes list \<Rightarrow> bool" where
  "no_commands ei [] = True"
| "no_commands ei (bs # inputs) =
     ((ei_prefix_held ei \<longrightarrow> \<not> local_command (ei_escape_byte ei) bs) \<and> no_commands (snd (escape_input ei bs)) inputs)"

text \<open>
  C34. The command prefix is transparent. Over any sequence of key inputs in which a held prefix is never
  followed by a local command, by the letter that asks for the literal prefix or by the prefix again, what is
  forwarded to the server, followed by a prefix still held back, is exactly the input; and \<open>flush\<close> releases the
  held prefix. A held prefix followed by anything else is delivered with it, in order.
\<close>

theorem command_prefix_transparent:
  assumes "no_commands (escape_interpreter_new escape_byte) inputs"
    and "run escape_input (escape_interpreter_new escape_byte) inputs = (actions, ei)"
  shows "concat (map forwarded actions) @ (case fst (escape_flush ei) of None \<Rightarrow> [] | Some prefix \<Rightarrow> prefix) = concat inputs"
proof -
  have "concat (map forwarded (fst (run escape_input s inputs))) @ held_prefix (snd (run escape_input s inputs)) =
      held_prefix s @ concat inputs" if "no_commands s inputs" for s
    using that
  proof (induction inputs arbitrary: s)
    case (Cons bs inputs)
    obtain action s' where step: "escape_input s bs = (action, s')" by fastforce
    with Cons escape_input_conserves [OF step] show ?case
      by (cases "ei_prefix_held s") (auto simp: run_Cons_fst run_Cons_snd simp del: run.simps(2))
  qed simp
  from this [OF assms(1)] assms(2) show ?thesis
    by (simp add: escape_flush_def held_prefix_def escape_interpreter_new_def split: if_splits)
qed

text \<open>
  C35. The prefix typed twice is not a literal prefix, although the help text says so in both languages. For a control
  prefix other than Ctrl-Z, such as the default, the second prefix is forwarded together with the held one: the
  server receives two prefix bytes. One prefix is sent by the prefix followed by the prefix's letter.
\<close>

theorem doubled_prefix_forwards_both:
  assumes "1 \<le> escape_byte" "escape_byte \<le> 31" "escape_byte \<noteq> 0x1a"
  shows "fst (run escape_input (escape_interpreter_new escape_byte) [[escape_byte], [escape_byte]]) =
      [Hold, Forward [escape_byte, escape_byte]] \<and>
    fst (run escape_input (escape_interpreter_new escape_byte) [[escape_byte], [escape_byte + 64]]) =
      [Hold, Forward [escape_byte]]"
proof -
  have b: "1 \<le> unat escape_byte" "unat escape_byte \<le> 31" "unat (escape_byte + 64) = unat escape_byte + 64"
    using assms by (auto simp: word_le_nat_alt unat_word_ariths)
  have "escape_byte \<noteq> 0x2e" "escape_byte \<noteq> 0x3f" "\<not> is_ascii_graphic escape_byte" "escape_byte \<noteq> 0x20"
    "escape_byte \<noteq> escape_byte + 64" "escape_byte + 64 \<noteq> 0x2e" "escape_byte + 64 \<noteq> 0x3f" "escape_byte + 64 \<noteq> 0x1a"
    using b by (auto simp: is_ascii_graphic_def word_le_nat_alt word_unat_eq_iff)
  with assms show ?thesis
    by (simp add: escape_input_def escape_interpreter_new_def literal_escape_suffix_def forward_def)
qed

subsection \<open>Keys\<close>

text \<open>A decimal number at the front of a report.\<close>

definition take_number :: "bytes \<Rightarrow> nat \<times> bytes" where
  "take_number bs = (digits_value (takeWhile is_digit bs), dropWhile is_digit bs)"

lemma take_number_decimal:
  assumes "\<not> is_digit b"
  shows "take_number (decimal n @ b # rest) = (n, b # rest)"
  using decimal_digits [of n] assms
  by (simp add: take_number_def takeWhile_append2 dropWhile_append2 list_all_iff)

lemma not_digits [simp]: "\<not> is_digit 0x3b" "\<not> is_digit 0x6d" "\<not> is_digit 0x4d" "\<not> is_digit 0x7e"
  by (simp_all add: is_digit_def)

text \<open>
  A reader of the sequences of xterm: after \<open>ESC [\<close> or \<open>ESC O\<close> come an optional number, an optional modifier parameter
  and a final byte. A final letter names the key; a final tilde leaves the name to the number. The modifier parameter
  is one more than the sum of 1 for Shift, 2 for Alt and 4 for Control.
\<close>

definition letter_key :: "u8 \<Rightarrow> key_code option" where
  "letter_key = map_of
     [(0x41, UpKey), (0x42, DownKey), (0x43, RightKey), (0x44, LeftKey), (0x46, EndKey), (0x48, HomeKey), (0x5a, BackTabKey),
      (0x50, FunctionKey 1), (0x51, FunctionKey 2), (0x52, FunctionKey 3), (0x53, FunctionKey 4)]"

definition tilde_key :: "nat \<Rightarrow> key_code option" where
  "tilde_key = map_of
     [(2, InsertKey), (3, DeleteKey), (5, PageUpKey), (6, PageDownKey), (15, FunctionKey 5), (17, FunctionKey 6),
      (18, FunctionKey 7), (19, FunctionKey 8), (20, FunctionKey 9), (21, FunctionKey 10), (23, FunctionKey 11),
      (24, FunctionKey 12)]"

definition read_modifiers :: "nat \<Rightarrow> key_modifiers" where
  "read_modifiers parameter =
     \<lparr>km_shift = odd (parameter - 1), km_alt = odd ((parameter - 1) div 2), km_control = odd ((parameter - 1) div 4)\<rparr>"

definition named_key :: "nat \<Rightarrow> u8 \<Rightarrow> nat \<Rightarrow> (key_code \<times> key_modifiers) option" where
  "named_key number final parameter =
     map_option (\<lambda>key. (key, read_modifiers parameter)) (if final = 0x7e then tilde_key number else letter_key final)"

definition read_key :: "bytes \<Rightarrow> (key_code \<times> key_modifiers) option" where
  "read_key bs =
     (if take 2 bs \<noteq> [0x1b, 0x4f] \<and> take 2 bs \<noteq> [0x1b, 0x5b] then None
      else
        let (number, rest) = take_number (drop 2 bs) in
        (case rest of
           [final] \<Rightarrow> named_key number final 1
         | separator # others \<Rightarrow>
             (case take_number others of
                (parameter, [final]) \<Rightarrow> if separator = 0x3b then named_key number final parameter else None
              | _ \<Rightarrow> None)
         | [] \<Rightarrow> None))"

text \<open>The keys that are sent as such a sequence, and those of them that carry their modifiers.\<close>

fun sequence_key :: "key_code \<Rightarrow> bool" where
  "sequence_key (CharKey _) = False" | "sequence_key EnterKey = False" | "sequence_key BackspaceKey = False"
| "sequence_key TabKey = False" | "sequence_key EscKey = False" | "sequence_key OtherKey = False"
| "sequence_key _ = True"

fun modifiable_key :: "key_code \<Rightarrow> bool" where
  "modifiable_key UpKey = True" | "modifiable_key DownKey = True" | "modifiable_key RightKey = True"
| "modifiable_key LeftKey = True" | "modifiable_key (FunctionKey _) = True" | "modifiable_key _ = False"

lemma modifiers_read_back:
  "case key_modifier_parameter m of None \<Rightarrow> read_modifiers 1 = m | Some parameter \<Rightarrow> read_modifiers (unat parameter) = m"
proof (cases m)
  case (fields shift alt control)
  then show ?thesis
    by (cases shift; cases alt; cases control)
      (simp_all add: key_modifier_parameter_def read_modifiers_def bool_u8_def SHIFT_MODIFIER_VALUE_def
        ALT_MODIFIER_VALUE_def CONTROL_MODIFIER_VALUE_def CSI_MODIFIER_BASE_def)
qed

lemma read_key_plain:
  assumes "\<not> is_digit final" "prefix = [0x1b, 0x4f] \<or> prefix = [0x1b, 0x5b]"
  shows "read_key (prefix @ [final]) = named_key 0 final 1"
  using assms by (auto simp: read_key_def take_number_def digits_value_def)

lemma read_key_number:
  assumes "\<not> is_digit final" "final \<noteq> 0x3b"
  shows "read_key ([0x1b, 0x5b] @ decimal number @ [final]) = named_key number final 1"
    "read_key ([0x1b, 0x5b] @ decimal number @ [0x3b] @ decimal parameter @ [final]) = named_key number final parameter"
  using assms take_number_decimal [of final number "[]"] take_number_decimal [of "0x3b" number "decimal parameter @ [final]"]
    take_number_decimal [of final parameter "[]"] decimal_digits [of parameter]
  by (auto simp: read_key_def split: list.splits)

lemma decimal_1 [simp]: "decimal (Suc 0) = [0x31]"
  by (simp add: decimal.simps)

lemma cursor_read_back:
  assumes "letter_key final = Some key" "\<not> is_digit final" "final \<noteq> 0x3b" "final \<noteq> 0x7e"
  shows "read_key (encode_cursor_key final m mode) = Some (key, m)"
  using assms modifiers_read_back [of m] read_key_plain [OF assms(2), of "[0x1b, 0x4f]"] read_key_plain [OF assms(2), of "[0x1b, 0x5b]"]
    read_key_number(2) [OF assms(2,3), of 1]
  by (cases "key_modifier_parameter m"; cases mode) (simp_all add: encode_cursor_key_def named_key_def)

lemma function_key_numbers:
  assumes "1 \<le> number" "number \<le> (12 :: u8)"
  shows "number \<in> {1, 2, 3, 4, 5, 6, 7, 8, 9, 10, 11, 12}"
proof -
  have "1 \<le> unat number" "unat number \<le> 12" using assms by (simp_all add: word_le_nat_alt)
  then have "unat number \<in> {1, 2, 3, 4, 5, 6, 7, 8, 9, 10, 11, 12}" unfolding insert_iff empty_iff by presburger
  then show ?thesis by (auto simp: word_unat_eq_iff)
qed

lemma function_read_back:
  assumes "encode_function_key number m = Some out"
  shows "read_key out = Some (FunctionKey number, m)"
proof -
  have "1 \<le> number" "number \<le> 12" using assms by (auto simp: encode_function_key_def word_le_nat_alt split: if_splits)
  from function_key_numbers [OF this] consider (small) "number \<in> {1, 2, 3, 4}" | (large) "number \<in> {5, 6, 7, 8, 9, 10, 11, 12}"
    by blast
  then show ?thesis
  proof cases
    case small
    let ?final = "0x50 + number - 1"
    have key: "letter_key ?final = Some (FunctionKey number)" "\<not> is_digit ?final" "?final \<noteq> 0x3b" "?final \<noteq> 0x7e"
      using small by (auto simp: letter_key_def is_digit_def)
    have "out = (case key_modifier_parameter m of None \<Rightarrow> [0x1b, 0x4f] @ [?final]
        | Some parameter \<Rightarrow> [0x1b, 0x5b] @ decimal 1 @ [0x3b] @ decimal (unat parameter) @ [?final])"
      using assms small by (auto simp: encode_function_key_def split: option.splits)
    with key modifiers_read_back [of m] read_key_plain [OF key(2), of "[0x1b, 0x4f]"] read_key_number(2) [OF key(2,3), of 1]
    show ?thesis by (auto simp: named_key_def split: option.splits)
  next
    case large
    have key: "tilde_key (function_key_parameter number) = Some (FunctionKey number)"
      using large by (auto simp: tilde_key_def function_key_parameter_def)
    have "out = [0x1b, 0x5b] @ decimal (function_key_parameter number) @
        (case key_modifier_parameter m of None \<Rightarrow> [] | Some parameter \<Rightarrow> [0x3b] @ decimal (unat parameter)) @ [0x7e]"
      using assms large by (auto simp: encode_function_key_def split: option.splits)
    with key modifiers_read_back [of m] read_key_number [of "0x7e" "function_key_parameter number"]
    show ?thesis by (auto simp: named_key_def split: option.splits)
  qed
qed

lemma cursors_read_back:
  "read_key (encode_cursor_key 0x41 m mode) = Some (UpKey, m)" "read_key (encode_cursor_key 0x42 m mode) = Some (DownKey, m)"
  "read_key (encode_cursor_key 0x43 m mode) = Some (RightKey, m)" "read_key (encode_cursor_key 0x44 m mode) = Some (LeftKey, m)"
  by (rule cursor_read_back; simp add: letter_key_def is_digit_def)+

lemma fixed_keys_read_back:
  "read_key [0x1b, 0x5b, 0x5a] = Some (BackTabKey, read_modifiers 1)" "read_key [0x1b, 0x5b, 0x48] = Some (HomeKey, read_modifiers 1)"
  "read_key [0x1b, 0x5b, 0x46] = Some (EndKey, read_modifiers 1)" "read_key [0x1b, 0x5b, 0x35, 0x7e] = Some (PageUpKey, read_modifiers 1)"
  "read_key [0x1b, 0x5b, 0x36, 0x7e] = Some (PageDownKey, read_modifiers 1)"
  "read_key [0x1b, 0x5b, 0x32, 0x7e] = Some (InsertKey, read_modifiers 1)"
  "read_key [0x1b, 0x5b, 0x33, 0x7e] = Some (DeleteKey, read_modifiers 1)"
  by (simp_all add: read_key_def take_number_def is_digit_def digits_value_def digit_value_def named_key_def letter_key_def
      tilde_key_def)

lemma sequence_read_back:
  assumes "encode_key_with_mode event mode = Some out" "sequence_key (ke_code event)"
  shows "read_key out =
    Some (ke_code event, if modifiable_key (ke_code event) then ke_modifiers event else read_modifiers 1)"
proof (cases "ke_code event")
  case (FunctionKey number)
  with assms function_read_back [of number] show ?thesis by (simp add: encode_key_with_mode_def)
qed (use assms cursors_read_back fixed_keys_read_back in \<open>auto simp: encode_key_with_mode_def\<close>)

lemma control_byte:
  assumes "encode_control c = Some byte"
  shows "(byte < 0x20 \<or> byte = 0x7f) \<and> (64 \<le> c \<longrightarrow> unat byte = c mod 32)"
proof -
  have upper: "unat (of_nat (c - 64) :: u8) = c mod 32" "of_nat (c - 64) < (0x20 :: u8)" if "64 \<le> c" "c \<le> 95"
  proof -
    have "c - 64 = c mod 32" using that mod_mult_self1 [of "c - 64" 2 32] by simp
    with that show "unat (of_nat (c - 64) :: u8) = c mod 32" "of_nat (c - 64) < (0x20 :: u8)"
      by (simp_all add: word_less_nat_alt del: of_nat_diff)
  qed
  have lower: "unat (of_nat (c - 97 + 1) :: u8) = c mod 32" "of_nat (c - 97 + 1) < (0x20 :: u8)" if "97 \<le> c" "c \<le> 122"
  proof -
    have "c - 97 + 1 = c mod 32" using that mod_mult_self1 [of "c - 96" 3 32] by simp
    with that show "unat (of_nat (c - 97 + 1) :: u8) = c mod 32" "of_nat (c - 97 + 1) < (0x20 :: u8)"
      by (simp_all add: word_less_nat_alt del: of_nat_add of_nat_Suc of_nat_diff)
  qed
  show ?thesis
    using assms upper lower unfolding encode_control_def
    by (auto split: if_splits simp del: of_nat_add of_nat_Suc of_nat_diff)
qed

lemma char_read_back:
  assumes "is_scalar c" "encode_key_with_mode event mode = Some out" "ke_code event = CharKey c"
  shows "\<not> km_control (ke_modifiers event) \<Longrightarrow>
      from_utf8 out = Some ((if km_alt (ke_modifiers event) then [0x1b] else []) @ [c])"
    and "km_control (ke_modifiers event) \<Longrightarrow>
      \<exists>byte. out = [byte] \<and> (byte < 0x20 \<or> byte = 0x7f) \<and> (64 \<le> c \<longrightarrow> unat byte = c mod 32)"
  using assms from_utf8_encode [of "(if km_alt (ke_modifiers event) then [0x1b] else []) @ [c]"] control_byte [of c]
  by (auto simp: encode_key_with_mode_def Let_def is_scalar_def encode_utf8_def [of 27] split: if_splits)

text \<open>
  C36. Keys read back. What is sent for a cursor or function key reads back, by the conventions of xterm, to the key and
  its modifiers in either cursor-key mode; a Home, End, paging, Insert, Delete or back-tab key reads back to the key
  without modifiers. A character without Control is its UTF-8 encoding, preceded by an escape if Alt is held, and
  decodes to it; with Control it is one control byte, for a letter its number in the alphabet. Enter, Backspace, Tab
  and Escape are their control bytes.
\<close>

theorem keys_decodable:
  assumes "\<And>c. ke_code event = CharKey c \<Longrightarrow> is_scalar c"
    and "encode_key_with_mode event mode = Some out"
  shows "(sequence_key (ke_code event) \<longrightarrow> read_key out =
       Some (ke_code event, if modifiable_key (ke_code event) then ke_modifiers event else read_modifiers 1)) \<and>
    (\<forall>c. ke_code event = CharKey c \<and> \<not> km_control (ke_modifiers event) \<longrightarrow>
       from_utf8 out = Some ((if km_alt (ke_modifiers event) then [0x1b] else []) @ [c])) \<and>
    (\<forall>c. ke_code event = CharKey c \<and> km_control (ke_modifiers event) \<longrightarrow>
       (\<exists>byte. out = [byte] \<and> (byte < 0x20 \<or> byte = 0x7f) \<and> (64 \<le> c \<longrightarrow> unat byte = c mod 32))) \<and>
    (ke_code event = EnterKey \<longrightarrow> out = [0x0d]) \<and> (ke_code event = BackspaceKey \<longrightarrow> out = [0x7f]) \<and>
    (ke_code event = TabKey \<longrightarrow> out = [0x09]) \<and> (ke_code event = EscKey \<longrightarrow> out = [0x1b])"
proof (cases "sequence_key (ke_code event)")
  case True
  with sequence_read_back [OF assms(2)] show ?thesis by auto
next
  case False
  show ?thesis
  proof (cases "ke_code event")
    case (CharKey c)
    with assms(1) char_read_back [OF _ assms(2) CharKey] show ?thesis by auto
  qed (use False assms(2) in \<open>auto simp: encode_key_with_mode_def\<close>)
qed

subsection \<open>Mouse reports\<close>

text \<open>
  A reader of mouse reports. The two low bits of the code are the button, 4, 8 and 16 are Shift, Alt and Control, 32
  marks a motion and 64 the wheel. An SGR report ends in \<open>m\<close> for a release and in \<open>M\<close> otherwise.
\<close>

definition button_of :: "nat \<Rightarrow> mouse_button" where
  "button_of n = [LeftButton, MiddleButton, RightButton] ! n"

definition read_kind :: "nat \<Rightarrow> bool \<Rightarrow> mouse_event_kind" where
  "read_kind code released =
     (if 64 \<le> code then [MouseScrollUp, MouseScrollDown, MouseScrollLeft, MouseScrollRight] ! (code mod 4)
      else if 32 \<le> code then (if code mod 4 = 3 then MouseMoved else MouseDrag (button_of (code mod 4)))
      else if released then MouseUp (button_of (code mod 4))
      else MouseDown (button_of (code mod 4)))"

definition read_mouse_modifiers :: "nat \<Rightarrow> key_modifiers" where
  "read_mouse_modifiers code = \<lparr>km_shift = odd (code div 4), km_alt = odd (code div 8), km_control = odd (code div 16)\<rparr>"

definition read_report :: "nat \<Rightarrow> bool \<Rightarrow> nat \<Rightarrow> nat \<Rightarrow> mouse_event" where
  "read_report code released column row =
     \<lparr>me_kind = read_kind code released, me_column = of_nat (column - 1), me_row = of_nat (row - 1),
      me_modifiers = read_mouse_modifiers code\<rparr>"

definition read_sgr :: "bytes \<Rightarrow> mouse_event option" where
  "read_sgr bs =
     (if take 3 bs \<noteq> [0x1b, 0x5b, 0x3c] then None
      else
        let (code, rest) = take_number (drop 3 bs); (column, rest) = take_number (tl rest); (row, rest) = take_number (tl rest)
        in if rest = [0x6d] then Some (read_report code True column row)
           else if rest = [0x4d] then Some (read_report code False column row)
           else None)"

lemma unat_coordinate: "n < 1000 \<Longrightarrow> unat ((ucast (w :: u16) :: u32) + of_nat n) = unat w + n"
  using unat_u16_less [of w]
  by (simp add: unat_word_ariths unsigned_ucast_eq take_bit_nat_eq_self unat_of_nat)

text \<open>The code of a report: the event's own and the modifiers, as natural numbers.\<close>

definition report_code :: "mouse_event \<Rightarrow> nat" where
  "report_code event =
     (case me_kind event of
        MouseDown button \<Rightarrow> unat (mouse_button_code button)
      | MouseUp button \<Rightarrow> unat (mouse_button_code button)
      | MouseDrag button \<Rightarrow> unat (mouse_button_code button) + 32
      | MouseMoved \<Rightarrow> 35 | MouseScrollUp \<Rightarrow> 64 | MouseScrollDown \<Rightarrow> 65 | MouseScrollLeft \<Rightarrow> 66 | MouseScrollRight \<Rightarrow> 67) +
     (if km_shift (me_modifiers event) then 4 else 0) + (if km_alt (me_modifiers event) then 8 else 0) +
     (if km_control (me_modifiers event) then 16 else 0)"

definition releases :: "mouse_event \<Rightarrow> bool" where
  "releases event \<longleftrightarrow> (\<exists>button. me_kind event = MouseUp button)"

lemma report_code_read_back:
  "read_kind (report_code event) (releases event) = me_kind event" (is ?kind)
  "read_mouse_modifiers (report_code event) = me_modifiers event" (is ?modifiers)
proof -
  obtain shift alt control where m: "me_modifiers event = \<lparr>km_shift = shift, km_alt = alt, km_control = control\<rparr>"
    by (cases "me_modifiers event")
  note simps = read_kind_def read_mouse_modifiers_def report_code_def releases_def button_of_def m
  have "?kind \<and> ?modifiers"
  proof (cases "me_kind event")
    case (MouseDown button)
    then show ?thesis by (cases button; cases shift; cases alt; cases control) (simp_all add: simps)
  next
    case (MouseUp button)
    then show ?thesis by (cases button; cases shift; cases alt; cases control) (simp_all add: simps)
  next
    case (MouseDrag button)
    then show ?thesis by (cases button; cases shift; cases alt; cases control) (simp_all add: simps)
  qed (cases shift; cases alt; cases control; simp add: simps)+
  then show ?kind ?modifiers by simp_all
qed

lemma report_read_back:
  "read_report (report_code event) (releases event) (unat (me_column event) + 1) (unat (me_row event) + 1) = event"
  by (simp add: read_report_def report_code_read_back)

text \<open>
  The legacy encodings have one code for the release of any button, without modifiers; every other code reads back to
  the event.
\<close>

definition legacy_reads :: "mouse_event \<Rightarrow> nat \<Rightarrow> bool" where
  "legacy_reads event code \<longleftrightarrow>
     (if releases event then code = 3
      else read_report code False (unat (me_column event) + 1) (unat (me_row event) + 1) = event)"

lemma legacy_reads_report: "legacy_reads event (if releases event then 3 else report_code event)"
  using report_read_back [of event] by (cases "releases event") (simp_all add: legacy_reads_def)

definition wire_code :: "mouse_event \<Rightarrow> u16" where
  "wire_code event = fst (mouse_base_code (me_kind event)) +
     (bool_u16 (km_shift (me_modifiers event)) * 4 + bool_u16 (km_alt (me_modifiers event)) * 8 +
      bool_u16 (km_control (me_modifiers event)) * 16)"

lemma wire_code_report: "unat (wire_code event) = report_code event \<and> report_code event \<le> 95"
proof -
  have b: "unat (mouse_button_code b) \<le> 2" "unat (mouse_button_code b + 32) = unat (mouse_button_code b) + 32" for b
    by (cases b; simp)+
  define m where "m = bool_u16 (km_shift (me_modifiers event)) * 4 + bool_u16 (km_alt (me_modifiers event)) * 8 +
    bool_u16 (km_control (me_modifiers event)) * 16"
  have m: "unat m = (if km_shift (me_modifiers event) then 4 else 0) + (if km_alt (me_modifiers event) then 8 else 0) +
      (if km_control (me_modifiers event) then 16 else 0)" "unat m \<le> 28"
    by (simp_all add: m_def bool_u16_def)
  have "unat (fst (mouse_base_code (me_kind event))) + unat m = report_code event \<and>
      unat (fst (mouse_base_code (me_kind event))) \<le> 67"
  proof (cases "me_kind event")
    case (MouseDown x)
    with b(1) [of x] show ?thesis by (simp add: report_code_def m(1))
  next
    case (MouseUp x)
    with b(1) [of x] show ?thesis by (simp add: report_code_def m(1))
  next
    case (MouseDrag x)
    with b [of x] show ?thesis by (simp add: report_code_def m(1))
  qed (simp_all add: report_code_def m(1))
  then have k: "unat (fst (mouse_base_code (me_kind event))) = report_code event - unat m" "unat m \<le> report_code event"
    "report_code event - unat m \<le> 67" by auto
  then have "unat (wire_code event) = report_code event"
    using m(2) by (simp add: wire_code_def m_def [symmetric] unat_word_ariths)
  with k m(2) show ?thesis by simp
qed

lemma mouse_encodings:
  assumes "mouse_event_is_reportable (me_kind event) tracking"
  shows "encode_mouse_with_mode event tracking encoding =
    (case encoding of
       MouseSgr \<Rightarrow> Some ([0x1b, 0x5b, 0x3c] @ decimal (unat (wire_code event)) @ [0x3b] @
         decimal (unat ((ucast (me_column event) :: u32) + 1)) @ [0x3b] @
         decimal (unat ((ucast (me_row event) :: u32) + 1)) @ [if releases event then 0x6d else 0x4d])
     | MouseDefault \<Rightarrow> encode_legacy_mouse event (wire_code event) (releases event) False
     | MouseUtf8 \<Rightarrow> encode_legacy_mouse event (wire_code event) (releases event) True)"
proof -
  have "snd (mouse_base_code (me_kind event)) = releases event"
    by (cases "me_kind event") (simp_all add: releases_def)
  then show ?thesis
    using assms by (cases encoding) (simp_all add: encode_mouse_with_mode_def wire_code_def case_prod_beta Let_def)
qed

lemma mouse_coordinate: "unat ((ucast w :: u32) + 1) = unat w + 1" "unat ((ucast w :: u32) + 33) = unat w + 33" for w :: u16
  using unat_coordinate [of 1 w] unat_coordinate [of 33 w] by simp_all

text \<open>The code byte of the legacy encodings.\<close>

abbreviation legacy_code :: "mouse_event \<Rightarrow> nat" where
  "legacy_code event \<equiv> (if releases event then 3 else report_code event) + 32"

lemma legacy_code_word:
  "unat ((if releases event then 3 else wire_code event) + 32 :: u16) = legacy_code event" "legacy_code event < 128"
  "unat (ucast ((if releases event then 3 else wire_code event) + 32 :: u16) :: u32) = legacy_code event"
proof -
  show legacy: "unat ((if releases event then 3 else wire_code event) + 32 :: u16) = legacy_code event" "legacy_code event < 128"
    using wire_code_report [of event] by (auto simp: unat_word_ariths)
  show "unat (ucast ((if releases event then 3 else wire_code event) + 32 :: u16) :: u32) = legacy_code event"
    using legacy unat_u16_less [of "(if releases event then 3 else wire_code event) + 32"]
    by (simp only: unsigned_ucast_eq) (simp add: take_bit_nat_eq_self)
qed

lemma utf8_mouse_report:
  "case encode_legacy_mouse event (wire_code event) (releases event) True of
     Some out \<Rightarrow> from_utf8 (drop 3 out) = Some [legacy_code event, unat (me_column event) + 33, unat (me_row event) + 33]
   | None \<Rightarrow> \<not> is_scalar (unat (me_column event) + 33) \<or> \<not> is_scalar (unat (me_row event) + 33)"
proof (cases "is_scalar (unat (me_column event) + 33) \<and> is_scalar (unat (me_row event) + 33)")
  case True
  moreover have "is_scalar (legacy_code event)" using legacy_code_word(2) [of event] by (auto simp: is_scalar_def)
  ultimately show ?thesis
    using from_utf8_encode [of "[legacy_code event, unat (me_column event) + 33, unat (me_row event) + 33]"]
    by (simp add: encode_legacy_mouse_def Let_def char_from_u32_def legacy_code_word(3) mouse_coordinate)
next
  case False
  then show ?thesis
    by (auto simp: encode_legacy_mouse_def Let_def char_from_u32_def legacy_code_word(3) mouse_coordinate split: option.splits)
qed

text \<open>
  C37. Mouse reports are exact. A reportable event in the SGR encoding reads back to the event itself: button, motion or
  wheel, press or release, modifiers, and both coordinates over their whole range. In the original encoding it is sent
  exactly when both coordinates are at most 222, and in the UTF-8 encoding unless an offset coordinate falls in the
  surrogate range; the code sent reads back to the event, except that all releases share one code. Nothing is sent
  when tracking is disabled.
\<close>

theorem mouse_reports_exact:
  assumes "mouse_event_is_reportable (me_kind event) tracking"
  shows "(\<exists>out. encode_mouse_with_mode event tracking MouseSgr = Some out \<and> read_sgr out = Some event) \<and>
    (case encode_mouse_with_mode event tracking MouseDefault of
       Some out \<Rightarrow> unat (me_column event) \<le> 222 \<and> unat (me_row event) \<le> 222 \<and>
         (\<exists>code. legacy_reads event code \<and>
           map unat out = [0x1b, 0x5b, 0x4d, code + 32, unat (me_column event) + 33, unat (me_row event) + 33])
     | None \<Rightarrow> 222 < unat (me_column event) \<or> 222 < unat (me_row event)) \<and>
    (case encode_mouse_with_mode event tracking MouseUtf8 of
       Some out \<Rightarrow> take 3 out = [0x1b, 0x5b, 0x4d] \<and> (\<exists>code. legacy_reads event code \<and>
         from_utf8 (drop 3 out) = Some [code + 32, unat (me_column event) + 33, unat (me_row event) + 33])
     | None \<Rightarrow> \<not> is_scalar (unat (me_column event) + 33) \<or> \<not> is_scalar (unat (me_row event) + 33)) \<and>
    encode_mouse_with_mode event MouseDisabled encoding = None"
proof -
  note enc = mouse_encodings [OF assms]
  have "\<exists>out. encode_mouse_with_mode event tracking MouseSgr = Some out \<and> read_sgr out = Some event"
    using report_read_back [of event] unfolding enc
    by (cases "releases event") (simp_all add: read_sgr_def take_number_decimal mouse_coordinate wire_code_report [of event])
  moreover have "encode_mouse_with_mode event tracking MouseDefault =
       (if unat (me_column event) \<le> 222 \<and> unat (me_row event) \<le> 222
        then Some ([0x1b, 0x5b, 0x4d] @ map of_nat [legacy_code event, unat (me_column event) + 33, unat (me_row event) + 33])
        else None)"
    unfolding enc mouse_encoding.case encode_legacy_mouse_def Let_def legacy_code_word(1) mouse_coordinate u8_try_from_def
    using legacy_code_word(2) [of event] by (auto simp del: of_nat_add)
  moreover have "take 3 out = [0x1b, 0x5b, 0x4d]" if "encode_legacy_mouse event (wire_code event) (releases event) True = Some out" for out
    using that by (auto simp: encode_legacy_mouse_def Let_def split: option.splits)
  ultimately show ?thesis
    using utf8_mouse_report [of event] legacy_reads_report [of event] legacy_code_word(2) [of event]
    by (auto simp: enc encode_mouse_with_mode_def [of _ MouseDisabled] simp del: of_nat_add split: option.splits if_splits)
qed

subsection \<open>Instances\<close>

theorem command_prefix_transparent_witness:
  "concat (map forwarded (fst (run escape_input (escape_interpreter_new 0x1e) [[0x61], [0x1e], [0x62], [0x1e]]))) @ [0x1e] =
     [0x61, 0x1e, 0x62, 0x1e]"
proof -
  let ?in = "[[0x61], [0x1e], [0x62], [0x1e]] :: bytes list"
  have "no_commands (escape_interpreter_new 0x1e) ?in"
    by (simp add: escape_input_def escape_interpreter_new_def forward_def is_ascii_graphic_def local_command_def
        literal_escape_suffix_def)
  moreover obtain actions ei where r: "run escape_input (escape_interpreter_new 0x1e) ?in = (actions, ei)" by fastforce
  moreover have "ei_prefix_held ei \<and> ei_escape_byte ei = 0x1e"
    using r by (auto simp: escape_input_def escape_interpreter_new_def forward_def is_ascii_graphic_def
        literal_escape_suffix_def)
  ultimately show ?thesis
    using command_prefix_transparent [of "0x1e" ?in actions ei] by (simp add: escape_flush_def)
qed

theorem doubled_prefix_forwards_both_witness:
  "fst (run escape_input (escape_interpreter_new DEFAULT_ESCAPE_BYTE) [[0x1e], [0x1e]]) = [Hold, Forward [0x1e, 0x1e]]"
  using doubled_prefix_forwards_both [of "0x1e"] by (simp add: DEFAULT_ESCAPE_BYTE_def)

abbreviation example_key :: key_event where
  "example_key \<equiv> \<lparr>ke_code = LeftKey, ke_modifiers = \<lparr>km_shift = False, km_alt = True, km_control = True\<rparr>\<rparr>"

theorem keys_decodable_witness:
  "\<exists>out. encode_key example_key = Some out \<and>
     read_key out = Some (LeftKey, \<lparr>km_shift = False, km_alt = True, km_control = True\<rparr>)"
proof -
  obtain out where "encode_key_with_mode example_key NormalCursor = Some out"
    by (simp add: encode_key_with_mode_def)
  with keys_decodable [of example_key NormalCursor out] show ?thesis
    by (intro exI [of _ out]) (simp add: encode_key_def)
qed

abbreviation example_click :: mouse_event where
  "example_click \<equiv> \<lparr>me_kind = MouseUp RightButton, me_column = 300, me_row = 0,
     me_modifiers = \<lparr>km_shift = True, km_alt = False, km_control = False\<rparr>\<rparr>"

theorem mouse_reports_exact_witness:
  "(\<exists>out. encode_mouse example_click = Some out \<and> read_sgr out = Some example_click) \<and>
   encode_mouse_with_mode example_click MousePressRelease MouseDefault = None"
proof
  show "\<exists>out. encode_mouse example_click = Some out \<and> read_sgr out = Some example_click"
    using mouse_reports_exact [of example_click MouseAnyMotion] by (simp add: encode_mouse_def)
  show "encode_mouse_with_mode example_click MousePressRelease MouseDefault = None"
    using mouse_reports_exact [of example_click MousePressRelease]
    by (cases "encode_mouse_with_mode example_click MousePressRelease MouseDefault") auto
qed

end
