(* ===== verification/Terminal_Screen.thy ===== *)
theory Terminal_Screen
  imports Terminal_State Terminal_Input Title_Filter "HOL-Library.Monad_Syntax"
begin

section \<open>The local terminal (\<open>AuthoritativeScreen\<close> and \<open>TerminalGuard\<close> of \<open>crates/ferrumtty-terminal/src/lib.rs\<close>)\<close>

text \<open>
  The screen model that follows server output, the terminal modes it tracks besides the emulator, and the
  guard that owns the local terminal. The emulator \<open>vt100\<close> and the tokenizer \<open>vte\<close> are parameters. The
  operating system is a parameter too: every attempted effect is recorded, and the environment decides
  from the effects so far whether the next one succeeds.
\<close>

subsection \<open>Model: modes\<close>

datatype cursor_shape =
    DefaultShape | BlinkingBlock | SteadyBlock | BlinkingUnderline | SteadyUnderline | BlinkingBar | SteadyBar

datatype terminal_mode = ModeDisabled | ModeEnabled

definition terminal_mode_from :: "bool \<Rightarrow> terminal_mode" where
  "terminal_mode_from enabled = (if enabled then ModeEnabled else ModeDisabled)"

record remote_terminal_modes =
  rm_cursor_key :: cursor_key_mode
  rm_application_keypad :: bool
  rm_bracketed_paste :: bool
  rm_mouse_tracking :: mouse_tracking_mode
  rm_mouse_encoding :: mouse_encoding
  rm_focus_reporting :: bool
  rm_insert_mode :: terminal_mode
  rm_origin_mode :: terminal_mode
  rm_auto_wrap :: terminal_mode
  rm_cursor_visible :: terminal_mode
  rm_cursor_shape :: cursor_shape
  rm_alternate_screen :: terminal_mode
  rm_scroll_region :: "(u16 \<times> u16) option"

definition remote_terminal_modes_default :: remote_terminal_modes where
  "remote_terminal_modes_default =
     \<lparr>rm_cursor_key = NormalCursor, rm_application_keypad = False, rm_bracketed_paste = False,
      rm_mouse_tracking = MouseDisabled, rm_mouse_encoding = MouseDefault, rm_focus_reporting = False,
      rm_insert_mode = ModeDisabled, rm_origin_mode = ModeDisabled, rm_auto_wrap = ModeEnabled,
      rm_cursor_visible = ModeEnabled, rm_cursor_shape = DefaultShape, rm_alternate_screen = ModeDisabled,
      rm_scroll_region = None\<rparr>"

record focus_reporting_state =
  fs_enabled :: bool
  fs_insert_mode :: terminal_mode
  fs_origin_mode :: terminal_mode
  fs_auto_wrap :: terminal_mode
  fs_cursor_shape :: cursor_shape
  fs_scroll_region :: "(u16 \<times> u16) option"
  fs_title :: "bytes option" \<comment> \<open>a Rust \<open>String\<close>: valid UTF-8\<close>

definition focus_state_default :: focus_reporting_state where
  "focus_state_default =
     \<lparr>fs_enabled = False, fs_insert_mode = ModeDisabled, fs_origin_mode = ModeDisabled, fs_auto_wrap = ModeEnabled,
      fs_cursor_shape = DefaultShape, fs_scroll_region = None, fs_title = None\<rparr>"

text \<open>One parameter of a private mode sequence, in the \<open>for\<close> loop of \<open>csi_dispatch\<close>.\<close>

definition set_private_mode :: "bool \<Rightarrow> focus_reporting_state \<Rightarrow> u16 list \<Rightarrow> focus_reporting_state" where
  "set_private_mode enabled fs parameter =
     (if parameter = [6] then fs\<lparr>fs_origin_mode := terminal_mode_from enabled\<rparr>
      else if parameter = [7] then fs\<lparr>fs_auto_wrap := terminal_mode_from enabled\<rparr>
      else if parameter = [1004] then fs\<lparr>fs_enabled := enabled\<rparr>
      else fs)"

definition first_values :: "u16 list list \<Rightarrow> u16 list" where
  "first_values params = map hd (filter (\<lambda>p. p \<noteq> []) params)"

definition shape_of :: "u16 \<Rightarrow> cursor_shape" where
  "shape_of shape =
     (if shape = 1 then BlinkingBlock else if shape = 2 then SteadyBlock
      else if shape = 3 then BlinkingUnderline else if shape = 4 then SteadyUnderline
      else if shape = 5 then BlinkingBar else if shape = 6 then SteadyBar else DefaultShape)"

definition focus_csi_dispatch ::
    "focus_reporting_state \<Rightarrow> u16 list list \<Rightarrow> bytes \<Rightarrow> bool \<Rightarrow> u32 \<Rightarrow> focus_reporting_state" where
  "focus_csi_dispatch fs params intermediates ignore action =
     (if ignore then fs
      else if intermediates = [0x3f] \<and> (action = 0x68 \<or> action = 0x6c) then
        foldl (set_private_mode (action = 0x68)) fs params
      else if intermediates = [] \<and> (action = 0x68 \<or> action = 0x6c) then
        (if [4] \<in> set params then fs\<lparr>fs_insert_mode := terminal_mode_from (action = 0x68)\<rparr> else fs)
      else if intermediates = [] \<and> action = 0x72 then
        fs\<lparr>fs_scroll_region :=
          (case first_values params of
             first # second # _ \<Rightarrow> if first > 0 \<and> second \<ge> first then Some (first, second) else None
           | _ \<Rightarrow> None)\<rparr>
      else if intermediates = [0x20] \<and> action = 0x71 then
        fs\<lparr>fs_cursor_shape := shape_of (case params of (shape # _) # _ \<Rightarrow> shape | _ \<Rightarrow> 0)\<rparr>
      else fs)"

fun join_bytes :: "u8 \<Rightarrow> bytes list \<Rightarrow> bytes" where
  "join_bytes separator [] = []"
| "join_bytes separator [p] = p"
| "join_bytes separator (p # q # ps) = p @ separator # join_bytes separator (q # ps)"

definition focus_osc_dispatch :: "focus_reporting_state \<Rightarrow> bytes list \<Rightarrow> focus_reporting_state" where
  "focus_osc_dispatch fs params =
     (case params of
        [] \<Rightarrow> fs
      | command # arguments \<Rightarrow>
          if command \<noteq> [] \<and> command \<noteq> [0x30] \<and> command \<noteq> [0x32] then fs
          else
            let title_bytes = join_bytes 0x3b arguments in
            if from_utf8 title_bytes \<noteq> None then fs\<lparr>fs_title := Some title_bytes\<rparr> else fs)"

definition focus_esc_dispatch :: "focus_reporting_state \<Rightarrow> bytes \<Rightarrow> bool \<Rightarrow> u8 \<Rightarrow> focus_reporting_state" where
  "focus_esc_dispatch fs intermediates ignore byte =
     (if \<not> ignore \<and> intermediates = [] \<and> byte = 0x63 then focus_state_default else fs)"

fun focus_perform :: "focus_reporting_state \<Rightarrow> perform_event \<Rightarrow> focus_reporting_state" where
  "focus_perform fs (CsiDispatch params intermediates ignore action) = focus_csi_dispatch fs params intermediates ignore action"
| "focus_perform fs (OscDispatch params _) = focus_osc_dispatch fs params"
| "focus_perform fs (EscDispatch intermediates ignore byte) = focus_esc_dispatch fs intermediates ignore byte"
| "focus_perform fs _ = fs"

subsection \<open>Model: the authoritative screen\<close>

text \<open>What the screen asks of the emulator besides \<open>term_lib\<close>.\<close>

record ('p, 'v) screen_lib = "('p, 'v) term_lib" +
  vt_contents_formatted :: "'p \<Rightarrow> bytes"
  vt_application_cursor :: "'p \<Rightarrow> bool"
  vt_application_keypad :: "'p \<Rightarrow> bool"
  vt_bracketed_paste :: "'p \<Rightarrow> bool"
  vt_mouse_protocol_mode :: "'p \<Rightarrow> mouse_tracking_mode"
  vt_mouse_protocol_encoding :: "'p \<Rightarrow> mouse_encoding"
  vt_hide_cursor :: "'p \<Rightarrow> bool"
  vt_alternate_screen :: "'p \<Rightarrow> bool"
  vt_cursor_position :: "'p \<Rightarrow> u16 \<times> u16" \<comment> \<open>row, column\<close>
  vt_size :: "'p \<Rightarrow> u16 \<times> u16" \<comment> \<open>rows, columns\<close>
  vt_attributes_formatted :: "'p \<Rightarrow> bytes"
  vt_cursor_state_formatted :: "'p \<Rightarrow> bytes"

record ('p, 'v) authoritative_screen =
  as_parser :: 'p
  as_focus_parser :: 'v
  as_focus_state :: focus_reporting_state

record prediction_cursor_context =
  cc_row :: u16
  cc_column :: u16
  cc_columns :: u16
  cc_attributes :: bytes
  cc_cursor_state :: bytes

definition screen_new :: "('p, 'v) screen_lib \<Rightarrow> u16 \<Rightarrow> u16 \<Rightarrow> ('p, 'v) authoritative_screen" where
  "screen_new lib columns rows =
     \<lparr>as_parser = vt_new lib rows columns, as_focus_parser = vte_new lib, as_focus_state = focus_state_default\<rparr>"

definition screen_process ::
    "('p, 'v) screen_lib \<Rightarrow> ('p, 'v) authoritative_screen \<Rightarrow> bytes \<Rightarrow> ('p, 'v) authoritative_screen" where
  "screen_process lib sc bs =
     (let (focus_parser, events) = vte_advance lib (as_focus_parser sc) bs in
      sc\<lparr>as_parser := vt_process lib (as_parser sc) bs, as_focus_parser := focus_parser,
         as_focus_state := foldl focus_perform (as_focus_state sc) events\<rparr>)"

definition screen_resize ::
    "('p, 'v) screen_lib \<Rightarrow> ('p, 'v) authoritative_screen \<Rightarrow> u16 \<Rightarrow> u16 \<Rightarrow> ('p, 'v) authoritative_screen" where
  "screen_resize lib sc columns rows =
     sc\<lparr>as_parser := vt_set_size lib (as_parser sc) rows columns,
        as_focus_state := (as_focus_state sc)\<lparr>fs_scroll_region := None\<rparr>\<rparr>"

definition screen_formatted :: "('p, 'v) screen_lib \<Rightarrow> ('p, 'v) authoritative_screen \<Rightarrow> bytes" where
  "screen_formatted lib sc = vt_contents_formatted lib (as_parser sc)"

definition screen_remote_modes :: "('p, 'v) screen_lib \<Rightarrow> ('p, 'v) authoritative_screen \<Rightarrow> remote_terminal_modes" where
  "screen_remote_modes lib sc =
     (let p = as_parser sc; fs = as_focus_state sc in
      \<lparr>rm_cursor_key = (if vt_application_cursor lib p then ApplicationCursor else NormalCursor),
       rm_application_keypad = vt_application_keypad lib p, rm_bracketed_paste = vt_bracketed_paste lib p,
       rm_mouse_tracking = vt_mouse_protocol_mode lib p, rm_mouse_encoding = vt_mouse_protocol_encoding lib p,
       rm_focus_reporting = fs_enabled fs, rm_insert_mode = fs_insert_mode fs, rm_origin_mode = fs_origin_mode fs,
       rm_auto_wrap = fs_auto_wrap fs, rm_cursor_visible = terminal_mode_from (\<not> vt_hide_cursor lib p),
       rm_cursor_shape = fs_cursor_shape fs, rm_alternate_screen = terminal_mode_from (vt_alternate_screen lib p),
       rm_scroll_region = fs_scroll_region fs\<rparr>)"

definition screen_remote_title :: "('p, 'v) authoritative_screen \<Rightarrow> bytes option" where
  "screen_remote_title sc = fs_title (as_focus_state sc)"

definition screen_prediction_cursor_context ::
    "('p, 'v) screen_lib \<Rightarrow> ('p, 'v) authoritative_screen \<Rightarrow> prediction_cursor_context" where
  "screen_prediction_cursor_context lib sc =
     (let p = as_parser sc; (row, column) = vt_cursor_position lib p; (_, columns) = vt_size lib p in
      \<lparr>cc_row = row, cc_column = column, cc_columns = columns, cc_attributes = vt_attributes_formatted lib p,
       cc_cursor_state = vt_cursor_state_formatted lib p\<rparr>)"

subsection \<open>Model: effects\<close>

datatype terminal_command =
    EnterAlternateScreen | LeaveAlternateScreen | EnableBracketedPaste | DisableBracketedPaste
  | DisableMouseCapture | DisableFocusChange

datatype effect =
    WriteAll bytes | FlushOutput | ExecuteCommands "terminal_command list" | EnableRawMode | DisableRawMode
  | EnableUtf8Input | ReadSize | SendPacket bytes | RaiseSuspend | LogLine bytes | PrintLine bytes
  | SleepFor u64

text \<open>
  The last five are those of the client around the guard; \<open>LogLine\<close> and \<open>PrintLine\<close> are a line on standard error
  and on standard output, by the printing macros. A world is the list of the effects attempted so far,
  newest last; an operation may fail with the effect that failed.
\<close>

type_synonym world = "effect list"
type_synonym environment = "world \<Rightarrow> effect \<Rightarrow> bool"
type_synonym io_result = "(effect + unit) \<times> world"

definition attempt :: "environment \<Rightarrow> effect \<Rightarrow> world \<Rightarrow> io_result" where
  "attempt env e w = (if env w e then Inr () else Inl e, w @ [e])"

fun attempts :: "environment \<Rightarrow> effect list \<Rightarrow> world \<Rightarrow> io_result" where
  "attempts env [] w = (Inr (), w)"
| "attempts env (e # es) w =
     (case attempt env e w of
        (Inl failed, w) \<Rightarrow> (Inl failed, w)
      | (Inr _, w) \<Rightarrow> attempts env es w)"

definition write_bytes :: "environment \<Rightarrow> bytes \<Rightarrow> world \<Rightarrow> io_result" where
  "write_bytes env bs w = attempts env [WriteAll bs, FlushOutput] w"

definition enable_session_raw_mode :: "environment \<Rightarrow> world \<Rightarrow> io_result" where
  "enable_session_raw_mode env w =
     (case attempt env EnableRawMode w of
        (Inl failed, w) \<Rightarrow> (Inl failed, w)
      | (Inr _, w) \<Rightarrow>
          (case attempt env EnableUtf8Input w of
             (Inl failed, w) \<Rightarrow> (Inl failed, snd (attempt env DisableRawMode w))
           | (Inr _, w) \<Rightarrow> (Inr (), w)))"

text \<open>The set-up that \<open>enter\<close> and \<open>resume_after_suspend\<close> share.\<close>

definition setup_effects :: "bool \<Rightarrow> effect list" where
  "setup_effects alternate_screen_active =
     (if alternate_screen_active
      then [ExecuteCommands [EnterAlternateScreen, EnableBracketedPaste],
            WriteAll [0x1b, 0x5b, 0x3f, 0x31, 0x68], FlushOutput]
      else [ExecuteCommands [EnableBracketedPaste]])"

subsection \<open>Model: the guard\<close>

record ('p, 'v) terminal_guard =
  tg_authoritative :: "('p, 'v) authoritative_screen"
  tg_title_output :: title_output_filter
  tg_alternate_screen_active :: bool
  tg_session_terminal_active :: bool
  tg_local_notice_active :: bool

definition terminal_size :: "(u16 \<times> u16) option \<Rightarrow> (u16 \<times> u16) option \<Rightarrow> (u16 \<times> u16) option" where
  "terminal_size console environment_size =
     (case console of
        Some (columns, rows) \<Rightarrow> Some (max columns 1, max rows 1)
      | None \<Rightarrow> environment_size)"

text \<open>The values of \<open>COLUMNS\<close> and \<open>LINES\<close>: \<open>None\<close> when unset or not UTF-8.\<close>

definition environment_terminal_size :: "bytes option \<Rightarrow> bytes option \<Rightarrow> (u16 \<times> u16) option" where
  "environment_terminal_size columns rows =
     do { columns \<leftarrow> columns; columns \<leftarrow> parse_u16 columns; rows \<leftarrow> rows; rows \<leftarrow> parse_u16 rows;
          Some (max columns 1, max rows 1) }"

text \<open>The size is an argument: \<open>None\<close> when neither the console nor the environment gives one.\<close>

definition enter_with_title_policy ::
    "('p, 'v) screen_lib \<Rightarrow> environment \<Rightarrow> (u16 \<times> u16) option \<Rightarrow> bool \<Rightarrow> title_policy \<Rightarrow> world \<Rightarrow>
     (effect + ('p, 'v) terminal_guard) \<times> world" where
  "enter_with_title_policy lib env dims skip_initialization policy w =
     (case dims of
        None \<Rightarrow> (Inl ReadSize, w)
      | Some (columns, rows) \<Rightarrow>
          (case enable_session_raw_mode env w of
             (Inl failed, w) \<Rightarrow> (Inl failed, w)
           | (Inr _, w) \<Rightarrow>
               let alternate_screen_active = (\<not> skip_initialization) in
               (case attempts env (setup_effects alternate_screen_active) w of
                  (Inl failed, w) \<Rightarrow>
                    let w = (if alternate_screen_active
                             then snd (attempt env (ExecuteCommands [LeaveAlternateScreen]) w) else w)
                    in (Inl failed, snd (attempt env DisableRawMode w))
                | (Inr _, w) \<Rightarrow>
                    (Inr \<lparr>tg_authoritative = screen_new lib columns rows, tg_title_output = title_filter_new policy,
                          tg_alternate_screen_active = alternate_screen_active, tg_session_terminal_active = True,
                          tg_local_notice_active = False\<rparr>, w))))"

definition enter ::
    "('p, 'v) screen_lib \<Rightarrow> environment \<Rightarrow> (u16 \<times> u16) option \<Rightarrow> bool \<Rightarrow> world \<Rightarrow>
     (effect + ('p, 'v) terminal_guard) \<times> world" where
  "enter lib env dims skip_initialization w = enter_with_title_policy lib env dims skip_initialization PreserveRemote w"

definition redraw_authoritative ::
    "('p, 'v) screen_lib \<Rightarrow> environment \<Rightarrow> ('p, 'v) terminal_guard \<Rightarrow> world \<Rightarrow> io_result" where
  "redraw_authoritative lib env tg w = write_bytes env (screen_formatted lib (tg_authoritative tg)) w"

definition clear_local_notice ::
    "('p, 'v) screen_lib \<Rightarrow> environment \<Rightarrow> ('p, 'v) terminal_guard \<Rightarrow> world \<Rightarrow> io_result \<times> ('p, 'v) terminal_guard" where
  "clear_local_notice lib env tg w =
     (if \<not> tg_local_notice_active tg then ((Inr (), w), tg)
      else let tg = tg\<lparr>tg_local_notice_active := False\<rparr> in (redraw_authoritative lib env tg w, tg))"

definition write_server_bytes ::
    "('p, 'v) screen_lib \<Rightarrow> environment \<Rightarrow> ('p, 'v) terminal_guard \<Rightarrow> bytes \<Rightarrow> world \<Rightarrow>
     io_result \<times> ('p, 'v) terminal_guard" where
  "write_server_bytes lib env tg bs w =
     (case clear_local_notice lib env tg w of
        ((Inl failed, w), tg) \<Rightarrow> ((Inl failed, w), tg)
      | ((Inr _, w), tg) \<Rightarrow>
          let (filtered, title_output) = title_process (tg_title_output tg) bs;
              tg = tg\<lparr>tg_authoritative := screen_process lib (tg_authoritative tg) bs, tg_title_output := title_output\<rparr>
          in (write_bytes env filtered w, tg))"

definition write_overlay_bytes :: "environment \<Rightarrow> bytes \<Rightarrow> world \<Rightarrow> io_result" where
  "write_overlay_bytes env bs w = write_bytes env bs w"

definition write_local_notice ::
    "('p, 'v) screen_lib \<Rightarrow> environment \<Rightarrow> ('p, 'v) terminal_guard \<Rightarrow> bytes \<Rightarrow> world \<Rightarrow>
     io_result \<times> ('p, 'v) terminal_guard" where
  "write_local_notice lib env tg bs w =
     (case clear_local_notice lib env tg w of
        ((Inl failed, w), tg) \<Rightarrow> ((Inl failed, w), tg)
      | ((Inr _, w), tg) \<Rightarrow>
          (case write_bytes env bs w of
             (Inl failed, w) \<Rightarrow> ((Inl failed, w), tg)
           | (Inr _, w) \<Rightarrow> ((Inr (), w), tg\<lparr>tg_local_notice_active := True\<rparr>)))"

definition resize_model ::
    "('p, 'v) screen_lib \<Rightarrow> ('p, 'v) terminal_guard \<Rightarrow> u16 \<Rightarrow> u16 \<Rightarrow> ('p, 'v) terminal_guard" where
  "resize_model lib tg columns rows = tg\<lparr>tg_authoritative := screen_resize lib (tg_authoritative tg) columns rows\<rparr>"

definition guard_remote_modes :: "('p, 'v) screen_lib \<Rightarrow> ('p, 'v) terminal_guard \<Rightarrow> remote_terminal_modes" where
  "guard_remote_modes lib tg = screen_remote_modes lib (tg_authoritative tg)"

definition guard_remote_title :: "('p, 'v) terminal_guard \<Rightarrow> bytes option" where
  "guard_remote_title tg = screen_remote_title (tg_authoritative tg)"

definition guard_prediction_cursor_context ::
    "('p, 'v) screen_lib \<Rightarrow> ('p, 'v) terminal_guard \<Rightarrow> prediction_cursor_context" where
  "guard_prediction_cursor_context lib tg = screen_prediction_cursor_context lib (tg_authoritative tg)"

definition first_error :: "effect option \<Rightarrow> effect + unit \<Rightarrow> effect option" where
  "first_error err r = (case err of Some e \<Rightarrow> Some e | None \<Rightarrow> (case r of Inl e \<Rightarrow> Some e | Inr _ \<Rightarrow> None))"

definition deactivate_terminal ::
    "environment \<Rightarrow> ('p, 'v) terminal_guard \<Rightarrow> world \<Rightarrow> io_result \<times> ('p, 'v) terminal_guard" where
  "deactivate_terminal env tg w =
     (if \<not> tg_session_terminal_active tg then ((Inr (), w), tg)
      else
        let (r, w) = attempt env (ExecuteCommands [DisableBracketedPaste, DisableMouseCapture, DisableFocusChange]) w;
            err = first_error None r;
            (remote_title, title_output) = restore_remote_title (tg_title_output tg);
            (r, w) = write_bytes env remote_title w;
            err = first_error err r;
            (err, w) =
              (if tg_alternate_screen_active tg then
                 let (r, w) = attempt env (WriteAll [0x1b, 0x5b, 0x3f, 0x31, 0x6c]) w;
                     err = first_error err r;
                     (r, w) = attempt env (ExecuteCommands [LeaveAlternateScreen]) w
                 in (first_error err r, w)
               else (err, w));
            (r, w) = attempt env DisableRawMode w;
            err = first_error err r;
            tg = tg\<lparr>tg_title_output := title_output, tg_session_terminal_active := False\<rparr>
        in ((case err of None \<Rightarrow> Inr () | Some e \<Rightarrow> Inl e, w), tg))"

definition leave_for_suspend ::
    "environment \<Rightarrow> ('p, 'v) terminal_guard \<Rightarrow> world \<Rightarrow> io_result \<times> ('p, 'v) terminal_guard" where
  "leave_for_suspend env tg w = deactivate_terminal env (tg\<lparr>tg_local_notice_active := False\<rparr>) w"

definition resume_after_suspend ::
    "('p, 'v) screen_lib \<Rightarrow> environment \<Rightarrow> ('p, 'v) terminal_guard \<Rightarrow> world \<Rightarrow> io_result \<times> ('p, 'v) terminal_guard" where
  "resume_after_suspend lib env tg w =
     (if tg_session_terminal_active tg then ((Inr (), w), tg)
      else
        (case enable_session_raw_mode env w of
           (Inl failed, w) \<Rightarrow> ((Inl failed, w), tg)
         | (Inr _, w) \<Rightarrow>
             (case attempts env (setup_effects (tg_alternate_screen_active tg)) w of
                (Inl failed, w) \<Rightarrow> ((Inl failed, snd (attempt env DisableRawMode w)), tg)
              | (Inr _, w) \<Rightarrow>
                  let tg = tg\<lparr>tg_session_terminal_active := True, tg_local_notice_active := False\<rparr> in
                  (case redraw_authoritative lib env tg w of
                     (Inl failed, w) \<Rightarrow> ((Inl failed, w), tg)
                   | (Inr _, w) \<Rightarrow>
                       let (title, title_output) = reapply_policy (tg_title_output tg)
                       in (write_bytes env title w, tg\<lparr>tg_title_output := title_output\<rparr>)))))"

definition drop_guard :: "environment \<Rightarrow> ('p, 'v) terminal_guard \<Rightarrow> world \<Rightarrow> world" where
  "drop_guard env tg w = snd (fst (deactivate_terminal env tg w))"

end
