(* ===== verification/Screen_Promises.thy ===== *)
theory Screen_Promises
  imports Terminal_Screen
begin

section \<open>The local terminal: what the guard promises\<close>

text \<open>
  What a client may still owe the user's terminal is read off the effects: raw mode from a successful
  \<open>EnableRawMode\<close> to a successful \<open>DisableRawMode\<close>, the main screen from any attempt to enter the alternate
  screen to a successful \<open>LeaveAlternateScreen\<close>. Over every run of the guard the debt is settled when the guard
  is dropped, with one exception that a lemma states.
\<close>

subsection \<open>Debts\<close>

record debts =
  owes_raw_mode :: bool
  owes_main_screen :: bool

fun incur :: "bool \<Rightarrow> effect \<Rightarrow> debts \<Rightarrow> debts" where
  "incur succeeded EnableRawMode d = (if succeeded then d\<lparr>owes_raw_mode := True\<rparr> else d)"
| "incur succeeded DisableRawMode d = (if succeeded then d\<lparr>owes_raw_mode := False\<rparr> else d)"
| "incur succeeded (ExecuteCommands commands) d =
     (if EnterAlternateScreen \<in> set commands then d\<lparr>owes_main_screen := True\<rparr>
      else if LeaveAlternateScreen \<in> set commands \<and> succeeded then d\<lparr>owes_main_screen := False\<rparr>
      else d)"
| "incur succeeded _ d = d"

fun debts_after :: "environment \<Rightarrow> world \<Rightarrow> effect list \<Rightarrow> debts \<Rightarrow> debts" where
  "debts_after env w [] d = d"
| "debts_after env w (e # es) d = debts_after env (w @ [e]) es (incur (env w e) e d)"

definition owed :: "environment \<Rightarrow> world \<Rightarrow> debts" where
  "owed env w = debts_after env [] w \<lparr>owes_raw_mode = False, owes_main_screen = False\<rparr>"

lemma debts_after_append:
  "debts_after env w (es @ fs) d = debts_after env (w @ es) fs (debts_after env w es d)"
  by (induction es arbitrary: w d) simp_all

lemma owed_append [simp]: "owed env (w @ es) = debts_after env w es (owed env w)"
  by (simp add: owed_def debts_after_append)

lemma owed_attempt [simp]: "owed env (snd (attempt env e w)) = incur (env w e) e (owed env w)"
  by (simp add: attempt_def)

definition neutral :: "effect \<Rightarrow> bool" where
  "neutral e \<longleftrightarrow> (\<forall>succeeded d. incur succeeded e d = d)"

lemma neutral_simps [simp]:
  "neutral (WriteAll bs)" "neutral FlushOutput" "neutral EnableUtf8Input"
  "neutral (ExecuteCommands [DisableBracketedPaste, DisableMouseCapture, DisableFocusChange])"
  "neutral (ExecuteCommands [EnableBracketedPaste])"
  by (simp_all add: neutral_def)

lemma owed_attempts: "list_all neutral es \<Longrightarrow> owed env (snd (attempts env es w)) = owed env w"
proof (induction es arbitrary: w)
  case (Cons e es)
  then have "owed env (w @ [e]) = owed env w" by (simp add: neutral_def)
  with Cons show ?case by (auto simp: attempt_def simp del: owed_append)
qed simp

lemma owed_attempts_Cons:
  "list_all neutral es \<Longrightarrow> owed env (snd (attempts env (e # es) w)) = incur (env w e) e (owed env w)"
  using owed_attempts [of es env "w @ [e]"] by (simp add: attempt_def)

lemma owed_write_bytes [simp]: "owed env (snd (write_bytes env bs w)) = owed env w"
  by (simp only: write_bytes_def) (rule owed_attempts, simp)

subsection \<open>Operations of the guard\<close>

datatype guard_operation =
    OpServerBytes bytes | OpOverlay bytes | OpNotice bytes | OpClearNotice | OpRedraw | OpResizeModel u16 u16
  | OpSuspend | OpResume

fun guard_step ::
    "('p, 'v) screen_lib \<Rightarrow> environment \<Rightarrow> guard_operation \<Rightarrow> ('p, 'v) terminal_guard \<times> world \<Rightarrow>
     (effect + unit) \<times> ('p, 'v) terminal_guard \<times> world" where
  "guard_step lib env (OpServerBytes bs) (tg, w) = (case write_server_bytes lib env tg bs w of ((r, w), tg) \<Rightarrow> (r, tg, w))"
| "guard_step lib env (OpOverlay bs) (tg, w) = (case write_overlay_bytes env bs w of (r, w) \<Rightarrow> (r, tg, w))"
| "guard_step lib env (OpNotice bs) (tg, w) = (case write_local_notice lib env tg bs w of ((r, w), tg) \<Rightarrow> (r, tg, w))"
| "guard_step lib env OpClearNotice (tg, w) = (case clear_local_notice lib env tg w of ((r, w), tg) \<Rightarrow> (r, tg, w))"
| "guard_step lib env OpRedraw (tg, w) = (case redraw_authoritative lib env tg w of (r, w) \<Rightarrow> (r, tg, w))"
| "guard_step lib env (OpResizeModel columns rows) (tg, w) = (Inr (), resize_model lib tg columns rows, w)"
| "guard_step lib env OpSuspend (tg, w) = (case leave_for_suspend env tg w of ((r, w), tg) \<Rightarrow> (r, tg, w))"
| "guard_step lib env OpResume (tg, w) = (case resume_after_suspend lib env tg w of ((r, w), tg) \<Rightarrow> (r, tg, w))"

text \<open>Operations may fail and are followed by others; the run reports whether a resumption failed.\<close>

fun guard_run ::
    "('p, 'v) screen_lib \<Rightarrow> environment \<Rightarrow> guard_operation list \<Rightarrow> ('p, 'v) terminal_guard \<times> world \<Rightarrow>
     bool \<times> ('p, 'v) terminal_guard \<times> world" where
  "guard_run lib env [] s = (False, s)"
| "guard_run lib env (g # gs) s =
     (let (r, s) = guard_step lib env g s; (failed, s) = guard_run lib env gs s
      in (failed \<or> g = OpResume \<and> r \<noteq> Inr (), s))"

text \<open>The environment lets the two restoring effects through; everything else may fail at any time.\<close>

definition restorable :: "environment \<Rightarrow> bool" where
  "restorable env \<longleftrightarrow> (\<forall>w. env w DisableRawMode \<and> env w (ExecuteCommands [LeaveAlternateScreen]))"

text \<open>What holds between operations: the debts of an active guard are those its fields record.\<close>

definition settled :: "environment \<Rightarrow> bool \<Rightarrow> ('p, 'v) terminal_guard \<times> world \<Rightarrow> bool" where
  "settled env resumed = (\<lambda>(tg, w).
     owes_raw_mode (owed env w) = tg_session_terminal_active tg \<and>
     (owes_main_screen (owed env w) \<longrightarrow> tg_alternate_screen_active tg \<and> (tg_session_terminal_active tg \<or> resumed)))"

subsection \<open>Each operation keeps the books\<close>

lemma clear_local_notice_books:
  assumes "clear_local_notice lib env tg w = ((r, w'), tg')"
  shows "owed env w' = owed env w" "tg_session_terminal_active tg' = tg_session_terminal_active tg"
    "tg_alternate_screen_active tg' = tg_alternate_screen_active tg"
proof -
  have "owed env (snd (fst (clear_local_notice lib env tg w))) = owed env w"
    by (simp add: clear_local_notice_def redraw_authoritative_def Let_def)
  with assms show "owed env w' = owed env w" by simp
qed (use assms in \<open>auto simp: clear_local_notice_def Let_def split: if_splits\<close>)

lemma settled_cong:
  assumes "settled env resumed (tg, w)" "owed env w' = owed env w"
    "tg_session_terminal_active tg' = tg_session_terminal_active tg"
    "tg_alternate_screen_active tg' = tg_alternate_screen_active tg"
  shows "settled env resumed (tg', w')"
  using assms by (simp add: settled_def)

lemma settled_mono: "settled env resumed s \<Longrightarrow> settled env (resumed \<or> again) s"
  by (auto simp: settled_def)

lemma write_bytes_owed: "write_bytes env bs w = (r, w') \<Longrightarrow> owed env w' = owed env w"
  using owed_write_bytes [of env bs w] by simp

lemma write_server_bytes_settled:
  assumes "settled env resumed (tg, w)" "write_server_bytes lib env tg bs w = ((r, w'), tg')"
  shows "settled env resumed (tg', w')"
proof -
  obtain r1 w1 tg1 where c: "clear_local_notice lib env tg w = ((r1, w1), tg1)" by (metis prod.collapse)
  have "settled env resumed (tg1, w1)" using assms(1) clear_local_notice_books [OF c] by (auto intro: settled_cong)
  with assms(2) c show ?thesis
    by (auto simp: write_server_bytes_def Let_def split: sum.splits prod.splits elim!: settled_cong
        dest!: write_bytes_owed)
qed

lemma write_local_notice_settled:
  assumes "settled env resumed (tg, w)" "write_local_notice lib env tg bs w = ((r, w'), tg')"
  shows "settled env resumed (tg', w')"
proof -
  obtain r1 w1 tg1 where c: "clear_local_notice lib env tg w = ((r1, w1), tg1)" by (metis prod.collapse)
  have "settled env resumed (tg1, w1)" using assms(1) clear_local_notice_books [OF c] by (auto intro: settled_cong)
  with assms(2) c show ?thesis
    by (auto simp: write_local_notice_def split: sum.splits prod.splits elim!: settled_cong dest!: write_bytes_owed)
qed

text \<open>Deactivation attempts every step, whatever fails before it.\<close>

lemma deactivate_terminal_effects:
  assumes "tg_session_terminal_active tg"
  shows "\<exists>flushed. snd (fst (deactivate_terminal env tg w)) =
      w @ [ExecuteCommands [DisableBracketedPaste, DisableMouseCapture, DisableFocusChange],
           WriteAll (fst (restore_remote_title (tg_title_output tg)))] @ (if flushed then [FlushOutput] else []) @
      (if tg_alternate_screen_active tg
       then [WriteAll [0x1b, 0x5b, 0x3f, 0x31, 0x6c], ExecuteCommands [LeaveAlternateScreen]] else []) @ [DisableRawMode]"
  using assms
  by (auto simp: deactivate_terminal_def write_bytes_def attempt_def Let_def split: prod.splits intro: exI [of _ True]
      exI [of _ False])

lemma deactivate_terminal_guard:
  "snd (deactivate_terminal env tg w) =
     (if tg_session_terminal_active tg
      then tg\<lparr>tg_title_output := snd (restore_remote_title (tg_title_output tg)), tg_session_terminal_active := False\<rparr> else tg)"
  by (simp add: deactivate_terminal_def Let_def split: prod.splits)

lemma deactivate_terminal_inactive [simp]:
  "\<not> tg_session_terminal_active tg \<Longrightarrow> deactivate_terminal env tg w = ((Inr (), w), tg)"
  by (simp add: deactivate_terminal_def)

lemma deactivate_terminal_owed:
  assumes "restorable env" "tg_session_terminal_active tg"
  shows "owed env (snd (fst (deactivate_terminal env tg w))) =
    \<lparr>owes_raw_mode = False, owes_main_screen = owes_main_screen (owed env w) \<and> \<not> tg_alternate_screen_active tg\<rparr>"
proof -
  have "env v DisableRawMode" "env v (ExecuteCommands [LeaveAlternateScreen])" for v
    using assms(1) by (simp_all add: restorable_def)
  with deactivate_terminal_effects [OF assms(2), of env w] show ?thesis by auto
qed

lemma owed_setup:
  "owed env (snd (attempts env (setup_effects alternate) w)) =
     (if alternate then (owed env w)\<lparr>owes_main_screen := True\<rparr> else owed env w)"
  by (simp add: setup_effects_def owed_attempts_Cons del: attempts.simps)

lemma owed_raw_mode:
  assumes "restorable env" "enable_session_raw_mode env w = (r, w')" "\<not> owes_raw_mode (owed env w)"
  shows "owed env w' = (owed env w)\<lparr>owes_raw_mode := (r = Inr ())\<rparr>"
  using assms
  by (auto simp: enable_session_raw_mode_def attempt_def restorable_def split: if_splits prod.splits sum.splits)

lemma resume_settled:
  assumes "restorable env" "settled env resumed (tg, w)" "resume_after_suspend lib env tg w = ((r, w'), tg')"
  shows "settled env (resumed \<or> r \<noteq> Inr ()) (tg', w')"
proof (cases "tg_session_terminal_active tg")
  case True
  with assms show ?thesis by (simp add: resume_after_suspend_def)
next
  case False
  then have owed: "\<not> owes_raw_mode (owed env w)" using assms(2) by (simp add: settled_def)
  obtain r1 w1 where raw: "enable_session_raw_mode env w = (r1, w1)" by (metis prod.collapse)
  note raw_owed = owed_raw_mode [OF assms(1) raw owed]
  show ?thesis
  proof (cases r1)
    case (Inl failed)
    with False assms(2,3) raw raw_owed show ?thesis by (auto simp: resume_after_suspend_def settled_def)
  next
    case (Inr u)
    obtain r2 w2 where set_up: "attempts env (setup_effects (tg_alternate_screen_active tg)) w1 = (r2, w2)"
      by (metis prod.collapse)
    have set_owed: "owed env w2 = \<lparr>owes_raw_mode = True,
        owes_main_screen = tg_alternate_screen_active tg \<or> owes_main_screen (owed env w)\<rparr>"
      using owed_setup [of env "tg_alternate_screen_active tg" w1] set_up raw_owed Inr by simp
    show ?thesis
    proof (cases r2)
      case (Inl failed)
      have "env w2 DisableRawMode" using assms(1) by (simp add: restorable_def)
      with False assms(2,3) raw Inr set_up Inl set_owed show ?thesis
        by (auto simp: resume_after_suspend_def settled_def attempt_def)
    next
      case (Inr u')
      with False assms(3) raw \<open>r1 = Inr u\<close> set_up have "owed env w' = owed env w2" "tg_session_terminal_active tg'"
        "tg_alternate_screen_active tg' = tg_alternate_screen_active tg"
        by (auto simp: resume_after_suspend_def redraw_authoritative_def Let_def split: sum.splits prod.splits
            dest!: write_bytes_owed)
      with set_owed assms(2) show ?thesis by (auto simp: settled_def)
    qed
  qed
qed

lemma enter_settled:
  assumes "restorable env" "enter_with_title_policy lib env dims skip policy w0 = (r, w)"
    and none: "owed env w0 = \<lparr>owes_raw_mode = False, owes_main_screen = False\<rparr>"
  shows "case r of Inl _ \<Rightarrow> owed env w = \<lparr>owes_raw_mode = False, owes_main_screen = False\<rparr>
         | Inr tg \<Rightarrow> tg_session_terminal_active tg \<and> settled env False (tg, w)"
proof (cases dims)
  case None
  with assms(2) none show ?thesis by (auto simp: enter_with_title_policy_def)
next
  case (Some size)
  obtain columns rows where dims: "dims = Some (columns, rows)" using Some by (cases size) simp
  obtain r1 w1 where raw: "enable_session_raw_mode env w0 = (r1, w1)" by (metis prod.collapse)
  have raw_owed: "owed env w1 = \<lparr>owes_raw_mode = (r1 = Inr ()), owes_main_screen = False\<rparr>"
    using owed_raw_mode [OF assms(1) raw] none by simp
  show ?thesis
  proof (cases r1)
    case (Inl failed)
    with dims assms(2) raw raw_owed show ?thesis by (auto simp: enter_with_title_policy_def)
  next
    case (Inr u)
    obtain r2 w2 where set_up: "attempts env (setup_effects (\<not> skip)) w1 = (r2, w2)" by (metis prod.collapse)
    have set_owed: "owed env w2 = \<lparr>owes_raw_mode = True, owes_main_screen = \<not> skip\<rparr>"
      using owed_setup [of env "\<not> skip" w1] set_up raw_owed Inr by simp
    have "env v DisableRawMode" "env v (ExecuteCommands [LeaveAlternateScreen])" for v
      using assms(1) by (simp_all add: restorable_def)
    with dims assms(2) raw Inr set_up set_owed show ?thesis
      by (cases r2) (auto simp: enter_with_title_policy_def settled_def attempt_def Let_def)
  qed
qed

lemma deactivate_settled:
  assumes "restorable env" "settled env resumed (tg, w)" "deactivate_terminal env tg w = ((r, w'), tg')"
  shows "settled env resumed (tg', w')"
proof (cases "tg_session_terminal_active tg")
  case True
  have "owed env w' = \<lparr>owes_raw_mode = False,
      owes_main_screen = owes_main_screen (owed env w) \<and> \<not> tg_alternate_screen_active tg\<rparr>"
    using deactivate_terminal_owed [OF assms(1) True, of w] assms(3) by simp
  moreover have "\<not> tg_session_terminal_active tg'"
    using deactivate_terminal_guard [of env tg w] assms(3) True by auto
  ultimately show ?thesis using assms(2) by (auto simp: settled_def)
qed (use assms in simp)

lemma guard_step_settled:
  assumes "restorable env" "settled env resumed s" "guard_step lib env g s = (r, s')"
  shows "settled env (resumed \<or> g = OpResume \<and> r \<noteq> Inr ()) s'"
proof -
  obtain tg w where s: "s = (tg, w)" by (cases s)
  show ?thesis
  proof (cases g)
    case (OpServerBytes bs)
    with assms(2,3) s show ?thesis by (auto split: prod.splits elim: write_server_bytes_settled)
  next
    case (OpOverlay bs)
    with assms(2,3) s show ?thesis
      by (auto simp: write_overlay_bytes_def split: prod.splits elim!: settled_cong dest: write_bytes_owed)
  next
    case (OpNotice bs)
    with assms(2,3) s show ?thesis by (auto split: prod.splits elim: write_local_notice_settled)
  next
    case OpClearNotice
    with assms(2,3) s show ?thesis by (auto split: prod.splits elim!: settled_cong dest: clear_local_notice_books)
  next
    case OpRedraw
    with assms(2,3) s show ?thesis
      by (auto simp: redraw_authoritative_def split: prod.splits elim!: settled_cong dest: write_bytes_owed)
  next
    case (OpResizeModel columns rows)
    with assms(2,3) s show ?thesis by (auto simp: resize_model_def settled_def)
  next
    case OpSuspend
    have "settled env resumed (tg\<lparr>tg_local_notice_active := False\<rparr>, w)" using assms(2) s by (simp add: settled_def)
    with OpSuspend assms(1,3) s show ?thesis
      by (auto simp: leave_for_suspend_def split: prod.splits elim: deactivate_settled)
  next
    case OpResume
    obtain r' w' tg' where res: "resume_after_suspend lib env tg w = ((r', w'), tg')" by (metis prod.collapse)
    from resume_settled [OF assms(1) _ res, of resumed] OpResume assms(2,3) s res show ?thesis by simp
  qed
qed

lemma guard_run_settled:
  assumes "restorable env" "settled env resumed s" "guard_run lib env gs s = (failed, s')"
  shows "settled env (resumed \<or> failed) s'"
  using assms(2,3)
proof (induction gs arbitrary: s resumed failed s')
  case (Cons g gs)
  obtain r s1 where step: "guard_step lib env g s = (r, s1)" by (metis prod.collapse)
  obtain later s2 where run: "guard_run lib env gs s1 = (later, s2)" by (metis prod.collapse)
  from Cons.IH [OF guard_step_settled [OF assms(1) Cons.prems(1) step] run] Cons.prems(2) step run
  show ?case by (auto simp: disj_ac)
qed simp

subsection \<open>The terminal is restored\<close>

text \<open>
  C13. The user's terminal is restored. As long as the operating system lets raw mode be disabled and the alternate
  screen be left, and whatever else fails: entering the terminal leaves nothing owed when it fails; over any
  operations of the guard, failed ones included, raw mode is on exactly while the guard is active; when the
  guard is dropped raw mode is off, the main screen is back unless a resumption had failed, and dropping a
  guard that was left already has no effect.
\<close>

theorem terminal_restored:
  assumes "restorable env"
  shows "case enter_with_title_policy lib env dims skip policy [] of
      (Inl _, w) \<Rightarrow> owed env w = \<lparr>owes_raw_mode = False, owes_main_screen = False\<rparr>
    | (Inr tg, w) \<Rightarrow>
        (case guard_run lib env gs (tg, w) of (resume_failed, tg', w') \<Rightarrow>
           owes_raw_mode (owed env w') = tg_session_terminal_active tg' \<and>
           \<not> owes_raw_mode (owed env (drop_guard env tg' w')) \<and>
           (owes_main_screen (owed env (drop_guard env tg' w')) \<longrightarrow> resume_failed) \<and>
           drop_guard env (snd (deactivate_terminal env tg' w')) (drop_guard env tg' w') = drop_guard env tg' w')"
proof -
  obtain r w where enter: "enter_with_title_policy lib env dims skip policy [] = (r, w)" by (metis prod.collapse)
  have none: "owed env [] = \<lparr>owes_raw_mode = False, owes_main_screen = False\<rparr>" by (simp add: owed_def)
  show ?thesis
  proof (cases r)
    case (Inl failed)
    with enter enter_settled [OF assms enter none] show ?thesis by simp
  next
    case (Inr tg)
    obtain failed tg' w' where run: "guard_run lib env gs (tg, w) = (failed, tg', w')" by (metis prod.collapse)
    have "settled env False (tg, w)" using enter_settled [OF assms enter none] Inr by simp
    from guard_run_settled [OF assms this run] have before: "settled env failed (tg', w')" by simp
    obtain r' v tg'' where dropped: "deactivate_terminal env tg' w' = ((r', v), tg'')" by (metis prod.collapse)
    have after: "settled env failed (tg'', v)" by (rule deactivate_settled [OF assms before dropped])
    have inactive: "\<not> tg_session_terminal_active tg''"
      using deactivate_terminal_guard [of env tg' w'] dropped by (simp split: if_splits)
    from before after inactive enter Inr run dropped show ?thesis by (auto simp: settled_def drop_guard_def)
  qed
qed

text \<open>
  The exception: when the set-up of a resumption fails after the alternate screen was entered, the guard undoes raw
  mode only and stays inactive, so that dropping it leaves the user in the alternate screen.
\<close>

lemma failed_resume_keeps_alternate_screen:
  assumes "restorable env" "\<not> tg_session_terminal_active tg" "tg_alternate_screen_active tg"
    and "enable_session_raw_mode env w = (Inr (), w1)" "attempts env (setup_effects True) w1 = (Inl failed, w2)"
  shows "\<exists>w'. resume_after_suspend lib env tg w = ((Inl failed, w'), tg) \<and> drop_guard env tg w' = w' \<and>
    owes_main_screen (owed env w')"
  using assms owed_setup [of env True w1]
  by (auto simp: resume_after_suspend_def attempt_def restorable_def drop_guard_def)

subsection \<open>Concrete guards\<close>

text \<open>A terminal that cannot be written to, but can be restored; the screen keeps the bytes it processed.\<close>

definition example_screen_lib :: "(bytes, unit) screen_lib" where
  "example_screen_lib =
     \<lparr>vt_new = (\<lambda>_ _. []), vt_process = (@), vt_set_size = (\<lambda>seen _ _. seen), vt_state_formatted = id,
      vt_state_diff = (\<lambda>_ seen. seen), vte_new = (), vte_advance = (\<lambda>_ bytes. ((), map (\<lambda>b. Print (ucast b)) bytes)),
      vt_contents_formatted = id, vt_application_cursor = (\<lambda>_. False), vt_application_keypad = (\<lambda>_. False),
      vt_bracketed_paste = (\<lambda>_. False), vt_mouse_protocol_mode = (\<lambda>_. MouseDisabled),
      vt_mouse_protocol_encoding = (\<lambda>_. MouseDefault), vt_hide_cursor = (\<lambda>_. False), vt_alternate_screen = (\<lambda>_. False),
      vt_cursor_position = (\<lambda>_. (0, 0)), vt_size = (\<lambda>_. (24, 80)), vt_attributes_formatted = (\<lambda>_. []),
      vt_cursor_state_formatted = (\<lambda>_. [])\<rparr>"

definition example_environment :: environment where
  "example_environment w e = (case e of WriteAll bs \<Rightarrow> length w < 5 | _ \<Rightarrow> True)"

lemma example_environment_restorable: "restorable example_environment"
  by (simp add: restorable_def example_environment_def)

abbreviation example_operations :: "guard_operation list" where
  "example_operations \<equiv> [OpServerBytes [104, 105], OpSuspend, OpResume]"

definition example_guard :: "(bytes, unit) terminal_guard" where
  "example_guard =
     \<lparr>tg_authoritative = screen_new example_screen_lib 80 24, tg_title_output = title_filter_new MoshPrefix,
      tg_alternate_screen_active = True, tg_session_terminal_active = True, tg_local_notice_active = False\<rparr>"

lemma example_enter:
  "enter_with_title_policy example_screen_lib example_environment (Some (80, 24)) False MoshPrefix [] =
     (Inr example_guard, [EnableRawMode, EnableUtf8Input, ExecuteCommands [EnterAlternateScreen, EnableBracketedPaste],
        WriteAll [0x1b, 0x5b, 0x3f, 0x31, 0x68], FlushOutput])"
  by (simp add: enter_with_title_policy_def enable_session_raw_mode_def attempt_def setup_effects_def
      example_environment_def example_guard_def)

theorem terminal_restored_witness:
  "case guard_run example_screen_lib example_environment example_operations
       (example_guard, snd (enter_with_title_policy example_screen_lib example_environment (Some (80, 24)) False MoshPrefix []))
     of (failed, tg, w) \<Rightarrow> failed \<and> length w = 16 \<and> \<not> tg_session_terminal_active tg \<and> \<not> owes_raw_mode (owed example_environment w)"
    (is "case ?run of (failed, tg, w) \<Rightarrow> _")
proof -
  have "fst ?run" "length (snd (snd ?run)) = 16" "\<not> tg_session_terminal_active (fst (snd ?run))"
    by code_simp+
  then show ?thesis
    using terminal_restored [OF example_environment_restorable, where lib = example_screen_lib and dims = "Some (80, 24)"
        and skip = False and policy = MoshPrefix and gs = example_operations]
    by (auto simp: example_enter)
qed

end
