(* ===== verification/Command_Line.thy ===== *)
theory Command_Line
  imports Text_Encoding Predict
begin

section \<open>The command line (\<open>crates/ferrumtty-client/src/cli.rs\<close>)\<close>

text \<open>
  Arguments, settings from the environment, colour detection and the locale check. A Rust string is its
  UTF-8 bytes; the environment is a function from names to values; \<open>cfg!(windows)\<close> is an argument. All
  functions of the module are modelled.
\<close>

subsection \<open>Model: strings\<close>

type_synonym rust_str = bytes

definition ascii :: "string \<Rightarrow> rust_str" where
  "ascii s = map of_char s"

definition starts_with :: "rust_str \<Rightarrow> rust_str \<Rightarrow> bool" where
  "starts_with p s \<longleftrightarrow> take (length p) s = p"

fun contains :: "rust_str \<Rightarrow> rust_str \<Rightarrow> bool" where
  "contains p [] \<longleftrightarrow> p = []"
| "contains p (b # s) \<longleftrightarrow> starts_with p (b # s) \<or> contains p s"

definition to_ascii_lowercase :: "rust_str \<Rightarrow> rust_str" where
  "to_ascii_lowercase s = map (\<lambda>b. if 0x41 \<le> b \<and> b \<le> 0x5a then b + 32 else b) s"

definition eq_ignore_ascii_case :: "rust_str \<Rightarrow> rust_str \<Rightarrow> bool" where
  "eq_ignore_ascii_case s t \<longleftrightarrow> to_ascii_lowercase s = to_ascii_lowercase t"

text \<open>The Unicode property White\_Space, which \<open>str::trim\<close> strips on both sides.\<close>

definition is_whitespace :: "rust_char \<Rightarrow> bool" where
  "is_whitespace c \<longleftrightarrow>
     9 \<le> c \<and> c \<le> 13 \<or> 0x2000 \<le> c \<and> c \<le> 0x200A \<or>
     c \<in> set [0x20, 0x85, 0xA0, 0x1680, 0x2028, 0x2029, 0x202F, 0x205F, 0x3000]"

definition trim :: "rust_str \<Rightarrow> rust_str" where
  "trim s =
     (case from_utf8 s of
        None \<Rightarrow> s
      | Some cs \<Rightarrow> concat (map encode_utf8 (rev (dropWhile is_whitespace (rev (dropWhile is_whitespace cs))))))"

subsection \<open>Model: data\<close>

definition CLI_DEFAULT_ESCAPE_BYTE :: u8 where "CLI_DEFAULT_ESCAPE_BYTE = 0x1e"
definition MAX_VERBOSITY :: u8 where "MAX_VERBOSITY = 3"
definition TRUE_COLOR_COUNT :: u32 where "TRUE_COLOR_COUNT = 16777216"

record client_config =
  cfg_endpoint :: rust_str
  cfg_verbosity :: u8
  cfg_escape_byte :: u8
  cfg_title_no_prefix :: bool
  cfg_prediction_display :: prediction_display
  cfg_prediction_overwrite :: bool

datatype command = HelpCommand rust_str | VersionCommand | ColorsCommand | Connect client_config

datatype output_target = Stdout | Stderr

record cli_error =
  ce_message :: rust_str
  ce_target :: output_target
  ce_exit_code :: u8

definition cli_failure :: "rust_str \<Rightarrow> cli_error" where
  "cli_failure message = \<lparr>ce_message = message, ce_target = Stderr, ce_exit_code = 1\<rparr>"

datatype platform_color_capability = UnknownColors | Ansi8 | Ansi16 | Indexed256 | TrueColor

subsection \<open>Model: arguments\<close>

definition version :: rust_str where
  "version = ascii ''ferrumtty-client 0.0.0''"

definition newline :: rust_str where "newline = [0x0a]"

definition usage :: "rust_str \<Rightarrow> rust_str" where
  "usage program =
     version @ newline @ newline @ ascii ''Usage: '' @ program @ ascii '' [-# '' @ [0x27] @ ascii ''ARGS'' @ [0x27] @
     ascii ''] [-v...] HOST PORT'' @ newline @ ascii ''       '' @ program @ ascii '' -c''"

definition format_endpoint :: "rust_str \<Rightarrow> u16 \<Rightarrow> rust_str" where
  "format_endpoint host port =
     (if 0x3a \<in> set host \<and> \<not> (host \<noteq> [] \<and> hd host = 0x5b \<and> last host = 0x5d)
      then [0x5b] @ host @ [0x5d, 0x3a] @ decimal (unat port)
      else host @ [0x3a] @ decimal (unat port))"

definition parse_prediction_display :: "rust_str option \<Rightarrow> cli_error + prediction_display" where
  "parse_prediction_display v =
     (let name = (case v of None \<Rightarrow> ascii ''adaptive'' | Some name \<Rightarrow> name) in
      if name = ascii ''adaptive'' then Inr Adaptive
      else if name = ascii ''always'' then Inr Always
      else if name = ascii ''never'' then Inr Never
      else Inl (cli_failure (ascii ''MOSH_PREDICTION_DISPLAY must be adaptive, always, or never'')))"

definition parse_escape_key :: "rust_str \<Rightarrow> cli_error + u8" where
  "parse_escape_key v =
     (if length v = 1 \<and> 1 \<le> hd v \<and> hd v \<le> 127 then Inr (hd v)
      else Inl (cli_failure (ascii ''MOSH_ESCAPE_KEY must be one literal ASCII character in the range 1-127'')))"

text \<open>The inner loop over the letters of one option argument.\<close>

datatype option_scan = Scanned u8 bool \<comment> \<open>verbosity; takes the next argument\<close> | ScanColors | ScanUsage

fun scan_option :: "u8 \<Rightarrow> bytes \<Rightarrow> option_scan" where
  "scan_option verbosity [] = Scanned verbosity False"
| "scan_option verbosity (letter # letters) =
     (if letter = 0x76 then scan_option (min (saturating_add verbosity 1) MAX_VERBOSITY) letters
      else if letter = 0x63 then ScanColors
      else if letter = 0x23 then Scanned verbosity (letters = [])
      else ScanUsage)"

text \<open>The outer loop: the verbosity and the positional arguments, or an early return.\<close>

fun scan_arguments ::
    "rust_str \<Rightarrow> bool \<Rightarrow> u8 \<Rightarrow> rust_str list \<Rightarrow> rust_str list \<Rightarrow> cli_error + (command + u8 \<times> rust_str list)" where
  "scan_arguments program finished verbosity positionals [] = Inr (Inr (verbosity, positionals))"
| "scan_arguments program finished verbosity positionals (argument # remaining) =
     (if \<not> finished \<and> argument = [0x2d, 0x2d] then scan_arguments program True verbosity positionals remaining
      else if \<not> finished \<and> argument \<noteq> [] \<and> hd argument = 0x2d \<and> argument \<noteq> [0x2d] then
        (case scan_option verbosity (tl argument) of
           ScanColors \<Rightarrow> Inr (Inl ColorsCommand)
         | ScanUsage \<Rightarrow> Inl (cli_failure (usage program))
         | Scanned verbosity takes_next \<Rightarrow>
             if takes_next then
               (case remaining of
                  [] \<Rightarrow> Inl (cli_failure (usage program))
                | _ # remaining \<Rightarrow> scan_arguments program finished verbosity positionals remaining)
             else scan_arguments program finished verbosity positionals remaining)
      else scan_arguments program finished verbosity (positionals @ [argument]) remaining)"

text \<open>The part of \<open>parse_command\<close> after the loop.\<close>

definition connect_command ::
    "(string \<Rightarrow> rust_str option) \<Rightarrow> rust_str \<Rightarrow> u8 \<Rightarrow> rust_str list \<Rightarrow> cli_error + command" where
  "connect_command environ program verbosity positionals =
     (case positionals of
        [host, port_text] \<Rightarrow>
          (case parse_u16 port_text of
             None \<Rightarrow> Inl (cli_failure (program @ ascii '': Bad UDP port ('' @ port_text @ ascii '')'' @ newline @ newline @
               usage program))
           | Some port \<Rightarrow>
               if port = 0 then Inl (cli_failure (program @ ascii '': Bad UDP port ('' @ port_text @ ascii '')'' @ newline @
                 newline @ usage program))
               else
                 (case (case environ ''MOSH_ESCAPE_KEY'' of None \<Rightarrow> Inr CLI_DEFAULT_ESCAPE_BYTE | Some v \<Rightarrow> parse_escape_key v) of
                    Inl e \<Rightarrow> Inl e
                  | Inr escape_byte \<Rightarrow>
                      (case parse_prediction_display (environ ''MOSH_PREDICTION_DISPLAY'') of
                         Inl e \<Rightarrow> Inl e
                       | Inr display \<Rightarrow> Inr (Connect
                           \<lparr>cfg_endpoint = format_endpoint host port, cfg_verbosity = verbosity, cfg_escape_byte = escape_byte,
                            cfg_title_no_prefix = (environ ''MOSH_TITLE_NOPREFIX'' \<noteq> None),
                            cfg_prediction_display = display,
                            cfg_prediction_overwrite = (environ ''MOSH_PREDICTION_OVERWRITE'' = Some (ascii ''yes''))\<rparr>))))
      | _ \<Rightarrow> Inl (cli_failure (usage program)))"

definition parse_command :: "rust_str list \<Rightarrow> (string \<Rightarrow> rust_str option) \<Rightarrow> cli_error + command" where
  "parse_command arguments environ =
     (let program = (case arguments of [] \<Rightarrow> ascii ''ferrumtty'' | program # _ \<Rightarrow> program);
          remaining = drop 1 arguments
      in if ascii ''--help'' \<in> set remaining then Inr (HelpCommand program)
         else if ascii ''--version'' \<in> set remaining then Inr VersionCommand
         else
           (case scan_arguments program False 0 [] remaining of
              Inl e \<Rightarrow> Inl e
            | Inr (Inl command) \<Rightarrow> Inr command
            | Inr (Inr (verbosity, positionals)) \<Rightarrow> connect_command environ program verbosity positionals))"

definition missing_key_error :: cli_error where
  "missing_key_error = cli_failure (ascii ''MOSH_KEY environment variable not found.'')"

definition invalid_key_error :: cli_error where
  "invalid_key_error = cli_failure (ascii ''Crypto exception: MOSH_KEY is invalid.'')"

subsection \<open>Model: colours and locale\<close>

definition is_true_color_marker :: "rust_str \<Rightarrow> bool" where
  "is_true_color_marker v \<longleftrightarrow> eq_ignore_ascii_case v (ascii ''truecolor'') \<or> eq_ignore_ascii_case v (ascii ''24bit'')"

definition is_known_ansi_terminal :: "rust_str \<Rightarrow> bool" where
  "is_known_ansi_terminal v \<longleftrightarrow>
     list_ex (\<lambda>prefix. starts_with (ascii prefix) (to_ascii_lowercase v))
       [''ansi'', ''alacritty'', ''cygwin'', ''eterm'', ''foot'', ''kitty'', ''linux'', ''kterm'', ''rxvt'', ''screen'',
        ''tmux'', ''vt100'', ''wezterm'', ''xterm'']"

fun platform_color_count :: "platform_color_capability \<Rightarrow> u32" where
  "platform_color_count UnknownColors = 0"
| "platform_color_count Ansi8 = 8"
| "platform_color_count Ansi16 = 16"
| "platform_color_count Indexed256 = 256"
| "platform_color_count TrueColor = TRUE_COLOR_COUNT"

definition platform_color_capability_of :: "u16 \<Rightarrow> platform_color_capability" where
  "platform_color_capability_of color_count =
     (if color_count = 0 then UnknownColors
      else if color_count = u16_MAX then TrueColor
      else if color_count \<le> 8 then Ansi8
      else if color_count \<le> 255 then Ansi16
      else Indexed256)"

definition trimmed :: "rust_str option \<Rightarrow> rust_str option" where
  "trimmed v = (case v of None \<Rightarrow> None | Some s \<Rightarrow> if trim s = [] then None else Some (trim s))"

definition is_some_and :: "'a option \<Rightarrow> ('a \<Rightarrow> bool) \<Rightarrow> bool" where
  "is_some_and v f \<longleftrightarrow> (case v of None \<Rightarrow> False | Some x \<Rightarrow> f x)"

definition infer_color_count ::
    "bool \<Rightarrow> rust_str option \<Rightarrow> rust_str option \<Rightarrow> platform_color_capability \<Rightarrow> u32" where
  "infer_color_count windows term_value colorterm platform =
     (let term_value = trimmed term_value; colorterm = trimmed colorterm in
      if is_some_and term_value (\<lambda>v. eq_ignore_ascii_case v (ascii ''dumb'')) then 0
      else if is_some_and colorterm is_true_color_marker \<or>
              is_some_and term_value (\<lambda>v. let v = to_ascii_lowercase v in
                contains (ascii ''truecolor'') v \<or> contains (ascii ''24bit'') v \<or> contains (ascii ''direct'') v)
      then TRUE_COLOR_COUNT
      else if is_some_and term_value (\<lambda>v. contains (ascii ''256color'') (to_ascii_lowercase v)) then 256
      else if is_some_and term_value is_known_ansi_terminal then
        (case platform of TrueColor \<Rightarrow> TRUE_COLOR_COUNT | Indexed256 \<Rightarrow> 256 | Ansi16 \<Rightarrow> 16 | Ansi8 \<Rightarrow> 8 | UnknownColors \<Rightarrow> 8)
      else if windows \<and> term_value = None then platform_color_count platform
      else 0)"

definition locale_is_utf8 :: "rust_str \<Rightarrow> bool" where
  "locale_is_utf8 v =
     (let normalized = map (\<lambda>b. if b = 0x5f then 0x2d else b) (to_ascii_lowercase (trim v)) in
      if normalized = ascii ''utf8'' \<or> normalized = ascii ''utf-8'' then True
      else
        let locale_without_modifier = takeWhile (\<lambda>b. b \<noteq> 0x40) normalized;
            codeset = rev (takeWhile (\<lambda>b. b \<noteq> 0x2e) (rev locale_without_modifier))
        in 0x2e \<in> set locale_without_modifier \<and> (codeset = ascii ''utf8'' \<or> codeset = ascii ''utf-8''))"

fun selected_locale :: "(string \<Rightarrow> rust_str option) \<Rightarrow> string list \<Rightarrow> (string \<times> rust_str) option" where
  "selected_locale environ [] = None"
| "selected_locale environ (name # names) =
     (case environ name of
        Some v \<Rightarrow> if v \<noteq> [] then Some (name, v) else selected_locale environ names
      | None \<Rightarrow> selected_locale environ names)"

definition validate_utf8_locale :: "(string \<Rightarrow> rust_str option) \<Rightarrow> bool \<Rightarrow> cli_error + unit" where
  "validate_utf8_locale environ windows =
     (if windows then Inr ()
      else
        (case selected_locale environ [''LC_ALL'', ''LC_CTYPE'', ''LANG''] of
           None \<Rightarrow> Inl (cli_failure (ascii ''mosh-client needs a UTF-8 native locale to run.'' @ newline @ newline @
             ascii ''The client'' @ [0x27] @ ascii ''s environment has no LC_ALL, LC_CTYPE, or LANG value.''))
         | Some (name, v) \<Rightarrow>
             if locale_is_utf8 v then Inr ()
             else Inl (cli_failure (ascii ''mosh-client needs a UTF-8 native locale to run.'' @ newline @ newline @
               ascii ''Unfortunately, the client'' @ [0x27] @ ascii ''s environment ('' @ ascii name @ ascii ''='' @ v @
               ascii '') does not specify UTF-8.''))))"

subsection \<open>Command lines read back\<close>

text \<open>
  The options a caller may write, and how they are written: some \<open>v\<close>, and possibly the description of the
  wrapper, attached or as the next argument.
\<close>

datatype cli_option = Verbose nat | Described nat bytes | DescribedNext nat bytes

fun option_words :: "cli_option \<Rightarrow> rust_str list" where
  "option_words (Verbose n) = [0x2d # replicate (Suc n) 0x76]"
| "option_words (Described n d) = [0x2d # replicate n 0x76 @ 0x23 # d]"
| "option_words (DescribedNext n d) = [0x2d # replicate n 0x76 @ [0x23], d]"

fun option_level :: "cli_option \<Rightarrow> nat" where
  "option_level (Verbose n) = Suc n"
| "option_level (Described n d) = n"
| "option_level (DescribedNext n d) = n"

fun option_wf :: "cli_option \<Rightarrow> bool" where
  "option_wf (Described n d) \<longleftrightarrow> d \<noteq> []"
| "option_wf _ \<longleftrightarrow> True"

definition capped :: "nat \<Rightarrow> u8" where
  "capped n = of_nat (min 3 n)"

text \<open>An endpoint as the resolver reads it: the port after the last colon, the host before it, without brackets.\<close>

definition endpoint_port :: "rust_str \<Rightarrow> u16 option" where
  "endpoint_port e = parse_u16 (rev (takeWhile (\<lambda>b. b \<noteq> 0x3a) (rev e)))"

definition endpoint_host :: "rust_str \<Rightarrow> rust_str" where
  "endpoint_host e = rev (drop 1 (dropWhile (\<lambda>b. b \<noteq> 0x3a) (rev e)))"

definition unbracketed :: "rust_str \<Rightarrow> rust_str" where
  "unbracketed host = (if length host \<ge> 2 \<and> hd host = 0x5b \<and> last host = 0x5d then butlast (tl host) else host)"

lemma capped_Suc: "min (saturating_add (capped n) 1) MAX_VERBOSITY = capped (Suc n)"
proof -
  have "n \<ge> 3 \<or> n = 0 \<or> n = 1 \<or> n = 2" by linarith
  then show ?thesis
    by (elim disjE) (simp_all add: capped_def saturating_add_def MAX_VERBOSITY_def min_def)
qed

lemma scan_option_verbose: "scan_option (capped k) (replicate n 0x76 @ letters) = scan_option (capped (k + n)) letters"
  by (induction n arbitrary: k) (simp_all add: capped_Suc)

lemma scan_arguments_option:
  assumes "option_wf opt"
  shows "scan_arguments program False (capped k) ps (option_words opt @ remaining) =
    scan_arguments program False (capped (k + option_level opt)) ps remaining"
proof (cases opt)
  case (Verbose n)
  then show ?thesis
    using scan_option_verbose [of k "Suc n" "[]"] by simp
next
  case (Described n d)
  then show ?thesis
    using scan_option_verbose [of k n "0x23 # d"] assms by (cases n) auto
next
  case (DescribedNext n d)
  then show ?thesis
    using scan_option_verbose [of k n "[0x23]"] assms by (cases n) auto
qed

lemma scan_arguments_options:
  assumes "list_all option_wf opts"
  shows "scan_arguments program False (capped k) ps (concat (map option_words opts) @ remaining) =
    scan_arguments program False (capped (k + sum_list (map option_level opts))) ps remaining"
  using assms
  by (induction opts arbitrary: k) (simp_all add: scan_arguments_option add.assoc)

lemma decimal_no_colon: "0x3a \<notin> set (decimal n)"
  using decimal_digits [of n] by (auto simp: list_all_iff is_digit_def)

lemma endpoint_parts:
  "endpoint_port (host @ 0x3a # decimal (unat port)) = Some port" "endpoint_host (host @ 0x3a # decimal (unat port)) = host"
  using decimal_no_colon [of "unat port"]
  by (simp_all add: endpoint_port_def endpoint_host_def takeWhile_append2 dropWhile_append2 parse_u16_decimal
      takeWhile_append dropWhile_append)

lemma format_endpoint_parts:
  "endpoint_port (format_endpoint host port) = Some port"
  "unbracketed (endpoint_host (format_endpoint host port)) = unbracketed host"
proof -
  have b: "unbracketed ([0x5b] @ host @ [0x5d]) = host" by (simp add: unbracketed_def)
  have "endpoint_port (format_endpoint host port) = Some port \<and>
    unbracketed (endpoint_host (format_endpoint host port)) = unbracketed host"
    using endpoint_parts [of "[0x5b] @ host @ [0x5d]" port] endpoint_parts [of host port] b
    by (auto simp: format_endpoint_def unbracketed_def)
  then show "endpoint_port (format_endpoint host port) = Some port"
    "unbracketed (endpoint_host (format_endpoint host port)) = unbracketed host" by simp_all
qed

lemma scan_positionals:
  assumes "dashes = [[0x2d, 0x2d]] \<or> dashes = [] \<and> (host = [] \<or> hd host \<noteq> 0x2d \<or> host = [0x2d])"
  shows "scan_arguments program False v [] (dashes @ [host, decimal (unat port)]) =
    Inr (Inr (v, [host, decimal (unat port)]))"
proof -
  have "list_all is_digit (decimal (unat port)) \<and> decimal (unat port) \<noteq> []" using decimal_digits by blast
  then have "hd (decimal (unat port)) \<noteq> 0x2d" "decimal (unat port) \<noteq> [0x2d, 0x2d]"
    by (cases "decimal (unat port)"; auto simp: is_digit_def)+
  with assms show ?thesis by auto
qed

text \<open>
  C14. Command lines are read exactly. Any options (any number of \<open>v\<close>, wrapper descriptions with any content,
  attached or separate), an optional \<open>--\<close>, a host and a nonzero port, with neither \<open>--help\<close> nor \<open>--version\<close>
  among the words, give a connection whose verbosity is the number of \<open>v\<close> capped at 3, whose escape byte is the
  configured one, and whose endpoint the resolver splits into that host, brackets aside, and that port.
\<close>

theorem command_line_roundtrip:
  assumes "list_all option_wf opts" "port \<noteq> 0"
    and "dashes = [[0x2d, 0x2d]] \<or> dashes = [] \<and> (host = [] \<or> hd host \<noteq> 0x2d \<or> host = [0x2d])"
    and "ascii ''--help'' \<notin> set (concat (map option_words opts) @ dashes @ [host, decimal (unat port)])"
    and "ascii ''--version'' \<notin> set (concat (map option_words opts) @ dashes @ [host, decimal (unat port)])"
    and "environ ''MOSH_ESCAPE_KEY'' = (if key = CLI_DEFAULT_ESCAPE_BYTE then None else Some [key])" "1 \<le> key" "key \<le> 127"
    and "environ ''MOSH_PREDICTION_DISPLAY'' = None"
  shows "\<exists>cfg. parse_command (program # concat (map option_words opts) @ dashes @ [host, decimal (unat port)]) environ =
      Inr (Connect cfg) \<and>
    endpoint_port (cfg_endpoint cfg) = Some port \<and> unbracketed (endpoint_host (cfg_endpoint cfg)) = unbracketed host \<and>
    cfg_verbosity cfg = of_nat (min 3 (sum_list (map option_level opts))) \<and> cfg_escape_byte cfg = key \<and>
    cfg_prediction_display cfg = Adaptive"
proof -
  let ?words = "concat (map option_words opts) @ dashes @ [host, decimal (unat port)]"
  have "scan_arguments program False 0 [] ?words =
      Inr (Inr (capped (sum_list (map option_level opts)), [host, decimal (unat port)]))"
    using scan_arguments_options [OF assms(1), of program 0 "[]"] scan_positionals [OF assms(3)] by (simp add: capped_def)
  then have "parse_command (program # ?words) environ =
      connect_command environ program (capped (sum_list (map option_level opts))) [host, decimal (unat port)]"
    using assms(4,5) by (simp add: parse_command_def)
  moreover have "(case environ ''MOSH_ESCAPE_KEY'' of None \<Rightarrow> Inr CLI_DEFAULT_ESCAPE_BYTE | Some v \<Rightarrow> parse_escape_key v) = Inr key"
    using assms(6-8) by (simp add: parse_escape_key_def)
  ultimately show ?thesis
    using assms(2,9) format_endpoint_parts [of host port]
    by (simp add: connect_command_def parse_u16_decimal parse_prediction_display_def capped_def)
qed

theorem command_line_roundtrip_witness:
  "\<exists>cfg. parse_command [ascii ''ferrumtty'', ascii ''-vv'', ascii ''-#'', ascii ''-c'', ascii ''--'', ascii ''fe80::1'',
      ascii ''60001''] (\<lambda>_. None) = Inr (Connect cfg) \<and> endpoint_port (cfg_endpoint cfg) = Some 60001 \<and>
    unbracketed (endpoint_host (cfg_endpoint cfg)) = ascii ''fe80::1'' \<and> cfg_verbosity cfg = 2"
proof -
  let ?opts = "[Verbose 1, DescribedNext 0 (ascii ''-c'')]"
  have words: "concat (map option_words ?opts) @ [[0x2d, 0x2d]] @ [ascii ''fe80::1'', decimal (unat (60001 :: u16))] =
      [ascii ''-vv'', ascii ''-#'', ascii ''-c'', ascii ''--'', ascii ''fe80::1'', ascii ''60001'']"
    by (simp add: decimal.simps ascii_def of_char_def)
  have words_help: "ascii ''--help'' \<notin> set [ascii ''-vv'', ascii ''-#'', ascii ''-c'', ascii ''--'', ascii ''fe80::1'', ascii ''60001'']"
      "ascii ''--version'' \<notin> set [ascii ''-vv'', ascii ''-#'', ascii ''-c'', ascii ''--'', ascii ''fe80::1'', ascii ''60001'']"
    by (simp_all add: ascii_def of_char_def)
  have "unbracketed (ascii ''fe80::1'') = ascii ''fe80::1''" by (simp add: unbracketed_def ascii_def of_char_def)
  then show ?thesis
    using command_line_roundtrip [of ?opts 60001 "[[0x2d, 0x2d]]" "ascii ''fe80::1''" "\<lambda>_. None" CLI_DEFAULT_ESCAPE_BYTE
        "ascii ''ferrumtty''", unfolded words, OF _ _ _ words_help]
    by (auto simp: CLI_DEFAULT_ESCAPE_BYTE_def)
qed

subsection \<open>What is accepted\<close>

lemma scan_option_verbosity: "v \<le> MAX_VERBOSITY \<Longrightarrow> scan_option v letters = Scanned v' t \<Longrightarrow> v' \<le> MAX_VERBOSITY"
proof (induction letters arbitrary: v)
  case (Cons letter letters)
  from Cons.IH [of "min (saturating_add v 1) MAX_VERBOSITY"] Cons.prems show ?case by (auto split: if_splits)
qed simp

definition proper_error :: "cli_error \<Rightarrow> bool" where
  "proper_error e \<longleftrightarrow> ce_target e = Stderr \<and> ce_exit_code e = 1 \<and> ce_message e \<noteq> []"

lemma usage_nonempty [simp]: "usage program \<noteq> []" "ascii (c # cs) \<noteq> []"
  by (simp_all add: usage_def version_def ascii_def)

lemma cli_failure_proper: "message \<noteq> [] \<Longrightarrow> proper_error (cli_failure message)"
  by (simp add: proper_error_def cli_failure_def)

definition scan_valid :: "cli_error + (command + u8 \<times> rust_str list) \<Rightarrow> bool" where
  "scan_valid r \<longleftrightarrow>
     (case r of
        Inl e \<Rightarrow> proper_error e
      | Inr (Inl command) \<Rightarrow> command = ColorsCommand
      | Inr (Inr (verbosity, _)) \<Rightarrow> verbosity \<le> MAX_VERBOSITY)"

lemma scan_valid_simps [simp]:
  "scan_valid (Inl (cli_failure (usage program)))" "scan_valid (Inr (Inl ColorsCommand))"
  "scan_valid (Inr (Inr (v, ps))) \<longleftrightarrow> v \<le> MAX_VERBOSITY"
  by (simp_all add: scan_valid_def cli_failure_proper)

lemma scan_arguments_valid: "v \<le> MAX_VERBOSITY \<Longrightarrow> scan_valid (scan_arguments program finished v ps arguments)"
proof (induction program finished v ps arguments rule: scan_arguments.induct)
  case (2 program finished v ps argument remaining)
  show ?case
  proof (cases "scan_option v (tl argument)")
    case (Scanned v' takes_next)
    with 2 scan_option_verbosity [OF 2(5) Scanned] show ?thesis by (cases remaining) auto
  qed (use 2 in auto)
qed simp

definition command_valid :: "cli_error + command \<Rightarrow> bool" where
  "command_valid r \<longleftrightarrow>
     (case r of
        Inl e \<Rightarrow> proper_error e
      | Inr (Connect cfg) \<Rightarrow>
          cfg_verbosity cfg \<le> 3 \<and> 1 \<le> cfg_escape_byte cfg \<and> cfg_escape_byte cfg \<le> 127 \<and>
          (\<exists>port. endpoint_port (cfg_endpoint cfg) = Some port \<and> port \<noteq> 0)
      | Inr _ \<Rightarrow> True)"

lemma connect_command_valid:
  assumes "v \<le> 3"
  shows "command_valid (connect_command environ program v positionals)"
  using assms
  by (auto simp: command_valid_def connect_command_def parse_escape_key_def parse_prediction_display_def
      CLI_DEFAULT_ESCAPE_BYTE_def format_endpoint_parts cli_failure_proper length_Suc_conv
      split: list.splits option.splits sum.splits if_splits)

lemma parse_command_valid: "command_valid (parse_command arguments environ)"
proof -
  let ?program = "case arguments of [] \<Rightarrow> ascii ''ferrumtty'' | program # _ \<Rightarrow> program"
  have "scan_valid (scan_arguments ?program False 0 [] (drop 1 arguments))"
    by (rule scan_arguments_valid) simp
  then show ?thesis
    by (auto simp: parse_command_def Let_def scan_valid_def MAX_VERBOSITY_def command_valid_def [of "Inl _"]
        command_valid_def [of "Inr ColorsCommand"] command_valid_def [of "Inr VersionCommand"]
        command_valid_def [of "Inr (HelpCommand _)"] connect_command_valid split: sum.splits)
qed

text \<open>
  C15. The command line yields only usable results. Whatever the arguments and the environment, a rejection is a
  message for the standard error with exit code 1, and a connection has a verbosity of at most 3, an escape byte
  between 1 and 127 and an endpoint with a port other than 0.
\<close>

theorem accepted_configuration_valid:
  "case parse_command arguments environ of
     Inl e \<Rightarrow> ce_target e = Stderr \<and> ce_exit_code e = 1 \<and> ce_message e \<noteq> []
   | Inr (Connect cfg) \<Rightarrow>
       cfg_verbosity cfg \<le> 3 \<and> 1 \<le> cfg_escape_byte cfg \<and> cfg_escape_byte cfg \<le> 127 \<and>
       (\<exists>port. endpoint_port (cfg_endpoint cfg) = Some port \<and> port \<noteq> 0)
   | Inr _ \<Rightarrow> True"
  using parse_command_valid [of arguments environ] unfolding command_valid_def proper_error_def .

end
