(* ===== verification/Diagnostics.thy ===== *)
theory Diagnostics
  imports Command_Line Runtime
begin

section \<open>Diagnostics (\<open>crates/ferrumtty-client/src/diagnostics.rs\<close>)\<close>

text \<open>
  The lines that the client writes to standard error: nothing at verbosity 0, connection and lifecycle changes at 1,
  protocol events at 2 and their sizes at 3. All functions of the module are modelled; writing a line is the
  client's effect.
\<close>

subsection \<open>Model\<close>

datatype diagnostic_logger = DiagnosticLogger (verbosity_of: u8)

fun connection_state_name :: "connection_state \<Rightarrow> string" where
  "connection_state_name Connecting = ''connecting''"
| "connection_state_name Connected = ''connected''"
| "connection_state_name Interrupted = ''interrupted''"

fun prediction_name :: "prediction_display \<Rightarrow> string" where
  "prediction_name Adaptive = ''adaptive''"
| "prediction_name Always = ''always''"
| "prediction_name Never = ''never''"

text \<open>The derived \<open>Debug\<close> texts of two enumerations of the runtime.\<close>

fun lifecycle_name :: "session_lifecycle \<Rightarrow> string" where
  "lifecycle_name Running = ''Running''"
| "lifecycle_name Paused = ''Paused''"
| "lifecycle_name Cancelled = ''Cancelled''"

fun outcome_name :: "shutdown_outcome \<Rightarrow> string" where
  "outcome_name Acknowledged = ''Acknowledged''"
| "outcome_name PeerRequestedOutcome = ''PeerRequested''"
| "outcome_name TimedOut = ''TimedOut''"

definition show_bool :: "bool \<Rightarrow> rust_str" where
  "show_bool b = ascii (if b then ''true'' else ''false'')"

definition show_word :: "'a::len word \<Rightarrow> rust_str" where
  "show_word v = decimal (unat v)"

definition write_startup :: "diagnostic_logger \<Rightarrow> client_config \<Rightarrow> rust_str list" where
  "write_startup logger config =
     (if verbosity_of logger = 0 then []
      else [ascii ''ferrumtty: connection state=starting''] @
        (if verbosity_of logger \<ge> 2
         then [ascii ''ferrumtty: config escape='' @ show_word (cfg_escape_byte config) @ ascii '' title_prefix='' @
               show_bool (\<not> cfg_title_no_prefix config) @ ascii '' prediction='' @
               ascii (prediction_name (cfg_prediction_display config)) @ ascii '' overwrite='' @
               show_bool (cfg_prediction_overwrite config)]
         else []) @
        (if verbosity_of logger \<ge> 3
         then [ascii ''ferrumtty: diagnostics mode=metadata-only payload_logging=false''] else []))"

fun format_event :: "diagnostic_logger \<Rightarrow> diagnostic_event \<Rightarrow> rust_str option" where
  "format_event logger (DConnectionStateChanged state) =
     (if verbosity_of logger \<ge> 1
      then Some (ascii ''ferrumtty: connection state='' @ ascii (connection_state_name state)) else None)"
| "format_event logger (FreshUpdatePrepared state_id datagram_count datagram_bytes instruction_count input_bytes) =
     (if verbosity_of logger \<ge> 2
      then Some (ascii ''ferrumtty: send kind=fresh state='' @ show_word state_id @
        (if verbosity_of logger \<ge> 3
         then ascii '' datagrams='' @ show_word datagram_count @ ascii '' bytes='' @ show_word datagram_bytes @
              ascii '' instructions='' @ show_word instruction_count @ ascii '' input_bytes='' @ show_word input_bytes
         else []))
      else None)"
| "format_event logger (RetransmissionPrepared state_id datagram_count datagram_bytes delay) =
     (if verbosity_of logger \<ge> 2
      then Some (ascii ''ferrumtty: send kind=retransmission state='' @ show_word state_id @ ascii '' delay_ms='' @
        show_word delay @
        (if verbosity_of logger \<ge> 3
         then ascii '' datagrams='' @ show_word datagram_count @ ascii '' bytes='' @ show_word datagram_bytes
         else []))
      else None)"
| "format_event logger (InboundUpdateAccepted packet_counter base_state target_state acknowledged_state discard_before
      delta_bytes advances) =
     (if verbosity_of logger \<ge> 2
      then Some (ascii ''ferrumtty: receive old='' @ show_word base_state @ ascii '' new='' @ show_word target_state @
        ascii '' ack='' @ show_word acknowledged_state @ ascii '' throwaway='' @ show_word discard_before @
        ascii '' advanced='' @ show_bool advances @
        (if verbosity_of logger \<ge> 3
         then ascii '' packet_counter='' @ show_word packet_counter @ ascii '' delta_bytes='' @ show_word delta_bytes
         else []))
      else None)"
| "format_event logger (RoundTripUpdated sample) =
     (if verbosity_of logger \<ge> 2 then Some (ascii ''ferrumtty: rtt milliseconds='' @ show_word sample) else None)"
| "format_event logger (DSessionLifecycleChanged state) =
     (if verbosity_of logger \<ge> 1 then Some (ascii ''ferrumtty: session lifecycle='' @ ascii (lifecycle_name state)) else None)"
| "format_event logger (DUdpBindingChanged generation) =
     (if verbosity_of logger \<ge> 1
      then Some (ascii ''ferrumtty: udp binding_generation='' @ show_word generation) else None)"
| "format_event logger ShutdownStarted =
     (if verbosity_of logger \<ge> 1 then Some (ascii ''ferrumtty: shutdown state=started'') else None)"
| "format_event logger (DShutdownComplete outcome) =
     (if verbosity_of logger \<ge> 1
      then Some (ascii ''ferrumtty: shutdown state=complete outcome='' @ ascii (outcome_name outcome)) else None)"

text \<open>The lines that \<open>write_event\<close> prints.\<close>

definition write_event :: "diagnostic_logger \<Rightarrow> diagnostic_event \<Rightarrow> rust_str list" where
  "write_event logger event = (case format_event logger event of None \<Rightarrow> [] | Some message \<Rightarrow> [message])"

subsection \<open>Verbosity only adds\<close>

lemma format_event_monotone:
  assumes "v \<le> v'" "format_event (DiagnosticLogger v) event = Some message"
  shows "\<exists>suffix. format_event (DiagnosticLogger v') event = Some (message @ suffix)"
proof -
  have "1 \<le> v \<Longrightarrow> 1 \<le> v'" "2 \<le> v \<Longrightarrow> 2 \<le> v'" "3 \<le> v \<Longrightarrow> 3 \<le> v'" using assms(1) by auto
  with assms(2) show ?thesis by (cases event) (auto split: if_splits)
qed

lemma quiet_logger: "write_event (DiagnosticLogger 0) event = [] \<and> write_startup (DiagnosticLogger 0) config = []"
  by (cases event) (simp_all add: write_event_def write_startup_def)

end
