(* ===== verification/Client.thy ===== *)
theory Client
  imports Runtime Predict Terminal_Input Terminal_Screen Command_Line Diagnostics
begin

section \<open>The client (\<open>crates/ferrumtty-client/src/main.rs\<close>)\<close>

text \<open>
  The event loop that connects the runtime, the prediction overlay, the local terminal and the socket. The outside
  world is an argument: which effects succeed, what the socket and the terminal deliver in each round, and the
  readings of the clock. \<open>?\<close> is \<open>then_do\<close>: the first error ends an operation and keeps the state it left. A panic
  ends every operation the same way, to the drop of the terminal guard while the stack unwinds.
\<close>

subsection \<open>Model: data\<close>

definition RECEIVE_BUFFER_BYTES :: usize where "RECEIVE_BUFFER_BYTES = 65535"
definition LOOP_INTERVAL_MILLISECONDS :: u64 where "LOOP_INTERVAL_MILLISECONDS = 20"
definition SUSPEND_DETECTION_MILLISECONDS :: u64 where "SUSPEND_DETECTION_MILLISECONDS = 5000"

datatype message_text =
    TextConnectFailed | TextErrorPrefix | TextInputFailed | TextInputQueueFull | TextLocalCommandHelp | TextNoAddress
  | TextProtocolFailed | TextReceiveFailed | TextResolveFailed | TextSendFailed | TextSignalSetupFailed
  | TextSocketFailed | TextSuspendUnsupported | TextTerminalRequired | TextTerminalSetupFailed
  | TextTerminalSizeFailed | TextTerminalWriteFailed | TextUncleanShutdown

fun text_en :: "message_text \<Rightarrow> rust_str" where
  "text_en TextConnectFailed = ascii ''could not connect UDP socket''"
| "text_en TextErrorPrefix = ascii ''FerrumTTY error''"
| "text_en TextInputFailed = ascii ''could not read terminal input''"
| "text_en TextInputQueueFull = ascii ''local input queue limit reached''"
| "text_en TextLocalCommandHelp = [0x0d, 0x0a] @
     ascii ''FerrumTTY local commands: . quit, Ctrl-Z suspend, ? help, prefix prefix sends a literal prefix'' @ [0x0d, 0x0a]"
| "text_en TextNoAddress = ascii ''no address was resolved''"
| "text_en TextProtocolFailed = ascii ''protocol operation failed''"
| "text_en TextReceiveFailed = ascii ''UDP receive failed''"
| "text_en TextResolveFailed = ascii ''host lookup failed''"
| "text_en TextSendFailed = ascii ''UDP send failed''"
| "text_en TextSignalSetupFailed = ascii ''could not install termination handling''"
| "text_en TextSocketFailed = ascii ''could not configure UDP socket''"
| "text_en TextSuspendUnsupported = [0x0d, 0x0a] @ ascii ''Local suspend is not supported on this platform.'' @ [0x0d, 0x0a]"
| "text_en TextTerminalRequired = ascii ''standard input and output must be terminals''"
| "text_en TextTerminalSetupFailed = ascii ''could not enter terminal raw mode''"
| "text_en TextTerminalSizeFailed = ascii ''could not read terminal size''"
| "text_en TextTerminalWriteFailed = ascii ''could not write terminal output''"
| "text_en TextUncleanShutdown = newline @ ascii ''mosh did not shut down cleanly. Please note that the'' @ newline @
     ascii ''mosh-server process may still be running on the server.''"

text \<open>The Chinese table, by code points outside ASCII.\<close>

definition unicode :: "rust_char list \<Rightarrow> rust_str" where
  "unicode characters = concat (map encode_utf8 characters)"

fun text_zh :: "message_text \<Rightarrow> rust_str" where
  "text_zh TextConnectFailed = unicode [0x65e0, 0x6cd5, 0x8fde, 0x63a5] @ ascii '' UDP '' @
     unicode [0x5957, 0x63a5, 0x5b57]"
| "text_zh TextErrorPrefix = ascii ''FerrumTTY '' @ unicode [0x9519, 0x8bef]"
| "text_zh TextInputFailed = unicode [0x65e0, 0x6cd5, 0x8bfb, 0x53d6, 0x7ec8, 0x7aef, 0x8f93, 0x5165]"
| "text_zh TextInputQueueFull = unicode [0x672c, 0x5730, 0x8f93, 0x5165, 0x961f, 0x5217, 0x5df2, 0x8fbe, 0x5230,
       0x4e0a, 0x9650]"
| "text_zh TextLocalCommandHelp = [0x0d, 0x0a] @ ascii ''FerrumTTY '' @
     unicode [0x672c, 0x5730, 0x547d, 0x4ee4, 0xff1a] @ ascii ''. '' @ unicode [0x9000, 0x51fa, 0xff0c] @
     ascii ''Ctrl-Z '' @ unicode [0x6682, 0x505c, 0xff0c] @ ascii ''? '' @
     unicode [0x5e2e, 0x52a9, 0xff0c, 0x8fde, 0x7eed, 0x8f93, 0x5165, 0x4e24, 0x6b21, 0x524d, 0x7f00, 0x53ef, 0x53d1,
       0x9001, 0x5b57, 0x9762, 0x524d, 0x7f00] @
     [0x0d, 0x0a]"
| "text_zh TextNoAddress = unicode [0x672a, 0x89e3, 0x6790, 0x5230, 0x53ef, 0x7528, 0x5730, 0x5740]"
| "text_zh TextProtocolFailed = unicode [0x534f, 0x8bae, 0x64cd, 0x4f5c, 0x5931, 0x8d25]"
| "text_zh TextReceiveFailed = ascii ''UDP '' @ unicode [0x63a5, 0x6536, 0x5931, 0x8d25]"
| "text_zh TextResolveFailed = unicode [0x4e3b, 0x673a, 0x540d, 0x89e3, 0x6790, 0x5931, 0x8d25]"
| "text_zh TextSendFailed = ascii ''UDP '' @ unicode [0x53d1, 0x9001, 0x5931, 0x8d25]"
| "text_zh TextSignalSetupFailed = unicode [0x65e0, 0x6cd5, 0x5b89, 0x88c5, 0x7ec8, 0x6b62, 0x4fe1, 0x53f7, 0x5904,
       0x7406]"
| "text_zh TextSocketFailed = unicode [0x65e0, 0x6cd5, 0x914d, 0x7f6e] @ ascii '' UDP '' @
     unicode [0x5957, 0x63a5, 0x5b57]"
| "text_zh TextSuspendUnsupported = [0x0d, 0x0a] @
     unicode [0x5f53, 0x524d, 0x5e73, 0x53f0, 0x4e0d, 0x652f, 0x6301, 0x672c, 0x5730, 0x6682, 0x505c, 0x3002] @
     [0x0d, 0x0a]"
| "text_zh TextTerminalRequired = unicode [0x6807, 0x51c6, 0x8f93, 0x5165, 0x548c, 0x8f93, 0x51fa, 0x5fc5, 0x987b,
       0x8fde, 0x63a5, 0x7ec8, 0x7aef]"
| "text_zh TextTerminalSetupFailed = unicode [0x65e0, 0x6cd5, 0x8fdb, 0x5165, 0x7ec8, 0x7aef, 0x539f, 0x59cb, 0x6a21,
       0x5f0f]"
| "text_zh TextTerminalSizeFailed = unicode [0x65e0, 0x6cd5, 0x8bfb, 0x53d6, 0x7ec8, 0x7aef, 0x5c3a, 0x5bf8]"
| "text_zh TextTerminalWriteFailed = unicode [0x65e0, 0x6cd5, 0x5199, 0x5165, 0x7ec8, 0x7aef, 0x8f93, 0x51fa]"
| "text_zh TextUncleanShutdown = newline @ ascii ''mosh '' @
     unicode [0x672a, 0x80fd, 0x5e72, 0x51c0, 0x5173, 0x95ed, 0x3002, 0x8bf7, 0x6ce8, 0x610f, 0xff0c, 0x670d, 0x52a1,
       0x5668, 0x4e0a, 0x7684] @
     ascii '' mosh-server '' @ unicode [0x8fdb, 0x7a0b, 0x53ef, 0x80fd, 0x4ecd, 0x5728, 0x8fd0, 0x884c, 0x3002]"

text \<open>An error is the message that introduces it and its cause. A panic unwinds like an error that nothing handles.\<close>

datatype failure =
    OsFailure effect | RuntimeFailure runtime_error | SocketFailure | InputFailure | NoAddressFailure | NoDetail

datatype client_error = ClientError message_text failure | ClientPanic

text \<open>
  The environment of the client: the libraries, which effects succeed, the language, the texts of system errors and
  the derived \<open>Debug\<close> texts of protocol errors, the platform and the logger.
\<close>

record ('k, 'p, 'v) client_env =
  env_session :: "('k, 'p, 'v) session_lib"
  env_screen :: "('p, 'v) screen_lib"
  env_os :: environment
  env_language :: rust_str
  env_cause_text :: "failure \<Rightarrow> rust_str"
  env_session_debug :: "session_error \<Rightarrow> string"
  env_message_debug :: "message_error \<Rightarrow> string"
  env_windows :: bool
  env_logger :: diagnostic_logger

definition text_of :: "('k, 'p, 'v) client_env \<Rightarrow> message_text \<Rightarrow> rust_str" where
  "text_of env message =
     (if starts_with (ascii ''zh'') (env_language env) then text_zh message else text_en message)"

text \<open>The text of an error.\<close>

fun error_text :: "('k, 'p, 'v) client_env \<Rightarrow> client_error \<Rightarrow> rust_str" where
  "error_text env (ClientError message NoDetail) = text_of env message"
| "error_text env (ClientError message NoAddressFailure) = text_of env message @ ascii '': '' @ text_of env TextNoAddress"
| "error_text env (ClientError message (RuntimeFailure e)) =
     text_of env message @ ascii '': '' @ ascii (runtime_error_display (env_session_debug env) (env_message_debug env) e)"
| "error_text env (ClientError message cause) = text_of env message @ ascii '': '' @ env_cause_text env cause"
| "error_text env ClientPanic = []" \<comment> \<open>never reported\<close>

record ('k, 'p, 'v) client_state =
  cl_runtime :: "('k, 'p) session_runtime"
  cl_terminal :: "('p, 'v) terminal_guard"
  cl_predictor :: prediction_overlay
  cl_escape :: escape_interpreter
  cl_world :: world

type_synonym ('k, 'p, 'v, 'a) client_step =
  "('k, 'p, 'v) client_state \<Rightarrow> (client_error + 'a) \<times> ('k, 'p, 'v) client_state"

definition ok :: "'a \<Rightarrow> ('k, 'p, 'v, 'a) client_step" where
  "ok a s = (Inr a, s)"

definition fail :: "client_error \<Rightarrow> ('k, 'p, 'v, 'a) client_step" where
  "fail e s = (Inl e, s)"

definition then_do ::
    "('k, 'p, 'v, 'a) client_step \<Rightarrow> ('a \<Rightarrow> ('k, 'p, 'v, 'b) client_step) \<Rightarrow> ('k, 'p, 'v, 'b) client_step" where
  "then_do m f s = (case m s of (Inl e, s) \<Rightarrow> (Inl e, s) | (Inr a, s) \<Rightarrow> f a s)"

definition modify ::
    "(('k, 'p, 'v) client_state \<Rightarrow> ('k, 'p, 'v) client_state) \<Rightarrow> ('k, 'p, 'v, unit) client_step" where
  "modify f s = (Inr (), f s)"

definition on_terminal ::
    "message_text \<Rightarrow> (('p, 'v) terminal_guard \<Rightarrow> world \<Rightarrow> io_result \<times> ('p, 'v) terminal_guard) \<Rightarrow>
     ('k, 'p, 'v, unit) client_step" where
  "on_terminal message f s =
     (case f (cl_terminal s) (cl_world s) of ((r, w), tg) \<Rightarrow>
        (case r of Inl e \<Rightarrow> Inl (ClientError message (OsFailure e)) | Inr _ \<Rightarrow> Inr (),
         s\<lparr>cl_terminal := tg, cl_world := w\<rparr>))"

definition format_runtime_error :: "runtime_error \<Rightarrow> client_error" where
  "format_runtime_error e =
     (if e = InputQueueFull then ClientError TextInputQueueFull NoDetail else ClientError TextProtocolFailed (RuntimeFailure e))"

definition on_runtime ::
    "(('k, 'p) session_runtime \<Rightarrow> (runtime_error + 'a) \<times> ('k, 'p) session_runtime) \<Rightarrow> ('k, 'p, 'v, 'a) client_step" where
  "on_runtime f s =
     (case f (cl_runtime s) of (r, rt) \<Rightarrow>
        (case r of Inl e \<Rightarrow> Inl (format_runtime_error e) | Inr a \<Rightarrow> Inr a, s\<lparr>cl_runtime := rt\<rparr>))"

text \<open>Lines on standard error: \<open>eprintln!\<close> panics when one cannot be written.\<close>

definition eprint_lines :: "('k, 'p, 'v) client_env \<Rightarrow> rust_str list \<Rightarrow> ('k, 'p, 'v, unit) client_step" where
  "eprint_lines env lines s =
     (case attempts (env_os env) (map LogLine lines) (cl_world s) of (r, w) \<Rightarrow>
        (case r of Inl _ \<Rightarrow> Inl ClientPanic | Inr _ \<Rightarrow> Inr (), s\<lparr>cl_world := w\<rparr>))"

subsection \<open>Model: actions\<close>

definition reconcile_prediction :: "('k, 'p, 'v) client_env \<Rightarrow> ('k, 'p, 'v, unit) client_step" where
  "reconcile_prediction env s =
     (let (reconciliation, predictor) = take_reconciliation (cl_predictor s); s = s\<lparr>cl_predictor := predictor\<rparr> in
      case reconciliation of
        NoReconciliation \<Rightarrow> ok () s
      | LocalReconciliation bs \<Rightarrow>
          on_terminal TextTerminalWriteFailed (\<lambda>tg w. (write_overlay_bytes (env_os env) bs w, tg)) s
      | Redraw \<Rightarrow>
          on_terminal TextTerminalWriteFailed (\<lambda>tg w. (redraw_authoritative (env_screen env) (env_os env) tg w, tg)) s)"

fun apply_action :: "('k, 'p, 'v) client_env \<Rightarrow> session_action \<Rightarrow> ('k, 'p, 'v, unit) client_step" where
  "apply_action env (SendDatagram packet) s =
     on_terminal TextSendFailed (\<lambda>tg w. (attempt (env_os env) (SendPacket packet) w, tg)) s"
| "apply_action env (WriteTerminal bs) s =
     then_do (reconcile_prediction env)
       (\<lambda>_. on_terminal TextTerminalWriteFailed (\<lambda>tg w. write_server_bytes (env_screen env) (env_os env) tg bs w)) s"
| "apply_action env (AcknowledgePrediction v) s = modify (\<lambda>s. s\<lparr>cl_predictor := acknowledge (cl_predictor s) v\<rparr>) s"
| "apply_action env (Diagnostic event) s = eprint_lines env (write_event (env_logger env) event) s"
| "apply_action env (RemoteStateAdvanced _) s = ok () s"
| "apply_action env (ResizeTerminal _ _) s = ok () s"
| "apply_action env (ConnectionStateChanged _) s = ok () s"
| "apply_action env (RoundTripEstimate _) s = ok () s"
| "apply_action env (CapabilitiesChanged _) s = ok () s"
| "apply_action env (RemoteSessionControl _ _) s = ok () s"
| "apply_action env (SessionLifecycleChanged _) s = ok () s"
| "apply_action env (UdpBindingChanged _) s = ok () s"
| "apply_action env (ShutdownComplete _) s = ok () s"

fun apply_actions :: "('k, 'p, 'v) client_env \<Rightarrow> session_action list \<Rightarrow> ('k, 'p, 'v, unit) client_step" where
  "apply_actions env [] = ok ()"
| "apply_actions env (action # actions) = then_do (apply_action env action) (\<lambda>_. apply_actions env actions)"

subsection \<open>Model: the network\<close>

text \<open>What the socket delivers before it would block.\<close>

datatype socket_result = ReceivedDatagram bytes | ConnectionRefused | SocketError

fun drain_network ::
    "('k, 'p, 'v) client_env \<Rightarrow> monotonic_time \<Rightarrow> socket_result list \<Rightarrow> ('k, 'p, 'v, bool) client_step" where
  "drain_network env now [] = ok False"
| "drain_network env now (ReceivedDatagram datagram # results) =
     then_do (on_runtime (\<lambda>rt. receive_datagram (env_session env) rt (take RECEIVE_BUFFER_BYTES datagram) now)) (\<lambda>actions.
     then_do (apply_actions env actions) (\<lambda>_. drain_network env now results))"
| "drain_network env now (ConnectionRefused # results) =
     (\<lambda>s. if received_server_state (cl_runtime s) then ok True s else fail (ClientError TextReceiveFailed SocketFailure) s)"
| "drain_network env now (SocketError # results) = fail (ClientError TextReceiveFailed SocketFailure)"

subsection \<open>Model: local input\<close>

datatype key_event_kind = KeyPress | KeyRepeat | KeyRelease

datatype terminal_event =
    KeyEvent key_event_kind key_event
  | PasteEvent bytes
  | MouseEvent mouse_event
  | FocusGained
  | FocusLost
  | ResizeEvent u16 u16

text \<open>What the terminal delivers before it has no more events, each with the clock reading at that time.\<close>

datatype input_result = Input terminal_event | InputError

definition key_prediction_action :: "key_event \<Rightarrow> prediction_action" where
  "key_prediction_action key =
     (if km_alt (ke_modifiers key) \<or> km_control (ke_modifiers key) then PredictBarrier
      else
        (case ke_code key of
           CharKey character \<Rightarrow>
             if char_is_control character then PredictBarrier
             else if char_is_ascii character then PrintableAscii (of_nat character)
             else PrintableUtf8 character
         | BackspaceKey \<Rightarrow> PredictBackspace
         | LeftKey \<Rightarrow> PredictLeft
         | RightKey \<Rightarrow> PredictRight
         | _ \<Rightarrow> PredictBarrier))"

definition client_queue_input :: "bytes \<Rightarrow> ('k, 'p, 'v, unit) client_step" where
  "client_queue_input bs = on_runtime (\<lambda>rt. queue_input rt bs)"

definition flush_escape :: "('k, 'p, 'v, unit) client_step" where
  "flush_escape s =
     (let (held, escape) = escape_flush (cl_escape s); s = s\<lparr>cl_escape := escape\<rparr> in
      case held of None \<Rightarrow> ok () s | Some bs \<Rightarrow> client_queue_input bs s)"

definition suspend_client :: "('k, 'p, 'v) client_env \<Rightarrow> ('k, 'p, 'v, unit) client_step" where
  "suspend_client env =
     (if env_windows env then
        on_terminal TextTerminalWriteFailed
          (\<lambda>tg w. write_local_notice (env_screen env) (env_os env) tg (text_of env TextSuspendUnsupported) w)
      else
        then_do (on_terminal TextTerminalSetupFailed (\<lambda>tg w. leave_for_suspend (env_os env) tg w)) (\<lambda>_ s.
          let (suspend_result, s) =
                on_terminal TextSignalSetupFailed (\<lambda>tg w. (attempt (env_os env) RaiseSuspend w, tg)) s;
              (resume_result, s) =
                on_terminal TextTerminalSetupFailed (\<lambda>tg w. resume_after_suspend (env_screen env) (env_os env) tg w) s
          in (case suspend_result of Inl e \<Rightarrow> Inl e | Inr _ \<Rightarrow> resume_result, s)))"

definition offer_prediction ::
    "('k, 'p, 'v) client_env \<Rightarrow> u64 \<Rightarrow> prediction_action \<Rightarrow> prediction_context \<Rightarrow> ('k, 'p, 'v, unit) client_step" where
  "offer_prediction env frame action prediction_context s =
     (let (prediction, predictor) = offer_for_frame_with_context (cl_predictor s) frame action (Some prediction_context);
          s = s\<lparr>cl_predictor := predictor\<rparr>
      in (case prediction of
            None \<Rightarrow> ok () s
          | Some shown \<Rightarrow> on_terminal TextTerminalWriteFailed (\<lambda>tg w. (write_overlay_bytes (env_os env) shown w, tg)) s))"

text \<open>The branch \<open>EscapeAction::Forward\<close>: the bytes are queued, then the key may be predicted.\<close>

definition forward_key :: "('k, 'p, 'v) client_env \<Rightarrow> key_event \<Rightarrow> bytes \<Rightarrow> ('k, 'p, 'v, unit) client_step" where
  "forward_key env key bs s =
     (let frame = prediction_frame_id (cl_runtime s);
          cursor = guard_prediction_cursor_context (env_screen env) (cl_terminal s);
          prediction_context =
            \<lparr>px_row = cc_row cursor, px_column = cc_column cursor, px_columns = cc_columns cursor,
             px_attributes = cc_attributes cursor, px_cursor_state = cc_cursor_state cursor\<rparr>
      in then_do (client_queue_input bs)
           (\<lambda>_. offer_prediction env frame (key_prediction_action key) prediction_context) s)"

text \<open>Input that is not a key: it is queued and ends the predictions of the line.\<close>

definition forward_barrier :: "bytes \<Rightarrow> ('k, 'p, 'v, unit) client_step" where
  "forward_barrier bs s =
     (let frame = prediction_frame_id (cl_runtime s) in
      then_do (client_queue_input bs)
        (\<lambda>_. modify (\<lambda>s. s\<lparr>cl_predictor := snd (offer_for_frame (cl_predictor s) frame PredictBarrier)\<rparr>)) s)"

definition forward_optional :: "bytes option \<Rightarrow> ('k, 'p, 'v, unit) client_step" where
  "forward_optional bs = (case bs of None \<Rightarrow> ok () | Some bs \<Rightarrow> forward_barrier bs)"

definition remote_modes_of :: "('k, 'p, 'v) client_env \<Rightarrow> ('k, 'p, 'v) client_state \<Rightarrow> remote_terminal_modes" where
  "remote_modes_of env s = guard_remote_modes (env_screen env) (cl_terminal s)"

text \<open>A key event; the result says whether to quit.\<close>

definition handle_key :: "('k, 'p, 'v) client_env \<Rightarrow> monotonic_time \<Rightarrow> key_event \<Rightarrow> ('k, 'p, 'v, bool) client_step" where
  "handle_key env now key s =
     (case encode_key_with_mode key (rm_cursor_key (remote_modes_of env s)) of
        None \<Rightarrow> ok False s
      | Some bs \<Rightarrow>
          let (action, escape) = escape_input (cl_escape s) bs; s = s\<lparr>cl_escape := escape\<rparr> in
          (case action of
             Hold \<Rightarrow> ok False s
           | Help \<Rightarrow>
               then_do (on_terminal TextTerminalWriteFailed
                   (\<lambda>tg w. write_local_notice (env_screen env) (env_os env) tg (text_of env TextLocalCommandHelp) w))
                 (\<lambda>_. ok False) s
           | Quit \<Rightarrow> ok True s
           | Suspend \<Rightarrow>
               then_do (suspend_client env) (\<lambda>_.
               then_do (modify (\<lambda>s. s\<lparr>cl_runtime := resume (cl_runtime s) now\<rparr>)) (\<lambda>_. ok False)) s
           | Forward bs \<Rightarrow> then_do (forward_key env key bs) (\<lambda>_. ok False) s))"

fun handle_event :: "('k, 'p, 'v) client_env \<Rightarrow> monotonic_time \<Rightarrow> terminal_event \<Rightarrow> ('k, 'p, 'v, bool) client_step" where
  "handle_event env now (KeyEvent kind key) = (if kind = KeyRelease then ok False else handle_key env now key)"
| "handle_event env now (PasteEvent contents) =
     then_do flush_escape (\<lambda>_.
     then_do (\<lambda>s. forward_barrier (encode_paste_with_mode contents (rm_bracketed_paste (remote_modes_of env s))) s)
       (\<lambda>_. ok False))"
| "handle_event env now (MouseEvent mouse) =
     then_do flush_escape (\<lambda>_.
     then_do (\<lambda>s. forward_optional (encode_mouse_with_mode mouse (rm_mouse_tracking (remote_modes_of env s))
         (rm_mouse_encoding (remote_modes_of env s))) s) (\<lambda>_. ok False))"
| "handle_event env now FocusGained =
     then_do flush_escape (\<lambda>_.
     then_do (\<lambda>s. forward_optional (encode_focus_with_mode True (rm_focus_reporting (remote_modes_of env s))) s)
       (\<lambda>_. ok False))"
| "handle_event env now FocusLost =
     then_do flush_escape (\<lambda>_.
     then_do (\<lambda>s. forward_optional (encode_focus_with_mode False (rm_focus_reporting (remote_modes_of env s))) s)
       (\<lambda>_. ok False))"
| "handle_event env now (ResizeEvent columns rows) =
     then_do flush_escape (\<lambda>_.
     then_do (reconcile_prediction env) (\<lambda>_.
     then_do (modify (\<lambda>s. s\<lparr>cl_terminal := resize_model (env_screen env) (cl_terminal s) columns rows\<rparr>)) (\<lambda>_.
     then_do (on_runtime (\<lambda>rt. queue_resize (env_session env) rt columns rows)) (\<lambda>_. ok False))))"

fun drain_terminal ::
    "('k, 'p, 'v) client_env \<Rightarrow> (monotonic_time \<times> input_result) list \<Rightarrow> ('k, 'p, 'v, bool) client_step" where
  "drain_terminal env [] = ok False"
| "drain_terminal env ((now, InputError) # results) = fail (ClientError TextInputFailed InputFailure)"
| "drain_terminal env ((now, Input event) # results) =
     then_do (on_terminal TextTerminalWriteFailed (\<lambda>tg w. clear_local_notice (env_screen env) (env_os env) tg w)) (\<lambda>_.
     then_do (handle_event env now event) (\<lambda>quit. if quit then ok True else drain_terminal env results))"

subsection \<open>Model: the event loop\<close>

text \<open>What one round of the loop observes.\<close>

record observation =
  ob_now :: monotonic_time
  ob_terminate :: bool \<comment> \<open>the termination flag\<close>
  ob_sockets :: "socket_result list"
  ob_inputs :: "(monotonic_time \<times> input_result) list"
  ob_quit_at :: monotonic_time \<comment> \<open>the clock when a local quit is handled\<close>
  ob_wait_at :: monotonic_time \<comment> \<open>the clock when the wait is computed\<close>

definition request_stop :: "('k, 'p, 'v) client_env \<Rightarrow> monotonic_time \<Rightarrow> ('k, 'p, 'v, unit) client_step" where
  "request_stop env now = then_do (on_runtime (\<lambda>rt. request_shutdown rt now)) (apply_actions env)"

definition detect_suspend :: "monotonic_time \<Rightarrow> monotonic_time \<Rightarrow> ('k, 'p, 'v, unit) client_step" where
  "detect_suspend previous now =
     modify (\<lambda>s. if saturating_sub (milliseconds now) (milliseconds previous) \<ge> SUSPEND_DETECTION_MILLISECONDS
                 then s\<lparr>cl_runtime := resume (cl_runtime s) now\<rparr> else s)"

text \<open>The parts of a round after the network: local input, unless a shutdown is in progress, and the poll.\<close>

definition loop_input :: "('k, 'p, 'v) client_env \<Rightarrow> observation \<Rightarrow> ('k, 'p, 'v, unit) client_step" where
  "loop_input env ob s =
     (if shutdown_in_progress (cl_runtime s) then ok () s
      else then_do (drain_terminal env (ob_inputs ob))
             (\<lambda>quit. if quit then request_stop env (ob_quit_at ob) else ok ()) s)"

definition loop_poll :: "('k, 'p, 'v) client_env \<Rightarrow> monotonic_time \<Rightarrow> ('k, 'p, 'v, bool option) client_step" where
  "loop_poll env now =
     then_do (on_runtime (\<lambda>rt. poll (env_session env) rt now)) (\<lambda>actions.
     then_do (apply_actions env actions) (\<lambda>_ s.
     ok (map_option (\<lambda>outcome. outcome \<noteq> TimedOut) (shutdown_outcome_of (cl_runtime s))) s))"

text \<open>One round; \<open>Some clean\<close> ends the loop.\<close>

definition loop_body ::
    "('k, 'p, 'v) client_env \<Rightarrow> monotonic_time \<Rightarrow> observation \<Rightarrow> ('k, 'p, 'v, bool option) client_step" where
  "loop_body env previous ob =
     then_do (if ob_terminate ob then request_stop env (ob_now ob) else ok ()) (\<lambda>_.
     then_do (detect_suspend previous (ob_now ob)) (\<lambda>_.
     then_do (drain_network env (ob_now ob) (ob_sockets ob)) (\<lambda>refused.
     if refused then ok (Some True)
     else
       then_do (modify (\<lambda>s. s\<lparr>cl_predictor :=
         set_round_trip_milliseconds (cl_predictor s) (round_trip_milliseconds (cl_runtime s))\<rparr>)) (\<lambda>_.
       then_do (loop_input env ob) (\<lambda>_.
       loop_poll env (ob_now ob))))))"

definition loop_sleep :: "monotonic_time \<Rightarrow> ('k, 'p, 'v) client_state \<Rightarrow> ('k, 'p, 'v) client_state" where
  "loop_sleep now s =
     s\<lparr>cl_world := cl_world s @
       [SleepFor (min LOOP_INTERVAL_MILLISECONDS (max (milliseconds_until_next_poll (cl_runtime s) now) 1))]\<rparr>"

text \<open>
  The loop over the rounds; \<open>None\<close> when it is still running after the last of them. A panic leaves it without the last
  reconciliation.
\<close>

fun event_loop ::
    "('k, 'p, 'v) client_env \<Rightarrow> monotonic_time \<Rightarrow> observation list \<Rightarrow> ('k, 'p, 'v) client_state \<Rightarrow>
     ((client_error + bool) \<times> ('k, 'p, 'v) client_state) option" where
  "event_loop env previous [] s = None"
| "event_loop env previous (ob # obs) s =
     (case loop_body env previous ob s of
        (Inr None, s) \<Rightarrow> event_loop env (ob_now ob) obs (loop_sleep (ob_wait_at ob) s)
      | (Inr (Some clean), s) \<Rightarrow> Some (then_do (reconcile_prediction env) (\<lambda>_. ok clean) s)
      | (Inl ClientPanic, s) \<Rightarrow> Some (Inl ClientPanic, s)
      | (Inl e, s) \<Rightarrow> Some (then_do (reconcile_prediction env) (\<lambda>_. fail e) s))"

subsection \<open>Model: start and exit\<close>

text \<open>What the process finds when it starts.\<close>

record startup =
  st_arguments :: "rust_str option list" \<comment> \<open>\<open>None\<close>: not Unicode\<close>
  st_environ :: "string \<Rightarrow> rust_str option"
  st_stdin_is_terminal :: bool
  st_stdout_is_terminal :: bool
  st_addresses :: "(bool \<times> bool \<times> bool) list option" \<comment> \<open>per resolved address: bind, connect, set nonblocking\<close>
  st_signals :: bool \<comment> \<open>the termination handler was installed\<close>
  st_console_size :: "(u16 \<times> u16) option" \<comment> \<open>when the terminal is entered\<close>
  st_console_size_later :: "(u16 \<times> u16) option" \<comment> \<open>when the size is queued\<close>
  st_started :: monotonic_time
  st_loop_started :: monotonic_time
  st_color_count :: u16

datatype app_error = AppCli cli_error | AppRuntime client_error | UncleanShutdown

datatype run_result = StillRunning | Panicked world | Finished "app_error + unit" world

definition read_session_key :: "'k cipher_lib \<Rightarrow> (string \<Rightarrow> rust_str option) \<Rightarrow> cli_error + session_key" where
  "read_session_key lib environ =
     (case environ ''MOSH_KEY'' of
        None \<Rightarrow> Inl missing_key_error
      | Some encoded \<Rightarrow>
          (case session_key_decode lib (map (\<lambda>b. char_of (unat b)) encoded) of
             Inl _ \<Rightarrow> Inl invalid_key_error
           | Inr key \<Rightarrow> Inr key))"

text \<open>The loop over the addresses: the index of the one connected to.\<close>

fun connect_addresses :: "nat \<Rightarrow> bool \<Rightarrow> (bool \<times> bool \<times> bool) list \<Rightarrow> client_error + nat" where
  "connect_addresses index failed [] = Inl (ClientError TextConnectFailed (if failed then SocketFailure else NoAddressFailure))"
| "connect_addresses index failed ((bound, connected, nonblocking) # addresses) =
     (if \<not> bound then connect_addresses (Suc index) True addresses
      else if \<not> connected then connect_addresses (Suc index) True addresses
      else if \<not> nonblocking then Inl (ClientError TextSocketFailed SocketFailure)
      else Inr index)"

definition connect_socket :: "(bool \<times> bool \<times> bool) list option \<Rightarrow> client_error + nat" where
  "connect_socket addresses =
     (case addresses of
        None \<Rightarrow> Inl (ClientError TextResolveFailed SocketFailure)
      | Some addresses \<Rightarrow> connect_addresses 0 False addresses)"

definition size_of :: "startup \<Rightarrow> (u16 \<times> u16) option \<Rightarrow> (u16 \<times> u16) option" where
  "size_of su console = terminal_size console (environment_terminal_size (st_environ su ''COLUMNS'') (st_environ su ''LINES''))"

text \<open>
  From the entered terminal to the end of the session; the guard is dropped on every way out, also when a panic
  unwinds.
\<close>

definition run_session ::
    "('k, 'p, 'v) client_env \<Rightarrow> startup \<Rightarrow> client_config \<Rightarrow> session_key \<Rightarrow> observation list \<Rightarrow>
     ('p, 'v) terminal_guard \<Rightarrow> world \<Rightarrow> run_result" where
  "run_session env su config key obs tg w =
     (case runtime_new (env_session env) key (st_started su) of
        None \<Rightarrow> Panicked (drop_guard (env_os env) tg w)
      | Some rt \<Rightarrow>
          (case size_of su (st_console_size_later su) of
             None \<Rightarrow> Finished (Inl (AppRuntime (ClientError TextTerminalSizeFailed (OsFailure ReadSize))))
               (drop_guard (env_os env) tg w)
           | Some (columns, rows) \<Rightarrow>
               (case queue_resize (env_session env) rt columns rows of
                  (Inl _, rt) \<Rightarrow> Panicked (drop_guard (env_os env) tg w)
                | (Inr _, rt) \<Rightarrow>
                    (case event_loop env (st_loop_started su) obs
                        \<lparr>cl_runtime = rt, cl_terminal = tg,
                         cl_predictor = prediction_overlay_new (cfg_prediction_display config) (cfg_prediction_overwrite config),
                         cl_escape = escape_interpreter_new (cfg_escape_byte config), cl_world = w\<rparr> of
                       None \<Rightarrow> StillRunning
                     | Some (result, s) \<Rightarrow>
                         let w = drop_guard (env_os env) (cl_terminal s) (cl_world s) in
                         (case result of
                            Inl ClientPanic \<Rightarrow> Panicked w
                          | Inl e \<Rightarrow> Finished (Inl (AppRuntime e)) w
                          | Inr clean \<Rightarrow> Finished (if clean then Inr () else Inl UncleanShutdown) w)))))"

definition run_client ::
    "('k, 'p, 'v) client_env \<Rightarrow> startup \<Rightarrow> client_config \<Rightarrow> observation list \<Rightarrow> run_result" where
  "run_client env su config obs =
     (case read_session_key (cipher (env_session env)) (st_environ su) of
        Inl e \<Rightarrow> Finished (Inl (AppCli e)) []
      | Inr key \<Rightarrow>
          (case validate_utf8_locale (st_environ su) (env_windows env) of
             Inl e \<Rightarrow> Finished (Inl (AppCli e)) []
           | Inr _ \<Rightarrow>
               if \<not> st_stdin_is_terminal su \<or> \<not> st_stdout_is_terminal su
               then Finished (Inl (AppRuntime (ClientError TextTerminalRequired NoDetail))) []
               else
                 let env = env\<lparr>env_logger := DiagnosticLogger (cfg_verbosity config)\<rparr> in
                 (case attempts (env_os env) (map LogLine (write_startup (env_logger env) config)) [] of
                    (Inl _, w) \<Rightarrow> Panicked w
                  | (Inr _, w) \<Rightarrow>
                      (case connect_socket (st_addresses su) of
                         Inl e \<Rightarrow> Finished (Inl (AppRuntime e)) w
                       | Inr _ \<Rightarrow>
                           if \<not> st_signals su
                           then Finished (Inl (AppRuntime (ClientError TextSignalSetupFailed SocketFailure))) w
                           else
                             let policy = (if cfg_title_no_prefix config then PreserveRemote else MoshPrefix) in
                             (case enter_with_title_policy (env_screen env) (env_os env) (size_of su (st_console_size su))
                                 (st_environ su ''MOSH_NO_TERM_INIT'' \<noteq> None) policy w of
                                (Inl e, w) \<Rightarrow> Finished (Inl (AppRuntime (ClientError TextTerminalSetupFailed (OsFailure e)))) w
                              | (Inr tg, w) \<Rightarrow> run_session env su config key obs tg w)))))"

text \<open>A line printed to the target; the macro panics when it cannot be written.\<close>

definition write_cli_output :: "('k, 'p, 'v) client_env \<Rightarrow> output_target \<Rightarrow> rust_str \<Rightarrow> world \<Rightarrow> io_result" where
  "write_cli_output env target message w =
     attempt (env_os env) (case target of Stdout \<Rightarrow> PrintLine message | Stderr \<Rightarrow> LogLine message) w"

definition print_and_succeed :: "('k, 'p, 'v) client_env \<Rightarrow> rust_str \<Rightarrow> run_result" where
  "print_and_succeed env message =
     (case write_cli_output env Stdout message [] of (Inl _, w) \<Rightarrow> Panicked w | (Inr _, w) \<Rightarrow> Finished (Inr ()) w)"

text \<open>The iterator over the arguments panics at one that is not Unicode, and the parser collects them all.\<close>

definition dispatch :: "('k, 'p, 'v) client_env \<Rightarrow> startup \<Rightarrow> observation list \<Rightarrow> run_result" where
  "dispatch env su obs =
     (case those (st_arguments su) of
        None \<Rightarrow> Panicked []
      | Some arguments \<Rightarrow>
          (case parse_command arguments (st_environ su) of
             Inl e \<Rightarrow> Finished (Inl (AppCli e)) []
           | Inr (HelpCommand program) \<Rightarrow> print_and_succeed env (usage program)
           | Inr VersionCommand \<Rightarrow> print_and_succeed env version
           | Inr ColorsCommand \<Rightarrow>
               print_and_succeed env (decimal (unat (infer_color_count (env_windows env) (st_environ su ''TERM'')
                 (st_environ su ''COLORTERM'') (platform_color_capability_of (st_color_count su)))))
           | Inr (Connect config) \<Rightarrow> run_client env su config obs))"

text \<open>The message about an error and the exit code.\<close>

fun report :: "('k, 'p, 'v) client_env \<Rightarrow> app_error \<Rightarrow> (output_target \<times> rust_str) \<times> u8" where
  "report env (AppCli e) = ((ce_target e, ce_message e), ce_exit_code e)"
| "report env (AppRuntime e) = ((Stderr, text_of env TextErrorPrefix @ ascii '': '' @ error_text env e), 1)"
| "report env UncleanShutdown = ((Stderr, text_of env TextUncleanShutdown), 1)"

datatype process_result = ProcessRunning | ProcessPanicked world | Exited u8 world

definition main_exit :: "('k, 'p, 'v) client_env \<Rightarrow> startup \<Rightarrow> observation list \<Rightarrow> process_result" where
  "main_exit env su obs =
     (case dispatch env su obs of
        StillRunning \<Rightarrow> ProcessRunning
      | Panicked w \<Rightarrow> ProcessPanicked w
      | Finished (Inr _) w \<Rightarrow> Exited 0 w
      | Finished (Inl e) w \<Rightarrow>
          (case report env e of ((target, message), code) \<Rightarrow>
             (case write_cli_output env target message w of
                (Inl _, w) \<Rightarrow> ProcessPanicked w
              | (Inr _, w) \<Rightarrow> Exited code w)))"

end
