(* ===== verification/Client_Invariants.thy ===== *)
theory Client_Invariants
  imports Client
begin

section \<open>The client: invariants\<close>

text \<open>
  What a property of the client's state has to survive to be an invariant of the event loop, as interfaces: the
  primitive steps the client takes are their assumptions, and the operations composed of these keep the property.
  The interpretations are where the properties are: of the runtime in \<open>Client_Promises\<close>, of the terminal in
  \<open>Client_Safety\<close>, of the screen in \<open>Client_Rounds\<close>.
\<close>

subsection \<open>Steps\<close>

lemma ok_eq [simp]: "ok a s = (Inr a, s)"
  by (simp add: ok_def)

lemma fail_eq [simp]: "fail e s = (Inl e, s)"
  by (simp add: fail_def)

lemma modify_eq [simp]: "modify f s = (Inr (), f s)"
  by (simp add: modify_def)

lemma then_do_simps [simp]:
  "m s = (Inl e, s') \<Longrightarrow> then_do m f s = (Inl e, s')"
  "m s = (Inr a, s') \<Longrightarrow> then_do m f s = f a s'"
  by (simp_all add: then_do_def)

lemma then_doE:
  assumes "then_do m f s = (r, s')"
  obtains (error) e where "m s = (Inl e, s')" "r = Inl e"
  | (proceed) a s1 where "m s = (Inr a, s1)" "f a s1 = (r, s')"
  using assms by (cases "m s"; cases "fst (m s)") (auto simp: then_do_def)

lemma on_terminal_runtime [simp]: "cl_runtime (snd (on_terminal message f s)) = cl_runtime s"
  by (simp add: on_terminal_def split: prod.splits)

text \<open>
  A triple with two postconditions: from a state with \<open>P\<close> a step ends in one with \<open>P\<close>, or fails with an error and a
  state related by \<open>E\<close>. A step keeps \<open>P\<close> when it ends in a state with \<open>P\<close> also when it fails.
\<close>

definition outcome ::
    "('s \<Rightarrow> bool) \<Rightarrow> (client_error \<Rightarrow> 's \<Rightarrow> bool) \<Rightarrow> (client_error + 'a) \<times> 's \<Rightarrow> bool" where
  "outcome P E rs \<longleftrightarrow> (case rs of (Inl e, s) \<Rightarrow> E e s | (Inr _, s) \<Rightarrow> P s)"

definition ensures ::
    "(('k, 'p, 'v) client_state \<Rightarrow> bool) \<Rightarrow> (client_error \<Rightarrow> ('k, 'p, 'v) client_state \<Rightarrow> bool) \<Rightarrow>
     ('k, 'p, 'v, 'a) client_step \<Rightarrow> bool" where
  "ensures P E m \<longleftrightarrow> (\<forall>s. P s \<longrightarrow> outcome P E (m s))"

abbreviation keeps :: "(('k, 'p, 'v) client_state \<Rightarrow> bool) \<Rightarrow> ('k, 'p, 'v, 'a) client_step \<Rightarrow> bool" where
  "keeps P m \<equiv> ensures P (\<lambda>_. P) m"

lemma outcome_simps [simp]: "outcome P E (Inl e, s) = E e s" "outcome P E (Inr a, s) = P s"
  by (simp_all add: outcome_def)

lemma outcome_keeps: "outcome P (\<lambda>_. P) rs \<longleftrightarrow> P (snd rs)"
  by (simp add: outcome_def split: prod.splits sum.splits)

lemma keeps_def: "keeps P m \<longleftrightarrow> (\<forall>s. P s \<longrightarrow> P (snd (m s)))"
  by (simp add: ensures_def outcome_keeps)

lemma ensuresD: "ensures P E m \<Longrightarrow> m s = (r, s') \<Longrightarrow> P s \<Longrightarrow> outcome P E (r, s')"
  by (metis ensures_def)

lemma ensures_at: "ensures P E m \<Longrightarrow> P s \<Longrightarrow> outcome P E (m s)"
  by (simp add: ensures_def)

lemma keepsD: "keeps P m \<Longrightarrow> m s = (r, s') \<Longrightarrow> P s \<Longrightarrow> P s'"
  unfolding keeps_def by (metis snd_conv)

lemma keeps_at: "keeps P m \<Longrightarrow> P s \<Longrightarrow> P (snd (m s))"
  by (simp add: keeps_def)

lemma ensures_then_do:
  assumes "ensures P E m" "\<And>a. ensures P E (f a)"
  shows "ensures P E (then_do m f)"
  unfolding ensures_def
proof (intro allI impI)
  fix s assume "P s"
  obtain r s' where m: "m s = (r, s')" by fastforce
  from ensuresD [OF assms(1) m \<open>P s\<close>] ensures_at [OF assms(2), of s'] m show "outcome P E (then_do m f s)"
    by (cases r) simp_all
qed

lemma ensures_ok [simp]: "ensures P E (ok a)"
  by (simp add: ensures_def)

lemma ensures_Pair [simp]: "ensures P E (Pair (Inr a))"
  by (simp add: ensures_def)

lemma ensures_fail: "(\<And>s. P s \<Longrightarrow> E e s) \<Longrightarrow> ensures P E (fail e)"
  by (simp add: ensures_def)

lemma ensures_modify: "(\<And>s. P s \<Longrightarrow> P (f s)) \<Longrightarrow> ensures P E (modify f)"
  by (simp add: ensures_def)

lemma ensures_if: "ensures P E m \<Longrightarrow> ensures P E m' \<Longrightarrow> ensures P E (if b then m else m')"
  by simp

lemma ensures_state: "(\<And>s. ensures P E (f s)) \<Longrightarrow> ensures P E (\<lambda>s. f s s)"
  by (simp add: ensures_def)

lemma ensures_weaken: "ensures P E m \<Longrightarrow> (\<And>e s. E e s \<Longrightarrow> E' e s) \<Longrightarrow> ensures P E' m"
  unfolding ensures_def outcome_def by (fastforce split: prod.splits sum.splits)

lemmas keeps_then_do = ensures_then_do and keeps_ok = ensures_ok and keeps_if = ensures_if

lemma eprint_lines_runtime [simp]: "cl_runtime (snd (eprint_lines env lines s)) = cl_runtime s"
  by (simp add: eprint_lines_def split: prod.splits)

lemma attempts_all: "attempts os es w = (Inr u, w') \<Longrightarrow> w' = w @ es"
  by (induction es arbitrary: w) (fastforce simp: attempt_def split: if_splits)+

lemma eprint_lines_world: "eprint_lines env lines s = (Inr u, s') \<Longrightarrow> s' = s\<lparr>cl_world := cl_world s @ map LogLine lines\<rparr>"
  by (auto simp: eprint_lines_def split: prod.splits sum.splits dest: attempts_all)

lemma keeps_eprint_lines: "keeps (\<lambda>s. Q (cl_runtime s)) (eprint_lines env lines)"
  by (simp add: keeps_def)

lemma keeps_on_terminal: "keeps (\<lambda>s. Q (cl_runtime s)) (on_terminal message f)"
  by (simp add: keeps_def)

lemma keeps_on_runtime: "(\<And>rt. Q rt \<Longrightarrow> Q (snd (f rt))) \<Longrightarrow> keeps (\<lambda>s. Q (cl_runtime s)) (on_runtime f)"
  by (auto simp: keeps_def on_runtime_def split: prod.splits) (metis snd_conv)

lemma keeps_imp: "(b \<Longrightarrow> keeps P m) \<Longrightarrow> keeps (\<lambda>s. b \<longrightarrow> P s) m"
  by (simp add: keeps_def)

subsection \<open>The overlay\<close>

locale overlay_invariant =
  fixes env :: "('k, 'p, 'v) client_env"
    and P :: "('k, 'p, 'v) client_state \<Rightarrow> bool"
    and E :: "client_error \<Rightarrow> ('k, 'p, 'v) client_state \<Rightarrow> bool"
  assumes predicted: "P s \<Longrightarrow> P (s\<lparr>cl_predictor := predictor\<rparr>)"
    and wrote_overlay: "ensures P E (on_terminal message (\<lambda>tg w. (write_overlay_bytes (env_os env) bs w, tg)))"
    and redrew: "ensures P E (on_terminal message (\<lambda>tg w. (redraw_authoritative (env_screen env) (env_os env) tg w, tg)))"
begin

lemma reconcile_keeps: "ensures P E (reconcile_prediction env)"
  unfolding ensures_def reconcile_prediction_def
  by (auto simp: Let_def split: prod.splits prediction_reconciliation.splits
      intro!: ensures_at [OF wrote_overlay] ensures_at [OF redrew] predicted)

lemma offer_keeps: "ensures P E (offer_prediction env frame action prediction_context)"
  unfolding ensures_def offer_prediction_def
  by (auto simp: Let_def split: prod.splits option.splits intro!: ensures_at [OF wrote_overlay] predicted)

end

subsection \<open>Actions\<close>

text \<open>Actions that write nothing to the screen, and all actions.\<close>

definition quiet :: "session_action \<Rightarrow> bool" where
  "quiet action \<longleftrightarrow> (case action of WriteTerminal _ \<Rightarrow> False | _ \<Rightarrow> True)"

locale quiet_invariant = overlay_invariant +
  assumes logged: "ensures P E (eprint_lines env (write_event (env_logger env) event))"
    and sent: "ensures P E (on_terminal message (\<lambda>tg w. (attempt (env_os env) (SendPacket packet) w, tg)))"
begin

lemma quiet_action_keeps: "quiet action \<Longrightarrow> ensures P E (apply_action env action)"
  using sent logged by (cases action) (auto simp: quiet_def ensures_def intro: predicted)

lemma quiet_actions_keep: "list_all quiet actions \<Longrightarrow> ensures P E (apply_actions env actions)"
  by (induction actions) (auto intro!: ensures_then_do quiet_action_keeps)

end

locale action_invariant = quiet_invariant +
  assumes wrote_server: "ensures P E (on_terminal message (\<lambda>tg w. write_server_bytes (env_screen env) (env_os env) tg bs w))"
begin

lemma apply_action_keeps: "ensures P E (apply_action env action)"
proof (cases "quiet action")
  case True
  then show ?thesis by (rule quiet_action_keeps)
next
  case False
  then obtain bs where "action = WriteTerminal bs" by (auto simp: quiet_def split: session_action.splits)
  with ensures_then_do [OF reconcile_keeps wrote_server [where bs = bs]] show ?thesis by (simp add: ensures_def)
qed

lemma apply_actions_keeps: "ensures P E (apply_actions env actions)"
  by (induction actions) (auto intro!: ensures_then_do apply_action_keeps)

end

subsection \<open>The network\<close>

locale network_invariant = action_invariant +
  assumes received: "ensures P E (on_runtime (\<lambda>rt. receive_datagram (env_session env) rt packet now))"
    and socket_error: "P s \<Longrightarrow> E (ClientError TextReceiveFailed SocketFailure) s"
begin

lemma drain_network_keeps: "ensures P E (drain_network env now results)"
proof (induction results)
  case (Cons result results)
  show ?case
  proof (cases result)
    case (ReceivedDatagram datagram)
    with Cons show ?thesis by (auto intro!: ensures_then_do received apply_actions_keeps)
  qed (simp_all add: ensures_def socket_error)
qed simp

end

subsection \<open>Local input\<close>

text \<open>All events but a change of size, and all events.\<close>

locale key_invariant = overlay_invariant +
  assumes prefixed: "P s \<Longrightarrow> P (s\<lparr>cl_escape := escape\<rparr>)"
    and resumed: "P s \<Longrightarrow> P (s\<lparr>cl_runtime := resume (cl_runtime s) now\<rparr>)"
    and queued: "ensures P E (on_runtime (\<lambda>rt. queue_input rt bs))"
    and noticed: "ensures P E (on_terminal message (\<lambda>tg w. write_local_notice (env_screen env) (env_os env) tg bs w))"
    and cleared: "ensures P E (on_terminal message (\<lambda>tg w. clear_local_notice (env_screen env) (env_os env) tg w))"
    and left: "ensures P E (on_terminal message (\<lambda>tg w. leave_for_suspend (env_os env) tg w))"
    and suspended: "ensures P E (on_terminal message (\<lambda>tg w. (attempt (env_os env) RaiseSuspend w, tg)))"
    and reentered: "ensures P E (on_terminal message (\<lambda>tg w. resume_after_suspend (env_screen env) (env_os env) tg w))"
    and reentered_late: "E e s \<Longrightarrow>
      E e (snd (on_terminal message (\<lambda>tg w. resume_after_suspend (env_screen env) (env_os env) tg w) s))"
    and input_error: "P s \<Longrightarrow> E (ClientError TextInputFailed InputFailure) s"
begin

lemma queue_keeps: "ensures P E (client_queue_input bs)"
  unfolding client_queue_input_def by (rule queued)

lemma flush_keeps: "ensures P E flush_escape"
  unfolding ensures_def flush_escape_def
  by (auto simp: Let_def split: prod.splits option.splits intro!: ensures_at [OF queue_keeps] prefixed)

lemma barrier_keeps: "ensures P E (forward_barrier bs)"
proof -
  have offer: "ensures P E (modify (\<lambda>s. s\<lparr>cl_predictor := f s\<rparr>))" for f by (rule ensures_modify) (rule predicted)
  show ?thesis
    unfolding ensures_def forward_barrier_def Let_def
    by (intro allI impI ensures_at [OF ensures_then_do [OF queue_keeps offer]])
qed

lemma optional_keeps: "ensures P E (forward_optional bs)"
  by (cases bs) (simp_all add: forward_optional_def ensures_ok barrier_keeps)

lemma forward_key_keeps: "ensures P E (forward_key env key bs)"
  unfolding ensures_def forward_key_def Let_def
  by (intro allI impI ensures_at [OF ensures_then_do [OF queue_keeps offer_keeps]])

lemma raise_and_resume_keeps:
  "ensures P E (\<lambda>s.
     let (suspend_result, s) =
           on_terminal TextSignalSetupFailed (\<lambda>tg w. (attempt (env_os env) RaiseSuspend w, tg)) s;
         (resume_result, s) =
           on_terminal TextTerminalSetupFailed (\<lambda>tg w. resume_after_suspend (env_screen env) (env_os env) tg w) s
     in (case suspend_result of Inl e \<Rightarrow> Inl e | Inr _ \<Rightarrow> resume_result, s))"
  unfolding ensures_def Let_def
proof (intro allI impI)
  fix s assume "P s"
  obtain r1 s1 where raised: "on_terminal TextSignalSetupFailed (\<lambda>tg w. (attempt (env_os env) RaiseSuspend w, tg)) s = (r1, s1)"
    by fastforce
  obtain r2 s2 where again: "on_terminal TextTerminalSetupFailed
      (\<lambda>tg w. resume_after_suspend (env_screen env) (env_os env) tg w) s1 = (r2, s2)" by fastforce
  from ensuresD [OF suspended raised \<open>P s\<close>] ensuresD [OF reentered again] reentered_late [of _ s1 TextTerminalSetupFailed]
  show "outcome P E (case on_terminal TextSignalSetupFailed (\<lambda>tg w. (attempt (env_os env) RaiseSuspend w, tg)) s of
      (suspend_result, s) \<Rightarrow> case on_terminal TextTerminalSetupFailed
          (\<lambda>tg w. resume_after_suspend (env_screen env) (env_os env) tg w) s of
        (resume_result, s) \<Rightarrow> (case suspend_result of Inl e \<Rightarrow> Inl e | Inr _ \<Rightarrow> resume_result, s))"
    by (cases r1) (simp_all add: raised again)
qed

lemma suspend_keeps: "ensures P E (suspend_client env)"
  unfolding suspend_client_def by (intro ensures_if ensures_then_do noticed left raise_and_resume_keeps)

lemma handle_key_keeps: "ensures P E (handle_key env now key)"
proof -
  have run: "ensures P E (modify (\<lambda>s. s\<lparr>cl_runtime := resume (cl_runtime s) now\<rparr>))" by (rule ensures_modify) (rule resumed)
  note steps = ensures_at [OF ensures_then_do [OF noticed ensures_ok]]
    ensures_at [OF ensures_then_do [OF forward_key_keeps ensures_ok]]
    ensures_at [OF ensures_then_do [OF suspend_keeps ensures_then_do [OF run ensures_ok]]]
  show ?thesis
    unfolding ensures_def handle_key_def
    by (auto simp: Let_def split: option.splits prod.splits escape_action.splits intro!: steps prefixed)
qed

lemma handle_event_keeps:
  assumes "\<And>columns rows. event \<noteq> ResizeEvent columns rows"
  shows "ensures P E (handle_event env now event)"
proof -
  have flushed: "ensures P E (then_do flush_escape (\<lambda>_. then_do m (\<lambda>_. ok False)))" if "ensures P E m" for m
    using that by (intro ensures_then_do ensures_ok flush_keeps)
  show ?thesis
  proof (cases event)
    case (KeyEvent kind key)
    then show ?thesis using handle_key_keeps by (simp add: ensures_ok)
  next
    case (ResizeEvent columns rows)
    with assms show ?thesis by blast
  qed (simp only: handle_event.simps, rule flushed, rule ensures_state, rule barrier_keeps optional_keeps)+
qed

lemma events_keep:
  assumes "\<And>now event. (now, Input event) \<in> set results \<Longrightarrow> ensures P E (handle_event env now event)"
  shows "ensures P E (drain_terminal env results)"
  using assms
proof (induction results)
  case (Cons result results)
  obtain now input where r: "result = (now, input)" by (cases result)
  show ?case
  proof (cases input)
    case (Input event)
    with r Cons.prems [of now event] have "ensures P E (handle_event env now event)" by simp
    moreover have "ensures P E (if quit then ok True else drain_terminal env results)" for quit
      using Cons by (intro ensures_if ensures_ok Cons.IH) simp
    ultimately show ?thesis
      unfolding r Input drain_terminal.simps by (intro ensures_then_do cleared)
  next
    case InputError
    show ?thesis unfolding r InputError drain_terminal.simps by (intro ensures_fail input_error)
  qed
qed simp

lemma suspend_detection_keeps: "ensures P E (detect_suspend previous now)"
  unfolding detect_suspend_def by (rule ensures_modify) (simp add: resumed)

end

locale input_invariant = key_invariant +
  assumes resized: "P s \<Longrightarrow> P (s\<lparr>cl_terminal := resize_model (env_screen env) (cl_terminal s) columns rows\<rparr>)"
    and queued_resize: "ensures P E (on_runtime (\<lambda>rt. queue_resize (env_session env) rt columns rows))"
begin

lemma any_event_keeps: "ensures P E (handle_event env now event)"
proof (cases event)
  case (ResizeEvent columns rows)
  have "ensures P E (modify (\<lambda>s. s\<lparr>cl_terminal := resize_model (env_screen env) (cl_terminal s) columns rows\<rparr>))"
    by (rule ensures_modify) (rule resized)
  then show ?thesis
    unfolding ResizeEvent handle_event.simps by (intro ensures_then_do ensures_ok flush_keeps reconcile_keeps queued_resize)
qed (simp_all only: handle_event_keeps terminal_event.distinct not_False_eq_True)

lemma drain_terminal_keeps: "ensures P E (drain_terminal env results)"
  by (rule events_keep) (rule any_event_keeps)

end

subsection \<open>The event loop\<close>

text \<open>After an error that is no panic the loop reconciles once more, from the state the error left.\<close>

locale loop_steps = network_invariant env P E + input_invariant env P E
  for env :: "('k, 'p, 'v) client_env" and P :: "('k, 'p, 'v) client_state \<Rightarrow> bool"
    and E :: "client_error \<Rightarrow> ('k, 'p, 'v) client_state \<Rightarrow> bool" +
  assumes requested: "ensures P E (on_runtime (\<lambda>rt. request_shutdown rt now))"
    and polled: "ensures P E (on_runtime (\<lambda>rt. poll (env_session env) rt now))"
    and slept: "P s \<Longrightarrow> P (loop_sleep now s)"
    and reconciled_late: "e \<noteq> ClientPanic \<Longrightarrow> E e s \<Longrightarrow> outcome (E e) E (reconcile_prediction env s)"
begin

lemma loop_body_keeps: "ensures P E (loop_body env previous ob)"
proof -
  have stop: "ensures P E (request_stop env now)" for now
    unfolding request_stop_def by (intro ensures_then_do requested apply_actions_keeps)
  have quit: "ensures P E (then_do (drain_terminal env (ob_inputs ob))
      (\<lambda>quit. if quit then request_stop env (ob_quit_at ob) else ok ()))"
    by (intro ensures_then_do drain_terminal_keeps ensures_if ensures_ok stop)
  have input: "ensures P E (loop_input env ob)"
    using ensures_at [OF quit] by (simp add: ensures_def loop_input_def)
  have poll: "ensures P E (loop_poll env now)" for now
    unfolding loop_poll_def by (intro ensures_then_do polled apply_actions_keeps) (simp add: ensures_def)
  have "ensures P E (modify (\<lambda>s. s\<lparr>cl_predictor := f s\<rparr>))" for f by (rule ensures_modify) (rule predicted)
  then show ?thesis
    unfolding loop_body_def
    by (intro ensures_then_do ensures_if ensures_ok stop suspend_detection_keeps drain_network_keeps input poll)
qed

lemma event_loop_outcome:
  assumes "P s" "event_loop env previous obs s = Some (result, s')"
  shows "outcome P E (result, s')"
  using assms
proof (induction obs arbitrary: s previous)
  case (Cons ob obs)
  obtain r s1 where body: "loop_body env previous ob s = (r, s1)" by fastforce
  obtain r2 s2 where reconcile: "reconcile_prediction env s1 = (r2, s2)" by fastforce
  have after: "outcome P E (r, s1)" by (rule ensuresD [OF loop_body_keeps body Cons.prems(1)])
  show ?case
  proof (cases r)
    case (Inl e)
    with after have "E e s1" by simp
    with Inl reconciled_late [of e s1] Cons.prems(2) body reconcile show ?thesis
      by (cases e; cases r2) auto
  next
    case (Inr more)
    with after have "P s1" by simp
    with Inr ensuresD [OF reconcile_keeps reconcile] Cons.prems(2) body reconcile Cons.IH [OF slept [of s1]] show ?thesis
      by (cases more; cases r2) auto
  qed
qed simp

end

text \<open>The error that ends the loop is one of \<open>N\<close>, and the state still has \<open>P\<close>.\<close>

locale loop_invariant = network_invariant env P "\<lambda>e s. P s \<and> N e" + input_invariant env P "\<lambda>e s. P s \<and> N e"
  for env :: "('k, 'p, 'v) client_env" and P :: "('k, 'p, 'v) client_state \<Rightarrow> bool" and N :: "client_error \<Rightarrow> bool" +
  assumes requested: "ensures P (\<lambda>e s. P s \<and> N e) (on_runtime (\<lambda>rt. request_shutdown rt now))"
    and polled: "ensures P (\<lambda>e s. P s \<and> N e) (on_runtime (\<lambda>rt. poll (env_session env) rt now))"
    and slept: "P s \<Longrightarrow> P (loop_sleep now s)"

sublocale loop_invariant \<subseteq> steps: loop_steps env P "\<lambda>e s. P s \<and> N e"
proof unfold_locales
  fix e s
  assume "P s \<and> N e"
  with ensures_at [OF reconcile_keeps, of s]
  show "outcome (\<lambda>s. P s \<and> N e) (\<lambda>e s. P s \<and> N e) (reconcile_prediction env s)"
    by (cases "reconcile_prediction env s"; cases "fst (reconcile_prediction env s)") auto
qed (rule requested polled slept; assumption?)+

context loop_invariant
begin

lemma event_loop_keeps:
  assumes "P s" "event_loop env previous obs s = Some (result, s')"
  shows "P s' \<and> (\<forall>e. result = Inl e \<longrightarrow> N e)"
  using steps.event_loop_outcome [OF assms] by (cases result) auto

end

subsection \<open>Properties of the runtime\<close>

text \<open>Applying actions leaves the runtime alone.\<close>

interpretation runtime_action: action_invariant env "\<lambda>s. Q (cl_runtime s)" "\<lambda>_ s. Q (cl_runtime s)" for env Q
  by unfold_locales (simp_all add: keeps_on_terminal keeps_eprint_lines)

lemma apply_actions_runtime: "apply_actions env actions s = (r, s') \<Longrightarrow> cl_runtime s' = cl_runtime s"
  using keepsD [OF runtime_action.apply_actions_keeps [where Q = "\<lambda>rt. rt = cl_runtime s"]] by blast

end
