(* ===== verification/Client_Promises.thy ===== *)
theory Client_Promises
  imports Client_Invariants Runtime_Promises Screen_Promises
begin

section \<open>The client: what the event loop promises\<close>

text \<open>
  The event loop ends in bounded time once termination was requested: what a round leaves of a runtime that is
  asked to stop (\<open>stoppable\<close>) and of one that is not (\<open>ready\<close>), and the loop over the rounds.
\<close>

subsection \<open>Stopping\<close>

lemma record_round_trip_sample_timer:
  "last_send (snd (record_round_trip_sample rt sample)) = last_send rt"
  "association (snd (record_round_trip_sample rt sample)) = association rt"
  "lifecycle (snd (record_round_trip_sample rt sample)) = lifecycle rt"
  "shutdown (snd (record_round_trip_sample rt sample)) = shutdown rt"
  "peer_shutdown_acknowledgement_due (snd (record_round_trip_sample rt sample)) = peer_shutdown_acknowledgement_due rt"
  by (auto simp: record_round_trip_sample_def update_retransmit_timeout_def Let_def split: option.splits)

text \<open>The part of the runtime that a reception changes only towards a shutdown.\<close>

definition closer :: "('k, 'p) session_runtime \<Rightarrow> ('k, 'p) session_runtime \<Rightarrow> bool" where
  "closer rt rt' \<longleftrightarrow>
     last_send rt' = last_send rt \<and> association rt' = association rt \<and> lifecycle rt' = lifecycle rt \<and>
     (shutdown rt' = shutdown rt \<and> (peer_shutdown_acknowledgement_due rt \<longrightarrow> peer_shutdown_acknowledgement_due rt') \<or>
      shutdown rt = Open \<and> shutdown rt' = PeerRequested \<and> peer_shutdown_acknowledgement_due rt')"

lemma closer_refl [simp]: "closer rt rt"
  by (simp add: closer_def)

lemma receive_state_closer: "receive_state lib rt actions state = (r, rt') \<Longrightarrow> closer rt rt'"
  by (auto simp: receive_state_def Let_def closer_def split: if_splits sum.splits)

lemma closer_cong:
  "closer rt1 rt' \<Longrightarrow> last_send rt1 = last_send rt \<Longrightarrow> association rt1 = association rt \<Longrightarrow> lifecycle rt1 = lifecycle rt \<Longrightarrow>
   shutdown rt1 = shutdown rt \<Longrightarrow> peer_shutdown_acknowledgement_due rt1 = peer_shutdown_acknowledgement_due rt \<Longrightarrow> closer rt rt'"
  by (simp add: closer_def)

lemma receive_datagram_closer:
  assumes "receive_datagram lib rt packet now = (r, rt')"
  shows "closer rt rt'"
proof -
  have refl: "closer rt (rt\<lparr>protocol := p\<rparr>)" "closer rt (rt\<lparr>protocol := p, last_receive := now\<rparr>)"
    "closer rt (rt\<lparr>protocol := p, last_receive := now, connection_state := c\<rparr>)" for p c
    by (simp_all add: closer_def)
  have sample: "record_round_trip_sample rt1 el = (samples, rt2) \<Longrightarrow> closer rt2 rt' \<Longrightarrow> closer rt1 rt'" for rt1 el samples rt2
    using record_round_trip_sample_timer [of rt1 el] by (auto elim!: closer_cong)
  have samples: "record_round_trip_sample rt1 el = (samples, rt') \<Longrightarrow> closer rt1 rt'" for rt1 el samples
    using record_round_trip_sample_timer [of rt1 el] by (auto simp: closer_def)
  have conn: "closer (rt\<lparr>protocol := p, last_receive := now\<rparr>) rt' \<Longrightarrow> closer rt rt'"
    "closer (rt\<lparr>protocol := p, last_receive := now, connection_state := c\<rparr>) rt' \<Longrightarrow> closer rt rt'" for p c
    by (simp_all add: closer_def)
  show ?thesis
    using assms refl
    by (auto simp: receive_datagram_def Let_def split: sum.splits prod.splits if_splits option.splits
        dest!: receive_state_closer dest: sample samples intro: conn)
qed

text \<open>
  A runtime on its way to the end of the session: a request of its own made at \<open>t\<close> or before, or one of the peer still
  to be acknowledged, and nothing sent \<open>t + 10000\<close> or later.
\<close>

definition stopping :: "nat \<Rightarrow> ('k, 'p) session_runtime \<Rightarrow> bool" where
  "stopping t rt \<longleftrightarrow>
     runtime_wf rt \<and> lifecycle rt = Running \<and> shutdown rt \<noteq> Open \<and> shutdown_outcome_of rt = None \<and>
     (\<forall>started n. shutdown rt = LocalRequested started n \<longrightarrow> unat (milliseconds started) \<le> t) \<and>
     (shutdown rt = PeerRequested \<longrightarrow> peer_shutdown_acknowledgement_due rt) \<and>
     (\<forall>sent. last_send rt = Some sent \<longrightarrow> unat (milliseconds sent) < t + 10000)"

lemma stopping_closer: "stopping t rt \<Longrightarrow> closer rt rt' \<Longrightarrow> runtime_wf rt' \<Longrightarrow> stopping t rt'"
  by (auto simp: stopping_def closer_def shutdown_outcome_of_def)

lemma receive_datagram_stopping:
  assumes "stopping t rt"
  shows "stopping t (snd (receive_datagram lib rt packet now))"
proof -
  obtain r rt' where recv: "receive_datagram lib rt packet now = (r, rt')" by fastforce
  have "runtime_wf rt'" using receive_datagram_wf [of rt lib packet now] assms recv by (simp add: stopping_def)
  with stopping_closer [OF assms receive_datagram_closer [OF recv]] recv show ?thesis by simp
qed

lemma resume_stopping: "stopping t rt \<Longrightarrow> stopping t (resume rt now)"
  using lifecycle_ops_wf(5) [of rt now] by (auto simp: stopping_def resume_def resume_state_def shutdown_outcome_of_def)

lemma request_shutdown_stopping:
  assumes "runtime_wf rt" "lifecycle rt = Running" "shutdown_outcome_of rt = None"
    and "shutdown rt = PeerRequested \<longrightarrow> peer_shutdown_acknowledgement_due rt"
    and "\<forall>started n. shutdown rt = LocalRequested started n \<longrightarrow> unat (milliseconds started) \<le> t"
    and "\<forall>sent. last_send rt = Some sent \<longrightarrow> unat (milliseconds sent) < t + 10000"
    and "shutdown rt = Open \<longrightarrow> unat (milliseconds now) \<le> t"
  shows "stopping t (snd (request_shutdown rt now))"
  using assms lifecycle_ops_wf(3) [OF assms(1), of now]
  by (auto simp: stopping_def request_shutdown_def ensure_running_def shutdown_outcome_of_def split: if_splits)

lemma unat_elapsed_since: "unat (elapsed_since now earlier) = unat (milliseconds now) - unat (milliseconds earlier)"
  by (simp add: elapsed_since_def unat_saturating_sub)

text \<open>A poll sends, or the last transmission is recent.\<close>

definition sends_at :: "monotonic_time \<Rightarrow> ('k, 'p) session_runtime \<Rightarrow> ('k, 'p) session_runtime \<Rightarrow> bool" where
  "sends_at now rt rt' \<longleftrightarrow>
     last_send rt' = Some now \<and> (peer_shutdown_acknowledgement_due rt \<longrightarrow> shutdown_outcome_of rt' \<noteq> None)"

definition waits_at :: "monotonic_time \<Rightarrow> ('k, 'p) session_runtime \<Rightarrow> ('k, 'p) session_runtime \<Rightarrow> bool" where
  "waits_at now rt rt' \<longleftrightarrow>
     (\<exists>sent. last_send rt' = Some sent \<and> last_send rt = Some sent \<and>
        unat (milliseconds now) < unat (milliseconds sent) + unat (retransmit_milliseconds rt))"

lemma complete_after_ack:
  "last_send (snd (complete_peer_shutdown_after_ack rt actions)) = last_send rt"
  "peer_shutdown_acknowledgement_due rt \<Longrightarrow> shutdown_outcome_of (snd (complete_peer_shutdown_after_ack rt actions)) \<noteq> None"
  "lifecycle (snd (complete_peer_shutdown_after_ack rt actions)) = lifecycle rt"
  "association (snd (complete_peer_shutdown_after_ack rt actions)) = association rt"
  "\<not> peer_shutdown_acknowledgement_due rt \<Longrightarrow> snd (complete_peer_shutdown_after_ack rt actions) = rt"
  by (simp_all add: complete_peer_shutdown_after_ack_def complete_shutdown_def shutdown_outcome_of_def Let_def)

definition same_request :: "('k, 'p) session_runtime \<Rightarrow> ('k, 'p) session_runtime \<Rightarrow> bool" where
  "same_request rt rt' \<longleftrightarrow>
     lifecycle rt' = lifecycle rt \<and> association rt' = association rt \<and>
     (shutdown_outcome_of rt' \<noteq> None \<or>
      peer_shutdown_acknowledgement_due rt' = peer_shutdown_acknowledgement_due rt \<and>
      (shutdown rt' = shutdown rt \<or>
       (\<exists>started n n'. shutdown rt = LocalRequested started n \<and> shutdown rt' = LocalRequested started n')))"

text \<open>What follows a transmission in each part of a poll.\<close>

lemma transmitted:
  assumes rt': "rt' = snd (complete_peer_shutdown_after_ack rt2 actions)"
    and rt2: "rt2 = record_shutdown_transmission rt1 \<or> rt2 = rt1"
    and rt1: "last_send rt1 = Some now" "lifecycle rt1 = lifecycle rt" "association rt1 = association rt"
      "shutdown rt1 = shutdown rt"
      "peer_shutdown_acknowledgement_due rt1 = peer_shutdown_acknowledgement_due rt"
  shows "same_request rt rt' \<and> sends_at now rt rt'"
proof -
  have f: "last_send rt2 = Some now" "lifecycle rt2 = lifecycle rt" "association rt2 = association rt"
    "peer_shutdown_acknowledgement_due rt2 = peer_shutdown_acknowledgement_due rt"
    "shutdown rt2 = shutdown rt \<or>
      (\<exists>started n n'. shutdown rt = LocalRequested started n \<and> shutdown rt2 = LocalRequested started n')"
    using rt2 rt1 by (auto simp: record_shutdown_transmission_def split: shutdown_state.splits)
  with complete_after_ack [of rt2 actions] rt' show ?thesis
    by (cases "peer_shutdown_acknowledgement_due rt") (simp_all add: same_request_def sends_at_def)
qed

lemma build_queued_update_timer:
  assumes "build_queued_update lib rt now = (Inr update, rt1)"
  shows "last_send rt1 = Some now \<and> lifecycle rt1 = lifecycle rt \<and> association rt1 = association rt \<and> shutdown rt1 = shutdown rt \<and>
    peer_shutdown_acknowledgement_due rt1 = peer_shutdown_acknowledgement_due rt"
  using assms by (auto simp: build_queued_update_def Let_def split: sum.splits prod.splits)

lemma not_elapsed:
  "elapsed_since now sent < delay \<Longrightarrow> unat (milliseconds now) < unat (milliseconds sent) + unat delay"
  by (auto simp: word_less_nat_alt unat_elapsed_since)

lemma poll_parts:
  "poll_queued lib rt now actions = (Inr out, rt') \<Longrightarrow> same_request rt rt' \<and> sends_at now rt rt'"
  "poll_retransmit lib rt now actions = (Inr out, rt') \<Longrightarrow> same_request rt rt' \<and> (sends_at now rt rt' \<or> waits_at now rt rt')"
  "poll_heartbeat lib rt now actions = (Inr out, rt') \<Longrightarrow> same_request rt rt' \<and> (sends_at now rt rt' \<or> waits_at now rt rt')"
proof -
  assume "poll_queued lib rt now actions = (Inr out, rt')"
  then obtain update rt1 acts where upd: "build_queued_update lib rt now = (Inr update, rt1)"
    and sent: "rt' = snd (complete_peer_shutdown_after_ack (record_shutdown_transmission rt1) acts)"
    by (auto simp: poll_queued_def Let_def split: sum.splits prod.splits) (metis snd_conv)
  show "same_request rt rt' \<and> sends_at now rt rt'"
    using build_queued_update_timer [OF upd] by (intro transmitted [OF sent disjI1 [OF refl]]) auto
next
  assume poll: "poll_retransmit lib rt now actions = (Inr out, rt')"
  show "same_request rt rt' \<and> (sends_at now rt rt' \<or> waits_at now rt rt')"
  proof (cases "acknowledgement_due rt \<or> \<not> (case last_send rt of None \<Rightarrow> False
        | Some sent \<Rightarrow> elapsed_since now sent < retransmit_milliseconds rt)")
    case True
    from retransmission_sent [OF poll this] obtain q acts where
      "rt' = snd (complete_peer_shutdown_after_ack (record_shutdown_transmission
        (rt\<lparr>protocol := q, last_send := Some now, acknowledgement_due := False\<rparr>)) acts)" by blast
    then have "same_request rt rt' \<and> sends_at now rt rt'" by (rule transmitted [OF _ disjI1 [OF refl]]) auto
    then show ?thesis by simp
  next
    case False
    then have "rt' = rt" using poll by (simp add: poll_retransmit_def)
    with False show ?thesis
      by (auto simp: same_request_def waits_at_def not_elapsed split: option.splits)
  qed
next
  assume poll: "poll_heartbeat lib rt now actions = (Inr out, rt')"
  show "same_request rt rt' \<and> (sends_at now rt rt' \<or> waits_at now rt rt')"
  proof (cases "acknowledgement_due rt \<or> heartbeat_due rt now")
    case True
    obtain res q where q: "build_acknowledgement lib (protocol rt) (timestamp now) = (res, q)" by fastforce
    from True poll q obtain acts where "rt' = snd (complete_peer_shutdown_after_ack
        (rt\<lparr>protocol := q, last_send := Some now, acknowledgement_due := False\<rparr>) acts)"
      by (cases res; auto simp: poll_heartbeat_def Let_def split: prod.splits; metis snd_conv)
    then have "same_request rt rt' \<and> sends_at now rt rt'" by (rule transmitted [OF _ disjI2 [OF refl]]) auto
    then show ?thesis by simp
  next
    case False
    then have "rt' = rt" using poll by (simp add: poll_heartbeat_def)
    with False show ?thesis
      by (auto simp: same_request_def waits_at_def heartbeat_due_def not_le not_elapsed split: option.splits)
  qed
qed

lemma poll_transport_time:
  assumes "poll_transport lib rt now actions = (Inr out, rt')"
  shows "same_request rt rt' \<and> (sends_at now rt rt' \<or> waits_at now rt rt')"
proof -
  obtain changed rt1 where c: "connection_state_action rt now = (changed, rt1)" by fastforce
  then have rt1: "rt1 = rt \<or> rt1 = rt\<lparr>connection_state := Interrupted\<rparr>"
    by (auto simp: connection_state_action_def split: if_splits)
  have "same_request rt1 rt' \<and> (sends_at now rt1 rt' \<or> waits_at now rt1 rt')"
    using assms c by (auto simp: poll_transport_def Let_def split: if_splits dest: poll_parts)
  with rt1 show ?thesis by (auto simp: same_request_def sends_at_def waits_at_def)
qed

lemma poll_association_frame:
  assumes "poll_association lib rt now = (Inr actions, rt')"
  shows "lifecycle rt' = lifecycle rt \<and> shutdown rt' = shutdown rt \<and> association rt' = Sent \<and>
    peer_shutdown_acknowledgement_due rt' = peer_shutdown_acknowledgement_due rt \<and>
    retransmit_milliseconds rt' = retransmit_milliseconds rt \<and>
    last_send rt' = (if association rt = Due then Some now else last_send rt)"
  using assms
  by (cases "association rt") (auto simp: poll_association_def split: if_splits sum.splits prod.splits)

text \<open>A poll of a stopping runtime that does not complete the shutdown happens less than 20 seconds after the request.\<close>

lemma poll_stopping:
  assumes "stopping t rt" "association rt = Due \<longrightarrow> unat (milliseconds now) \<le> t"
    and "poll lib rt now = (Inr out, rt')" "shutdown_outcome_of rt' = None"
  shows "stopping t rt' \<and> association rt' = Sent \<and> unat (milliseconds now) < t + 20000"
proof -
  have st: "runtime_wf rt" "lifecycle rt = Running" "shutdown rt \<noteq> Open" using assms(1) by (simp_all add: stopping_def)
  have out: "shutdown_outcome_of rt = None"
    using assms(3,4) by (auto simp: poll_def st(2) split: if_splits)
  then have local_or_peer: "(\<exists>started n. shutdown rt = LocalRequested started n \<and> unat (milliseconds started) \<le> t) \<or>
      shutdown rt = PeerRequested \<and> peer_shutdown_acknowledgement_due rt"
    using assms(1) by (cases "shutdown rt") (auto simp: stopping_def shutdown_outcome_of_def)
  obtain actions rt1 where assoc: "poll_association lib rt now = (Inr actions, rt1)"
    using assms(3) out st(2) by (auto simp: poll_def split: if_splits sum.splits prod.splits)
  note f = poll_association_frame [OF assoc]
  have not_done: "\<not> (\<not> peer_shutdown_acknowledgement_due rt1 \<and> shutdown_timed_out rt1 now)"
    and transport: "poll_transport lib rt1 now actions = (Inr out, rt')"
    using assms(3,4) out st(2) assoc
    by (auto simp: poll_def complete_shutdown_def shutdown_outcome_of_def split: if_splits)
  have early: "unat (milliseconds now) < t + 10000" if "\<not> peer_shutdown_acknowledgement_due rt"
    using not_done that f local_or_peer
    by (auto simp: shutdown_timed_out_def SHUTDOWN_TIMEOUT_MILLISECONDS_def not_le word_less_nat_alt unat_elapsed_since)
  have delay: "unat (retransmit_milliseconds rt) \<le> 10000"
    using st(1) by (simp add: runtime_wfs MAXIMUM_RETRANSMIT_MILLISECONDS_def word_le_nat_alt)
  have sent: "last_send rt1 = Some sent \<Longrightarrow> unat (milliseconds sent) < t + 10000" for sent
    using f assms(1,2) by (auto simp: stopping_def split: if_splits)
  have wf: "runtime_wf rt'" using poll_wf [OF st(1), of lib now] assms(3) by simp
  from poll_transport_time [OF transport]
  consider "same_request rt1 rt'" "sends_at now rt1 rt'" | "same_request rt1 rt'" "waits_at now rt1 rt'" by blast
  then show ?thesis
  proof cases
    case 1
    with assms(4) f have "\<not> peer_shutdown_acknowledgement_due rt" by (auto simp: sends_at_def)
    with early 1 f wf st local_or_peer assms(4) show ?thesis
      by (auto simp: stopping_def same_request_def sends_at_def)
  next
    case 2
    with sent delay f have "unat (milliseconds now) < t + 20000" by (force simp: waits_at_def)
    with 2 f wf st local_or_peer assms(4) sent show ?thesis
      by (auto simp: stopping_def same_request_def waits_at_def)
  qed
qed

subsection \<open>The event loop ends\<close>

definition stoppable :: "nat \<Rightarrow> monotonic_time \<Rightarrow> ('k, 'p) session_runtime \<Rightarrow> bool" where
  "stoppable t now rt \<longleftrightarrow> stopping t rt \<and> (association rt = Due \<longrightarrow> unat (milliseconds now) \<le> t)"

lemma stoppable_receive: "stoppable t now rt \<Longrightarrow> stoppable t now (snd (receive_datagram lib rt packet now'))"
  using receive_datagram_stopping [of t rt lib packet now'] receive_datagram_closer [of lib rt packet now']
  by (cases "receive_datagram lib rt packet now'") (simp add: stoppable_def closer_def)

interpretation stoppable_runtime: network_invariant env "\<lambda>s. stoppable t now (cl_runtime s)"
    "\<lambda>_ s. stoppable t now (cl_runtime s)" for env t now
  by unfold_locales (simp_all add: keeps_on_runtime stoppable_receive)

lemma stoppable_resume: "stoppable t now rt \<Longrightarrow> stoppable t now (resume rt now')"
  using resume_stopping [of t rt now'] by (auto simp: stoppable_def resume_def resume_state_def split: if_splits)

lemma request_stop_runtime:
  "cl_runtime (snd (request_stop env now s)) = snd (request_shutdown (cl_runtime s) now)"
proof -
  obtain r rt where req: "request_shutdown (cl_runtime s) now = (r, rt)" by fastforce
  show ?thesis
  proof (cases r)
    case (Inl e)
    with req show ?thesis by (simp add: request_stop_def then_do_def on_runtime_def)
  next
    case (Inr actions)
    obtain r' s' where app: "apply_actions env actions (s\<lparr>cl_runtime := rt\<rparr>) = (r', s')" by fastforce
    with req Inr apply_actions_runtime [OF app] show ?thesis
      by (simp add: request_stop_def then_do_def on_runtime_def)
  qed
qed

text \<open>The steps of a round that does not end the loop.\<close>

lemma loop_bodyE:
  assumes "loop_body env previous ob s = (Inr None, s')"
  obtains s1 s2 s3 s4 where "(if ob_terminate ob then request_stop env (ob_now ob) else ok ()) s = (Inr (), s1)"
    "detect_suspend previous (ob_now ob) s1 = (Inr (), s2)"
    "drain_network env (ob_now ob) (ob_sockets ob) s2 = (Inr False, s3)"
    "loop_input env ob (s3\<lparr>cl_predictor :=
       set_round_trip_milliseconds (cl_predictor s3) (round_trip_milliseconds (cl_runtime s3))\<rparr>) = (Inr (), s4)"
    "loop_poll env (ob_now ob) s4 = (Inr None, s')"
  using assms by (auto simp: loop_body_def elim!: then_doE split: if_splits)

lemma loop_pollE:
  assumes "loop_poll env now s = (Inr None, s')"
  obtains out where "poll (env_session env) (cl_runtime s) now = (Inr out, cl_runtime s')"
    "shutdown_outcome_of (cl_runtime s') = None"
proof -
  from assms obtain out rt where poll: "poll (env_session env) (cl_runtime s) now = (Inr out, rt)"
    and app: "apply_actions env out (s\<lparr>cl_runtime := rt\<rparr>) = (Inr (), s')"
    and none: "shutdown_outcome_of (cl_runtime s') = None"
    by (auto simp: loop_poll_def on_runtime_def elim!: then_doE split: prod.splits sum.splits)
  from apply_actions_runtime [OF app] poll none that show thesis by simp
qed

lemma loop_body_stops:
  assumes terminate: "ob_terminate ob"
    and stop: "stoppable t (ob_now ob) (snd (request_shutdown (cl_runtime s) (ob_now ob)))"
    and body: "loop_body env previous ob s = (Inr None, s')"
  shows "stopping t (cl_runtime s') \<and> association (cl_runtime s') = Sent \<and> unat (milliseconds (ob_now ob)) < t + 20000"
  using body
proof (rule loop_bodyE)
  fix s1 s2 s3 s4
  let ?now = "ob_now ob" and ?Q = "\<lambda>s. stoppable t (ob_now ob) (cl_runtime s)"
  assume s1: "(if ob_terminate ob then request_stop env ?now else ok ()) s = (Inr (), s1)"
    and s2: "detect_suspend previous ?now s1 = (Inr (), s2)"
    and s3: "drain_network env ?now (ob_sockets ob) s2 = (Inr False, s3)"
    and s4: "loop_input env ob (s3\<lparr>cl_predictor :=
       set_round_trip_milliseconds (cl_predictor s3) (round_trip_milliseconds (cl_runtime s3))\<rparr>) = (Inr (), s4)"
    and poll: "loop_poll env ?now s4 = (Inr None, s')"
  have "?Q s1" using stop request_stop_runtime [of env ?now s] s1 terminate by simp
  with s2 stoppable_resume have "?Q s2" by (auto simp: detect_suspend_def split: if_splits)
  with keepsD [OF stoppable_runtime.drain_network_keeps s3] have Q3: "?Q s3" by blast
  then have "shutdown_in_progress (cl_runtime s3)"
    by (cases "shutdown (cl_runtime s3)")
      (auto simp: shutdown_in_progress_def stoppable_def stopping_def shutdown_outcome_of_def)
  with s4 have rt4: "cl_runtime s4 = cl_runtime s3" by (auto simp: loop_input_def)
  from poll obtain out where "poll (env_session env) (cl_runtime s4) ?now = (Inr out, cl_runtime s')"
    "shutdown_outcome_of (cl_runtime s') = None" by (rule loop_pollE)
  with Q3 rt4 poll_stopping [of t "cl_runtime s3" ?now "env_session env" out "cl_runtime s'"] show ?thesis
    by (simp add: stoppable_def)
qed

text \<open>A runtime between two rounds of the loop, all of whose times are at most \<open>t\<close>.\<close>

definition ready :: "nat \<Rightarrow> ('k, 'p) session_runtime \<Rightarrow> bool" where
  "ready t rt \<longleftrightarrow>
     runtime_wf rt \<and> lifecycle rt = Running \<and> shutdown_outcome_of rt = None \<and>
     (shutdown rt = PeerRequested \<longrightarrow> peer_shutdown_acknowledgement_due rt) \<and>
     (\<forall>started n. shutdown rt = LocalRequested started n \<longrightarrow> unat (milliseconds started) \<le> t) \<and>
     (\<forall>sent. last_send rt = Some sent \<longrightarrow> unat (milliseconds sent) \<le> t)"

lemma ready_mono: "ready t rt \<Longrightarrow> t \<le> t' \<Longrightarrow> ready t' rt"
  unfolding ready_def by (metis order_trans)

lemma ready_request:
  assumes "ready t rt" "unat (milliseconds now) \<le> t"
  shows "ready t (snd (request_shutdown rt now))"
  using assms lifecycle_ops_wf(3) [of rt now]
  by (auto simp: ready_def request_shutdown_def ensure_running_def shutdown_outcome_of_def split: if_splits)

lemma ready_stoppable:
  assumes "ready t rt" "t \<le> unat (milliseconds now)"
  shows "stoppable (unat (milliseconds now)) now (snd (request_shutdown rt now))"
proof -
  have "ready (unat (milliseconds now)) rt" by (rule ready_mono [OF assms])
  then have "stopping (unat (milliseconds now)) (snd (request_shutdown rt now))"
    by (intro request_shutdown_stopping) (force simp: ready_def)+
  then show ?thesis by (simp add: stoppable_def)
qed

lemma ready_closer: "ready t rt \<Longrightarrow> closer rt rt' \<Longrightarrow> runtime_wf rt' \<Longrightarrow> ready t rt'"
  by (cases "shutdown rt") (auto simp: ready_def closer_def shutdown_outcome_of_def)

lemma ready_receive: "ready t rt \<Longrightarrow> ready t (snd (receive_datagram lib rt packet now))"
  using receive_datagram_wf [of rt lib packet now] receive_datagram_closer [of lib rt packet now] ready_closer [of t rt]
  by (cases "receive_datagram lib rt packet now") (simp add: ready_def)

lemma ready_resume: "ready t rt \<Longrightarrow> ready t (resume rt now)"
  using lifecycle_ops_wf(5) [of rt now] by (auto simp: ready_def resume_def resume_state_def shutdown_outcome_of_def)

lemma ready_queue_input: "ready t rt \<Longrightarrow> ready t (snd (queue_input rt bs))"
  using queue_input_wf [of rt bs]
  by (auto simp: ready_def queue_input_def queue_sized_def shutdown_outcome_of_def split: sum.splits option.splits)

lemma ready_queue_resize: "ready t rt \<Longrightarrow> ready t (snd (queue_resize lib rt columns rows))"
  using queue_resize_wf [of rt lib columns rows]
  by (auto simp: ready_def queue_resize_def shutdown_outcome_of_def Let_def split: sum.splits prod.splits)

interpretation ready_runtime: network_invariant env "\<lambda>s. ready t (cl_runtime s)" "\<lambda>_ s. ready t (cl_runtime s)" for env t
  by unfold_locales (simp_all add: keeps_on_runtime ready_receive)

interpretation ready_input: input_invariant env "\<lambda>s. ready t (cl_runtime s)" "\<lambda>_ s. ready t (cl_runtime s)" for env t
  by unfold_locales (simp_all add: keeps_on_terminal keeps_on_runtime ready_queue_input ready_queue_resize ready_resume)

lemma ready_poll:
  assumes "ready t rt" "unat (milliseconds now) \<le> t" "poll lib rt now = (Inr out, rt')" "shutdown_outcome_of rt' = None"
  shows "ready t rt'"
proof -
  have st: "runtime_wf rt" "lifecycle rt = Running" "shutdown_outcome_of rt = None"
    using assms(1) by (simp_all add: ready_def)
  obtain actions rt1 where assoc: "poll_association lib rt now = (Inr actions, rt1)"
    using assms(3) st by (auto simp: poll_def split: if_splits sum.splits prod.splits)
  have transport: "poll_transport lib rt1 now actions = (Inr out, rt')"
    using assms(3,4) st assoc
    by (auto simp: poll_def complete_shutdown_def shutdown_outcome_of_def split: if_splits)
  have "runtime_wf rt'" using poll_wf [OF st(1), of lib now] assms(3) by simp
  with assms(1,2,4) poll_association_frame [OF assoc] poll_transport_time [OF transport] st show ?thesis
    by (cases "shutdown rt") (auto simp: ready_def same_request_def sends_at_def waits_at_def split: if_splits)
qed

lemma loop_body_ready:
  assumes ready: "ready t (cl_runtime s)" and clock: "t \<le> unat (milliseconds (ob_now ob))"
      "unat (milliseconds (ob_now ob)) \<le> unat (milliseconds (ob_quit_at ob))"
    and body: "loop_body env previous ob s = (Inr None, s')"
  shows "ready (unat (milliseconds (ob_quit_at ob))) (cl_runtime s')"
  using body
proof (rule loop_bodyE)
  fix s1 s2 s3 s4
  let ?t = "unat (milliseconds (ob_quit_at ob))" and ?now = "ob_now ob"
  let ?P = "\<lambda>s. ready ?t (cl_runtime s)"
  assume s1: "(if ob_terminate ob then request_stop env ?now else ok ()) s = (Inr (), s1)"
    and s2: "detect_suspend previous ?now s1 = (Inr (), s2)"
    and s3: "drain_network env ?now (ob_sockets ob) s2 = (Inr False, s3)"
    and s4: "loop_input env ob (s3\<lparr>cl_predictor :=
       set_round_trip_milliseconds (cl_predictor s3) (round_trip_milliseconds (cl_runtime s3))\<rparr>) = (Inr (), s4)"
    and poll: "loop_poll env ?now s4 = (Inr None, s')"
  have stop: "keeps ?P (request_stop env at)" if "unat (milliseconds at) \<le> ?t" for at
    using that by (simp add: keeps_def request_stop_runtime ready_request)
  have quit: "keeps ?P (then_do (drain_terminal env (ob_inputs ob))
      (\<lambda>quit. if quit then request_stop env (ob_quit_at ob) else ok ()))"
    by (intro keeps_then_do ready_input.drain_terminal_keeps keeps_if stop keeps_ok) simp
  have input: "keeps ?P (loop_input env ob)"
    using keeps_at [OF quit] by (simp add: keeps_def loop_input_def)
  have "?P s" using ready_mono [OF ready] clock by simp
  with keepsD [OF keeps_if [OF stop keeps_ok] s1] clock have "?P s1" by simp
  with keepsD [OF ready_input.suspend_detection_keeps s2] have "?P s2" by blast
  with keepsD [OF ready_runtime.drain_network_keeps s3] have "?P s3" by blast
  then have P4: "?P s4" using keepsD [OF input s4] by simp
  from poll obtain out where "poll (env_session env) (cl_runtime s4) ?now = (Inr out, cl_runtime s')"
    "shutdown_outcome_of (cl_runtime s') = None" by (rule loop_pollE)
  with ready_poll [OF P4 clock(2)] show ?thesis by blast
qed

lemma loop_sleep_runtime [simp]: "cl_runtime (loop_sleep now s) = cl_runtime s"
  by (simp add: loop_sleep_def)

lemma event_loop_step:
  assumes "\<And>s'. loop_body env previous ob s = (Inr None, s') \<Longrightarrow>
    event_loop env (ob_now ob) obs (loop_sleep (ob_wait_at ob) s') \<noteq> None"
  shows "event_loop env previous (ob # obs) s \<noteq> None"
  using assms by (auto split: prod.splits sum.splits option.splits client_error.splits)

lemma stopping_requested:
  assumes "stopping t rt" "association rt = Sent"
  shows "stoppable t now (snd (request_shutdown rt now))"
  using assms by (simp add: stoppable_def stopping_def request_shutdown_def ensure_running_def)

lemma event_loop_stops:
  assumes "\<forall>ob \<in> set obs. ob_terminate ob" "\<exists>ob \<in> set obs. t + 20000 \<le> unat (milliseconds (ob_now ob))"
    and "stoppable t (ob_now (hd obs)) (snd (request_shutdown (cl_runtime s) (ob_now (hd obs))))"
  shows "event_loop env previous obs s \<noteq> None"
  using assms
proof (induction obs arbitrary: s previous)
  case (Cons ob obs)
  show ?case
  proof (rule event_loop_step)
    fix s'
    assume body: "loop_body env previous ob s = (Inr None, s')"
    have stops: "stopping t (cl_runtime s')" "association (cl_runtime s') = Sent" "unat (milliseconds (ob_now ob)) < t + 20000"
      using loop_body_stops [OF _ _ body, of t] Cons.prems by simp_all
    then show "event_loop env (ob_now ob) obs (loop_sleep (ob_wait_at ob) s') \<noteq> None"
      using Cons.prems stopping_requested [OF stops(1,2)] by (intro Cons.IH) auto
  qed
qed simp

text \<open>The clock never goes back: each round starts no earlier than the last reading of the one before.\<close>

fun clock_ok :: "nat \<Rightarrow> observation list \<Rightarrow> bool" where
  "clock_ok t [] \<longleftrightarrow> True"
| "clock_ok t (ob # obs) \<longleftrightarrow>
     t \<le> unat (milliseconds (ob_now ob)) \<and> unat (milliseconds (ob_now ob)) \<le> unat (milliseconds (ob_quit_at ob)) \<and>
     clock_ok (unat (milliseconds (ob_quit_at ob))) obs"

lemma event_loop_ends:
  assumes "ready t (cl_runtime s)" "clock_ok t (before @ ending)" "ending \<noteq> []" "\<forall>ob \<in> set ending. ob_terminate ob"
    and "\<exists>ob \<in> set ending. unat (milliseconds (ob_now (hd ending))) + 20000 \<le> unat (milliseconds (ob_now ob))"
  shows "event_loop env previous (before @ ending) s \<noteq> None"
  using assms(1,2)
proof (induction before arbitrary: s t previous)
  case Nil
  then have "t \<le> unat (milliseconds (ob_now (hd ending)))" using assms(3) by (cases ending) simp_all
  from event_loop_stops [OF assms(4,5) ready_stoppable [OF Nil(1) this]] show ?case by simp
next
  case (Cons ob before)
  show ?case
    unfolding append_Cons
  proof (rule event_loop_step)
    fix s'
    assume "loop_body env previous ob s = (Inr None, s')"
    from loop_body_ready [OF Cons.prems(1) _ _ this] Cons.prems(2)
    show "event_loop env (ob_now ob) (before @ ending) (loop_sleep (ob_wait_at ob) s') \<noteq> None"
      by (intro Cons.IH [of "unat (milliseconds (ob_quit_at ob))"]) simp_all
  qed
qed

lemma runtime_new_ready:
  assumes "runtime_new lib key now = Some rt"
  shows "ready (unat (milliseconds now)) rt"
proof -
  have "runtime_wf rt" using runtime_new_wf [of lib key now] assms by simp
  with assms show ?thesis
    by (auto simp: ready_def runtime_new_def shutdown_outcome_of_def split: option.splits)
qed

end
