(* ===== verification/Client_Safety.thy ===== *)
theory Client_Safety
  imports Client_Invariants Runtime_Promises Screen_Promises
begin

section \<open>The client: safety of a whole run\<close>

text \<open>
  Three invariants of the event loop, as instances of its interface: every step keeps the books of the local terminal,
  so that the debts of the guard are settled when the client ends; every step keeps the runtime well formed, so
  that no error of the client is an internal one; and a step panics exactly when a line for the log is refused.
  Together they say how the process ends, from the first argument to the exit code.
\<close>

subsection \<open>Every step keeps the books\<close>

definition books :: "('k, 'p, 'v) client_env \<Rightarrow> ('k, 'p, 'v) client_state \<Rightarrow> bool" where
  "books env s \<longleftrightarrow> settled (env_os env) True (cl_terminal s, cl_world s)"

lemma books_cong: "books env s \<Longrightarrow> cl_terminal s' = cl_terminal s \<Longrightarrow> cl_world s' = cl_world s \<Longrightarrow> books env s'"
  by (simp add: books_def)

lemma books_resized: "books env s \<Longrightarrow> books env (s\<lparr>cl_terminal := (cl_terminal s)\<lparr>tg_authoritative := screen\<rparr>\<rparr>)"
  by (simp add: books_def settled_def)

lemma books_on_terminal:
  assumes "\<And>tg w r w' tg'. settled (env_os env) True (tg, w) \<Longrightarrow> f tg w = ((r, w'), tg') \<Longrightarrow> settled (env_os env) True (tg', w')"
  shows "keeps (books env) (on_terminal message f)"
  using assms by (auto simp: keeps_def books_def on_terminal_def split: prod.splits)

lemma books_guard_step:
  assumes "restorable (env_os env)"
    and "\<And>tg w. f tg w = (case guard_step (env_screen env) (env_os env) g (tg, w) of (r, tg', w') \<Rightarrow> ((r, w'), tg'))"
  shows "keeps (books env) (on_terminal message f)"
proof (rule books_on_terminal)
  fix tg w r w' tg'
  assume "settled (env_os env) True (tg, w)" "f tg w = ((r, w'), tg')"
  with assms guard_step_settled [OF assms(1), of True "(tg, w)" "env_screen env" g r "(tg', w')"]
  show "settled (env_os env) True (tg', w')" by (simp split: prod.splits)
qed

lemma books_attempt:
  assumes "neutral e"
  shows "keeps (books env) (on_terminal message (\<lambda>tg w. (attempt (env_os env) e w, tg)))"
proof (rule books_on_terminal)
  fix tg w r w' tg'
  assume "settled (env_os env) True (tg, w)" "(attempt (env_os env) e w, tg) = ((r, w'), tg')"
  then show "settled (env_os env) True (tg', w')"
    using assms owed_attempt [of "env_os env" e w] by (auto simp: neutral_def elim!: settled_cong)
qed

lemma books_on_runtime: "keeps (books env) (on_runtime f)"
  by (auto simp: keeps_def on_runtime_def books_def split: prod.splits)

lemma more_neutral [simp]:
  "neutral (SendPacket bs)" "neutral RaiseSuspend" "neutral (LogLine bs)" "neutral (PrintLine bs)" "neutral (SleepFor n)"
  by (simp_all add: neutral_def)

lemma owed_neutral: "list_all neutral es \<Longrightarrow> debts_after os w es d = d"
  by (induction es arbitrary: w) (simp_all add: neutral_def)

lemma books_log: "books env s \<Longrightarrow> list_all neutral es \<Longrightarrow> books env (s\<lparr>cl_world := cl_world s @ es\<rparr>)"
  by (auto simp: books_def owed_neutral elim!: settled_cong)

lemma books_eprint_lines: "keeps (books env) (eprint_lines env lines)"
  unfolding keeps_def
proof (intro allI impI)
  fix s assume "books env s"
  moreover obtain r w where a: "attempts (env_os env) (map LogLine lines) (cl_world s) = (r, w)" by fastforce
  moreover from this have "owed (env_os env) w = owed (env_os env) (cl_world s)"
    using owed_attempts [of "map LogLine lines" "env_os env" "cl_world s"] by (simp add: list_all_iff)
  ultimately show "books env (snd (eprint_lines env lines s))"
    by (auto simp: eprint_lines_def books_def elim!: settled_cong)
qed

text \<open>The writes of the client are operations of the guard.\<close>

lemma books_writes:
  assumes "restorable (env_os env)"
  shows "keeps (books env) (on_terminal message (\<lambda>tg w. (write_overlay_bytes (env_os env) bs w, tg)))"
    "keeps (books env) (on_terminal message (\<lambda>tg w. (redraw_authoritative (env_screen env) (env_os env) tg w, tg)))"
    "keeps (books env) (on_terminal message (\<lambda>tg w. write_server_bytes (env_screen env) (env_os env) tg bs w))"
    "keeps (books env) (on_terminal message (\<lambda>tg w. write_local_notice (env_screen env) (env_os env) tg bs w))"
    "keeps (books env) (on_terminal message (\<lambda>tg w. clear_local_notice (env_screen env) (env_os env) tg w))"
    "keeps (books env) (on_terminal message (\<lambda>tg w. leave_for_suspend (env_os env) tg w))"
    "keeps (books env) (on_terminal message (\<lambda>tg w. resume_after_suspend (env_screen env) (env_os env) tg w))"
  by (rule books_guard_step [OF assms, where g = "OpOverlay bs"], simp split: prod.splits)
    (rule books_guard_step [OF assms, where g = OpRedraw], simp split: prod.splits,
     rule books_guard_step [OF assms, where g = "OpServerBytes bs"], simp split: prod.splits,
     rule books_guard_step [OF assms, where g = "OpNotice bs"], simp split: prod.splits,
     rule books_guard_step [OF assms, where g = OpClearNotice], simp split: prod.splits,
     rule books_guard_step [OF assms, where g = OpSuspend], simp split: prod.splits,
     rule books_guard_step [OF assms, where g = OpResume], simp split: prod.splits)

interpretation terminal_books: loop_invariant env "\<lambda>s. restorable (env_os env) \<longrightarrow> books env s" "\<lambda>_. True" for env
  by unfold_locales
    (auto intro!: keeps_imp books_writes books_attempt books_on_runtime books_log books_eprint_lines
      keeps_at [OF books_writes(7)]
      simp: list_all_iff resize_model_def loop_sleep_def elim: books_cong books_resized)

lemma dropped_raw_mode:
  assumes "restorable os" "settled os True (tg, w)"
  shows "\<not> owes_raw_mode (owed os (drop_guard os tg w))"
proof -
  obtain r v tg2 where d: "deactivate_terminal os tg w = ((r, v), tg2)" by (metis prod.collapse)
  have "settled os True (tg2, v)" by (rule deactivate_settled [OF assms d])
  moreover have "\<not> tg_session_terminal_active tg2"
    using deactivate_terminal_guard [of os tg w] d by (simp split: if_splits)
  ultimately show ?thesis using d by (simp add: settled_def drop_guard_def)
qed

subsection \<open>Every step keeps the runtime well formed\<close>

definition no_internal_error :: "client_error \<Rightarrow> bool" where
  "no_internal_error e \<longleftrightarrow> (\<forall>message. e \<noteq> ClientError message (RuntimeFailure (SessionFailed Panic)))"

lemma no_internal_error_simps [simp]:
  "no_internal_error (ClientError message SocketFailure)" "no_internal_error (ClientError message InputFailure)"
  "no_internal_error (ClientError message (OsFailure e))" "no_internal_error (ClientError message NoDetail)"
  "no_internal_error (ClientError message NoAddressFailure)"
  by (simp_all add: no_internal_error_def)

lemma sound_on_terminal:
  "ensures (\<lambda>s. Q (cl_runtime s)) (\<lambda>e s. Q (cl_runtime s) \<and> no_internal_error e) (on_terminal message f)"
  by (auto simp: ensures_def outcome_def on_terminal_def no_internal_error_def split: prod.splits sum.splits)

lemma sound_eprint_lines:
  "ensures (\<lambda>s. Q (cl_runtime s)) (\<lambda>e s. Q (cl_runtime s) \<and> no_internal_error e) (eprint_lines env lines)"
  by (auto simp: ensures_def outcome_def eprint_lines_def no_internal_error_def split: prod.splits sum.splits)

lemma sound_on_runtime:
  assumes "\<And>rt. Q rt \<Longrightarrow> Q (snd (f rt)) \<and> fst (f rt) \<noteq> Inl (SessionFailed Panic)"
  shows "ensures (\<lambda>s. Q (cl_runtime s)) (\<lambda>e s. Q (cl_runtime s) \<and> no_internal_error e) (on_runtime f)"
proof -
  have "Q rt \<Longrightarrow> f rt = (r, rt') \<Longrightarrow> Q rt' \<and> r \<noteq> Inl (SessionFailed Panic)" for rt r rt'
    using assms [of rt] by simp
  then show ?thesis
    by (fastforce simp: ensures_def outcome_def on_runtime_def format_runtime_error_def no_internal_error_def
        split: prod.splits sum.splits)
qed

interpretation sound_client: loop_invariant env "\<lambda>s. runtime_wf (cl_runtime s)" no_internal_error for env
  by unfold_locales
    (simp_all add: sound_on_terminal sound_eprint_lines sound_on_runtime receive_datagram_wf queue_input_wf host_calls_no_panic queue_resize_wf
      lifecycle_ops_wf poll_wf resume_def loop_sleep_def)

subsection \<open>A panic is a refused line\<close>

text \<open>Whether a line for standard output or standard error has been refused, read off the effects.\<close>

fun printed_line :: "effect \<Rightarrow> bool" where
  "printed_line (LogLine _) = True"
| "printed_line (PrintLine _) = True"
| "printed_line _ = False"

fun refused_after :: "environment \<Rightarrow> world \<Rightarrow> effect list \<Rightarrow> bool" where
  "refused_after os w [] = False"
| "refused_after os w (e # es) = (printed_line e \<and> \<not> os w e \<or> refused_after os (w @ [e]) es)"

definition line_refused :: "environment \<Rightarrow> world \<Rightarrow> bool" where
  "line_refused os w = refused_after os [] w"

lemma refused_after_append: "refused_after os w (es @ fs) = (refused_after os w es \<or> refused_after os (w @ es) fs)"
  by (induction es arbitrary: w) simp_all

lemma line_refused_append: "line_refused os (w @ es) = (line_refused os w \<or> refused_after os w es)"
  by (simp add: line_refused_def refused_after_append)

lemma line_refused_Nil [simp]: "\<not> line_refused os []"
  by (simp add: line_refused_def)

text \<open>Everything but the printing macros prints no line.\<close>

definition unprinted :: "world \<Rightarrow> world \<Rightarrow> bool" where
  "unprinted w w' \<longleftrightarrow> (\<exists>es. w' = w @ es \<and> list_all (\<lambda>e. \<not> printed_line e) es)"

lemma unprinted_refl [simp]: "unprinted w w"
  by (simp add: unprinted_def)

lemma unprinted_trans: "unprinted w v \<Longrightarrow> unprinted v u \<Longrightarrow> unprinted w u"
  by (fastforce simp: unprinted_def)

lemma unprinted_refused: "unprinted w w' \<Longrightarrow> line_refused os w' = line_refused os w"
proof -
  have "list_all (\<lambda>e. \<not> printed_line e) es \<Longrightarrow> \<not> refused_after os w es" for es w
    by (induction es arbitrary: w) simp_all
  then show "unprinted w w' \<Longrightarrow> line_refused os w' = line_refused os w"
    by (auto simp: unprinted_def line_refused_append)
qed

lemma unprinted_attempt: "\<not> printed_line e \<Longrightarrow> unprinted w (snd (attempt os e w))"
  by (auto simp: unprinted_def attempt_def)

lemma unprinted_attempts: "list_all (\<lambda>e. \<not> printed_line e) es \<Longrightarrow> unprinted w (snd (attempts os es w))"
proof (induction es arbitrary: w)
  case (Cons e es)
  then show ?case
    using unprinted_attempt [of e w os] unprinted_trans [of w "w @ [e]" "snd (attempts os es (w @ [e]))"]
    by (simp add: attempt_def)
qed simp

lemma unprinted_write_bytes: "unprinted w (snd (write_bytes os bs w))"
  unfolding write_bytes_def by (rule unprinted_attempts) simp

lemma unprinted_raw_mode: "unprinted w (snd (enable_session_raw_mode os w))"
  by (auto simp: enable_session_raw_mode_def attempt_def unprinted_def)

lemma unprinted_setup: "unprinted w (snd (attempts os (setup_effects alternate) w))"
  by (rule unprinted_attempts) (simp add: setup_effects_def)

lemma unprinted_clear: "unprinted w (snd (fst (clear_local_notice lib os tg w)))"
  by (simp add: clear_local_notice_def redraw_authoritative_def unprinted_write_bytes Let_def)

lemma unprinted_deactivate: "unprinted w (snd (fst (deactivate_terminal os tg w)))"
  using deactivate_terminal_effects [of tg os w]
  by (cases "tg_session_terminal_active tg") (auto simp: unprinted_def)

lemma unprinted_server: "unprinted w (snd (fst (write_server_bytes lib os tg bs w)))"
proof -
  obtain r w1 tg1 where c: "clear_local_notice lib os tg w = ((r, w1), tg1)" by (metis prod.collapse)
  then have "unprinted w w1" using unprinted_clear [of w lib os tg] by simp
  with c unprinted_trans [OF _ unprinted_write_bytes] show ?thesis
    by (cases r) (simp_all add: write_server_bytes_def Let_def split: prod.splits)
qed

lemma unprinted_notice: "unprinted w (snd (fst (write_local_notice lib os tg bs w)))"
proof -
  obtain r w1 tg1 where c: "clear_local_notice lib os tg w = ((r, w1), tg1)" by (metis prod.collapse)
  then have first: "unprinted w w1" using unprinted_clear [of w lib os tg] by simp
  obtain r2 w2 where b: "write_bytes os bs w1 = (r2, w2)" by fastforce
  with unprinted_trans [OF first unprinted_write_bytes [of w1 os bs]] have "unprinted w w2" by simp
  with c b first show ?thesis by (cases r; cases r2) (simp_all add: write_local_notice_def)
qed

lemma unprinted_enter: "unprinted w (snd (enter_with_title_policy lib os dims skip policy w))"
proof (cases dims)
  case (Some size)
  obtain r1 w1 where raw: "enable_session_raw_mode os w = (r1, w1)" by fastforce
  obtain r2 w2 where set_up: "attempts os (setup_effects (\<not> skip)) w1 = (r2, w2)" by fastforce
  have "unprinted w w1" "unprinted w1 w2"
    using unprinted_raw_mode [of w os] unprinted_setup [of w1 os "\<not> skip"] raw set_up by simp_all
  then have w: "unprinted w w1" "unprinted w w2" using unprinted_trans by blast+
  have "unprinted w (snd (attempt os DisableRawMode v))" if "unprinted w v" for v
    using unprinted_trans [OF that unprinted_attempt] by simp
  moreover have "unprinted w (snd (attempt os (ExecuteCommands [LeaveAlternateScreen]) w2))"
    using unprinted_trans [OF w(2) unprinted_attempt] by simp
  ultimately show ?thesis
    using Some raw set_up w by (cases size; cases r1; cases r2) (auto simp: enter_with_title_policy_def Let_def)
qed (simp add: enter_with_title_policy_def)

lemma unprinted_resume: "unprinted w (snd (fst (resume_after_suspend lib os tg w)))"
proof (cases "tg_session_terminal_active tg")
  case False
  let ?on = "tg\<lparr>tg_session_terminal_active := True, tg_local_notice_active := False\<rparr>"
  obtain r1 w1 where raw: "enable_session_raw_mode os w = (r1, w1)" by fastforce
  obtain r2 w2 where set_up: "attempts os (setup_effects (tg_alternate_screen_active tg)) w1 = (r2, w2)" by fastforce
  obtain r3 w3 where redraw: "redraw_authoritative lib os ?on w2 = (r3, w3)" by fastforce
  have "unprinted w w1" "unprinted w1 w2" "unprinted w2 w3"
    using unprinted_raw_mode [of w os] unprinted_setup [of w1 os "tg_alternate_screen_active tg"]
      unprinted_write_bytes [of w2 os "screen_formatted lib (tg_authoritative ?on)"] raw set_up redraw
    by (simp_all add: redraw_authoritative_def)
  then have w: "unprinted w w1" "unprinted w w2" "unprinted w w3" using unprinted_trans by blast+
  have "unprinted w (snd (attempt os DisableRawMode w2))" using unprinted_trans [OF w(2) unprinted_attempt] by simp
  with False raw set_up redraw w unprinted_trans [OF w(3) unprinted_write_bytes] show ?thesis
    by (cases r1; cases r2; cases r3) (simp_all add: resume_after_suspend_def Let_def split: prod.splits)
qed (simp add: resume_after_suspend_def)

text \<open>The lines of the log succeed as a whole, or one of them is refused.\<close>

lemma attempts_lines:
  "attempts os (map LogLine ls) w = (r, w') \<Longrightarrow> line_refused os w' \<longleftrightarrow> line_refused os w \<or> r \<noteq> Inr ()"
  by (induction ls arbitrary: w) (auto simp: attempt_def line_refused_append split: if_splits)

definition heard :: "('k, 'p, 'v) client_env \<Rightarrow> ('k, 'p, 'v) client_state \<Rightarrow> bool" where
  "heard env s \<longleftrightarrow> \<not> line_refused (env_os env) (cl_world s)"

definition silenced :: "('k, 'p, 'v) client_env \<Rightarrow> client_error \<Rightarrow> ('k, 'p, 'v) client_state \<Rightarrow> bool" where
  "silenced env e s \<longleftrightarrow> (e = ClientPanic) = line_refused (env_os env) (cl_world s)"

lemma heard_on_terminal:
  assumes "\<And>tg w. unprinted w (snd (fst (f tg w)))"
  shows "ensures (heard env) (silenced env) (on_terminal message f)"
proof -
  have "f tg w = ((r, w'), tg') \<Longrightarrow> line_refused os w' = line_refused os w" for tg w r w' tg' os
    using unprinted_refused [OF assms [of w tg]] by simp
  then show ?thesis
    by (auto simp: ensures_def heard_def silenced_def on_terminal_def outcome_def split: prod.splits sum.splits)
qed

lemma heard_on_runtime: "ensures (heard env) (silenced env) (on_runtime f)"
  by (auto simp: ensures_def heard_def silenced_def on_runtime_def outcome_def format_runtime_error_def
      split: prod.splits sum.splits)

lemma heard_eprint_lines: "ensures (heard env) (silenced env) (eprint_lines env lines)"
  by (auto simp: ensures_def heard_def silenced_def eprint_lines_def outcome_def attempts_lines
      split: prod.splits sum.splits)

lemma heard_simps [simp]:
  "heard env (s\<lparr>cl_predictor := predictor\<rparr>) = heard env s" "heard env (s\<lparr>cl_escape := escape\<rparr>) = heard env s"
  "heard env (s\<lparr>cl_runtime := rt\<rparr>) = heard env s" "heard env (s\<lparr>cl_terminal := tg\<rparr>) = heard env s"
  "heard env (loop_sleep now s) = heard env s" "silenced env (ClientError message cause) s = heard env s"
  by (simp_all add: heard_def silenced_def loop_sleep_def line_refused_append)

lemma silenced_resume:
  assumes "silenced env e s"
  shows "silenced env e (snd (on_terminal message (\<lambda>tg w. resume_after_suspend (env_screen env) (env_os env) tg w) s))"
proof -
  have "cl_world (snd (on_terminal message (\<lambda>tg w. resume_after_suspend (env_screen env) (env_os env) tg w) s)) =
      snd (fst (resume_after_suspend (env_screen env) (env_os env) (cl_terminal s) (cl_world s)))"
    by (simp add: on_terminal_def split: prod.splits)
  with assms show ?thesis by (simp only: silenced_def unprinted_refused [OF unprinted_resume])
qed

lemma heard_terminal:
  "ensures (heard env) (silenced env) (on_terminal message (\<lambda>tg w. (write_overlay_bytes (env_os env) bs w, tg)))"
  "ensures (heard env) (silenced env) (on_terminal message (\<lambda>tg w. (redraw_authoritative (env_screen env) (env_os env) tg w, tg)))"
  "ensures (heard env) (silenced env) (on_terminal message (\<lambda>tg w. write_server_bytes (env_screen env) (env_os env) tg bs w))"
  "ensures (heard env) (silenced env) (on_terminal message (\<lambda>tg w. write_local_notice (env_screen env) (env_os env) tg bs w))"
  "ensures (heard env) (silenced env) (on_terminal message (\<lambda>tg w. clear_local_notice (env_screen env) (env_os env) tg w))"
  "ensures (heard env) (silenced env) (on_terminal message (\<lambda>tg w. leave_for_suspend (env_os env) tg w))"
  "ensures (heard env) (silenced env) (on_terminal message (\<lambda>tg w. resume_after_suspend (env_screen env) (env_os env) tg w))"
  by (rule heard_on_terminal,
      simp add: write_overlay_bytes_def redraw_authoritative_def leave_for_suspend_def unprinted_write_bytes unprinted_server
        unprinted_notice unprinted_clear unprinted_deactivate unprinted_resume)+

lemma heard_attempt:
  "\<not> printed_line e \<Longrightarrow> ensures (heard env) (silenced env) (on_terminal message (\<lambda>tg w. (attempt (env_os env) e w, tg)))"
  by (rule heard_on_terminal) (simp add: unprinted_attempt)

interpretation printing: overlay_invariant env "heard env" "silenced env" for env
  by unfold_locales (simp_all add: heard_terminal)

lemma silenced_reconcile:
  assumes "e \<noteq> ClientPanic" "silenced env e s"
  shows "outcome (silenced env e) (silenced env) (reconcile_prediction env s)"
proof -
  have "heard env s" using assms by (simp add: heard_def silenced_def)
  then have "outcome (heard env) (silenced env) (reconcile_prediction env s)"
    by (rule ensures_at [OF printing.reconcile_keeps])
  with assms(1) show ?thesis
    by (cases "reconcile_prediction env s"; cases "fst (reconcile_prediction env s)") (auto simp: heard_def silenced_def)
qed

interpretation printing: loop_steps env "heard env" "silenced env" for env
  by unfold_locales
    (simp_all add: heard_terminal heard_attempt heard_on_runtime heard_eprint_lines silenced_resume silenced_reconcile)

text \<open>At verbosity 0 nothing is logged, and nothing panics.\<close>

lemma eprint_nothing [simp]: "eprint_lines env [] s = (Inr (), s)"
  by (simp add: eprint_lines_def)

lemma quiet_client_terminal: "ensures (\<lambda>_. True) (\<lambda>e _. b \<longrightarrow> e \<noteq> ClientPanic) (on_terminal message f)"
  by (auto simp: ensures_def outcome_def on_terminal_def split: prod.splits sum.splits)

lemma quiet_client_runtime: "ensures (\<lambda>_. True) (\<lambda>e _. b \<longrightarrow> e \<noteq> ClientPanic) (on_runtime f)"
  by (auto simp: ensures_def outcome_def on_runtime_def format_runtime_error_def split: prod.splits sum.splits)

lemma quiet_client_log:
  "ensures (\<lambda>_. True) (\<lambda>e _. verbosity_of (env_logger env) = 0 \<longrightarrow> e \<noteq> ClientPanic)
     (eprint_lines env (write_event (env_logger env) event))"
proof (cases "verbosity_of (env_logger env) = 0")
  case True
  then have "env_logger env = DiagnosticLogger 0" by (metis diagnostic_logger.collapse)
  then show ?thesis using quiet_logger [of event] by (simp add: ensures_def)
qed (simp add: ensures_def outcome_def split: prod.splits sum.splits)

interpretation quiet_client: loop_invariant env "\<lambda>_. True" "\<lambda>e. verbosity_of (env_logger env) = 0 \<longrightarrow> e \<noteq> ClientPanic" for env
  by unfold_locales (simp_all add: quiet_client_terminal quiet_client_runtime quiet_client_log)

subsection \<open>From the start to the exit\<close>

definition safe_end :: "('k, 'p, 'v) client_env \<Rightarrow> run_result \<Rightarrow> bool" where
  "safe_end env result \<longleftrightarrow>
     (case result of
        StillRunning \<Rightarrow> True
      | Panicked w \<Rightarrow> (restorable (env_os env) \<longrightarrow> \<not> owes_raw_mode (owed (env_os env) w)) \<and> line_refused (env_os env) w
      | Finished r w \<Rightarrow>
          (restorable (env_os env) \<longrightarrow> \<not> owes_raw_mode (owed (env_os env) w)) \<and> \<not> line_refused (env_os env) w \<and>
          (\<forall>e. r = Inl (AppRuntime e) \<longrightarrow> no_internal_error e) \<and> (\<forall>e. r = Inl (AppCli e) \<longrightarrow> proper_error e))"

lemma safe_end_simps [simp]:
  "safe_end env StillRunning" "safe_end (env\<lparr>env_logger := logger\<rparr>) result = safe_end env result"
  by (simp_all add: safe_end_def split: run_result.splits)

lemma queue_resize_total:
  assumes "runtime_wf rt"
  shows "\<exists>rt'. queue_resize lib rt columns rows = (Inr (), rt') \<and> runtime_wf rt'"
proof -
  have "fst (queue_resize lib rt columns rows) = Inl e \<Longrightarrow> e = SessionFailed Panic" for e
    by (auto simp: queue_resize_def set_initial_remote_viewport_def Let_def split: if_splits sum.splits option.splits)
  with queue_resize_wf [OF assms, of lib columns rows] show ?thesis
    by (cases "queue_resize lib rt columns rows"; cases "fst (queue_resize lib rt columns rows)") auto
qed

lemma drop_guard_refused [simp]: "line_refused os (drop_guard os' tg w) = line_refused os w"
  by (simp add: drop_guard_def unprinted_refused [OF unprinted_deactivate])

lemma run_session_safe:
  assumes settled: "restorable (env_os env) \<Longrightarrow> settled (env_os env) True (tg, w)" and heard: "\<not> line_refused (env_os env) w"
  shows "safe_end env (run_session env su config key obs tg w)"
proof -
  obtain rt where rt: "runtime_new (env_session env) key (st_started su) = Some rt" "runtime_wf rt"
    using runtime_new_wf by blast
  show ?thesis
  proof (cases "size_of su (st_console_size_later su)")
    case None
    with rt dropped_raw_mode settled heard show ?thesis
      by (auto simp: run_session_def safe_end_def no_internal_error_def)
  next
    case (Some size)
    then obtain columns rows where size: "size_of su (st_console_size_later su) = Some (columns, rows)" by (cases size) simp
    obtain rt' where resize: "queue_resize (env_session env) rt columns rows = (Inr (), rt')" "runtime_wf rt'"
      using queue_resize_total [OF rt(2), of "env_session env" columns rows] by blast
    let ?s = "\<lparr>cl_runtime = rt', cl_terminal = tg,
        cl_predictor = prediction_overlay_new (cfg_prediction_display config) (cfg_prediction_overwrite config),
        cl_escape = escape_interpreter_new (cfg_escape_byte config), cl_world = w\<rparr>"
    show ?thesis
    proof (cases "event_loop env (st_loop_started su) obs ?s")
      case None
      with rt size resize show ?thesis by (simp add: run_session_def)
    next
      case (Some finish)
      then obtain result s' where loop: "event_loop env (st_loop_started su) obs ?s = Some (result, s')" by (cases finish) simp
      have "restorable (env_os env) \<longrightarrow> books env s'" "\<forall>e. result = Inl e \<longrightarrow> no_internal_error e"
        using terminal_books.event_loop_keeps [OF _ loop] sound_client.event_loop_keeps [OF _ loop] settled resize(2)
        by (simp_all add: books_def)
      moreover have "outcome (heard env) (silenced env) (result, s')"
        using printing.event_loop_outcome [OF _ loop] heard by (simp add: heard_def)
      ultimately show ?thesis
        using rt size resize loop dropped_raw_mode
        by (auto simp: run_session_def Let_def safe_end_def books_def heard_def silenced_def
            split: sum.splits client_error.splits)
    qed
  qed
qed

lemma start_errors_proper:
  "read_session_key lib environ = Inl e \<Longrightarrow> proper_error e" "validate_utf8_locale environ windows = Inl e \<Longrightarrow> proper_error e"
  by (auto simp: read_session_key_def validate_utf8_locale_def missing_key_error_def invalid_key_error_def
      split: option.splits sum.splits if_splits prod.splits intro!: cli_failure_proper)

lemma connect_socket_no_internal_error: "connect_socket addresses = Inl e \<Longrightarrow> no_internal_error e"
proof -
  have "connect_addresses index failed as = Inl e \<Longrightarrow> no_internal_error e" for index failed as
    by (induction index failed as rule: connect_addresses.induct) (auto simp: no_internal_error_def split: if_splits)
  then show "connect_socket addresses = Inl e \<Longrightarrow> no_internal_error e"
    by (auto simp: connect_socket_def no_internal_error_def split: option.splits)
qed

lemma run_client_safe: "safe_end env (run_client env su config obs)"
proof -
  let ?os = "env_os env" and ?env = "env\<lparr>env_logger := DiagnosticLogger (cfg_verbosity config)\<rparr>"
  let ?lines = "write_startup (DiagnosticLogger (cfg_verbosity config)) config"
  have none: "owed ?os [] = \<lparr>owes_raw_mode = False, owes_main_screen = False\<rparr>" by (simp add: owed_def)
  obtain r0 w0 where start: "attempts ?os (map LogLine ?lines) [] = (r0, w0)" by fastforce
  have logged: "owed ?os w0 = \<lparr>owes_raw_mode = False, owes_main_screen = False\<rparr>"
    using owed_attempts [of "map LogLine ?lines" ?os "[]"] start none by (simp add: list_all_iff)
  have refused: "line_refused ?os w0 \<longleftrightarrow> r0 \<noteq> Inr ()" using attempts_lines [OF start] by simp
  obtain r w where enter: "enter_with_title_policy (env_screen env) ?os (size_of su (st_console_size su))
      (st_environ su ''MOSH_NO_TERM_INIT'' \<noteq> None) (if cfg_title_no_prefix config then PreserveRemote else MoshPrefix) w0 = (r, w)"
    by fastforce
  have heard: "line_refused ?os w \<longleftrightarrow> line_refused ?os w0"
    using unprinted_refused [OF unprinted_enter] enter by (metis snd_conv)
  note entered = enter_settled [OF _ enter logged]
  have session: "safe_end env (run_session ?env su config key obs tg w)" if "r = Inr tg" "r0 = Inr ()" for key tg
    using run_session_safe [of ?env tg w su config key obs] entered that heard refused
      settled_mono [of ?os False "(tg, w)" True] by simp
  show ?thesis
  proof (cases r0)
    case (Inl e)
    with refused logged start none show ?thesis
      by (auto simp: run_client_def Let_def safe_end_def start_errors_proper split: sum.splits)
  next
    case (Inr u)
    with session entered none logged enter start refused heard show ?thesis
      by (auto simp: run_client_def Let_def safe_end_def start_errors_proper connect_socket_no_internal_error
          split: sum.splits if_splits)
  qed
qed

lemma quiet_run_client:
  assumes "cfg_verbosity config = 0"
  shows "run_client env su config obs \<noteq> Panicked w"
proof -
  let ?env = "env\<lparr>env_logger := DiagnosticLogger 0\<rparr>"
  have "run_session ?env su config key obs tg v \<noteq> Panicked w" for key tg v
  proof -
    obtain rt where rt: "runtime_new (env_session env) key (st_started su) = Some rt" "runtime_wf rt"
      using runtime_new_wf by blast
    have "queue_resize (env_session env) rt columns rows \<noteq> (Inl e, rt')" for columns rows e rt'
      using queue_resize_total [OF rt(2), of "env_session env" columns rows] by auto
    moreover have "event_loop ?env previous obs s \<noteq> Some (Inl ClientPanic, s')" for previous s s'
      using quiet_client.event_loop_keeps [where env = ?env and result = "Inl ClientPanic"] by fastforce
    ultimately show ?thesis
      using rt(1) by (auto simp: run_session_def Let_def split: option.splits prod.splits sum.splits client_error.splits)
  qed
  moreover have "write_startup (DiagnosticLogger 0) config = []" using quiet_logger by blast
  ultimately show ?thesis
    by (simp add: assms run_client_def Let_def split: sum.splits prod.splits)
qed

lemma those_None: "None \<in> set xs \<Longrightarrow> those xs = None"
  by (induction xs) (auto split: option.splits)

lemma those_total: "None \<notin> set xs \<Longrightarrow> \<exists>ys. those xs = Some ys"
  by (induction xs) (auto split: option.splits simp flip: not_None_eq)

lemma dispatch_safe:
  assumes "None \<notin> set (st_arguments su)"
  shows "safe_end env (dispatch env su obs)"
proof -
  obtain arguments where args: "those (st_arguments su) = Some arguments" using assms those_total by blast
  have "safe_end env (print_and_succeed env message)" for message
    by (simp add: print_and_succeed_def write_cli_output_def attempt_def safe_end_def owed_def line_refused_def)
  with args run_client_safe [of env su _ obs] parse_command_valid [of arguments "st_environ su"] show ?thesis
    by (auto simp: dispatch_def safe_end_def owed_def command_valid_def split: sum.splits command.splits)
qed

text \<open>An error ends with its message on the standard error, or the message is refused.\<close>

lemma report_stderr:
  assumes "\<forall>c. e = AppCli c \<longrightarrow> proper_error c"
  shows "\<exists>message. message \<noteq> [] \<and> report env e = ((Stderr, message), 1)"
  using assms by (cases e) (auto simp: proper_error_def newline_def text_of_def)

text \<open>
  C5. The process ends in order. Whatever its arguments, its environment, the network, the terminal and the operating
  system do: it panics exactly when an argument is not Unicode, at once, or when the operating system refuses a line that
  the printing macros write to standard output or standard error. When it exits, every line was accepted, no error it
  ends with is an internal one, and the exit code is 0 after a command that succeeded or a session that was shut down, and
  1 with a message on the standard error as the last effect otherwise. On every way out, a panic included, raw mode is off,
  as long as the operating system lets it be disabled.
\<close>

theorem client_ends_in_order:
  "case main_exit env su obs of
     ProcessRunning \<Rightarrow> dispatch env su obs = StillRunning
   | ProcessPanicked w \<Rightarrow>
       (None \<in> set (st_arguments su) \<and> w = [] \<or> line_refused (env_os env) w) \<and>
       (restorable (env_os env) \<longrightarrow> \<not> owes_raw_mode (owed (env_os env) w))
   | Exited code w \<Rightarrow>
       None \<notin> set (st_arguments su) \<and> \<not> line_refused (env_os env) w \<and>
       (restorable (env_os env) \<longrightarrow> \<not> owes_raw_mode (owed (env_os env) w)) \<and>
       (\<exists>r w'. dispatch env su obs = Finished r w' \<and>
          (\<forall>message. r \<noteq> Inl (AppRuntime (ClientError message (RuntimeFailure (SessionFailed Panic))))) \<and>
          (case r of
             Inr _ \<Rightarrow> code = 0 \<and> w = w'
           | Inl _ \<Rightarrow> code = 1 \<and> (\<exists>message. message \<noteq> [] \<and> w = w' @ [LogLine message])))"
proof (cases "None \<in> set (st_arguments su)")
  case True
  then have "those (st_arguments su) = None" by (rule those_None)
  with True show ?thesis by (simp add: main_exit_def dispatch_def owed_def)
next
  case False
  note safe = dispatch_safe [OF False, of env obs]
  show ?thesis
  proof (cases "dispatch env su obs")
    case (Finished r w)
    show ?thesis
    proof (cases r)
      case (Inl e)
      obtain message where "message \<noteq> []" "report env e = ((Stderr, message), 1)"
        using report_stderr [of e env] safe Finished Inl by (auto simp: safe_end_def)
      with Finished Inl safe False show ?thesis
        by (auto simp: safe_end_def no_internal_error_def main_exit_def write_cli_output_def attempt_def line_refused_append)
    qed (use Finished safe False in \<open>auto simp: safe_end_def main_exit_def\<close>)
  qed (use safe False in \<open>auto simp: safe_end_def main_exit_def\<close>)
qed

lemma main_exit_ends: "main_exit env su obs = ProcessRunning \<longleftrightarrow> dispatch env su obs = StillRunning"
  by (auto simp: main_exit_def split: run_result.splits sum.splits prod.splits)

subsection \<open>A concrete client\<close>

text \<open>A client started in a terminal that fails every write after the first.\<close>

definition example_startup :: startup where
  "example_startup =
     \<lparr>st_arguments = map Some [ascii ''ferrumtty'', ascii ''host'', ascii ''60001''],
      st_environ = map_of [(''LANG'', ascii ''C.UTF-8''), (''MOSH_KEY'', ascii ''AAAA'')],
      st_stdin_is_terminal = True, st_stdout_is_terminal = True, st_addresses = Some [(True, True, True)],
      st_signals = True, st_console_size = Some (80, 24), st_console_size_later = Some (80, 24),
      st_started = MonotonicTime 0, st_loop_started = MonotonicTime 0, st_color_count = 256\<rparr>"

definition example_round :: "u64 \<Rightarrow> bool \<Rightarrow> socket_result list \<Rightarrow> observation" where
  "example_round now stop results =
     \<lparr>ob_now = MonotonicTime now, ob_terminate = stop, ob_sockets = results, ob_inputs = [],
      ob_quit_at = MonotonicTime now, ob_wait_at = MonotonicTime now\<rparr>"

definition example_client_env :: "(bytes, bytes, unit) client_env" where
  "example_client_env =
     \<lparr>env_session = \<lparr>cipher = example_cipher, codec = reference_codec, terminal = term_lib.truncate example_screen_lib\<rparr>,
      env_screen = example_screen_lib, env_os = example_environment, env_language = ascii ''C.UTF-8'',
      env_cause_text = (\<lambda>_. []), env_session_debug = (\<lambda>_. []), env_message_debug = (\<lambda>_. []), env_windows = False, env_logger = DiagnosticLogger 0\<rparr>"

definition example_config :: client_config where
  "example_config =
     \<lparr>cfg_endpoint = ascii ''host:60001'', cfg_verbosity = 2, cfg_escape_byte = 0x1e, cfg_title_no_prefix = False,
      cfg_prediction_display = Adaptive, cfg_prediction_overwrite = False\<rparr>"

subsection \<open>Instance: the socket fails in the first round\<close>

lemma example_client_env_simps:
  "cipher (env_session example_client_env) = example_cipher" "env_screen example_client_env = example_screen_lib"
  "env_os example_client_env = example_environment" "env_windows example_client_env = False"
  by (simp_all add: example_client_env_def)

lemma example_command:
  "\<exists>arguments config. those (st_arguments example_startup) = Some arguments \<and>
     parse_command arguments (st_environ example_startup) = Inr (Connect config) \<and>
     cfg_verbosity config = 0"
proof -
  have "decimal (unat (60001 :: u16)) = [54, 48, 48, 48, 49]" by (simp add: decimal.simps)
  with parse_u16_decimal [of 60001] have "parse_u16 [54, 48, 48, 48, 49] = Some 60001" by simp
  then show ?thesis
    by (simp add: example_startup_def parse_command_def ascii_def of_char_def connect_command_def parse_prediction_display_def)
qed

lemma example_start:
  "read_session_key example_cipher (st_environ example_startup) = Inr (SessionKey (replicate 16 0))"
  "connect_socket (st_addresses example_startup) = Inr 0"
  "\<exists>tg w'. enter_with_title_policy example_screen_lib example_environment
     (size_of example_startup (st_console_size example_startup)) skip policy [] = (Inr tg, w')"
  by (simp_all add: example_startup_def read_session_key_def session_key_decode_def example_cipher_def ascii_def of_char_def
      connect_socket_def size_of_def enter_with_title_policy_def Let_def enable_session_raw_mode_def attempt_def
      setup_effects_def example_environment_def terminal_size_def char_of_eq_iff)

lemma example_locale: "validate_utf8_locale (st_environ example_startup) False = Inr ()"
proof -
  have "trim [67, 46, 85, 84, 70, 45, 56] = [67, 46, 85, 84, 70, 45, 56]"
    by (simp add: trim_def from_utf8_def chars_of.simps is_whitespace_def encode_utf8_def)
  then show ?thesis
    by (simp add: example_startup_def ascii_def of_char_def validate_utf8_locale_def locale_is_utf8_def Let_def
        to_ascii_lowercase_def)
qed

lemma example_socket_fails:
  "\<exists>w'. run_session (example_client_env\<lparr>env_logger := logger\<rparr>) example_startup config key
     [example_round 10 False [SocketError]] tg w =
     Finished (Inl (AppRuntime (ClientError TextReceiveFailed SocketFailure))) w'"
proof -
  obtain rt where rt: "runtime_new (env_session example_client_env) key (st_started example_startup) = Some rt" "runtime_wf rt"
    using runtime_new_wf by blast
  obtain rt' where "queue_resize (env_session example_client_env) rt 80 24 = (Inr (), rt')"
    using queue_resize_total [OF rt(2)] by blast
  with rt show ?thesis
    by (simp add: run_session_def size_of_def terminal_size_def example_startup_def loop_body_def then_do_def
        example_round_def detect_suspend_def reconcile_prediction_def take_reconciliation_def prediction_overlay_new_def)
qed

lemma example_lines: "\<not> line_refused example_environment w"
proof -
  have "printed_line e \<Longrightarrow> example_environment v e" for v e by (cases e) (simp_all add: example_environment_def)
  then have "\<not> refused_after example_environment v w" for v by (induction w arbitrary: v) auto
  then show ?thesis by (simp add: line_refused_def)
qed

theorem client_ends_in_order_witness:
  "\<exists>message w. dispatch example_client_env example_startup [example_round 10 False [SocketError]] =
       Finished (Inl (AppRuntime (ClientError TextReceiveFailed SocketFailure))) w \<and>
     main_exit example_client_env example_startup [example_round 10 False [SocketError]] = Exited 1 (w @ [LogLine message]) \<and>
     message \<noteq> [] \<and> \<not> owes_raw_mode (owed example_environment (w @ [LogLine message]))"
proof -
  obtain arguments config where config: "those (st_arguments example_startup) = Some arguments"
      "parse_command arguments (st_environ example_startup) = Inr (Connect config)"
      "cfg_verbosity config = 0" using example_command by blast
  have tty: "st_stdin_is_terminal example_startup" "st_stdout_is_terminal example_startup" "st_signals example_startup"
    "None \<notin> set (st_arguments example_startup)"
    by (simp_all add: example_startup_def)
  obtain tg w where "enter_with_title_policy example_screen_lib example_environment
      (size_of example_startup (st_console_size example_startup)) (st_environ example_startup ''MOSH_NO_TERM_INIT'' \<noteq> None)
      (if cfg_title_no_prefix config then PreserveRemote else MoshPrefix) [] = (Inr tg, w)"
    using example_start(3) by blast
  moreover obtain w' where "run_session (example_client_env\<lparr>env_logger := DiagnosticLogger 0\<rparr>) example_startup config
      (SessionKey (replicate 16 0)) [example_round 10 False [SocketError]] tg w =
      Finished (Inl (AppRuntime (ClientError TextReceiveFailed SocketFailure))) w'"
    using example_socket_fails by blast
  ultimately have d: "dispatch example_client_env example_startup [example_round 10 False [SocketError]] =
      Finished (Inl (AppRuntime (ClientError TextReceiveFailed SocketFailure))) w'"
    using config tty example_start(1,2) example_locale
    by (simp add: dispatch_def run_client_def write_startup_def example_client_env_simps)
  with client_ends_in_order [of example_client_env example_startup "[example_round 10 False [SocketError]]"]
    example_environment_restorable tty(4) main_exit_ends [of example_client_env example_startup "[example_round 10 False [SocketError]]"]
  show ?thesis by (auto simp: example_client_env_simps example_lines simp del: owed_append split: process_result.splits)
qed

end
