(* ===== verification/Client_Terminal.thy ===== *)
theory Client_Terminal
  imports Client_Promises Client_Safety
begin

section \<open>The client: the end of a session\<close>

text \<open>
  The end of the event loop in bounded time and the safety of a run, together: what the user sees after asking the
  client to terminate.
\<close>

subsection \<open>Termination\<close>

lemma queue_resize_ready:
  assumes "ready t rt"
  shows "\<exists>rt'. queue_resize lib rt columns rows = (Inr (), rt') \<and> ready t rt'"
  using queue_resize_total [of rt lib columns rows] ready_queue_resize [OF assms, of lib columns rows] assms
  by (auto simp: ready_def)

text \<open>The termination flag is set from some round on, for at least 20 seconds.\<close>

definition asked_to_stop :: "nat \<Rightarrow> observation list \<Rightarrow> observation list \<Rightarrow> bool" where
  "asked_to_stop t before ending \<longleftrightarrow>
     clock_ok t (before @ ending) \<and> ending \<noteq> [] \<and> list_all ob_terminate ending \<and>
     list_ex (\<lambda>ob. unat (milliseconds (ob_now (hd ending))) + 20000 \<le> unat (milliseconds (ob_now ob))) ending"

lemma session_ends:
  assumes "asked_to_stop (unat (milliseconds (st_started su))) before ending"
  shows "run_session env su config key (before @ ending) tg w \<noteq> StillRunning"
proof
  assume running: "run_session env su config key (before @ ending) tg w = StillRunning"
  obtain rt where rt: "runtime_new (env_session env) key (st_started su) = Some rt" using runtime_new_wf by blast
  have ready: "ready (unat (milliseconds (st_started su))) rt" by (rule runtime_new_ready [OF rt])
  from running rt obtain columns rows where size: "size_of su (st_console_size_later su) = Some (columns, rows)"
    by (auto simp: run_session_def split: option.splits)
  obtain rt' where resize: "queue_resize (env_session env) rt columns rows = (Inr (), rt')"
      "ready (unat (milliseconds (st_started su))) rt'"
    using queue_resize_ready [OF ready, of "env_session env" columns rows] by blast
  let ?s = "\<lparr>cl_runtime = rt', cl_terminal = tg,
      cl_predictor = prediction_overlay_new (cfg_prediction_display config) (cfg_prediction_overwrite config),
      cl_escape = escape_interpreter_new (cfg_escape_byte config), cl_world = w\<rparr>"
  have "event_loop env (st_loop_started su) (before @ ending) ?s \<noteq> None"
    using assms resize(2)
    by (intro event_loop_ends [of "unat (milliseconds (st_started su))"])
      (simp_all add: asked_to_stop_def list_all_iff list_ex_iff)
  with running rt size resize(1) show False
    by (auto simp: run_session_def Let_def split: sum.splits client_error.splits if_splits)
qed

text \<open>
  C2. A client asked to terminate ends and gives the terminal back. Whatever the process finds when it starts, and
  after any rounds of the event loop in which anything may have happened (input, datagrams, failures, suspensions),
  let the termination flag be set from some round on while the clock, which never goes back, advances by 20 seconds:
  the client ends, whatever the network and the peer do meanwhile, and raw mode is off, as long as the operating
  system lets it be disabled. It ends without a panic, unless logging is enabled and a line of the log is refused.
\<close>

theorem termination_ends_client:
  assumes "asked_to_stop (unat (milliseconds (st_started su))) before ending" "restorable (env_os env)"
  shows "\<exists>w. \<not> owes_raw_mode (owed (env_os env) w) \<and>
    ((\<exists>result. run_client env su config (before @ ending) = Finished result w) \<or>
     cfg_verbosity config \<noteq> 0 \<and> line_refused (env_os env) w \<and> run_client env su config (before @ ending) = Panicked w)"
proof -
  have "run_client env su config (before @ ending) \<noteq> StillRunning"
    by (simp add: run_client_def Let_def session_ends [OF assms(1)] split: sum.splits prod.splits)
  with run_client_safe [of env su config "before @ ending"] quiet_run_client [of config env su "before @ ending"] assms(2)
  show ?thesis by (cases "run_client env su config (before @ ending)") (auto simp: safe_end_def)
qed

subsection \<open>Instance: the client asked to stop in its second round\<close>

definition example_rounds :: "observation list" where
  "example_rounds = [example_round 20 True [], example_round 20020 True []]"

lemma example_asked: "asked_to_stop 0 [example_round 10 False []] example_rounds"
  by (simp add: asked_to_stop_def example_rounds_def example_round_def)

theorem termination_ends_client_witness:
  "\<exists>result w. run_client example_client_env example_startup example_config
      (example_round 10 False [] # example_rounds) = Finished result w \<and> \<not> owes_raw_mode (owed example_environment w)"
  using termination_ends_client [of example_startup "[example_round 10 False []]" example_rounds example_client_env
      example_config] example_asked example_environment_restorable
  by (auto simp: example_startup_def example_client_env_def example_lines)

end
