(* ===== verification/Client_Network.thy ===== *)
theory Client_Network
  imports Client_Terminal Host_Delivery
begin

section \<open>The client: rejected datagrams\<close>

text \<open>
  \<open>drain_network\<close> passes every error of \<open>receive_datagram\<close> on, and the event loop ends on every error. So a datagram
  that the session rejects, which anyone who can send to the client's port can produce, ends the client.
\<close>

subsection \<open>A rejection ends the round\<close>

lemma rejected_receive:
  assumes "lifecycle rt = Running" "ingest_packet lib (protocol rt) packet = (Inl e, p)"
  shows "receive_datagram lib rt packet now = (Inl (SessionFailed e), rt\<lparr>protocol := p\<rparr>)"
  using assms by (simp add: receive_datagram_def ensure_running_def)

lemma rejected_drain:
  assumes "lifecycle (cl_runtime s) = Running"
    and "ingest_packet (env_session env) (protocol (cl_runtime s)) (take RECEIVE_BUFFER_BYTES datagram) = (Inl e, p)"
  shows "fst (drain_network env now (ReceivedDatagram datagram # results) s) =
    Inl (ClientError TextProtocolFailed (RuntimeFailure (SessionFailed e)))"
  using rejected_receive [OF assms, of now]
  by (simp add: then_do_def on_runtime_def format_runtime_error_def)

lemma sample_protocol: "protocol (snd (record_round_trip_sample rt sample)) = protocol rt"
  using record_round_trip_sample_frame [of rt sample] by (cases "record_round_trip_sample rt sample") simp

lemma receive_datagram_protocol:
  assumes "lifecycle rt = Running"
  shows "protocol (snd (receive_datagram lib rt packet now)) = snd (ingest_packet lib (protocol rt) packet)"
  using assms
  by (auto simp: receive_datagram_def ensure_running_def Let_def receive_state_protocol sample_protocol case_prod_beta
      split: sum.splits option.splits prod.splits)

subsection \<open>A rejected datagram ends the client\<close>

lemma drain_error_ends:
  assumes "\<not> ob_terminate ob"
    and "\<And>s'. lifecycle (cl_runtime s') = Running \<Longrightarrow> protocol (cl_runtime s') = protocol (cl_runtime s) \<Longrightarrow>
      \<exists>e. fst (drain_network env (ob_now ob) (ob_sockets ob) s') = Inl e"
    and "lifecycle (cl_runtime s) = Running"
  shows "\<exists>e s'. event_loop env previous (ob # obs) s = Some (Inl e, s')"
proof -
  let ?s = "snd (detect_suspend previous (ob_now ob) s)"
  have suspend: "detect_suspend previous (ob_now ob) s = (Inr (), ?s)" by (simp add: detect_suspend_def)
  have "lifecycle (cl_runtime ?s) = Running" "protocol (cl_runtime ?s) = protocol (cl_runtime s)"
    using assms(3) by (simp_all add: detect_suspend_def resume_def resume_state_def)
  from assms(2) [OF this] obtain e s' where "drain_network env (ob_now ob) (ob_sockets ob) ?s = (Inl e, s')"
    by (metis prod.collapse)
  with assms(1) suspend have body: "loop_body env previous ob s = (Inl e, s')" by (simp add: loop_body_def)
  obtain r v where "reconcile_prediction env s' = (r, v)" by fastforce
  with body show ?thesis by (cases e; cases r) auto
qed

text \<open>
  C39. A datagram that is not the server's, or that arrives twice, ends the client. While the client runs, a datagram
  that does not authenticate (of any content, even an empty one) makes the event loop end with an error; and so does
  an authentic datagram that the network delivers twice in a row, although the session itself rejects the copy without
  any change of state. (The error is a panic when a line of the log about the first copy is refused.)
\<close>

theorem rejected_datagram_ends_client:
  fixes s :: "('k, 'p, 'v) client_state"
  assumes "lifecycle (cl_runtime s) = Running" "protocol_wf (protocol (cl_runtime s))" "\<not> ob_terminate ob"
    and "(\<exists>e. open_packet (cipher (env_session env)) (secure_channel (protocol (cl_runtime s)))
              (take RECEIVE_BUFFER_BYTES datagram) = Inl e) \<and> ob_sockets ob = ReceivedDatagram datagram # results \<or>
         (\<exists>a. open_packet (cipher (env_session env)) (secure_channel (protocol (cl_runtime s)))
              (take RECEIVE_BUFFER_BYTES datagram) = Inr a) \<and>
           ob_sockets ob = ReceivedDatagram datagram # ReceivedDatagram datagram # results"
  shows "\<exists>e s'. event_loop env previous (ob # obs) s = Some (Inl e, s')"
  using assms(3)
proof (rule drain_error_ends)
  let ?lib = "env_session env" and ?packet = "take RECEIVE_BUFFER_BYTES datagram"
  fix s' :: "('k, 'p, 'v) client_state"
  assume run: "lifecycle (cl_runtime s') = Running" and same: "protocol (cl_runtime s') = protocol (cl_runtime s)"
  from assms(4) show "\<exists>e. fst (drain_network env (ob_now ob) (ob_sockets ob) s') = Inl e"
  proof (elim disjE conjE exE)
    fix e
    assume "open_packet (cipher ?lib) (secure_channel (protocol (cl_runtime s))) ?packet = Inl e"
      and sockets: "ob_sockets ob = ReceivedDatagram datagram # results"
    then have "ingest_packet ?lib (protocol (cl_runtime s')) ?packet = (Inl (OpenFailed e), protocol (cl_runtime s'))"
      using same by (simp add: ingest_packet_def)
    from rejected_drain [OF run this] sockets show ?thesis by auto
  next
    fix a
    assume a: "open_packet (cipher ?lib) (secure_channel (protocol (cl_runtime s))) ?packet = Inr a"
      and sockets: "ob_sockets ob = ReceivedDatagram datagram # ReceivedDatagram datagram # results"
    obtain r rt where recv: "receive_datagram ?lib (cl_runtime s') ?packet (ob_now ob) = (r, rt)" by fastforce
    have "blocked ?lib ?packet (protocol rt)"
      using ingest_blocks [OF assms(2) a] receive_datagram_protocol [OF run, of ?lib ?packet "ob_now ob"] recv same by simp
    then have rej: "ingest_packet ?lib (protocol rt) ?packet = (Inl ReplayDetected, protocol rt)" by (rule blocked_rejected)
    have running: "lifecycle rt = Running" using receive_datagram_closer [OF recv] run by (simp add: closer_def)
    show ?thesis
    proof (cases r)
      case (Inl e)
      with recv sockets show ?thesis by (simp add: then_do_def on_runtime_def)
    next
      case (Inr actions)
      obtain r2 s2 where app: "apply_actions env actions (s'\<lparr>cl_runtime := rt\<rparr>) = (r2, s2)" by fastforce
      have "cl_runtime s2 = rt" using apply_actions_runtime [OF app] by simp
      with rejected_drain [of s2 env datagram ReplayDetected "protocol rt" "ob_now ob" results] rej running
      have "\<exists>e. fst (drain_network env (ob_now ob) (ReceivedDatagram datagram # results) s2) = Inl e" by simp
      with Inr recv app sockets show ?thesis
        by (cases r2) (simp_all add: then_do_def on_runtime_def)
    qed
  qed
qed (rule assms(1))

theorem rejected_datagram_ends_client_witness:
  "\<exists>rt e s'. runtime_new (env_session example_client_env) (SessionKey (replicate 16 0)) (MonotonicTime 0) = Some rt \<and>
     event_loop example_client_env (MonotonicTime 0) [example_round 10 False [ReceivedDatagram []]]
       \<lparr>cl_runtime = rt, cl_terminal = example_guard, cl_predictor = prediction_overlay_new Adaptive False,
        cl_escape = escape_interpreter_default, cl_world = []\<rparr> = Some (Inl e, s')"
proof -
  obtain rt where rt: "runtime_new (env_session example_client_env) (SessionKey (replicate 16 0)) (MonotonicTime 0) = Some rt"
    "runtime_wf rt" using runtime_new_wf by blast
  then have "lifecycle rt = Running" by (auto simp: runtime_new_def split: option.splits)
  with rt rejected_datagram_ends_client [where env = example_client_env and datagram = "[]" and results = "[]"
      and ob = "example_round 10 False [ReceivedDatagram []]" and previous = "MonotonicTime 0" and obs = "[]"
      and s = "\<lparr>cl_runtime = rt, cl_terminal = example_guard, cl_predictor = prediction_overlay_new Adaptive False,
        cl_escape = escape_interpreter_default, cl_world = []\<rparr>"]
  show ?thesis by (simp add: runtime_wf_def open_packet_def example_round_def)
qed

end
