(* ===== verification/Client_Keys.thy ===== *)
theory Client_Keys
  imports Client_Terminal Input_Promises
begin

section \<open>The client: what the user types\<close>

text \<open>
  The reference reading of local input: what each event contributes to the input of the session, given the modes that
  the server chose and the state of the command prefix. The event loop queues exactly that, in order.
\<close>

subsection \<open>The reference\<close>

definition held_bytes :: "escape_interpreter \<Rightarrow> bytes list" where
  "held_bytes ei = (if ei_prefix_held ei then [[ei_escape_byte ei]] else [])"

definition option_list :: "'a option \<Rightarrow> 'a list" where
  "option_list v = (case v of None \<Rightarrow> [] | Some x \<Rightarrow> [x])"

text \<open>The byte strings an event queues, the prefix state after it, and whether it quits.\<close>

fun event_bytes ::
    "remote_terminal_modes \<Rightarrow> escape_interpreter \<Rightarrow> terminal_event \<Rightarrow> bytes list \<times> escape_interpreter \<times> bool" where
  "event_bytes modes ei (KeyEvent kind key) =
     (if kind = KeyRelease then ([], ei, False)
      else
        (case encode_key_with_mode key (rm_cursor_key modes) of
           None \<Rightarrow> ([], ei, False)
         | Some bs \<Rightarrow>
             (case escape_input ei bs of
                (Forward bs, ei) \<Rightarrow> ([bs], ei, False)
              | (Quit, ei) \<Rightarrow> ([], ei, True)
              | (_, ei) \<Rightarrow> ([], ei, False))))"
| "event_bytes modes ei (PasteEvent contents) =
     (held_bytes ei @ [encode_paste_with_mode contents (rm_bracketed_paste modes)], snd (escape_flush ei), False)"
| "event_bytes modes ei (MouseEvent mouse) =
     (held_bytes ei @ option_list (encode_mouse_with_mode mouse (rm_mouse_tracking modes) (rm_mouse_encoding modes)),
      snd (escape_flush ei), False)"
| "event_bytes modes ei FocusGained =
     (held_bytes ei @ option_list (encode_focus_with_mode True (rm_focus_reporting modes)), snd (escape_flush ei), False)"
| "event_bytes modes ei FocusLost =
     (held_bytes ei @ option_list (encode_focus_with_mode False (rm_focus_reporting modes)), snd (escape_flush ei), False)"
| "event_bytes modes ei (ResizeEvent _ _) = (held_bytes ei, snd (escape_flush ei), False)"

fun typed_bytes :: "remote_terminal_modes \<Rightarrow> escape_interpreter \<Rightarrow> terminal_event list \<Rightarrow> bytes list" where
  "typed_bytes modes ei [] = []"
| "typed_bytes modes ei (event # events) =
     (case event_bytes modes ei event of (out, ei, quit) \<Rightarrow> out @ (if quit then [] else typed_bytes modes ei events))"

text \<open>The byte strings waiting in the runtime.\<close>

definition waiting_bytes :: "('k, 'p) session_runtime \<Rightarrow> bytes list" where
  "waiting_bytes rt = List.map_filter (\<lambda>i. map_option run_value (in_bytes i)) (queued_instructions rt)"

fun is_resize_event :: "terminal_event \<Rightarrow> bool" where
  "is_resize_event (ResizeEvent _ _) = True"
| "is_resize_event _ = False"

subsection \<open>Parts\<close>

text \<open>What an input step does to the state: it queues these bytes, leaves the screen alone and sets the prefix.\<close>

definition queues ::
    "('k, 'p, 'v) client_state \<Rightarrow> bytes list \<Rightarrow> escape_interpreter \<Rightarrow> ('k, 'p, 'v) client_state \<Rightarrow> bool" where
  "queues s bss ei s' \<longleftrightarrow>
     waiting_bytes (cl_runtime s') = waiting_bytes (cl_runtime s) @ bss \<and> cl_escape s' = ei \<and>
     tg_authoritative (cl_terminal s') = tg_authoritative (cl_terminal s)"

lemma queues_trans: "queues s a ei s1 \<Longrightarrow> queues s1 b ei' s2 \<Longrightarrow> queues s (a @ b) ei' s2"
  by (simp add: queues_def)

lemma queue_input_waiting:
  assumes "queue_input rt bs = (Inr u, rt')"
  shows "waiting_bytes rt' = waiting_bytes rt @ [bs]"
  using assms
  by (auto simp: queue_input_def queue_sized_def waiting_bytes_def map_filter_def split: sum.splits option.splits if_splits)

lemma client_queue_input_queues: "client_queue_input bs s = (Inr u, s') \<Longrightarrow> queues s [bs] (cl_escape s) s'"
  by (auto simp: client_queue_input_def on_runtime_def queues_def split: prod.splits sum.splits dest: queue_input_waiting)

lemma on_terminal_queues:
  assumes "on_terminal message f s = (r, s')" "\<And>tg w r w' tg'. f tg w = ((r, w'), tg') \<Longrightarrow> tg_authoritative tg' = tg_authoritative tg"
  shows "queues s [] (cl_escape s) s'"
  using assms by (auto simp: on_terminal_def queues_def split: prod.splits)

lemma guard_authoritative:
  "clear_local_notice lib os tg w = (x, tg') \<Longrightarrow> tg_authoritative tg' = tg_authoritative tg"
  "write_local_notice lib os tg bs w = (x, tg') \<Longrightarrow> tg_authoritative tg' = tg_authoritative tg"
  "leave_for_suspend os tg w = (x, tg') \<Longrightarrow> tg_authoritative tg' = tg_authoritative tg"
  "resume_after_suspend lib os tg w = (x, tg') \<Longrightarrow> tg_authoritative tg' = tg_authoritative tg"
proof -
  show c: "clear_local_notice lib os tg w = (x, tg') \<Longrightarrow> tg_authoritative tg' = tg_authoritative tg" for w x tg'
    by (auto simp: clear_local_notice_def Let_def split: if_splits)
  show "write_local_notice lib os tg bs w = (x, tg') \<Longrightarrow> tg_authoritative tg' = tg_authoritative tg"
    by (auto simp: write_local_notice_def split: prod.splits sum.splits dest: c)
  show "leave_for_suspend os tg w = (x, tg') \<Longrightarrow> tg_authoritative tg' = tg_authoritative tg"
    using deactivate_terminal_guard [of os "tg\<lparr>tg_local_notice_active := False\<rparr>" w]
    by (auto simp: leave_for_suspend_def split: if_splits)
  show "resume_after_suspend lib os tg w = (x, tg') \<Longrightarrow> tg_authoritative tg' = tg_authoritative tg"
    by (auto simp: resume_after_suspend_def Let_def split: if_splits prod.splits sum.splits)
qed

lemma queues_refl: "queues s [] (cl_escape s) s"
  by (simp add: queues_def)

lemma escape_flush_eq:
  "fst (escape_flush ei) = (if ei_prefix_held ei then Some [ei_escape_byte ei] else None)"
  by (simp add: escape_flush_def)

lemma flush_escape_queues:
  assumes "flush_escape s = (Inr u, s')"
  shows "queues s (held_bytes (cl_escape s)) (snd (escape_flush (cl_escape s))) s'"
proof -
  obtain held ei where flush: "escape_flush (cl_escape s) = (held, ei)" by fastforce
  with escape_flush_eq [of "cl_escape s"] have held: "held_bytes (cl_escape s) = option_list held"
    by (auto simp: held_bytes_def option_list_def)
  from assms flush held show ?thesis
    by (cases held) (auto simp: flush_escape_def queues_def option_list_def dest!: client_queue_input_queues)
qed

lemma offer_prediction_queues:
  assumes "offer_prediction env frame action pcontext s = (r, s')"
  shows "queues s [] (cl_escape s) s'"
  using assms
  by (auto simp: offer_prediction_def on_terminal_def queues_def Let_def split: prod.splits option.splits)

lemma forward_key_queues:
  assumes "forward_key env key bs s = (Inr u, s')"
  shows "queues s [bs] (cl_escape s) s'"
  using assms unfolding forward_key_def Let_def
  by (auto elim!: then_doE dest!: client_queue_input_queues offer_prediction_queues simp: queues_def)

lemma forward_barrier_queues:
  assumes "forward_barrier bs s = (Inr u, s')"
  shows "queues s [bs] (cl_escape s) s'"
  using assms unfolding forward_barrier_def Let_def
  by (auto elim!: then_doE dest!: client_queue_input_queues simp: queues_def)

lemma forward_optional_queues:
  assumes "forward_optional bs s = (Inr u, s')"
  shows "queues s (option_list bs) (cl_escape s) s'"
  using assms by (cases bs) (auto simp: forward_optional_def option_list_def queues_refl dest: forward_barrier_queues)

lemma suspend_client_queues:
  assumes "suspend_client env s = (Inr u, s')"
  shows "queues s [] (cl_escape s) s'"
proof (cases "env_windows env")
  case True
  with assms have "on_terminal TextTerminalWriteFailed
      (\<lambda>tg w. write_local_notice (env_screen env) (env_os env) tg (text_of env TextSuspendUnsupported) w) s = (Inr u, s')"
    by (simp add: suspend_client_def)
  then show ?thesis by (rule on_terminal_queues) (rule guard_authoritative)
next
  case False
  with assms obtain u1 s1 r2 s2 r3 where
    s1: "on_terminal TextTerminalSetupFailed (\<lambda>tg w. leave_for_suspend (env_os env) tg w) s = (Inr u1, s1)"
    and s2: "on_terminal TextSignalSetupFailed (\<lambda>tg w. (attempt (env_os env) RaiseSuspend w, tg)) s1 = (r2, s2)"
    and s3: "on_terminal TextTerminalSetupFailed (\<lambda>tg w. resume_after_suspend (env_screen env) (env_os env) tg w) s2 = (r3, s')"
    by (auto simp: suspend_client_def Let_def elim!: then_doE split: prod.splits)
  have "queues s [] (cl_escape s) s1" using s1 by (rule on_terminal_queues) (rule guard_authoritative)
  moreover have "queues s1 [] (cl_escape s1) s2" using s2 by (rule on_terminal_queues) simp
  moreover have "queues s2 [] (cl_escape s2) s'" using s3 by (rule on_terminal_queues) (rule guard_authoritative)
  ultimately show ?thesis by (simp add: queues_def)
qed

lemma resume_waiting [simp]: "waiting_bytes (resume rt now) = waiting_bytes rt"
  by (simp add: waiting_bytes_def resume_def resume_state_def)

lemma handle_key_queues:
  assumes "handle_key env now key s = (Inr quit, s')"
  shows "\<exists>bss ei. event_bytes (remote_modes_of env s) (cl_escape s) (KeyEvent KeyPress key) = (bss, ei, quit) \<and> queues s bss ei s'"
proof (cases "encode_key_with_mode key (rm_cursor_key (remote_modes_of env s))")
  case None
  with assms show ?thesis by (simp add: handle_key_def queues_refl)
next
  case (Some bs)
  obtain action ei where esc: "escape_input (cl_escape s) bs = (action, ei)" by fastforce
  let ?s = "s\<lparr>cl_escape := ei\<rparr>"
  have start: "queues s [] ei ?s" by (simp add: queues_def waiting_bytes_def)
  show ?thesis
  proof (cases action)
    case Help
    with assms Some esc obtain u where "on_terminal TextTerminalWriteFailed
        (\<lambda>tg w. write_local_notice (env_screen env) (env_os env) tg (text_of env TextLocalCommandHelp) w) ?s = (Inr u, s')"
      and q: "quit = False"
      by (auto simp: handle_key_def elim!: then_doE)
    then have "queues ?s [] (cl_escape ?s) s'" by (rule_tac on_terminal_queues) (auto dest: guard_authoritative)
    with Some esc Help start q show ?thesis by (simp add: queues_def)
  next
    case Suspend
    with assms Some esc obtain u s1 where "suspend_client env ?s = (Inr u, s1)"
      "s' = s1\<lparr>cl_runtime := resume (cl_runtime s1) now\<rparr>" "quit = False"
      by (auto simp: handle_key_def elim!: then_doE)
    with Some esc Suspend start suspend_client_queues show ?thesis by (fastforce simp: queues_def)
  next
    case (Forward out)
    with assms Some esc obtain u where "forward_key env key out ?s = (Inr u, s')" "quit = False"
      by (auto simp: handle_key_def elim!: then_doE)
    with Some esc Forward start forward_key_queues [of env key out ?s u s'] show ?thesis by (auto simp: queues_def)
  qed (use assms Some esc start in \<open>auto simp: handle_key_def\<close>)
qed

lemma handle_event_queues:
  assumes "handle_event env now event s = (Inr quit, s')" "\<not> is_resize_event event"
  shows "\<exists>bss ei. event_bytes (remote_modes_of env s) (cl_escape s) event = (bss, ei, quit) \<and> queues s bss ei s'"
proof -
  have flushed: "remote_modes_of env s1 = remote_modes_of env s \<and>
      (queues s1 bss (cl_escape s1) s' \<longrightarrow> queues s (held_bytes (cl_escape s) @ bss) (snd (escape_flush (cl_escape s))) s')"
    if "flush_escape s = (Inr u, s1)" for u s1 bss
    using flush_escape_queues [OF that] by (auto simp: queues_def remote_modes_of_def guard_remote_modes_def)
  show ?thesis
  proof (cases event)
    case (KeyEvent kind key)
    then show ?thesis
      using assms(1) handle_key_queues [of env now key s quit s'] by (cases kind) (auto simp: queues_refl)
  next
    case (PasteEvent contents)
    with assms(1) obtain u1 s1 u2 where "flush_escape s = (Inr u1, s1)" "quit = False"
      "forward_barrier (encode_paste_with_mode contents (rm_bracketed_paste (remote_modes_of env s1))) s1 = (Inr u2, s')"
      by (auto elim!: then_doE)
    with PasteEvent flushed forward_barrier_queues show ?thesis by fastforce
  next
    case (MouseEvent mouse)
    with assms(1) obtain u1 s1 u2 where "flush_escape s = (Inr u1, s1)" "quit = False"
      "forward_optional (encode_mouse_with_mode mouse (rm_mouse_tracking (remote_modes_of env s1))
         (rm_mouse_encoding (remote_modes_of env s1))) s1 = (Inr u2, s')"
      by (auto elim!: then_doE)
    with MouseEvent flushed forward_optional_queues show ?thesis by fastforce
  next
    case FocusGained
    with assms(1) obtain u1 s1 u2 where "flush_escape s = (Inr u1, s1)" "quit = False"
      "forward_optional (encode_focus_with_mode True (rm_focus_reporting (remote_modes_of env s1))) s1 = (Inr u2, s')"
      by (auto elim!: then_doE)
    with FocusGained flushed forward_optional_queues show ?thesis by fastforce
  next
    case FocusLost
    with assms(1) obtain u1 s1 u2 where "flush_escape s = (Inr u1, s1)" "quit = False"
      "forward_optional (encode_focus_with_mode False (rm_focus_reporting (remote_modes_of env s1))) s1 = (Inr u2, s')"
      by (auto elim!: then_doE)
    with FocusLost flushed forward_optional_queues show ?thesis by fastforce
  qed (use assms(2) in simp)
qed

text \<open>A step that fails has queued the first few of its byte strings.\<close>

definition queues_some :: "('k, 'p, 'v) client_state \<Rightarrow> bytes list \<Rightarrow> ('k, 'p, 'v) client_state \<Rightarrow> bool" where
  "queues_some s bss s' \<longleftrightarrow> (\<exists>k. waiting_bytes (cl_runtime s') = waiting_bytes (cl_runtime s) @ take k bss)"

lemma queues_someI: "queues s a ei s' \<Longrightarrow> queues_some s (a @ b) s'"
  by (auto simp: queues_some_def queues_def intro: exI [of _ "length a"])

lemma queues_some_after: "queues s a ei s1 \<Longrightarrow> queues_some s1 b s' \<Longrightarrow> queues_some s (a @ b) s'"
  unfolding queues_some_def queues_def by (auto intro: exI [of _ "length a + k" for k])

lemma queues_none: "waiting_bytes (cl_runtime s') = waiting_bytes (cl_runtime s) \<Longrightarrow> queues_some s bss s'"
  unfolding queues_some_def by (auto intro: exI [of _ 0])

lemma client_queue_input_some: "client_queue_input bs s = (Inl e, s') \<Longrightarrow> queues_some s bss s'"
  by (rule queues_none)
    (auto simp: client_queue_input_def on_runtime_def queue_input_def queue_sized_def
      split: prod.splits sum.splits option.splits if_splits)

lemma on_terminal_some: "on_terminal message f s = (r, s') \<Longrightarrow> queues_some s bss s'"
  by (rule queues_none) (auto simp: on_terminal_def split: prod.splits)

lemma flush_escape_some: "flush_escape s = (Inl e, s') \<Longrightarrow> queues_some s bss s'"
  using client_queue_input_some [of _ "s\<lparr>cl_escape := ei\<rparr>" e s' bss for ei]
  by (auto simp: flush_escape_def queues_some_def Let_def split: prod.splits option.splits)

lemma forward_barrier_some: "forward_barrier bs s = (Inl e, s') \<Longrightarrow> queues_some s bss s'"
  unfolding forward_barrier_def Let_def by (auto elim!: then_doE dest: client_queue_input_some)

lemma forward_optional_some: "forward_optional bs s = (Inl e, s') \<Longrightarrow> queues_some s bss s'"
  by (cases bs) (auto simp: forward_optional_def dest: forward_barrier_some)

lemma forward_key_some: "forward_key env key bs s = (Inl e, s') \<Longrightarrow> queues_some s [bs] s'"
  unfolding forward_key_def Let_def
  using queues_someI [of s "[bs]" "cl_escape s" s' "[]"]
  by (auto elim!: then_doE dest: client_queue_input_some dest!: client_queue_input_queues offer_prediction_queues
      simp: queues_def)

lemma on_terminal_same: "on_terminal message f s = (r, s') \<Longrightarrow> cl_runtime s' = cl_runtime s"
  by (auto simp: on_terminal_def split: prod.splits)

lemma suspend_client_some:
  assumes "suspend_client env s = (r, s')"
  shows "queues_some s bss s'"
proof -
  have "cl_runtime s' = cl_runtime s"
    using assms
    by (auto simp: suspend_client_def Let_def elim!: then_doE split: if_splits prod.splits dest!: on_terminal_same)
  then show ?thesis by (simp add: queues_none)
qed

lemma handle_key_some:
  assumes "handle_key env now key s = (Inl e, s')"
  shows "queues_some s (fst (event_bytes (remote_modes_of env s) (cl_escape s) (KeyEvent KeyPress key))) s'"
proof -
  obtain bs where bs: "encode_key_with_mode key (rm_cursor_key (remote_modes_of env s)) = Some bs"
    using assms by (cases "encode_key_with_mode key (rm_cursor_key (remote_modes_of env s))") (auto simp: handle_key_def)
  obtain action ei where esc: "escape_input (cl_escape s) bs = (action, ei)" by fastforce
  let ?s = "s\<lparr>cl_escape := ei\<rparr>"
  have same: "queues_some ?s bss s' = queues_some s bss s'" for bss by (simp add: queues_some_def)
  show ?thesis
  proof (cases action)
    case (Forward out)
    with assms bs esc have "forward_key env key out ?s = (Inl e, s')" by (auto simp: handle_key_def elim!: then_doE)
    from forward_key_some [OF this] bs esc Forward same show ?thesis by simp
  qed (use assms bs esc same [of "[]"] in \<open>auto simp: handle_key_def elim!: then_doE dest: on_terminal_some
      suspend_client_some\<close>)
qed

lemma handle_event_some:
  assumes "handle_event env now event s = (Inl e, s')" "\<not> is_resize_event event"
  shows "queues_some s (fst (event_bytes (remote_modes_of env s) (cl_escape s) event)) s'"
proof -
  have flushed: "queues_some s (held_bytes (cl_escape s) @ bss) s'"
    if "then_do flush_escape (\<lambda>_. then_do m (\<lambda>_. ok False)) s = (Inl e, s')"
      "\<And>s1. m s1 = (Inl e, s') \<Longrightarrow> queues_some s1 bss s'" for m bss
    using that(1)
    by (auto elim!: then_doE intro: flush_escape_some dest!: flush_escape_queues that(2) elim: queues_some_after)
  show ?thesis
  proof (cases event)
    case (KeyEvent kind key)
    then show ?thesis using assms(1) handle_key_some [of env now key s e s'] by (cases kind) auto
  qed (use assms in \<open>auto simp del: then_do_simps intro!: flushed dest: forward_barrier_some forward_optional_some\<close>)
qed

subsection \<open>Typed input is queued in order\<close>

text \<open>One event: it fails after some of its bytes, or queues them all and then quits or goes on.\<close>

lemma drain_event:
  assumes "drain_terminal env ((t, Input event) # results) s = (r, s')" "\<not> is_resize_event event"
    and bytes: "event_bytes (remote_modes_of env s) (cl_escape s) event = (bss, ei, quit)"
  obtains (failed) e k where "r = Inl e" "waiting_bytes (cl_runtime s') = waiting_bytes (cl_runtime s) @ take k bss"
  | (handled) s2 where "queues s bss ei s2"
      "(if quit then ok True else drain_terminal env results) s2 = (r, s')"
proof -
  let ?clear = "on_terminal TextTerminalWriteFailed (\<lambda>tg w. clear_local_notice (env_screen env) (env_os env) tg w)"
  from assms(1) have "then_do ?clear (\<lambda>_. then_do (handle_event env t event)
      (\<lambda>quit. if quit then ok True else drain_terminal env results)) s = (r, s')" by simp
  then show thesis
  proof (rule then_doE)
    fix e assume "?clear s = (Inl e, s')" "r = Inl e"
    then show thesis using failed [of e 0] on_terminal_same by fastforce
  next
    fix u s1
    assume "?clear s = (Inr u, s1)"
    then have s1: "queues s [] (cl_escape s) s1" by (rule on_terminal_queues) (rule guard_authoritative)
    then have s1': "remote_modes_of env s1 = remote_modes_of env s" "cl_escape s1 = cl_escape s"
      "waiting_bytes (cl_runtime s1) = waiting_bytes (cl_runtime s)"
      by (simp_all add: queues_def remote_modes_of_def guard_remote_modes_def)
    assume "then_do (handle_event env t event) (\<lambda>quit. if quit then ok True else drain_terminal env results) s1 = (r, s')"
    then show thesis
    proof (rule then_doE)
      fix e assume "handle_event env t event s1 = (Inl e, s')" "r = Inl e"
      with handle_event_some [OF this(1) assms(2)] bytes s1' failed show thesis by (auto simp: queues_some_def)
    next
      fix quit' s2
      assume h: "handle_event env t event s1 = (Inr quit', s2)"
        and go: "(if quit' then ok True else drain_terminal env results) s2 = (r, s')"
      have "quit' = quit" "queues s1 bss ei s2" using handle_event_queues [OF h assms(2)] s1' bytes by simp_all
      with handled [of s2] go queues_trans [OF s1] show thesis by simp
    qed
  qed
qed

lemma drain_terminal_queues:
  assumes "drain_terminal env (map (apsnd Input) timed) s = (r, s')" "list_all (\<lambda>(t, event). \<not> is_resize_event event) timed"
  shows "queues_some s (typed_bytes (remote_modes_of env s) (cl_escape s) (map snd timed)) s' \<and>
    ((\<exists>quit. r = Inr quit) \<longrightarrow>
      waiting_bytes (cl_runtime s') =
        waiting_bytes (cl_runtime s) @ typed_bytes (remote_modes_of env s) (cl_escape s) (map snd timed))"
  using assms
proof (induction timed arbitrary: s)
  case Nil
  then show ?case by (simp add: queues_none)
next
  case (Cons te timed)
  obtain t event where te: "te = (t, event)" by (cases te)
  have ev: "\<not> is_resize_event event" and rest: "list_all (\<lambda>(t, event). \<not> is_resize_event event) timed"
    using Cons.prems(2) te by simp_all
  obtain bss ei quit where bytes: "event_bytes (remote_modes_of env s) (cl_escape s) event = (bss, ei, quit)"
    by (cases "event_bytes (remote_modes_of env s) (cl_escape s) event")
  have "drain_terminal env ((t, Input event) # map (apsnd Input) timed) s = (r, s')" using Cons.prems(1) by (simp add: te)
  then show ?case using ev bytes
  proof (cases rule: drain_event)
    case (failed e k)
    then have "waiting_bytes (cl_runtime s') = waiting_bytes (cl_runtime s) @ take (min k (length bss)) (bss @ rest)" for rest
      by (simp add: min_def)
    with failed(1) bytes te show ?thesis by (auto simp: queues_some_def intro!: exI [of _ "min k (length bss)"])
  next
    case (handled s2)
    then have modes: "remote_modes_of env s2 = remote_modes_of env s" "cl_escape s2 = ei"
      by (simp_all add: queues_def remote_modes_of_def guard_remote_modes_def)
    show ?thesis
    proof (cases quit)
      case True
      with handled bytes te show ?thesis using queues_someI [OF handled(1), of "[]"] by (simp add: queues_def)
    next
      case False
      with handled have "drain_terminal env (map (apsnd Input) timed) s2 = (r, s')" by simp
      from Cons.IH [OF this rest] modes False bytes te handled(1) show ?thesis
        using queues_some_after [OF handled(1)] by (auto simp: queues_def)
    qed
  qed
qed

subsection \<open>Input succeeds while there is room\<close>

definition permissive :: "('k, 'p, 'v) client_env \<Rightarrow> bool" where
  "permissive env \<longleftrightarrow> (\<forall>w e. env_os env w e)"

definition room :: "('k, 'p) session_runtime \<Rightarrow> nat \<Rightarrow> bool" where
  "room rt n \<longleftrightarrow>
     lifecycle rt = Running \<and> shutdown rt = Open \<and> queued_input_bytes rt + n \<le> MAXIMUM_QUEUED_INPUT_BYTES"

definition total :: "bytes list \<Rightarrow> nat" where
  "total bss = sum_list (map length bss)"

lemma total_simps [simp]: "total [] = 0" "total (bs # bss) = length bs + total bss" "total (a @ b) = total a + total b"
  by (simp_all add: total_def)

lemma attempts_permissive: "permissive env \<Longrightarrow> fst (attempts (env_os env) es w) = Inr ()"
  by (induction es arbitrary: w) (simp_all add: permissive_def attempt_def)

lemma write_bytes_permissive: "permissive env \<Longrightarrow> \<exists>w'. write_bytes (env_os env) bs w = (Inr (), w')"
  using attempts_permissive [of env "[WriteAll bs, FlushOutput]" w] unfolding write_bytes_def by (metis prod.collapse)

lemma guard_permissive:
  assumes "permissive env"
  shows "\<exists>w' tg'. clear_local_notice lib (env_os env) tg w = ((Inr (), w'), tg')"
    "\<exists>w' tg'. write_local_notice lib (env_os env) tg bs w = ((Inr (), w'), tg')"
    "\<exists>w' tg'. leave_for_suspend (env_os env) tg w = ((Inr (), w'), tg')"
    "\<exists>w' tg'. resume_after_suspend lib (env_os env) tg w = ((Inr (), w'), tg')"
proof -
  have os: "env_os env v e" for v e using assms by (simp add: permissive_def)
  note writes = write_bytes_permissive [OF assms]
  show clear: "\<exists>w' tg'. clear_local_notice lib (env_os env) tg w = ((Inr (), w'), tg')"
    using writes [of "screen_formatted lib (tg_authoritative tg)" w]
    by (auto simp: clear_local_notice_def redraw_authoritative_def Let_def)
  then obtain w1 tg1 where c: "clear_local_notice lib (env_os env) tg w = ((Inr (), w1), tg1)" by blast
  show "\<exists>w' tg'. write_local_notice lib (env_os env) tg bs w = ((Inr (), w'), tg')"
    using writes [of bs w1] by (auto simp: write_local_notice_def c)
  have deactivate: "\<exists>w' tg'. deactivate_terminal (env_os env) t v = ((Inr (), w'), tg')" for v and t :: "('p, 'v) terminal_guard"
    by (auto simp: deactivate_terminal_def attempt_def write_bytes_def os first_error_def Let_def split: prod.splits)
  then show "\<exists>w' tg'. leave_for_suspend (env_os env) tg w = ((Inr (), w'), tg')" by (simp add: leave_for_suspend_def)
  obtain w1 where raw: "enable_session_raw_mode (env_os env) w = (Inr (), w1)"
    by (simp add: enable_session_raw_mode_def attempt_def os)
  obtain w2 where set_up: "attempts (env_os env) (setup_effects (tg_alternate_screen_active tg)) w1 = (Inr (), w2)"
    using attempts_permissive [OF assms] by (metis prod.collapse)
  show "\<exists>w' tg'. resume_after_suspend lib (env_os env) tg w = ((Inr (), w'), tg')"
  proof (cases "tg_session_terminal_active tg")
    case True
    then show ?thesis by (simp add: resume_after_suspend_def)
  next
    case False
    obtain w3 where "write_bytes (env_os env) (screen_formatted lib (tg_authoritative tg)) w2 = (Inr (), w3)" using writes by blast
    moreover obtain w4 where "write_bytes (env_os env) (fst (reapply_policy (tg_title_output tg))) w3 = (Inr (), w4)"
      using writes by blast
    ultimately show ?thesis
      using False raw set_up by (simp add: resume_after_suspend_def redraw_authoritative_def Let_def case_prod_beta)
  qed
qed

text \<open>A step that succeeds and leaves room for \<open>n\<close> more bytes.\<close>

definition fits :: "('k, 'p, 'v, 'a) client_step \<Rightarrow> ('k, 'p, 'v) client_state \<Rightarrow> nat \<Rightarrow> bool" where
  "fits m s n \<longleftrightarrow> (\<exists>a s'. m s = (Inr a, s') \<and> room (cl_runtime s') n)"

lemma fits_then_do:
  assumes "fits m s n'" "\<And>a s'. m s = (Inr a, s') \<Longrightarrow> room (cl_runtime s') n' \<Longrightarrow> fits (f a) s' n"
  shows "fits (then_do m f) s n"
  using assms by (auto simp: fits_def)

lemma fits_ok [simp]: "fits (ok a) s n = room (cl_runtime s) n"
  by (simp add: fits_def)

lemma fits_queue:
  assumes "room (cl_runtime s) (length bs + n)"
  shows "fits (client_queue_input bs) s n"
  using assms
  by (auto simp: fits_def client_queue_input_def on_runtime_def queue_input_def ensure_accepting_input_def ensure_running_def
      queue_sized_def usize_checked_add_def usize_limit_def room_def MAXIMUM_QUEUED_INPUT_BYTES_def)

lemma fits_on_terminal:
  assumes "room (cl_runtime s) n" "\<exists>w tg. f (cl_terminal s) (cl_world s) = ((Inr (), w), tg)"
  shows "fits (on_terminal message f) s n"
  using assms by (auto simp: fits_def on_terminal_def)

lemma fits_flush:
  assumes "room (cl_runtime s) (total (held_bytes (cl_escape s)) + n)"
  shows "fits flush_escape s n"
  using assms fits_queue [of "s\<lparr>cl_escape := snd (escape_flush (cl_escape s))\<rparr>" "[ei_escape_byte (cl_escape s)]" n]
  by (auto simp: fits_def flush_escape_def escape_flush_def held_bytes_def split: if_splits)

lemma fits_forward_barrier:
  assumes "room (cl_runtime s) (length bs + n)"
  shows "fits (forward_barrier bs) s n"
  using fits_queue [OF assms] by (auto simp: fits_def forward_barrier_def Let_def)

lemma fits_forward_optional:
  assumes "room (cl_runtime s) (total (option_list bs) + n)"
  shows "fits (forward_optional bs) s n"
  using assms by (cases bs) (auto simp: forward_optional_def option_list_def fits_forward_barrier simp del: ok_eq)

lemma fits_forward_key:
  assumes "permissive env" "room (cl_runtime s) (length bs + n)"
  shows "fits (forward_key env key bs) s n"
proof -
  have offered: "fits (offer_prediction env frame action pcontext) v n" if "room (cl_runtime v) n" for frame action pcontext v
    using that write_bytes_permissive [OF assms(1)]
    by (auto simp: fits_def offer_prediction_def on_terminal_def write_overlay_bytes_def Let_def
        split: prod.splits option.splits) (metis prod.inject sum.case(2))
  have "fits (then_do (client_queue_input bs) (\<lambda>_. offer_prediction env frame action pcontext)) s n" for frame action pcontext
    by (rule fits_then_do [OF fits_queue [OF assms(2)]]) (rule offered)
  then show ?thesis unfolding fits_def forward_key_def Let_def .
qed

lemma fits_handle_key:
  assumes env: "permissive env"
    and fit: "room (cl_runtime s) (total (fst (event_bytes (remote_modes_of env s) (cl_escape s) (KeyEvent KeyPress key))) + n)"
  shows "fits (handle_key env now key) s n"
proof (cases "encode_key_with_mode key (rm_cursor_key (remote_modes_of env s))")
  case None
  with fit show ?thesis by (auto simp: fits_def handle_key_def)
next
  case (Some bs)
  obtain action ei where esc: "escape_input (cl_escape s) bs = (action, ei)" by fastforce
  let ?s = "s\<lparr>cl_escape := ei\<rparr>"
  show ?thesis
  proof (cases action)
    case Help
    have "fits (on_terminal TextTerminalWriteFailed
        (\<lambda>tg w. write_local_notice (env_screen env) (env_os env) tg (text_of env TextLocalCommandHelp) w)) ?s n"
      using fit Some esc Help guard_permissive(2) [OF env] by (intro fits_on_terminal) simp_all
    with Some esc Help show ?thesis by (auto simp: fits_def handle_key_def)
  next
    case Suspend
    have "fits (suspend_client env) ?s n"
    proof (cases "env_windows env")
      case True
      have "fits (on_terminal TextTerminalWriteFailed
          (\<lambda>tg w. write_local_notice (env_screen env) (env_os env) tg (text_of env TextSuspendUnsupported) w)) ?s n"
        using fit Some esc Suspend guard_permissive(2) [OF env] by (intro fits_on_terminal) simp_all
      with True show ?thesis by (simp add: suspend_client_def)
    next
      case False
      obtain w1 tg1 where leave: "leave_for_suspend (env_os env) (cl_terminal s) (cl_world s) = ((Inr (), w1), tg1)"
        using guard_permissive(3) [OF env] by blast
      obtain w2 tg2 where "resume_after_suspend (env_screen env) (env_os env) tg1 (w1 @ [RaiseSuspend]) = ((Inr (), w2), tg2)"
        using guard_permissive(4) [OF env] by blast
      with False leave fit Some esc Suspend env show ?thesis
        by (simp add: fits_def suspend_client_def then_do_def on_terminal_def attempt_def permissive_def)
    qed
    with Some esc Suspend show ?thesis by (auto simp: fits_def handle_key_def room_def resume_def resume_state_def)
  next
    case (Forward out)
    with fit Some esc fits_forward_key [OF env, of ?s out n key] show ?thesis by (auto simp: fits_def handle_key_def)
  qed (use fit Some esc in \<open>auto simp: fits_def handle_key_def\<close>)
qed

lemma fits_flushed:
  assumes "room (cl_runtime s) (total (held_bytes (cl_escape s)) + (k + n))"
    and "\<And>s1. remote_modes_of env s1 = remote_modes_of env s \<Longrightarrow> room (cl_runtime s1) (k + n) \<Longrightarrow> fits m s1 n"
  shows "fits (then_do flush_escape (\<lambda>_. then_do m (\<lambda>_. ok False))) s n"
proof (rule fits_then_do [OF fits_flush [OF assms(1)]], rule fits_then_do)
  fix u s1 assume flush: "flush_escape s = (Inr u, s1)" and r: "room (cl_runtime s1) (k + n)"
  from flush_escape_queues [OF flush] have "remote_modes_of env s1 = remote_modes_of env s"
    by (simp add: queues_def remote_modes_of_def guard_remote_modes_def)
  from assms(2) [OF this r] show "fits m s1 n" .
qed simp

lemma fits_handle_event:
  assumes env: "permissive env" and ev: "\<not> is_resize_event event"
    and fit: "room (cl_runtime s) (total (fst (event_bytes (remote_modes_of env s) (cl_escape s) event)) + n)"
  shows "fits (handle_event env now event) s n"
proof -
  note flushed = fits_flushed [where s = s and n = n and env = env]
  show ?thesis
  proof (cases event)
    case (KeyEvent kind key)
    show ?thesis
    proof (cases kind)
      case KeyRelease
      with KeyEvent fit show ?thesis by (simp del: ok_eq)
    qed (use KeyEvent fit fits_handle_key [OF env, of s key n now] in simp_all)
  next
    case (PasteEvent contents)
    show ?thesis
      unfolding PasteEvent handle_event.simps
      by (rule flushed [where k = "length (encode_paste_with_mode contents (rm_bracketed_paste (remote_modes_of env s)))"])
        (use fit PasteEvent in \<open>auto simp: fits_def add.assoc dest: fits_forward_barrier [unfolded fits_def]\<close>)
  next
    case (MouseEvent mouse)
    show ?thesis
      unfolding MouseEvent handle_event.simps
      by (rule flushed [where k = "total (option_list (encode_mouse_with_mode mouse (rm_mouse_tracking (remote_modes_of env s))
          (rm_mouse_encoding (remote_modes_of env s))))"])
        (use fit MouseEvent in \<open>auto simp: fits_def add.assoc dest: fits_forward_optional [unfolded fits_def]\<close>)
  next
    case FocusGained
    show ?thesis
      unfolding FocusGained handle_event.simps
      by (rule flushed [where k = "total (option_list (encode_focus_with_mode True (rm_focus_reporting (remote_modes_of env s))))"])
        (use fit FocusGained in \<open>auto simp: fits_def add.assoc dest: fits_forward_optional [unfolded fits_def]\<close>)
  next
    case FocusLost
    show ?thesis
      unfolding FocusLost handle_event.simps
      by (rule flushed [where k = "total (option_list (encode_focus_with_mode False (rm_focus_reporting (remote_modes_of env s))))"])
        (use fit FocusLost in \<open>auto simp: fits_def add.assoc dest: fits_forward_optional [unfolded fits_def]\<close>)
  qed (use ev in simp)
qed

lemma fits_drain_terminal:
  assumes env: "permissive env" and "list_all (\<lambda>(t, event). \<not> is_resize_event event) timed"
    and "room (cl_runtime s) (total (typed_bytes (remote_modes_of env s) (cl_escape s) (map snd timed)))"
  shows "fits (drain_terminal env (map (apsnd Input) timed)) s 0"
  using assms(2,3)
proof (induction timed arbitrary: s)
  case (Cons te timed)
  obtain t event where te: "te = (t, event)" by (cases te)
  let ?modes = "remote_modes_of env s" and ?ei = "cl_escape s"
  obtain bss ei quit where bytes: "event_bytes ?modes ?ei event = (bss, ei, quit)" by (cases "event_bytes ?modes ?ei event")
  let ?rest = "total (if quit then [] else typed_bytes ?modes ei (map snd timed))"
  have fit: "room (cl_runtime s) (total bss + ?rest)" and ev: "\<not> is_resize_event event"
    using Cons.prems te bytes by simp_all
  have "fits (then_do (on_terminal TextTerminalWriteFailed (\<lambda>tg w. clear_local_notice (env_screen env) (env_os env) tg w)) (\<lambda>_.
      then_do (handle_event env t event) (\<lambda>quit. if quit then ok True else drain_terminal env (map (apsnd Input) timed)))) s 0"
  proof (rule fits_then_do)
    show "fits (on_terminal TextTerminalWriteFailed (\<lambda>tg w. clear_local_notice (env_screen env) (env_os env) tg w)) s (total bss + ?rest)"
      using fit guard_permissive(1) [OF env] by (intro fits_on_terminal) simp_all
    fix u s1
    assume cleared: "on_terminal TextTerminalWriteFailed (\<lambda>tg w. clear_local_notice (env_screen env) (env_os env) tg w) s = (Inr u, s1)"
      and room1: "room (cl_runtime s1) (total bss + ?rest)"
    have "queues s [] ?ei s1" using cleared by (rule on_terminal_queues) (rule guard_authoritative)
    then have s1: "remote_modes_of env s1 = ?modes" "cl_escape s1 = ?ei"
      by (simp_all add: queues_def remote_modes_of_def guard_remote_modes_def)
    show "fits (then_do (handle_event env t event) (\<lambda>quit. if quit then ok True else drain_terminal env (map (apsnd Input) timed))) s1 0"
    proof (rule fits_then_do)
      show "fits (handle_event env t event) s1 ?rest" using fits_handle_event [OF env ev] room1 s1 bytes by simp
      fix quit' s2
      assume handled: "handle_event env t event s1 = (Inr quit', s2)" and room2: "room (cl_runtime s2) ?rest"
      have q: "quit' = quit" "queues s1 bss ei s2" using handle_event_queues [OF handled ev] s1 bytes by simp_all
      then have "remote_modes_of env s2 = ?modes" "cl_escape s2 = ei"
        using s1 by (simp_all add: queues_def remote_modes_of_def guard_remote_modes_def)
      with room2 q Cons.IH [of s2] Cons.prems(1)
      show "fits (if quit' then ok True else drain_terminal env (map (apsnd Input) timed)) s2 0"
        by (cases quit) (simp_all del: ok_eq)
    qed
  qed
  then show ?case by (simp add: te)
qed (simp del: ok_eq)

text \<open>
  C4. What the user types reaches the session, in order and exactly once. For any local events but resizes, the byte
  strings waiting in the runtime after \<open>drain_terminal\<close> are those waiting before it followed by the reference reading
  of the events: keys as encoded for the modes the server chose, less the local commands, pastes, mouse and focus
  reports, each preceded by a prefix that was still held. It succeeds when the terminal can be written and the queue
  of 1 MiB has room for all of them; when it fails, the first few of them have been queued and nothing else.
\<close>

theorem typed_input_queued:
  assumes "drain_terminal env (map (apsnd Input) timed) s = (r, s')" "list_all (\<lambda>(t, event). \<not> is_resize_event event) timed"
    and "typed = typed_bytes (remote_modes_of env s) (cl_escape s) (map snd timed)"
  shows "(\<forall>quit. r = Inr quit \<longrightarrow> waiting_bytes (cl_runtime s') = waiting_bytes (cl_runtime s) @ typed) \<and>
    (\<exists>k. waiting_bytes (cl_runtime s') = waiting_bytes (cl_runtime s) @ take k typed) \<and>
    (permissive env \<and> lifecycle (cl_runtime s) = Running \<and> shutdown (cl_runtime s) = Open \<and>
       queued_input_bytes (cl_runtime s) + total typed \<le> 1024 * 1024 \<longrightarrow> (\<exists>quit. r = Inr quit))"
  using drain_terminal_queues [OF assms(1,2)] fits_drain_terminal [OF _ assms(2), of env s] assms(1,3)
  by (auto simp: queues_some_def room_def fits_def MAXIMUM_QUEUED_INPUT_BYTES_def)

subsection \<open>A concrete session\<close>

abbreviation plain_key :: "rust_char \<Rightarrow> terminal_event" where
  "plain_key c \<equiv> KeyEvent KeyPress \<lparr>ke_code = CharKey c, ke_modifiers = \<lparr>km_shift = False, km_alt = False, km_control = False\<rparr>\<rparr>"

abbreviation control_key :: "rust_char \<Rightarrow> terminal_event" where
  "control_key c \<equiv> KeyEvent KeyPress \<lparr>ke_code = CharKey c, ke_modifiers = \<lparr>km_shift = False, km_alt = False, km_control = True\<rparr>\<rparr>"

text \<open>An \<open>a\<close>, the prefix Ctrl-6, a paste, which flushes the prefix, and the prefix and a dot, which quit.\<close>

definition example_typing :: "(monotonic_time \<times> terminal_event) list" where
  "example_typing = map (Pair (MonotonicTime 5)) [plain_key 0x61, control_key 0x36, PasteEvent [0x62], control_key 0x36, plain_key 0x2e]"

definition example_client_state :: "(bytes, bytes, unit) client_state" where
  "example_client_state =
     \<lparr>cl_runtime = the (runtime_new (env_session example_client_env) (SessionKey (replicate 16 0)) (MonotonicTime 0)),
      cl_terminal = example_guard, cl_predictor = prediction_overlay_new Never False,
      cl_escape = escape_interpreter_default, cl_world = []\<rparr>"

lemma example_client_runtime:
  "lifecycle (cl_runtime example_client_state) = Running" "shutdown (cl_runtime example_client_state) = Open"
  "queued_input_bytes (cl_runtime example_client_state) = 0" "waiting_bytes (cl_runtime example_client_state) = []"
  using runtime_new_wf [of "env_session example_client_env" "SessionKey (replicate 16 0)" "MonotonicTime 0"]
  by (auto simp: example_client_state_def runtime_new_def waiting_bytes_def map_filter_simps split: option.splits)

lemma example_typed:
  "typed_bytes (remote_modes_of example_client_env example_client_state) (cl_escape example_client_state) (map snd example_typing) =
     [[0x61], [0x1e], [0x62]]"
  by code_simp

theorem typed_input_queued_witness:
  "\<exists>quit s'. drain_terminal (example_client_env\<lparr>env_os := \<lambda>_ _. True\<rparr>) (map (apsnd Input) example_typing) example_client_state = (Inr quit, s') \<and>
     waiting_bytes (cl_runtime s') = [[0x61], [0x1e], [0x62]]"
proof -
  let ?env = "example_client_env\<lparr>env_os := \<lambda>_ _. True\<rparr>"
  obtain r s' where drained: "drain_terminal ?env (map (apsnd Input) example_typing) example_client_state = (r, s')"
    by fastforce
  have "remote_modes_of ?env example_client_state = remote_modes_of example_client_env example_client_state"
    by (simp add: remote_modes_of_def)
  moreover have "list_all (\<lambda>(t, event). \<not> is_resize_event event) example_typing" by (simp add: example_typing_def)
  ultimately show ?thesis
    using typed_input_queued [OF drained, of "[[0x61], [0x1e], [0x62]]"] drained example_typed example_client_runtime
    by (auto simp: permissive_def)
qed

end
