(* ===== verification/Client_Screen.thy ===== *)
theory Client_Screen
  imports Client_Network Title_Promises
begin

section \<open>The client: the screen follows the server\<close>

text \<open>
  The last link of the chain from the server to the user. \<open>Host_Delivery\<close> shows that the actions of a datagram carry
  an emulator from the delivered state to the new one; here the client applies them: to its authoritative screen,
  through the title filter to the real terminal, and behind the reconciliation of predictions.
\<close>

subsection \<open>What reaches the terminal\<close>

fun effect_bytes :: "effect \<Rightarrow> bytes" where
  "effect_bytes (WriteAll bs) = bs"
| "effect_bytes _ = []"

definition terminal_bytes :: "world \<Rightarrow> bytes" where
  "terminal_bytes es = concat (map effect_bytes es)"

lemma terminal_bytes_simps [simp]:
  "terminal_bytes [] = []" "terminal_bytes (e # es) = effect_bytes e @ terminal_bytes es"
  "terminal_bytes (a @ b) = terminal_bytes a @ terminal_bytes b"
  by (simp_all add: terminal_bytes_def)

lemma terminal_bytes_log [simp]: "terminal_bytes (map LogLine lines) = []"
  by (induction lines) simp_all

fun action_bytes :: "session_action \<Rightarrow> bytes" where
  "action_bytes (WriteTerminal bs) = bs"
| "action_bytes _ = []"

text \<open>Nothing of the client's own is on the screen: no prediction and no notice.\<close>

definition undisturbed :: "('k, 'p, 'v) client_state \<Rightarrow> bool" where
  "undisturbed s \<longleftrightarrow>
     \<not> po_overlay_active (cl_predictor s) \<and> \<not> po_reconciliation_required (cl_predictor s) \<and>
     \<not> tg_local_notice_active (cl_terminal s)"

abbreviation screen_of :: "('k, 'p, 'v) client_state \<Rightarrow> 'p" where
  "screen_of s \<equiv> as_parser (tg_authoritative (cl_terminal s))"

abbreviation filter_of :: "('k, 'p, 'v) client_state \<Rightarrow> title_output_filter" where
  "filter_of s \<equiv> tg_title_output (cl_terminal s)"

text \<open>The server's output \<open>bs\<close> was shown between two states.\<close>

definition displays ::
    "('k, 'p, 'v) client_env \<Rightarrow> ('k, 'p, 'v) client_state \<Rightarrow> bytes \<Rightarrow> ('k, 'p, 'v) client_state \<Rightarrow> bool" where
  "displays env s bs s' \<longleftrightarrow>
     screen_of s' = vt_process (env_screen env) (screen_of s) bs \<and>
     filter_of s' = snd (title_process (filter_of s) bs) \<and>
     (\<exists>es. cl_world s' = cl_world s @ es \<and>
        (undisturbed s \<longrightarrow> undisturbed s' \<and> terminal_bytes es = fst (title_process (filter_of s) bs)))"

lemma displays_append:
  assumes stream: "\<And>p. vt_process (env_screen env) p (a @ b) = vt_process (env_screen env) (vt_process (env_screen env) p a) b"
    and "displays env s a s1" "displays env s1 b s2"
  shows "displays env s (a @ b) s2"
proof -
  from assms(2,3) obtain es1 es2 where "cl_world s1 = cl_world s @ es1" "cl_world s2 = cl_world s1 @ es2"
    "undisturbed s \<Longrightarrow> undisturbed s1 \<and> terminal_bytes es1 = fst (title_process (filter_of s) a)"
    "undisturbed s1 \<Longrightarrow> undisturbed s2 \<and> terminal_bytes es2 = fst (title_process (filter_of s1) b)"
    unfolding displays_def by blast
  then have "cl_world s2 = cl_world s @ (es1 @ es2)" "undisturbed s \<Longrightarrow> undisturbed s2 \<and>
      terminal_bytes (es1 @ es2) = fst (title_process (filter_of s) a) @ fst (title_process (filter_of s1) b)"
    by simp_all
  with assms(2,3) stream show ?thesis
    unfolding displays_def title.process_append by fastforce
qed

lemma displays_nothing:
  assumes "\<And>p. vt_process (env_screen env) p [] = p"
    and "cl_terminal s' = cl_terminal s" "cl_world s' = cl_world s @ es" "terminal_bytes es = []"
    and "undisturbed s \<Longrightarrow> undisturbed s'"
  shows "displays env s [] s'"
  using assms by (auto simp: displays_def title.process_Nil)

subsection \<open>Applying actions\<close>

lemma attempts_world: "\<exists>es'. snd (attempts env es w) = w @ es'"
proof (induction es arbitrary: w)
  case (Cons e es)
  from Cons.IH [of "w @ [e]"] show ?case by (auto simp: attempt_def)
qed simp

lemma write_bytes_world: "write_bytes os bs w = (r, w') \<Longrightarrow> \<exists>es. w' = w @ es"
  using attempts_world [of os "[WriteAll bs, FlushOutput]" w] by (auto simp: write_bytes_def)

lemma write_bytes_done: "write_bytes os bs w = (Inr (), w') \<Longrightarrow> w' = w @ [WriteAll bs, FlushOutput]"
  by (auto simp: write_bytes_def attempt_def split: if_splits)

lemma reconcile_displays:
  assumes "\<And>p. vt_process (env_screen env) p [] = p" "reconcile_prediction env s = (Inr u, s')"
  shows "displays env s [] s'"
proof (cases "undisturbed s")
  case True
  then have "s' = s\<lparr>cl_predictor := cl_predictor s\<rparr>"
    using assms(2) by (auto simp: reconcile_prediction_def take_reconciliation_def undisturbed_def ok_def)
  with assms(1) show ?thesis by (auto simp: displays_def undisturbed_def title.process_Nil)
next
  case False
  have "\<exists>es. cl_world s' = cl_world s @ es" "cl_terminal s' = cl_terminal s"
    using assms(2)
    by (auto simp: reconcile_prediction_def Let_def on_terminal_def write_overlay_bytes_def redraw_authoritative_def ok_def
        split: prod.splits prediction_reconciliation.splits sum.splits dest: write_bytes_world)
  with False assms(1) show ?thesis by (auto simp: displays_def title.process_Nil)
qed

lemma clear_local_notice_world:
  assumes "clear_local_notice lib os tg w = ((r, w'), tg')"
  shows "tg_authoritative tg' = tg_authoritative tg \<and> tg_title_output tg' = tg_title_output tg \<and> (\<exists>es. w' = w @ es) \<and>
    (\<not> tg_local_notice_active tg \<longrightarrow> w' = w \<and> tg' = tg)"
  using assms by (auto simp: clear_local_notice_def redraw_authoritative_def Let_def split: if_splits dest: write_bytes_world)

lemma write_server_displays:
  assumes "on_terminal message (\<lambda>tg w. write_server_bytes (env_screen env) (env_os env) tg bs w) s = (Inr u, s')"
  shows "displays env s bs s'"
proof -
  obtain r1 w1 tg1 where clear: "clear_local_notice (env_screen env) (env_os env) (cl_terminal s) (cl_world s) = ((r1, w1), tg1)"
    by (metis prod.collapse)
  note c = clear_local_notice_world [OF clear]
  obtain out tf where title: "title_process (filter_of s) bs = (out, tf)" by fastforce
  from assms clear have "r1 = Inr ()"
    by (cases r1) (auto simp: on_terminal_def write_server_bytes_def)
  with assms clear c title have w: "write_bytes (env_os env) out w1 = (Inr (), cl_world s')"
    and s': "s' = s\<lparr>cl_terminal := tg1\<lparr>tg_authoritative := screen_process (env_screen env) (tg_authoritative (cl_terminal s)) bs,
      tg_title_output := tf\<rparr>, cl_world := cl_world s'\<rparr>"
    by (auto simp: on_terminal_def write_server_bytes_def split: sum.splits prod.splits)
  from s' have "cl_terminal s' = tg1\<lparr>tg_authoritative := screen_process (env_screen env) (tg_authoritative (cl_terminal s)) bs,
      tg_title_output := tf\<rparr>" "cl_predictor s' = cl_predictor s"
    by (metis client_state.select_convs(2) client_state.surjective client_state.update_convs(2,5),
        metis client_state.select_convs(3) client_state.surjective client_state.update_convs(2,5))
  with c title write_bytes_done [OF w] show ?thesis
    by (auto simp: displays_def undisturbed_def screen_process_def split: prod.splits)
qed

lemma apply_action_displays:
  assumes stream: "vt_streaming (term_lib.truncate (env_screen env))" and "apply_action env action s = (Inr u, s')"
  shows "displays env s (action_bytes action) s'"
proof -
  have nil: "\<And>p. vt_process (env_screen env) p [] = p"
    and app: "\<And>p a b. vt_process (env_screen env) p (a @ b) = vt_process (env_screen env) (vt_process (env_screen env) p a) b"
    using stream by (simp_all add: vt_streaming_def term_lib.truncate_def)
  show ?thesis
  proof (cases action)
    case (SendDatagram packet)
    with assms(2) show ?thesis
      by (auto simp: on_terminal_def attempt_def undisturbed_def split: if_splits
          intro!: displays_nothing [OF nil, where es = "[SendPacket packet]"])
  next
    case (WriteTerminal bs)
    with assms(2) obtain s1 where "reconcile_prediction env s = (Inr (), s1)"
      "on_terminal TextTerminalWriteFailed (\<lambda>tg w. write_server_bytes (env_screen env) (env_os env) tg bs w) s1 = (Inr u, s')"
      by (auto elim!: then_doE)
    from displays_append [OF app reconcile_displays [OF nil this(1)] write_server_displays [OF this(2)]] WriteTerminal
    show ?thesis by simp
  next
    case (AcknowledgePrediction v)
    with assms(2) show ?thesis
      by (auto simp: undisturbed_def acknowledge_def split: option.splits
          intro!: displays_nothing [OF nil, where es = "[]"])
  next
    case (Diagnostic event)
    with assms(2) have "s' = s\<lparr>cl_world := cl_world s @ map LogLine (write_event (env_logger env) event)\<rparr>"
      by (auto dest: eprint_lines_world)
    with Diagnostic show ?thesis
      by (auto simp: undisturbed_def intro!: displays_nothing [OF nil, where es = "map LogLine (write_event (env_logger env) event)"])
  qed (use assms(2) in \<open>auto intro!: displays_nothing [OF nil, where es = "[]"]\<close>)
qed

lemma apply_actions_displays:
  assumes stream: "vt_streaming (term_lib.truncate (env_screen env))" and "apply_actions env actions s = (Inr u, s')"
  shows "displays env s (concat (map action_bytes actions)) s'"
  using assms(2)
proof (induction actions arbitrary: s)
  case Nil
  with stream show ?case
    by (auto simp: vt_streaming_def term_lib.truncate_def intro!: displays_nothing [where es = "[]"])
next
  case (Cons action actions)
  then obtain s1 where "apply_action env action s = (Inr (), s1)" "apply_actions env actions s1 = (Inr u, s')"
    by (auto elim!: then_doE)
  with displays_append [OF _ apply_action_displays [OF stream this(1)] Cons.IH [OF this(2)]] stream show ?case
    by (simp add: vt_streaming_def term_lib.truncate_def)
qed

subsection \<open>Datagrams\<close>

text \<open>
  The client takes its size from the local terminal and ignores the sizes the server reports; this is right as long as
  they are the sizes the screen has.
\<close>

fun resizes_redundant :: "('p, 'v) term_lib \<Rightarrow> 'p \<Rightarrow> session_action list \<Rightarrow> bool" where
  "resizes_redundant lib p [] \<longleftrightarrow> True"
| "resizes_redundant lib p (action # actions) \<longleftrightarrow>
     (case action of ResizeTerminal columns rows \<Rightarrow> vt_set_size lib p rows columns = p | _ \<Rightarrow> True) \<and>
     resizes_redundant lib (host_apply lib p action) actions"

lemma host_apply_writes:
  assumes "vt_streaming lib" "resizes_redundant lib p actions"
  shows "foldl (host_apply lib) p actions = vt_process lib p (concat (map action_bytes actions))"
  using assms(2)
proof (induction actions arbitrary: p)
  case Nil
  with assms(1) show ?case by (simp add: vt_streaming_def)
next
  case (Cons action actions)
  have "host_apply lib p action = vt_process lib p (action_bytes action)"
    using Cons.prems assms(1) by (cases action) (auto simp: vt_streaming_def)
  with Cons assms(1) show ?case by (simp add: vt_streaming_def)
qed

text \<open>
  The server's side of the contract over a sequence of datagrams: every state that advances the session extends the
  delivered one, and the sizes it reports are those of the screen.
\<close>

fun server_follows ::
    "('k, 'p, 'v) session_lib \<Rightarrow> monotonic_time \<Rightarrow> ('k, 'p) session_runtime \<Rightarrow> bytes list \<Rightarrow> bool" where
  "server_follows lib now rt [] \<longleftrightarrow> True"
| "server_follows lib now rt (datagram # datagrams) \<longleftrightarrow>
     (case receive_datagram lib rt (take RECEIVE_BUFFER_BYTES datagram) now of
        (Inl _, _) \<Rightarrow> True
      | (Inr actions, rt') \<Rightarrow>
          (latest_remote_state (protocol rt') \<noteq> latest_remote_state (protocol rt) \<longrightarrow>
             extends_delivered lib (delivered_remote_state (protocol rt)) (delivered_remote_state (protocol rt'))) \<and>
          resizes_redundant (terminal lib) (rts_parser (delivered_remote_state (protocol rt))) actions \<and>
          server_follows lib now rt' datagrams)"

abbreviation remote_screen :: "('k, 'p, 'v) client_state \<Rightarrow> 'p" where
  "remote_screen s \<equiv> rts_parser (delivered_remote_state (protocol (cl_runtime s)))"

lemma drain_datagram:
  assumes "drain_network env now (ReceivedDatagram datagram # results) s = (Inr refused, s')"
  obtains actions rt s1 where
    "receive_datagram (env_session env) (cl_runtime s) (take RECEIVE_BUFFER_BYTES datagram) now = (Inr actions, rt)"
    "apply_actions env actions (s\<lparr>cl_runtime := rt\<rparr>) = (Inr (), s1)" "cl_runtime s1 = rt"
    "drain_network env now results s1 = (Inr refused, s')"
proof -
  obtain r rt where recv: "receive_datagram (env_session env) (cl_runtime s) (take RECEIVE_BUFFER_BYTES datagram) now = (r, rt)"
    by fastforce
  with assms obtain actions where r: "r = Inr actions"
    by (cases r) (auto simp: then_do_def on_runtime_def)
  with recv assms obtain s1 where app: "apply_actions env actions (s\<lparr>cl_runtime := rt\<rparr>) = (Inr (), s1)"
    and rest: "drain_network env now results s1 = (Inr refused, s')"
    by (auto simp: on_runtime_def elim!: then_doE)
  from that [OF recv [unfolded r] app _ rest] apply_actions_runtime [OF app] show thesis by simp
qed

lemma datagrams_display:
  assumes codec: "codec_conforms (codec (env_session env))"
    and lib: "terminal (env_session env) = term_lib.truncate (env_screen env)"
    and stream: "vt_streaming (terminal (env_session env))"
    and "runtime_wf (cl_runtime s)" "screen_of s = remote_screen s"
    and "server_follows (env_session env) now (cl_runtime s) datagrams"
    and "drain_network env now (map ReceivedDatagram datagrams) s = (Inr refused, s')"
  shows "\<exists>bs. displays env s bs s' \<and> screen_of s' = remote_screen s'"
  using assms(4-7)
proof (induction datagrams arbitrary: s)
  case Nil
  with stream lib have "displays env s [] s'"
    by (auto simp: vt_streaming_def term_lib.truncate_def intro!: displays_nothing [where es = "[]"])
  with Nil show ?case by auto
next
  case (Cons datagram datagrams)
  from Cons.prems(4) obtain actions rt s1 where
    recv: "receive_datagram (env_session env) (cl_runtime s) (take RECEIVE_BUFFER_BYTES datagram) now = (Inr actions, rt)"
    and app: "apply_actions env actions (s\<lparr>cl_runtime := rt\<rparr>) = (Inr (), s1)" and rt: "cl_runtime s1 = rt"
    and rest: "drain_network env now (map ReceivedDatagram datagrams) s1 = (Inr refused, s')"
    by (auto elim: drain_datagram simp del: drain_network.simps)
  let ?bs = "concat (map action_bytes actions)"
  from Cons.prems(3) recv have follows: "resizes_redundant (terminal (env_session env)) (remote_screen s) actions"
    "server_follows (env_session env) now rt datagrams"
    and ext: "latest_remote_state (protocol rt) \<noteq> latest_remote_state (protocol (cl_runtime s)) \<Longrightarrow>
      extends_delivered (env_session env) (delivered_remote_state (protocol (cl_runtime s))) (delivered_remote_state (protocol rt))"
    by auto
  have one: "displays env s ?bs s1"
    using apply_actions_displays [OF stream [unfolded lib] app] by (simp add: displays_def undisturbed_def)
  have "vt_process (env_screen env) (screen_of s) ?bs = rts_parser (delivered_remote_state (protocol rt))"
    using datagram_tracks [OF codec stream Cons.prems(1) recv ext] host_apply_writes [OF stream follows(1)] Cons.prems(2)
    by (simp add: lib term_lib.truncate_def)
  with one rt have shown: "screen_of s1 = remote_screen s1" by (simp add: displays_def)
  have "runtime_wf (cl_runtime s1)"
    using receive_datagram_wf [OF Cons.prems(1), of "env_session env" "take RECEIVE_BUFFER_BYTES datagram" now] recv rt by simp
  from Cons.IH [OF this shown] follows(2) rest rt obtain bs where "displays env s1 bs s'" "screen_of s' = remote_screen s'"
    by auto
  with displays_append [OF _ one] stream lib show ?case by (auto simp: vt_streaming_def term_lib.truncate_def)
qed

text \<open>
  Draining the network: the screen shows the newly delivered state, and what reached the real terminal is the server's
  output through the title filter.
\<close>

lemma drained_screen:
  assumes "codec_conforms (codec (env_session env))"
    and "terminal (env_session env) = term_lib.truncate (env_screen env)" "vt_streaming (terminal (env_session env))"
    and "runtime_wf (cl_runtime s)"
    and "as_parser (tg_authoritative (cl_terminal s)) = rts_parser (delivered_remote_state (protocol (cl_runtime s)))"
    and "server_follows (env_session env) now (cl_runtime s) datagrams"
    and "drain_network env now (map ReceivedDatagram datagrams) s = (Inr refused, s')"
  shows "as_parser (tg_authoritative (cl_terminal s')) = rts_parser (delivered_remote_state (protocol (cl_runtime s'))) \<and>
    (undisturbed s \<longrightarrow> undisturbed s' \<and>
      (\<exists>es bs. cl_world s' = cl_world s @ es \<and>
         vt_process (env_screen env) (as_parser (tg_authoritative (cl_terminal s))) bs =
           rts_parser (delivered_remote_state (protocol (cl_runtime s'))) \<and>
         terminal_bytes es = fst (title_process (tg_title_output (cl_terminal s)) bs) \<and>
         (tf_policy (tg_title_output (cl_terminal s)) = PreserveRemote \<longrightarrow> terminal_bytes es = bs)))"
proof -
  obtain bs where bs: "displays env s bs s'" "screen_of s' = remote_screen s'"
    using datagrams_display [OF assms] by blast
  then obtain es where "cl_world s' = cl_world s @ es"
    "undisturbed s \<longrightarrow> undisturbed s' \<and> terminal_bytes es = fst (title_process (filter_of s) bs)"
    "vt_process (env_screen env) (screen_of s) bs = remote_screen s'"
    unfolding displays_def by auto
  with bs(2) show ?thesis by (auto simp: title_process_def)
qed

subsection \<open>Instance: one line of output, from the sealed datagram to the terminal\<close>

definition recording_screen_lib :: "((u16 \<times> u16) \<times> bytes, unit) screen_lib" where
  "recording_screen_lib = term_lib.extend example_terminal
     \<lparr>vt_contents_formatted = snd, vt_application_cursor = (\<lambda>_. False), vt_application_keypad = (\<lambda>_. False),
      vt_bracketed_paste = (\<lambda>_. False), vt_mouse_protocol_mode = (\<lambda>_. MouseDisabled),
      vt_mouse_protocol_encoding = (\<lambda>_. MouseDefault), vt_hide_cursor = (\<lambda>_. False), vt_alternate_screen = (\<lambda>_. False),
      vt_cursor_position = (\<lambda>_. (0, 0)), vt_size = fst, vt_attributes_formatted = (\<lambda>_. []),
      vt_cursor_state_formatted = (\<lambda>_. [])\<rparr>"

definition recording_env :: "(bytes, (u16 \<times> u16) \<times> bytes, unit) client_env" where
  "recording_env =
     \<lparr>env_session = example_lib, env_screen = recording_screen_lib, env_os = (\<lambda>_ _. True), env_language = ascii ''C.UTF-8'',
      env_cause_text = (\<lambda>_. []), env_session_debug = (\<lambda>_. []), env_message_debug = (\<lambda>_. []), env_windows = False,
      env_logger = DiagnosticLogger 0\<rparr>"

definition recording_state :: "(bytes, (u16 \<times> u16) \<times> bytes, unit) client_state" where
  "recording_state =
     \<lparr>cl_runtime = example_runtime,
      cl_terminal =
        \<lparr>tg_authoritative = screen_new recording_screen_lib 80 24, tg_title_output = title_filter_new PreserveRemote,
         tg_alternate_screen_active = True, tg_session_terminal_active = True, tg_local_notice_active = False\<rparr>,
      cl_predictor = prediction_overlay_new Never False, cl_escape = escape_interpreter_default, cl_world = []\<rparr>"

lemma recording_env_simps [simp]:
  "env_session recording_env = example_lib" "env_screen recording_env = recording_screen_lib"
  "env_os recording_env = (\<lambda>_ _. True)" "term_lib.truncate recording_screen_lib = example_terminal"
  by (simp_all add: recording_env_def recording_screen_lib_def term_lib.truncate_def term_lib.extend_def example_terminal_def)

lemma recording_runs: "\<exists>s'. apply_actions recording_env actions s = (Inr (), s')"
proof (induction actions arbitrary: s)
  case (Cons action actions)
  have "\<exists>s1. apply_action recording_env action s = (Inr (), s1)"
  proof (cases action)
    case (WriteTerminal bs)
    obtain s1 where "reconcile_prediction recording_env s = (Inr (), s1)"
      by (cases "take_reconciliation (cl_predictor s)"; cases "fst (take_reconciliation (cl_predictor s))")
        (auto simp: reconcile_prediction_def Let_def on_terminal_def write_overlay_bytes_def redraw_authoritative_def
          write_bytes_def attempt_def split: prod.splits prediction_reconciliation.splits)
    with WriteTerminal show ?thesis
      by (auto simp: on_terminal_def write_server_bytes_def clear_local_notice_def redraw_authoritative_def write_bytes_def
          attempt_def Let_def split: prod.splits)
  next
    case (Diagnostic event)
    have "attempts (\<lambda>_ _. True) es w = (Inr (), w @ es)" for es w
      by (induction es arbitrary: w) (simp_all add: attempt_def)
    with Diagnostic show ?thesis by (simp add: eprint_lines_def)
  qed (auto simp: on_terminal_def attempt_def)
  with Cons.IH show ?case by (metis apply_actions.simps(2) then_do_simps(2))
qed simp

lemma plain_resizes: "(\<forall>c r. ResizeTerminal c r \<notin> set actions) \<Longrightarrow> resizes_redundant lib p actions"
  by (induction actions arbitrary: p) (auto split: session_action.splits)

lemma example_datagram_whole: "take RECEIVE_BUFFER_BYTES example_datagram = example_datagram"
  using example_update_small
  by (simp add: example_datagram_def example_tag_def fragment_encode_def example_fragment_def Let_def RECEIVE_BUFFER_BYTES_def)

end
