(* ===== verification/Client_Rounds.thy ===== *)
theory Client_Rounds
  imports Client_Screen Client_Keys
begin

section \<open>The client: the screen over a whole session\<close>

text \<open>
  \<open>Client_Screen\<close> follows the screen through one draining of the network. Here it is followed through the event loop:
  the rounds of a session that is still running are a step relation, and typing, command notices, suspension, polling
  and requests to stop leave the screen and the delivered state alone.
\<close>

subsection \<open>The rounds of a running session\<close>

inductive rounds ::
    "('k, 'p, 'v) client_env \<Rightarrow> monotonic_time \<times> ('k, 'p, 'v) client_state \<Rightarrow> observation list \<Rightarrow>
     monotonic_time \<times> ('k, 'p, 'v) client_state \<Rightarrow> bool" for env where
  no_round: "rounds env c [] c"
| next_round: "loop_body env previous ob s = (Inr None, s1) \<Longrightarrow>
     rounds env (ob_now ob, loop_sleep (ob_wait_at ob) s1) obs c \<Longrightarrow> rounds env (previous, s) (ob # obs) c"

inductive_simps rounds_Nil [simp]: "rounds env c [] c'"
inductive_cases rounds_ConsE: "rounds env (previous, s) (ob # obs) c"

text \<open>The loop has not ended exactly when it has gone through all rounds.\<close>

lemma rounds_running: "event_loop env previous obs s = None \<longleftrightarrow> (\<exists>c. rounds env (previous, s) obs c)"
proof (induction obs arbitrary: previous s)
  case (Cons ob obs)
  obtain r s1 where body: "loop_body env previous ob s = (r, s1)" by fastforce
  show ?case
  proof
    assume "event_loop env previous (ob # obs) s = None"
    with body Cons.IH show "\<exists>c. rounds env (previous, s) (ob # obs) c"
      by (auto split: sum.splits option.splits client_error.splits intro: next_round)
  next
    assume "\<exists>c. rounds env (previous, s) (ob # obs) c"
    then obtain c where "rounds env (previous, s) (ob # obs) c" by blast
    then show "event_loop env previous (ob # obs) s = None"
      by (rule rounds_ConsE) (use Cons.IH in \<open>cases c; auto\<close>)
  qed
qed simp

subsection \<open>What leaves the screen and the delivered state alone\<close>

lemma builds_delivered:
  "delivered_remote_state (snd (send_update lib p t sid u)) = delivered_remote_state p"
  "delivered_remote_state (snd (build_acknowledgement lib p t)) = delivered_remote_state p"
  "delivered_remote_state (snd (build_association lib p t)) = delivered_remote_state p"
  "delivered_remote_state (snd (build_shutdown_ack lib p t)) = delivered_remote_state p"
  "delivered_remote_state (snd (retransmit_pending lib p t)) = delivered_remote_state p"
proof -
  show send: "delivered_remote_state (snd (send_update lib p t sid u)) = delivered_remote_state p" for t sid u
    by (auto simp: send_update_def Let_def split: sum.splits prod.splits)
  show ack: "delivered_remote_state (snd (build_acknowledgement lib p t)) = delivered_remote_state p"
    by (auto simp: build_acknowledgement_def Let_def send split: option.splits)
  then show "delivered_remote_state (snd (build_association lib p t)) = delivered_remote_state p"
    by (simp add: build_association_def)
  show "delivered_remote_state (snd (build_shutdown_ack lib p t)) = delivered_remote_state p"
    by (simp add: build_shutdown_ack_def send)
  show "delivered_remote_state (snd (retransmit_pending lib p t)) = delivered_remote_state p"
    by (auto simp: retransmit_pending_def Let_def send split: option.splits)
qed

lemma updates_delivered:
  "delivered_remote_state (snd (build_state_update lib p t batch target)) = delivered_remote_state p"
  "delivered_remote_state (snd (build_update lib p t batch)) = delivered_remote_state p"
  "delivered_remote_state (snd (build_shutdown lib p t batch)) = delivered_remote_state p"
proof -
  have send: "send_update lib p t sid u = (r, p') \<Longrightarrow> delivered_remote_state p' = delivered_remote_state p" for sid u r p'
    using builds_delivered(1) [of lib p t sid u] by simp
  show state: "delivered_remote_state (snd (build_state_update lib p t batch target)) = delivered_remote_state p" for target
    by (auto simp: build_state_update_def limit_sent_states_def dest: send split: option.splits prod.splits sum.splits)
  from state [of u64_MAX] show "delivered_remote_state (snd (build_shutdown lib p t batch)) = delivered_remote_state p"
    by (simp add: build_shutdown_def)
  show "delivered_remote_state (snd (build_update lib p t batch)) = delivered_remote_state p"
    using state [of "next_local_state p"] by (auto simp: build_update_def Let_def split: prod.splits sum.splits)
qed

definition delivered_state :: "('k, 'p) session_runtime \<Rightarrow> 'p remote_terminal_state" where
  "delivered_state rt = delivered_remote_state (protocol rt)"

lemma delivered_simps [simp]:
  "delivered_state (snd (complete_peer_shutdown_after_ack rt actions)) = delivered_state rt"
  "delivered_state (record_shutdown_transmission rt) = delivered_state rt"
  "delivered_state (snd (complete_shutdown rt ended)) = delivered_state rt"
  "delivered_state (snd (connection_state_action rt now)) = delivered_state rt"
  by (simp_all add: delivered_state_def complete_peer_shutdown_after_ack_def complete_shutdown_def
      record_shutdown_transmission_def connection_state_action_def Let_def split: shutdown_state.splits)

text \<open>A poll keeps the delivered state and writes nothing to the screen.\<close>

definition unseen :: "('k, 'p) session_runtime \<Rightarrow> (runtime_error + session_action list) \<times> ('k, 'p) session_runtime \<Rightarrow> bool" where
  "unseen rt result \<longleftrightarrow> delivered_state (snd result) = delivered_state rt \<and> pred_sum (\<lambda>_. True) (list_all quiet) (fst result)"

lemma quiet_simps [simp]:
  "list_all quiet (send_actions packets)" "quiet (Diagnostic event)" "quiet (ConnectionStateChanged state)"
  "quiet (ShutdownComplete ended)"
  by (simp_all add: send_actions_def quiet_def list_all_iff)

lemma after_ack_unseen:
  assumes "list_all quiet actions" "delivered_state rt' = delivered_state rt"
  shows "unseen rt (Inr (fst (complete_peer_shutdown_after_ack rt' actions)), snd (complete_peer_shutdown_after_ack rt' actions))"
  using assms by (auto simp: unseen_def complete_peer_shutdown_after_ack_def complete_shutdown_def Let_def delivered_state_def)

lemma build_queued_delivered: "delivered_state (snd (build_queued_update lib rt now)) = delivered_state rt"
  by (auto simp: build_queued_update_def Let_def delivered_state_def case_prod_beta builds_delivered updates_delivered
      split: sum.splits)

lemma unseen_simps [simp]:
  "unseen rt (Inl e, rt') \<longleftrightarrow> delivered_state rt' = delivered_state rt"
  "unseen rt (Inr actions, rt) \<longleftrightarrow> list_all quiet actions"
  by (simp_all add: unseen_def)

lemma poll_queued_unseen:
  assumes "list_all quiet actions"
  shows "unseen rt (poll_queued lib rt now actions)"
proof -
  obtain r rt' where build: "build_queued_update lib rt now = (r, rt')" by fastforce
  then have "delivered_state rt' = delivered_state rt" using build_queued_delivered [of lib rt now] by simp
  with assms show ?thesis
    by (cases r) (auto simp: poll_queued_def build Let_def case_prod_beta intro!: after_ack_unseen)
qed

lemma poll_retransmit_unseen:
  assumes "list_all quiet actions"
  shows "unseen rt (poll_retransmit lib rt now actions)"
proof -
  obtain r p where send: "retransmit_pending lib (protocol rt) (timestamp now) = (r, p)" by fastforce
  then have "delivered_remote_state p = delivered_remote_state (protocol rt)"
    using builds_delivered(5) [of lib "protocol rt" "timestamp now"] by simp
  with assms show ?thesis
    by (cases r) (auto simp: poll_retransmit_def send Let_def case_prod_beta delivered_state_def [of "_\<lparr>protocol := _\<rparr>"]
        delivered_state_def [of rt] delivered_state_def [of "_\<lparr>protocol := _, last_send := _, acknowledgement_due := _\<rparr>"]
        intro!: after_ack_unseen)
qed

lemma poll_heartbeat_unseen:
  assumes "list_all quiet actions"
  shows "unseen rt (poll_heartbeat lib rt now actions)"
proof -
  obtain r p where send: "build_acknowledgement lib (protocol rt) (timestamp now) = (r, p)" by fastforce
  then have "delivered_remote_state p = delivered_remote_state (protocol rt)"
    using builds_delivered(2) [of lib "protocol rt" "timestamp now"] by simp
  with assms show ?thesis
    by (cases r) (auto simp: poll_heartbeat_def send Let_def case_prod_beta delivered_state_def intro!: after_ack_unseen)
qed

lemma unseen_cong: "delivered_state rt1 = delivered_state rt \<Longrightarrow> unseen rt1 result \<Longrightarrow> unseen rt result"
  by (simp add: unseen_def)

lemma poll_transport_unseen:
  assumes "list_all quiet actions"
  shows "unseen rt (poll_transport lib rt now actions)"
proof -
  obtain changed rt1 where c: "connection_state_action rt now = (changed, rt1)" by fastforce
  let ?actions = "actions @ (case changed of None \<Rightarrow> []
    | Some state \<Rightarrow> [ConnectionStateChanged state, Diagnostic (DConnectionStateChanged state)])"
  have "list_all quiet ?actions" using assms by (simp split: option.splits)
  note steps = poll_queued_unseen [OF this] poll_retransmit_unseen [OF this] poll_heartbeat_unseen [OF this]
  have "delivered_state rt1 = delivered_state rt" using delivered_simps(4) [of rt now] c by simp
  then show ?thesis
    unfolding poll_transport_def c Let_def prod.case by (intro unseen_cong [of rt1 rt]) (simp_all add: steps)
qed

lemma poll_unseen: "unseen rt (poll lib rt now)"
proof -
  obtain r rt1 where assoc: "poll_association lib rt now = (r, rt1)" by fastforce
  have first: "delivered_state rt1 = delivered_state rt" "\<And>actions. r = Inr actions \<Longrightarrow> list_all quiet actions"
    using builds_delivered(3) [of lib "protocol rt" "timestamp now"] assoc
    by (auto simp: poll_association_def delivered_state_def split: if_splits prod.splits sum.splits)
  have complete: "unseen rt (apfst Inr (complete_shutdown rt1 ended))" for ended
    using first(1) by (simp add: unseen_def complete_shutdown_def delivered_state_def)
  show ?thesis
    using first complete unseen_cong [OF first(1) poll_transport_unseen [of _ rt1 lib now]]
    by (cases r) (simp_all add: poll_def assoc)
qed

subsection \<open>Every step but the network leaves the picture alone\<close>

text \<open>The screen shows the delivered state.\<close>

definition in_step :: "('k, 'p, 'v) client_state \<Rightarrow> bool" where
  "in_step s \<longleftrightarrow> runtime_wf (cl_runtime s) \<and> screen_of s = remote_screen s"

lemma in_step_on_terminal:
  assumes "\<And>tg w x tg'. f tg w = (x, tg') \<Longrightarrow> tg_authoritative tg' = tg_authoritative tg"
  shows "ensures in_step (\<lambda>_ _. True) (on_terminal message f)"
  using assms by (auto simp: ensures_def outcome_def on_terminal_def in_step_def split: prod.splits sum.splits)

lemma in_step_on_runtime:
  fixes f :: "('k, 'p) session_runtime \<Rightarrow> (runtime_error + 'a) \<times> ('k, 'p) session_runtime"
  assumes "\<And>rt r rt'. runtime_wf rt \<Longrightarrow> f rt = (r, rt') \<Longrightarrow> runtime_wf rt' \<and> delivered_state rt' = delivered_state rt"
  shows "ensures in_step (\<lambda>_ _. True) (on_runtime f :: ('k, 'p, 'v, 'a) client_step)"
  unfolding ensures_def
proof (intro allI impI)
  fix s :: "('k, 'p, 'v) client_state" assume step: "in_step s"
  obtain r rt where f: "f (cl_runtime s) = (r, rt)" by fastforce
  with step assms [OF _ f] show "outcome in_step (\<lambda>_ _. True) (on_runtime f s)"
    by (cases r) (simp_all add: on_runtime_def in_step_def delivered_state_def)
qed

lemma in_step_resume: "in_step s \<Longrightarrow> in_step (s\<lparr>cl_runtime := resume (cl_runtime s) now\<rparr>)"
  using lifecycle_ops_wf(5) [of "cl_runtime s" now] by (auto simp: in_step_def resume_def resume_state_def split: if_splits)

lemma in_step_simps [simp]:
  "in_step (s\<lparr>cl_predictor := predictor\<rparr>) = in_step s" "in_step (s\<lparr>cl_escape := escape\<rparr>) = in_step s"
  "in_step (s\<lparr>cl_world := w\<rparr>) = in_step s" "in_step (loop_sleep now s) = in_step s"
  by (simp_all add: in_step_def loop_sleep_def)

lemma in_step_eprint_lines: "ensures in_step (\<lambda>_ _. True) (eprint_lines env lines)"
  by (auto simp: ensures_def outcome_def split: prod.splits sum.splits dest: eprint_lines_world)

interpretation quiet_in_step: quiet_invariant env in_step "\<lambda>_ _. True" for env
  by unfold_locales (auto intro!: in_step_on_terminal in_step_eprint_lines)

lemma queue_input_in_step:
  assumes "runtime_wf rt" "queue_input rt bs = (r, rt')"
  shows "runtime_wf rt' \<and> delivered_state rt' = delivered_state rt"
  using assms queue_input_wf [OF assms(1), of bs]
  by (auto simp: queue_input_def queue_sized_def delivered_state_def split: sum.splits option.splits if_splits)

interpretation key_in_step: key_invariant env in_step "\<lambda>_ _. True" for env
  by unfold_locales
    (auto intro!: in_step_on_terminal in_step_on_runtime in_step_resume dest: guard_authoritative queue_input_in_step)

lemma request_in_step:
  fixes env :: "('k, 'p, 'v) client_env"
  shows "ensures in_step (\<lambda>_ _. True) (request_stop env now)"
proof -
  have request: "ensures in_step (\<lambda>_ _. True)
      (on_runtime (\<lambda>rt. request_shutdown rt now) :: ('k, 'p, 'v, session_action list) client_step)"
  proof (rule in_step_on_runtime)
    fix rt r rt' assume "runtime_wf rt" "request_shutdown rt now = (r, rt')"
    with lifecycle_ops_wf(3) [of rt now] show "runtime_wf rt' \<and> delivered_state rt' = delivered_state rt"
      by (auto simp: request_shutdown_def delivered_state_def split: sum.splits if_splits)
  qed
  show ?thesis
    unfolding ensures_def
  proof (intro allI impI)
    fix s :: "('k, 'p, 'v) client_state" assume step: "in_step s"
    obtain r rt where req: "request_shutdown (cl_runtime s) now = (r, rt)" by fastforce
    then have quiet: "\<And>actions. r = Inr actions \<Longrightarrow> list_all quiet actions"
      by (auto simp: request_shutdown_def split: sum.splits if_splits)
    from ensures_at [OF request step] req quiet ensures_at [OF quiet_in_step.quiet_actions_keep]
    show "outcome in_step (\<lambda>_ _. True) (request_stop env now s)"
      by (cases r) (auto simp: request_stop_def then_do_def on_runtime_def)
  qed
qed

lemma poll_in_step:
  assumes "in_step s" "loop_poll env now s = (Inr None, s')"
  shows "in_step s'"
proof -
  obtain actions rt where poll: "poll (env_session env) (cl_runtime s) now = (Inr actions, rt)"
    and app: "apply_actions env actions (s\<lparr>cl_runtime := rt\<rparr>) = (Inr (), s')"
    using assms(2) by (auto simp: loop_poll_def on_runtime_def elim!: then_doE split: prod.splits sum.splits)
  have "in_step (s\<lparr>cl_runtime := rt\<rparr>)" "list_all quiet actions"
    using assms(1) poll poll_wf [of "cl_runtime s" "env_session env" now] poll_unseen [of "cl_runtime s" "env_session env" now]
    by (simp_all add: in_step_def unseen_def delivered_state_def)
  with ensuresD [OF quiet_in_step.quiet_actions_keep app] show ?thesis by simp
qed

lemma input_in_step:
  assumes "list_all (\<lambda>(_, input). \<forall>event. input = Input event \<longrightarrow> \<not> is_resize_event event) (ob_inputs ob)"
  shows "ensures in_step (\<lambda>_ _. True) (loop_input env ob)"
proof -
  have "ensures in_step (\<lambda>_ _. True) (drain_terminal env (ob_inputs ob))"
  proof (rule key_in_step.events_keep)
    fix now event assume "(now, Input event) \<in> set (ob_inputs ob)"
    with assms have "\<not> is_resize_event event" by (auto simp: list_all_iff)
    then show "ensures in_step (\<lambda>_ _. True) (handle_event env now event)"
      by (intro key_in_step.handle_event_keeps) auto
  qed
  from ensures_at [OF ensures_then_do [OF this ensures_if [OF request_in_step ensures_ok]]]
  show ?thesis by (simp add: ensures_def loop_input_def)
qed

subsection \<open>The screen over the rounds\<close>

fun received_datagrams :: "socket_result list \<Rightarrow> bytes list" where
  "received_datagrams (ReceivedDatagram datagram # results) = datagram # received_datagrams results"
| "received_datagrams _ = []"

lemma drained_datagrams:
  "drain_network env now results s = (Inr False, s') \<Longrightarrow> results = map ReceivedDatagram (received_datagrams results)"
proof (induction results arbitrary: s)
  case (Cons result results)
  then show ?case
    by (cases result) (auto simp del: drain_network.simps(2) elim: drain_datagram split: if_splits)
qed simp

text \<open>The runtime when a round reaches the network.\<close>

definition network_runtime :: "monotonic_time \<Rightarrow> observation \<Rightarrow> ('k, 'p) session_runtime \<Rightarrow> ('k, 'p) session_runtime" where
  "network_runtime previous ob rt =
     (let rt = (if ob_terminate ob then snd (request_shutdown rt (ob_now ob)) else rt)
      in if saturating_sub (milliseconds (ob_now ob)) (milliseconds previous) \<ge> SUSPEND_DETECTION_MILLISECONDS
         then resume rt (ob_now ob) else rt)"

definition typed_only :: "observation \<Rightarrow> bool" where
  "typed_only ob \<longleftrightarrow> list_all (\<lambda>(_, input). \<forall>event. input = Input event \<longrightarrow> \<not> is_resize_event event) (ob_inputs ob)"

text \<open>The server keeps its side in every round, and the local window keeps its size.\<close>

fun served :: "('k, 'p, 'v) client_env \<Rightarrow> monotonic_time \<Rightarrow> ('k, 'p, 'v) client_state \<Rightarrow> observation list \<Rightarrow> bool" where
  "served env previous s [] \<longleftrightarrow> True"
| "served env previous s (ob # obs) \<longleftrightarrow>
     typed_only ob \<and>
     server_follows (env_session env) (ob_now ob) (network_runtime previous ob (cl_runtime s)) (received_datagrams (ob_sockets ob)) \<and>
     (case loop_body env previous ob s of
        (Inr None, s') \<Rightarrow> served env (ob_now ob) (loop_sleep (ob_wait_at ob) s') obs
      | _ \<Rightarrow> True)"

lemma round_in_step:
  assumes lib: "codec_conforms (codec (env_session env))" "terminal (env_session env) = term_lib.truncate (env_screen env)"
      "vt_streaming (terminal (env_session env))"
    and step: "in_step s" and served: "served env previous s (ob # obs)"
    and body: "loop_body env previous ob s = (Inr None, s')"
  shows "in_step s'"
  using body
proof (rule loop_bodyE)
  fix s1 s2 s3 s4
  assume s1: "(if ob_terminate ob then request_stop env (ob_now ob) else ok ()) s = (Inr (), s1)"
    and s2: "detect_suspend previous (ob_now ob) s1 = (Inr (), s2)"
    and s3: "drain_network env (ob_now ob) (ob_sockets ob) s2 = (Inr False, s3)"
    and s4: "loop_input env ob (s3\<lparr>cl_predictor :=
       set_round_trip_milliseconds (cl_predictor s3) (round_trip_milliseconds (cl_runtime s3))\<rparr>) = (Inr (), s4)"
    and poll: "loop_poll env (ob_now ob) s4 = (Inr None, s')"
  have "in_step s1" using ensuresD [OF ensures_if [OF request_in_step ensures_ok] s1 step] by simp
  with ensuresD [OF key_in_step.suspend_detection_keeps s2] have in2: "in_step s2" by simp
  have "cl_runtime s1 = (if ob_terminate ob then snd (request_shutdown (cl_runtime s) (ob_now ob)) else cl_runtime s)"
    using s1 request_stop_runtime [of env "ob_now ob" s] by (auto split: if_splits)
  then have rt2: "cl_runtime s2 = network_runtime previous ob (cl_runtime s)"
    using s2 by (auto simp: detect_suspend_def network_runtime_def Let_def split: if_splits)
  have s3': "drain_network env (ob_now ob) (map ReceivedDatagram (received_datagrams (ob_sockets ob))) s2 = (Inr False, s3)"
    using s3 drained_datagrams [OF s3] by simp
  have "screen_of s3 = remote_screen s3"
    using datagrams_display [OF lib _ _ _ s3'] in2 served rt2 by (auto simp: in_step_def)
  moreover have "runtime_wf (cl_runtime s3)"
    using ensuresD [OF sound_client.drain_network_keeps s3] in2 by (simp add: in_step_def)
  ultimately have "in_step s3" by (simp add: in_step_def)
  then have "in_step s4" using ensuresD [OF input_in_step s4] served by (simp add: typed_only_def)
  with poll show ?thesis using poll_in_step by blast
qed

lemma rounds_in_step:
  assumes lib: "codec_conforms (codec (env_session env))" "terminal (env_session env) = term_lib.truncate (env_screen env)"
      "vt_streaming (terminal (env_session env))"
    and "rounds env c obs c'" "in_step (snd c)" "served env (fst c) (snd c) obs"
  shows "in_step (snd c')"
  using assms(4-6)
proof (induction rule: rounds.induct)
  case (next_round previous ob s s1 obs c)
  from next_round.prems next_round.hyps(1) have "in_step s1"
    using round_in_step [OF lib, of s previous ob obs s1] by simp
  with next_round show ?case by simp
qed simp

text \<open>A session starts in step: both emulators are new and have the size of the terminal.\<close>

lemma new_session_screen:
  assumes "runtime_new lib key started = Some rt" "queue_resize lib rt columns rows = (Inr (), rt')" "columns \<noteq> 0" "rows \<noteq> 0"
  shows "rts_parser (delivered_state rt') = vt_new (terminal lib) rows columns"
proof -
  obtain p where p: "client_protocol_new lib key = Some p" "protocol rt = p" "lifecycle rt = Running" "shutdown rt = Open"
    using assms(1) by (auto simp: runtime_new_def split: option.splits)
  have fresh: "latest_remote_state p = 0" "length (received_states p) = 1"
    using p(1) by (auto simp: client_protocol_new_def split: sum.splits option.splits)
  have "max columns 1 = columns" "max rows 1 = rows"
    using inc_le [of 0 columns] inc_le [of 0 rows] assms(3,4) by (simp_all add: word_gt_0 max.absorb1)
  moreover have "validate_viewport (ucast columns) (ucast rows) = Inr ()"
    using assms(3,4) by (simp add: validate_viewport_def u16_try_from_ucast ucast_u16_0_iff)
  ultimately show ?thesis
    using assms(2) p fresh
    by (auto simp: queue_resize_def set_initial_remote_viewport_def remote_state_new_def Let_def delivered_state_def
        split: sum.splits option.splits if_splits)
qed

lemma session_starts_in_step:
  assumes "terminal (env_session env) = term_lib.truncate (env_screen env)"
    and "runtime_new (env_session env) key started = Some rt" "queue_resize (env_session env) rt columns rows = (Inr (), rt')"
    and "columns \<noteq> 0" "rows \<noteq> 0"
    and "enter_with_title_policy (env_screen env) (env_os env) (Some (columns, rows)) skip policy w = (Inr tg, w')"
  shows "in_step \<lparr>cl_runtime = rt', cl_terminal = tg, cl_predictor = po, cl_escape = ei, cl_world = w'\<rparr>"
proof -
  have "tg_authoritative tg = screen_new (env_screen env) columns rows"
    using assms(6) by (auto simp: enter_with_title_policy_def Let_def split: sum.splits prod.splits if_splits)
  moreover have "runtime_wf rt'"
    using queue_resize_wf [of rt "env_session env" columns rows] runtime_new_wf [of "env_session env" key started] assms(2,3) by auto
  moreover note new_session_screen [OF assms(2-5)]
  ultimately show ?thesis
    using assms(1) by (simp add: in_step_def screen_new_def delivered_state_def term_lib.truncate_def)
qed

text \<open>
  C3. What the user sees is the server's screen. Let the client's screen show the delivered state, and let the event
  loop go through any rounds in which the user may type, paste, ask for help, suspend or quit, and in which the server
  keeps its side (every state extends the delivered one and the window keeps its size): while the session is running
  the screen shows the delivered state. And when the network is drained next it shows the newly delivered state; if
  moreover no prediction and no notice is on display, the bytes that reached the real terminal are the server's output
  through the title filter: output that carries an emulator from the old screen to the new one, written unchanged when
  titles are not prefixed.
\<close>

theorem client_screen_follows_server:
  assumes "codec_conforms (codec (env_session env))"
    and "terminal (env_session env) = term_lib.truncate (env_screen env)" "vt_streaming (terminal (env_session env))"
    and "runtime_wf (cl_runtime s0)"
    and "as_parser (tg_authoritative (cl_terminal s0)) = rts_parser (delivered_remote_state (protocol (cl_runtime s0)))"
    and "served env previous s0 obs" "rounds env (previous, s0) obs (previous', s)"
    and "server_follows (env_session env) now (cl_runtime s) datagrams"
    and "drain_network env now (map ReceivedDatagram datagrams) s = (Inr refused, s')"
  shows "as_parser (tg_authoritative (cl_terminal s)) = rts_parser (delivered_remote_state (protocol (cl_runtime s))) \<and>
    as_parser (tg_authoritative (cl_terminal s')) = rts_parser (delivered_remote_state (protocol (cl_runtime s'))) \<and>
    (undisturbed s \<longrightarrow> undisturbed s' \<and>
      (\<exists>es bs. cl_world s' = cl_world s @ es \<and>
         vt_process (env_screen env) (as_parser (tg_authoritative (cl_terminal s))) bs =
           rts_parser (delivered_remote_state (protocol (cl_runtime s'))) \<and>
         terminal_bytes es = fst (title_process (tg_title_output (cl_terminal s)) bs) \<and>
         (tf_policy (tg_title_output (cl_terminal s)) = PreserveRemote \<longrightarrow> terminal_bytes es = bs)))"
proof -
  have "in_step s"
    using rounds_in_step [OF assms(1-3,7)] assms(4-6) by (simp add: in_step_def)
  then have "runtime_wf (cl_runtime s)" "screen_of s = remote_screen s" by (simp_all add: in_step_def)
  with drained_screen [OF assms(1-3) this assms(8,9)] show ?thesis by blast
qed

subsection \<open>Instance: a quiet round, then one line of output from the sealed datagram to the terminal\<close>

definition idle_state :: "(bytes, (u16 \<times> u16) \<times> bytes, unit) client_state" where
  "idle_state = recording_state\<lparr>cl_runtime := example_runtime\<lparr>association := Sent, last_send := Some (MonotonicTime 0)\<rparr>\<rparr>"

definition after_idle :: "(bytes, (u16 \<times> u16) \<times> bytes, unit) client_state" where
  "after_idle = idle_state\<lparr>cl_world := [SleepFor 20]\<rparr>"

lemma idle_runtime:
  "protocol (cl_runtime idle_state) = example_protocol" "lifecycle (cl_runtime idle_state) = Running"
  "runtime_wf (cl_runtime idle_state)" "cl_runtime after_idle = cl_runtime idle_state"
proof -
  show "runtime_wf (cl_runtime idle_state)"
    using example_runtime_wf by (simp add: idle_state_def runtime_wfs shutdown_outcome_of_def)
qed (simp_all add: idle_state_def after_idle_def example_runtime_running)

lemma idle_poll: "poll example_lib (cl_runtime idle_state) (MonotonicTime 5) = (Inr [], cl_runtime idle_state)"
  by (simp add: poll_def idle_state_def example_runtime_def shutdown_outcome_of_def poll_association_def
      local_shutdown_acknowledged_def example_protocol_def deque_front_def shutdown_timed_out_def poll_transport_def
      connection_state_action_def local_shutdown_unsent_def is_local_requested_def has_pending_update_def poll_heartbeat_def
      heartbeat_due_def elapsed_since_def saturating_sub_def Let_def)

lemma idle_body:
  "loop_body recording_env (MonotonicTime 0) (example_round 5 False []) idle_state = (Inr None, idle_state)"
proof -
  have "set_round_trip_milliseconds (cl_predictor idle_state) (round_trip_milliseconds (cl_runtime idle_state)) =
      cl_predictor idle_state"
    by (simp add: idle_state_def recording_state_def example_runtime_def prediction_overlay_new_def
        set_round_trip_milliseconds_def)
  moreover have "\<not> shutdown_in_progress (cl_runtime idle_state)" "shutdown_outcome_of (cl_runtime idle_state) = None"
    by (simp_all add: idle_state_def example_runtime_def shutdown_in_progress_def shutdown_outcome_of_def)
  ultimately show ?thesis
    using idle_poll
    by (simp add: loop_body_def then_do_def example_round_def detect_suspend_def SUSPEND_DETECTION_MILLISECONDS_def
        saturating_sub_def loop_input_def loop_poll_def on_runtime_def)
qed

lemma idle_sleep: "loop_sleep (MonotonicTime 5) idle_state = after_idle"
  by (simp add: loop_sleep_def after_idle_def milliseconds_until_next_poll_def idle_state_def recording_state_def
      example_runtime_def shutdown_outcome_of_def protocol_wait_def has_pending_update_def example_protocol_def
      elapsed_since_def saturating_sub_def is_local_requested_def LOOP_INTERVAL_MILLISECONDS_def Let_def)

lemma idle_rounds:
  "rounds recording_env (MonotonicTime 0, idle_state) [example_round 5 False []] (MonotonicTime 5, after_idle)"
  using rounds.next_round [OF idle_body, of "[]"] idle_sleep by (simp add: example_round_def)

lemma example_protocol_screen: "rts_parser (delivered_remote_state example_protocol) = ((24, 80), [])"
  by (simp add: example_protocol_def example_state_def)

theorem client_screen_follows_server_witness:
  "\<exists>s'. rounds recording_env (MonotonicTime 0, idle_state) [example_round 5 False []] (MonotonicTime 5, after_idle) \<and>
     drain_network recording_env (MonotonicTime 5) (map ReceivedDatagram [example_datagram]) after_idle = (Inr False, s') \<and>
     as_parser (tg_authoritative (cl_terminal s')) = ((24, 80), [104, 105]) \<and> terminal_bytes (cl_world s') = [104, 105]"
proof -
  obtain actions rt where recv: "receive_datagram example_lib (cl_runtime idle_state) example_datagram (MonotonicTime 5) = (Inr actions, rt)"
    and rt: "delivered_remote_state (protocol rt) = example_state'" and plain: "\<forall>c r. ResizeTerminal c r \<notin> set actions"
    using example_received [OF idle_runtime(1,2)] by blast
  obtain s' where s': "apply_actions recording_env actions (after_idle\<lparr>cl_runtime := rt\<rparr>) = (Inr (), s')"
    using recording_runs by blast
  have drain: "drain_network recording_env (MonotonicTime 5) (map ReceivedDatagram [example_datagram]) after_idle = (Inr False, s')"
    using recv s' by (simp add: then_do_def on_runtime_def idle_runtime(4) example_datagram_whole)
  have rt': "cl_runtime s' = rt" using apply_actions_runtime [OF s'] by simp
  have start: "undisturbed after_idle" "cl_world after_idle = [SleepFor 20]" "screen_of idle_state = ((24, 80), [])"
    "tf_policy (filter_of after_idle) = PreserveRemote" "screen_of after_idle = ((24, 80), [])"
    by (simp_all add: undisturbed_def after_idle_def idle_state_def recording_state_def prediction_overlay_new_def title_filter_new_def screen_new_def
        recording_screen_lib_def term_lib.extend_def example_terminal_def)
  have follows: "server_follows example_lib (MonotonicTime 5) (cl_runtime after_idle) [example_datagram]"
    using recv plain rt example_extends
    by (simp add: idle_runtime example_datagram_whole plain_resizes example_runtime_running(1) [symmetric] example_delivered_state)
  have process: "vt_process recording_screen_lib ((24, 80), []) bs = ((24, 80), bs)" for bs
    by (simp add: recording_screen_lib_def term_lib.extend_def example_terminal_def)
  have lib: "codec example_lib = reference_codec" "terminal example_lib = example_terminal"
    by (simp_all add: example_lib_def)
  have served: "served recording_env (MonotonicTime 0) idle_state [example_round 5 False []]"
    using idle_body by (simp add: typed_only_def example_round_def)
  from client_screen_follows_server [where env = recording_env, OF _ _ _ _ _ served idle_rounds _ drain] start follows rt rt'
  have "screen_of s' = ((24, 80), [104, 105]) \<and> terminal_bytes (cl_world s') = [104, 105]"
    by (auto simp: lib reference_codec_conforms example_terminal_streaming idle_runtime example_delivered_state
        example_protocol_screen example_state'_fields process simp del: server_follows.simps)
  with drain idle_rounds show ?thesis by blast
qed


end
