(* ===== verification/Laboratory.thy ===== *)
theory Laboratory
  imports Command_Line Session Wire_Format
begin

section \<open>Laboratory probes (\<open>crates/ferrumtty-lab/src\<close>)\<close>

text \<open>
  The tools that check observed packets against the production crates: startup announcements, packets in hexadecimal,
  nonce mappings, a generic Protobuf reader, and a short exchange with a server. Standard input is an argument
  (\<open>None\<close> when it cannot be read); a run is what it prints and how it ends. Text is its UTF-8 bytes. The nonce lengths
  of the cipher crate that the client does not use and the unbounded decompressor are parameters.
\<close>

subsection \<open>Model: text\<close>

fun split_where :: "('a \<Rightarrow> bool) \<Rightarrow> 'a list \<Rightarrow> 'a list list" where
  "split_where p [] = [[]]"
| "split_where p (x # xs) =
     (if p x then [] # split_where p xs
      else (case split_where p xs of [] \<Rightarrow> [[x]] | w # ws \<Rightarrow> (x # w) # ws))"

definition is_ascii_whitespace :: "u8 \<Rightarrow> bool" where
  "is_ascii_whitespace b \<longleftrightarrow> b \<in> set [0x20, 0x09, 0x0a, 0x0c, 0x0d]"

definition split_ascii_whitespace :: "rust_str \<Rightarrow> rust_str list" where
  "split_ascii_whitespace s = filter (\<lambda>w. w \<noteq> []) (split_where is_ascii_whitespace s)"

text \<open>\<open>str::lines\<close>: a line ends with a line feed, before which one carriage return is dropped; the last one may be open.\<close>

definition strip_carriage_return :: "rust_str \<Rightarrow> rust_str" where
  "strip_carriage_return line = (if line \<noteq> [] \<and> last line = 0x0d then butlast line else line)"

definition str_lines :: "rust_str \<Rightarrow> rust_str list" where
  "str_lines s =
     (let parts = split_where (\<lambda>b. b = 0x0a) s in
      map strip_carriage_return (butlast parts) @ (if last parts = [] then [] else [last parts]))"

text \<open>An error is its text, or the part of it before a cause whose own text is not modelled.\<close>

datatype lab_error = LabMessage rust_str | LabCaused rust_str

type_synonym lab_run = "rust_str list \<times> (lab_error + unit)"

record ('k, 'p, 'v) lab_env =
  lab_session :: "('k, 'p, 'v) session_lib"
  lab_inflate :: "bytes \<Rightarrow> bytes option"
  lab_ocb8 :: "bytes \<Rightarrow> bytes \<Rightarrow> bytes \<Rightarrow> bytes option" \<comment> \<open>key, nonce, sealed payload\<close>
  lab_ocb12 :: "bytes \<Rightarrow> bytes \<Rightarrow> bytes \<Rightarrow> bytes option"
  lab_ocb15 :: "bytes \<Rightarrow> bytes \<Rightarrow> bytes \<Rightarrow> bytes option"

definition key_text :: "rust_str \<Rightarrow> string" where
  "key_text s = map (\<lambda>b. char_of (unat b)) s"

subsection \<open>Model: startup announcements (\<open>main.rs\<close>)\<close>

definition SESSION_KEY_LENGTH :: usize where "SESSION_KEY_LENGTH = 22"
definition CONNECT_PREFIX :: rust_str where "CONNECT_PREFIX = ascii ''MOSH CONNECT''"

datatype secret_text = SecretText rust_str

record connect_announcement =
  ca_udp_port :: u16
  ca_session_key :: secret_text

datatype announcement_error = AnnouncementShape | AnnouncementPrefix | AnnouncementPort | AnnouncementSessionKey

fun announcement_error_text :: "announcement_error \<Rightarrow> rust_str" where
  "announcement_error_text AnnouncementShape = ascii ''startup announcement must contain four fields''"
| "announcement_error_text AnnouncementPrefix = ascii ''startup announcement has an unexpected prefix''"
| "announcement_error_text AnnouncementPort = ascii ''startup announcement has an invalid UDP port''"
| "announcement_error_text AnnouncementSessionKey = ascii ''startup announcement has an invalid session key''"

definition is_ascii_alphanumeric :: "u8 \<Rightarrow> bool" where
  "is_ascii_alphanumeric b \<longleftrightarrow> 0x30 \<le> b \<and> b \<le> 0x39 \<or> 0x41 \<le> b \<and> b \<le> 0x5a \<or> 0x61 \<le> b \<and> b \<le> 0x7a"

definition secret_text_parse :: "rust_str \<Rightarrow> announcement_error + secret_text" where
  "secret_text_parse v =
     (let has_expected_length = (length v = SESSION_KEY_LENGTH);
          uses_base64_alphabet = list_all (\<lambda>b. is_ascii_alphanumeric b \<or> b = 0x2b \<or> b = 0x2f) v
      in if \<not> has_expected_length \<or> \<not> uses_base64_alphabet then Inl AnnouncementSessionKey else Inr (SecretText v))"

fun exposed_length :: "secret_text \<Rightarrow> usize" where
  "exposed_length (SecretText v) = length v"

definition secret_text_debug :: "secret_text \<Rightarrow> string" where
  "secret_text_debug _ = ''SecretText([REDACTED])''"

definition parse_connect_announcement :: "rust_str \<Rightarrow> announcement_error + connect_announcement" where
  "parse_connect_announcement line =
     (let fields = split_ascii_whitespace line in
      if length fields \<noteq> 4 then Inl AnnouncementShape
      else if take 2 fields \<noteq> split_ascii_whitespace CONNECT_PREFIX then Inl AnnouncementPrefix
      else
        (case parse_u16 (fields ! 2) of
           None \<Rightarrow> Inl AnnouncementPort
         | Some udp_port \<Rightarrow>
             if udp_port = 0 then Inl AnnouncementPort
             else
               (case secret_text_parse (fields ! 3) of
                  Inl e \<Rightarrow> Inl e
                | Inr session_key \<Rightarrow> Inr \<lparr>ca_udp_port = udp_port, ca_session_key = session_key\<rparr>)))"

definition verify_connect_from_stdin :: "rust_str option \<Rightarrow> lab_run" where
  "verify_connect_from_stdin input =
     (case input of
        None \<Rightarrow> ([], Inl (LabCaused (ascii ''failed to read startup announcement: '')))
      | Some line \<Rightarrow>
          (case parse_connect_announcement (trim line) of
             Inl e \<Rightarrow> ([], Inl (LabMessage (announcement_error_text e)))
           | Inr announcement \<Rightarrow>
               ([ascii ''valid startup announcement: udp_port='' @ decimal (unat (ca_udp_port announcement)) @
                 ascii '', session_key_bytes='' @ decimal (exposed_length (ca_session_key announcement)) @
                 ascii '' (redacted)''], Inr ())))"

subsection \<open>Model: hexadecimal and nonce mappings (\<open>ocb_probe.rs\<close>)\<close>

definition decode_nibble :: "u8 \<Rightarrow> lab_error + u8" where
  "decode_nibble v =
     (if 0x30 \<le> v \<and> v \<le> 0x39 then Inr (v - 0x30)
      else if 0x61 \<le> v \<and> v \<le> 0x66 then Inr (v - 0x61 + 10)
      else if 0x41 \<le> v \<and> v \<le> 0x46 then Inr (v - 0x41 + 10)
      else Inl (LabMessage (ascii ''packet contains a non-hex character'')))"

definition decode_pair :: "u8 \<times> u8 \<Rightarrow> lab_error + u8" where
  "decode_pair pair =
     (case decode_nibble (fst pair) of
        Inl e \<Rightarrow> Inl e
      | Inr high \<Rightarrow>
          (case decode_nibble (snd pair) of Inl e \<Rightarrow> Inl e | Inr low \<Rightarrow> Inr (push_bit 4 high OR low)))"

fun exact_pairs :: "'a list \<Rightarrow> ('a \<times> 'a) list" where
  "exact_pairs (a # b # rest) = (a, b) # exact_pairs rest"
| "exact_pairs _ = []"

definition decode_hex :: "rust_str \<Rightarrow> lab_error + bytes" where
  "decode_hex v =
     (if odd (length v) then Inl (LabMessage (ascii ''packet hex must contain complete bytes''))
      else collect_results (map decode_pair (exact_pairs v)))"

text \<open>The encoder of the module's tests.\<close>

definition hex_digit :: "u8 \<Rightarrow> u8" where
  "hex_digit n = (if n < 10 then 0x30 + n else 0x57 + n)"

definition encode_hex :: "bytes \<Rightarrow> rust_str" where
  "encode_hex bs = concat (map (\<lambda>b. [hex_digit (drop_bit 4 b), hex_digit (b AND 0x0f)]) bs)"

definition report_result :: "string \<Rightarrow> bytes option \<Rightarrow> rust_str list \<times> nat" where
  "report_result mapping result =
     (case result of
        None \<Rightarrow> ([], 0)
      | Some plaintext \<Rightarrow>
          ([ascii ''authenticated nonce_mapping='' @ ascii mapping @ ascii '' plaintext_bytes='' @ decimal (length plaintext)], 1))"

definition probe_eight_byte_nonce :: "('k, 'p, 'v) lab_env \<Rightarrow> bytes \<Rightarrow> bytes \<Rightarrow> bytes \<Rightarrow> rust_str list \<times> nat" where
  "probe_eight_byte_nonce env key nonce sealed_payload =
     report_result ''packet-prefix-8'' (lab_ocb8 env key nonce sealed_payload)"

definition probe_twelve_byte_nonce :: "('k, 'p, 'v) lab_env \<Rightarrow> bytes \<Rightarrow> bytes \<Rightarrow> bytes \<Rightarrow> rust_str list \<times> nat" where
  "probe_twelve_byte_nonce env key nonce sealed_payload =
     (let (first_lines, first_success) =
            report_result ''zero-prefix-12'' (lab_ocb12 env key (replicate 4 0 @ nonce) sealed_payload);
          (second_lines, second_success) =
            report_result ''zero-suffix-12'' (lab_ocb12 env key (nonce @ replicate 4 0) sealed_payload)
      in (first_lines @ second_lines, first_success + second_success))"

definition probe_fifteen_byte_nonce :: "('k, 'p, 'v) lab_env \<Rightarrow> bytes \<Rightarrow> bytes \<Rightarrow> bytes \<Rightarrow> rust_str list \<times> nat" where
  "probe_fifteen_byte_nonce env key nonce sealed_payload =
     report_result ''zero-prefix-15'' (lab_ocb15 env key (replicate 7 0 @ nonce) sealed_payload)"

text \<open>The two input lines of the probes; the last argument names the probe in the error for further lines.\<close>

definition two_lines :: "rust_str \<Rightarrow> rust_str \<Rightarrow> lab_error + rust_str \<times> rust_str" where
  "two_lines extra input =
     (case str_lines input of
        [] \<Rightarrow> Inl (LabMessage (ascii ''missing session key''))
      | [_] \<Rightarrow> Inl (LabMessage (ascii ''missing packet bytes''))
      | [encoded_key, packet_hex] \<Rightarrow> Inr (encoded_key, packet_hex)
      | _ \<Rightarrow> Inl (LabMessage extra))"

definition probe_mappings :: "('k, 'p, 'v) lab_env \<Rightarrow> bytes \<Rightarrow> bytes \<Rightarrow> lab_run" where
  "probe_mappings env key packet =
     (let nonce = take 8 packet;
          sealed_payload = drop 8 packet;
          (lines8, successes8) = probe_eight_byte_nonce env key nonce sealed_payload;
          (lines12, successes12) = probe_twelve_byte_nonce env key nonce sealed_payload;
          (lines15, successes15) = probe_fifteen_byte_nonce env key nonce sealed_payload;
          successes = successes8 + successes12 + successes15
      in (lines8 @ lines12 @ lines15,
          if successes = 0 then Inl (LabMessage (ascii ''no tested RFC 7253 nonce mapping authenticated''))
          else if successes = 1 then Inr ()
          else Inl (LabMessage (ascii ''multiple nonce mappings authenticated unexpectedly''))))"

definition ocb_run_from_stdin :: "('k, 'p, 'v) lab_env \<Rightarrow> rust_str option \<Rightarrow> lab_run" where
  "ocb_run_from_stdin env input =
     (case input of
        None \<Rightarrow> ([], Inl (LabCaused (ascii ''failed to read OCB probe input: '')))
      | Some input \<Rightarrow>
          (case two_lines (ascii ''unexpected extra OCB probe input'') input of
             Inl e \<Rightarrow> ([], Inl e)
           | Inr (encoded_key, packet_hex) \<Rightarrow>
               (case base64_decode (cipher (lab_session env)) (key_text encoded_key) of
                  None \<Rightarrow> ([], Inl (LabMessage (ascii ''session key is not unpadded base64'')))
                | Some key \<Rightarrow>
                    if length key \<noteq> 16 then ([], Inl (LabMessage (ascii ''session key must decode to 16 bytes'')))
                    else
                      (case decode_hex packet_hex of
                         Inl e \<Rightarrow> ([], Inl e)
                       | Inr packet \<Rightarrow>
                           if length packet < 8 + 16
                           then ([], Inl (LabMessage (ascii ''packet is too short for nonce prefix and authentication tag'')))
                           else probe_mappings env key packet))))"

subsection \<open>Model: a generic Protobuf reader (\<open>protobuf_probe.rs\<close>)\<close>

definition is_zlib_header :: "u8 \<Rightarrow> u8 \<Rightarrow> bool" where
  "is_zlib_header compression_method flags \<longleftrightarrow>
     compression_method AND 0x0f = 8 \<and> (unat compression_method * 256 + unat flags) mod 31 = 0"

text \<open>\<open>windows(2).position(..)\<close>\<close>

fun zlib_offset :: "bytes \<Rightarrow> usize option" where
  "zlib_offset (a # b # rest) = (if is_zlib_header a b then Some 0 else map_option Suc (zlib_offset (b # rest)))"
| "zlib_offset _ = None"

datatype probe_value = ProbeVarint u64 | ProbeBytes bytes

record probe_field =
  pf_number :: u64
  pf_value :: probe_value

fun probe_varint_loop :: "u64 \<Rightarrow> nat \<Rightarrow> bytes \<Rightarrow> lab_error + u64 \<times> usize" where
  "probe_varint_loop v index [] = Inl (LabMessage (ascii ''protobuf varint is truncated or too long''))"
| "probe_varint_loop v index (byte # rest) =
     (let payload = ucast (byte AND 0x7f) in
      if index = 9 \<and> payload > 1 then Inl (LabMessage (ascii ''protobuf varint overflows u64''))
      else
        let v = v OR push_bit (index * 7) payload in
        if byte AND 0x80 = 0 then Inr (v, index + 1) else probe_varint_loop v (index + 1) rest)"

definition probe_decode_varint :: "bytes \<Rightarrow> lab_error + u64 \<times> usize" where
  "probe_decode_varint bs = probe_varint_loop 0 0 (take 10 bs)"

text \<open>The value of a field and the rest of the message; \<open>usize::try_from\<close> cannot fail on 64 bits.\<close>

definition probe_field_value :: "u64 \<Rightarrow> bytes \<Rightarrow> lab_error + probe_value \<times> bytes" where
  "probe_field_value wt message =
     (if wt = 0 then
        (case probe_decode_varint message of
           Inl e \<Rightarrow> Inl e
         | Inr (v, consumed) \<Rightarrow> Inr (ProbeVarint v, drop consumed message))
      else if wt = 2 then
        (case probe_decode_varint message of
           Inl e \<Rightarrow> Inl e
         | Inr (len, consumed) \<Rightarrow>
             let message = drop consumed message in
             if unat len \<le> length message then Inr (ProbeBytes (take (unat len) message), drop (unat len) message)
             else Inl (LabMessage (ascii ''protobuf byte field is truncated'')))
      else Inl (LabMessage (ascii ''unsupported protobuf wire type '' @ decimal (unat wt))))"

lemma probe_varint_loop_bounds: "probe_varint_loop acc i bs = Inr (v, n) \<Longrightarrow> i < n"
  by (induction bs arbitrary: acc i) (fastforce simp: Let_def split: if_splits)+

lemma probe_decode_varint_bounds: "probe_decode_varint bs = Inr (v, n) \<Longrightarrow> 0 < n"
  using probe_varint_loop_bounds by (fastforce simp: probe_decode_varint_def)

lemma probe_field_value_length: "probe_field_value wt message = Inr (v, rest) \<Longrightarrow> length rest \<le> length message"
  by (auto simp: probe_field_value_def Let_def split: if_splits sum.splits)

function parse_fields :: "bytes \<Rightarrow> lab_error + probe_field list" where
  "parse_fields message =
     (if message = [] then Inr []
      else
        (case probe_decode_varint message of
           Inl e \<Rightarrow> Inl e
         | Inr (key, key_bytes) \<Rightarrow>
             let message = drop key_bytes message;
                 number = drop_bit 3 key;
                 wt = key AND 7
             in if number = 0 then Inl (LabMessage (ascii ''protobuf field number must be nonzero''))
                else
                  (case probe_field_value wt message of
                     Inl e \<Rightarrow> Inl e
                   | Inr (field_value, message) \<Rightarrow>
                       (case parse_fields message of
                          Inl e \<Rightarrow> Inl e
                        | Inr others \<Rightarrow> Inr (\<lparr>pf_number = number, pf_value = field_value\<rparr> # others)))))"
  by pat_completeness auto
termination
  by (relation "measure length") (auto simp flip: length_greater_0_conv dest!: probe_decode_varint_bounds probe_field_value_length)

declare parse_fields.simps [simp del]

fun field_line :: "probe_field \<Rightarrow> rust_str" where
  "field_line f =
     (case pf_value f of
        ProbeVarint v \<Rightarrow> ascii ''protobuf_field='' @ decimal (unat (pf_number f)) @ ascii '' wire=varint value='' @ decimal (unat v)
      | ProbeBytes bs \<Rightarrow>
          ascii ''protobuf_field='' @ decimal (unat (pf_number f)) @ ascii '' wire=bytes length='' @ decimal (length bs))"

definition inspect_transport_plaintext :: "('k, 'p, 'v) lab_env \<Rightarrow> bytes \<Rightarrow> lab_run" where
  "inspect_transport_plaintext env plaintext =
     (case zlib_offset plaintext of
        None \<Rightarrow> ([], Inl (LabMessage (ascii ''authenticated plaintext contains no zlib header'')))
      | Some compressed_offset \<Rightarrow>
          (case lab_inflate env (drop compressed_offset plaintext) of
             None \<Rightarrow> ([], Inl (LabCaused (ascii ''failed to decompress authenticated payload: '')))
           | Some message \<Rightarrow>
               let header = ascii ''transport_prefix_bytes='' @ decimal compressed_offset @ ascii '' protobuf_bytes='' @
                     decimal (length message)
               in (case parse_fields message of
                     Inl e \<Rightarrow> ([header], Inl e)
                   | Inr parsed \<Rightarrow> (header # map field_line parsed, Inr ()))))"

subsection \<open>Model: the production channel (\<open>channel_probe.rs\<close>)\<close>

definition read_and_open :: "('k, 'p, 'v) lab_env \<Rightarrow> peer_role \<Rightarrow> rust_str option \<Rightarrow> lab_error + authenticated_packet" where
  "read_and_open env receiver_role input =
     (case input of
        None \<Rightarrow> Inl (LabCaused (ascii ''failed to read channel probe input: ''))
      | Some input \<Rightarrow>
          (case two_lines (ascii ''unexpected extra channel probe input'') input of
             Inl e \<Rightarrow> Inl e
           | Inr (encoded_key, packet_hex) \<Rightarrow>
               (case session_key_decode (cipher (lab_session env)) (key_text encoded_key) of
                  Inl _ \<Rightarrow> Inl (LabMessage (ascii ''invalid session key''))
                | Inr key \<Rightarrow>
                    (case decode_hex packet_hex of
                       Inl e \<Rightarrow> Inl e
                     | Inr packet \<Rightarrow>
                         let channel = secure_channel_new (cipher (lab_session env)) receiver_role key in
                         (case open_packet (cipher (lab_session env)) channel packet of
                            Inl _ \<Rightarrow> Inl (LabMessage (ascii ''production channel rejected observed packet''))
                          | Inr authenticated \<Rightarrow> Inr authenticated)))))"

definition decoded_line :: "state_update \<Rightarrow> instruction_batch \<Rightarrow> rust_str" where
  "decoded_line update batch =
     ascii ''production wire decoded base_state='' @ decimal (unat (su_base_state update)) @
     ascii '' target_state='' @ decimal (unat (su_target_state update)) @
     ascii '' acknowledged_state='' @ decimal (unat (su_acknowledged_state update)) @
     ascii '' discard_before='' @ decimal (unat (su_discard_before update)) @
     ascii '' instructions='' @ decimal (length (instructions batch)) @
     ascii '' padding_bytes='' @ decimal (length (su_padding update))"

text \<open>The part of \<open>run_from_stdin\<close> after the inspection of the plaintext.\<close>

definition decode_observed :: "('k, 'p, 'v) lab_env \<Rightarrow> bytes \<Rightarrow> lab_run" where
  "decode_observed env plaintext =
     (case fragment_parse plaintext of
        Inl _ \<Rightarrow> ([], Inl (LabMessage (ascii ''production fragment parser rejected observed plaintext'')))
      | Inr fragment \<Rightarrow>
          if fh_index (fr_header fragment) = 0 \<and> fh_is_final (fr_header fragment) then
            (case decode_compressed_update (codec (lab_session env)) (fr_body fragment) of
               Inl _ \<Rightarrow> ([], Inl (LabMessage (ascii ''production message decoder rejected observed state'')))
             | Inr update \<Rightarrow>
                 (case decode_instructions (codec (lab_session env)) update of
                    Inl _ \<Rightarrow> ([], Inl (LabMessage (ascii ''production instruction decoder rejected observed delta'')))
                  | Inr batch \<Rightarrow> ([decoded_line update batch], Inr ())))
          else ([], Inr ()))"

definition channel_run_from_stdin :: "('k, 'p, 'v) lab_env \<Rightarrow> peer_role \<Rightarrow> rust_str option \<Rightarrow> lab_run" where
  "channel_run_from_stdin env receiver_role input =
     (case read_and_open env receiver_role input of
        Inl e \<Rightarrow> ([], Inl e)
      | Inr authenticated \<Rightarrow>
          let opened = ascii ''production channel authenticated counter='' @ decimal (unat (ap_counter authenticated)) @
                ascii '' plaintext_bytes='' @ decimal (length (ap_plaintext authenticated))
          in (case inspect_transport_plaintext env (ap_plaintext authenticated) of
                (lines, Inl e) \<Rightarrow> (opened # lines, Inl e)
              | (lines, Inr _) \<Rightarrow>
                  (case decode_observed env (ap_plaintext authenticated) of
                     (more_lines, r) \<Rightarrow> (opened # lines @ more_lines, r))))"

definition run_fragment_from_stdin :: "('k, 'p, 'v) lab_env \<Rightarrow> peer_role \<Rightarrow> rust_str option \<Rightarrow> lab_run" where
  "run_fragment_from_stdin env receiver_role input =
     (case read_and_open env receiver_role input of
        Inl e \<Rightarrow> ([], Inl e)
      | Inr authenticated \<Rightarrow>
          if length (ap_plaintext authenticated) < 14
          then ([], Inl (LabMessage (ascii ''authenticated fragment is shorter than its prefix'')))
          else
            ([ascii ''production channel authenticated counter='' @ decimal (unat (ap_counter authenticated)) @
              ascii '' transport_prefix_bytes='' @ decimal (length (take 14 (ap_plaintext authenticated))) @
              ascii '' fragment_body_bytes='' @ decimal (length (drop 14 (ap_plaintext authenticated)))], Inr ()))"

subsection \<open>Model: an exchange with a server (\<open>connect_smoke.rs\<close>)\<close>

definition SYNTHETIC_COLUMNS :: u64 where "SYNTHETIC_COLUMNS = 80"
definition SYNTHETIC_ROWS :: u64 where "SYNTHETIC_ROWS = 24"
definition MAXIMUM_SMOKE_EVENTS :: usize where "MAXIMUM_SMOKE_EVENTS = 40"
definition SMOKE_RECEIVE_BUFFER_BYTES :: usize where "SMOKE_RECEIVE_BUFFER_BYTES = 65535"

text \<open>The first line of the input, in which the line end is white space.\<close>

definition read_announcement :: "('k, 'p, 'v) lab_env \<Rightarrow> rust_str option \<Rightarrow> lab_error + u16 \<times> session_key" where
  "read_announcement env input =
     (case input of
        None \<Rightarrow> Inl (LabCaused (ascii ''failed to read startup announcement: ''))
      | Some input \<Rightarrow>
          let words = split_ascii_whitespace (takeWhile (\<lambda>b. b \<noteq> 0x0a) input) in
          if length words \<noteq> 4 \<or> take 2 words \<noteq> [ascii ''MOSH'', ascii ''CONNECT'']
          then Inl (LabMessage (ascii ''invalid startup announcement''))
          else
            (case parse_u16 (words ! 2) of
               None \<Rightarrow> Inl (LabMessage (ascii ''invalid startup UDP port''))
             | Some port \<Rightarrow>
                 if port = 0 then Inl (LabMessage (ascii ''invalid startup UDP port''))
                 else
                   (case session_key_decode (cipher (lab_session env)) (key_text (words ! 3)) of
                      Inl _ \<Rightarrow> Inl (LabMessage (ascii ''invalid startup session key''))
                    | Inr key \<Rightarrow> Inr (port, key))))"

definition initial_instructions :: instruction_batch where
  "initial_instructions =
     InstructionBatch
       [\<lparr>in_bytes = None, in_viewport = Some \<lparr>vp_columns = SYNTHETIC_COLUMNS, vp_rows = SYNTHETIC_ROWS\<rparr>, in_marker = None,
         in_session_control = None\<rparr>,
        \<lparr>in_bytes = Some (ByteRun (ascii ''exit'' @ [0x0a])), in_viewport = None, in_marker = None,
         in_session_control = None\<rparr>]"

text \<open>A sequence of fallible system calls, each with the text its failure is reported under.\<close>

fun system_calls :: "(bool \<times> string) list \<Rightarrow> lab_error + unit" where
  "system_calls [] = Inr ()"
| "system_calls ((success, failure) # calls) = (if success then system_calls calls else Inl (LabCaused (ascii failure)))"

definition smoke_connect :: "bool \<times> bool \<times> bool \<Rightarrow> lab_error + unit" where
  "smoke_connect outcome =
     (case outcome of (bound, connected, timed) \<Rightarrow>
        system_calls [(bound, ''failed to bind UDP socket: ''), (connected, ''failed to connect UDP socket: ''),
          (timed, ''failed to set UDP timeout: '')])"

definition rebind_socket :: "bool \<times> bool \<times> bool \<times> bool \<Rightarrow> lab_error + unit" where
  "rebind_socket outcome =
     (case outcome of (peer, bound, connected, timed) \<Rightarrow>
        system_calls [(peer, ''failed to read current UDP peer: ''), (bound, ''failed to bind roaming UDP socket: ''),
          (connected, ''failed to connect roaming UDP socket: ''), (timed, ''failed to set roaming UDP timeout: '')])"

text \<open>
  What a round observes: the answer of the socket, the clock when a packet is built, and how rebinding goes. Whether
  a packet can be sent depends on what was sent before.
\<close>

datatype smoke_received = SmokeDatagram bytes | SmokeTimedOut | SmokeFailed

record smoke_observation =
  sm_received :: smoke_received
  sm_timestamp :: u16
  sm_rebind :: "bool \<times> bool \<times> bool \<times> bool"

record ('k, 'p) smoke_state =
  sm_protocol :: "('k, 'p) client_protocol"
  sm_sent :: "bytes list"
  sm_roamed :: bool

type_synonym sending = "bytes list \<Rightarrow> bytes \<Rightarrow> bool"

fun send_packets :: "sending \<Rightarrow> string \<Rightarrow> bytes list \<Rightarrow> ('k, 'p) smoke_state \<Rightarrow> (lab_error + unit) \<times> ('k, 'p) smoke_state" where
  "send_packets sends purpose [] s = (Inr (), s)"
| "send_packets sends purpose (packet # packets) s =
     (if sends (sm_sent s) packet then send_packets sends purpose packets (s\<lparr>sm_sent := sm_sent s @ [packet]\<rparr>)
      else (Inl (LabCaused (ascii ''failed to send '' @ ascii purpose @ ascii '': '')), s))"

text \<open>A packet builder of the protocol, then the sending of its packets.\<close>

definition build_and_send ::
    "sending \<Rightarrow> string \<Rightarrow> string \<Rightarrow> (('k, 'p) client_protocol \<Rightarrow> (session_error + bytes list) \<times> ('k, 'p) client_protocol) \<Rightarrow>
     ('k, 'p) smoke_state \<Rightarrow> (lab_error + unit) \<times> ('k, 'p) smoke_state" where
  "build_and_send sends failure purpose build s =
     (case build (sm_protocol s) of
        (Inl _, p) \<Rightarrow> (Inl (LabCaused (ascii failure)), s\<lparr>sm_protocol := p\<rparr>)
      | (Inr packets, p) \<Rightarrow> send_packets sends purpose packets (s\<lparr>sm_protocol := p\<rparr>))"

definition terminal_byte_count :: "instruction_batch \<Rightarrow> nat" where
  "terminal_byte_count batch =
     sum_list (map (\<lambda>run. length (run_value run)) (List.map_filter in_bytes (instructions batch)))"

definition smoke_line :: "state_update \<Rightarrow> instruction_batch \<Rightarrow> bool \<Rightarrow> rust_str" where
  "smoke_line update batch roamed =
     ascii ''standard server exchanged FerrumTTY state: target_state='' @ decimal (unat (su_target_state update)) @
     ascii '', instructions='' @ decimal (length (instructions batch)) @
     ascii '', terminal_bytes='' @ decimal (terminal_byte_count batch) @
     ascii '', roamed='' @ (if roamed then ascii ''true'' else ascii ''false'')"

text \<open>One received state: the line that ends the exchange, or the acknowledgement from a rebound socket.\<close>

definition smoke_answer ::
    "('k, 'p, 'v) lab_env \<Rightarrow> sending \<Rightarrow> smoke_observation \<Rightarrow> received_state \<Rightarrow> ('k, 'p) smoke_state \<Rightarrow>
     (lab_error + rust_str option) \<times> ('k, 'p) smoke_state" where
  "smoke_answer env sends ob state s =
     (case decode_instructions (codec (lab_session env)) (rs_update state) of
        Inl _ \<Rightarrow> (Inl (LabCaused (ascii ''failed to decode server instructions: '')), s)
      | Inr batch \<Rightarrow>
          if terminal_byte_count batch > 0 then (Inr (Some (smoke_line (rs_update state) batch (sm_roamed s))), s)
          else
            (case (if sm_roamed s then Inr () else rebind_socket (sm_rebind ob)) of
               Inl e \<Rightarrow> (Inl e, s)
             | Inr _ \<Rightarrow>
                 (case build_and_send sends ''failed to build acknowledgement: '' ''acknowledgement''
                     (\<lambda>p. build_update (lab_session env) p (sm_timestamp ob) (InstructionBatch [])) (s\<lparr>sm_roamed := True\<rparr>) of
                    (Inl e, s) \<Rightarrow> (Inl e, s)
                  | (Inr _, s) \<Rightarrow> (Inr None, s))))"

definition smoke_round ::
    "('k, 'p, 'v) lab_env \<Rightarrow> sending \<Rightarrow> smoke_observation \<Rightarrow> ('k, 'p) smoke_state \<Rightarrow>
     (lab_error + rust_str option) \<times> ('k, 'p) smoke_state" where
  "smoke_round env sends ob s =
     (case sm_received ob of
        SmokeFailed \<Rightarrow> (Inl (LabCaused (ascii ''failed to receive standard-server response: '')), s)
      | SmokeTimedOut \<Rightarrow>
          if has_pending_update (sm_protocol s) then
            (case build_and_send sends ''failed to retransmit pending state: '' ''retransmitted state''
                (\<lambda>p. retransmit_pending (lab_session env) p (sm_timestamp ob)) s of
               (Inl e, s) \<Rightarrow> (Inl e, s)
             | (Inr _, s) \<Rightarrow> (Inr None, s))
          else (Inr None, s)
      | SmokeDatagram datagram \<Rightarrow>
          (case ingest (lab_session env) (sm_protocol s) (take SMOKE_RECEIVE_BUFFER_BYTES datagram) of
             (Inl _, p) \<Rightarrow>
               (Inl (LabCaused (ascii ''failed to authenticate standard-server response: '')), s\<lparr>sm_protocol := p\<rparr>)
           | (Inr None, p) \<Rightarrow> (Inr None, s\<lparr>sm_protocol := p\<rparr>)
           | (Inr (Some state), p) \<Rightarrow> smoke_answer env sends ob state (s\<lparr>sm_protocol := p\<rparr>)))"

text \<open>The \<open>for\<close> loop over the observations of the given rounds.\<close>

fun exchange_rounds ::
    "('k, 'p, 'v) lab_env \<Rightarrow> sending \<Rightarrow> smoke_observation list \<Rightarrow> ('k, 'p) smoke_state \<Rightarrow> lab_run \<times> ('k, 'p) smoke_state" where
  "exchange_rounds env sends [] s =
     (([], Inl (LabMessage (ascii ''standard server did not produce terminal output within the smoke-event bound''))), s)"
| "exchange_rounds env sends (ob # obs) s =
     (case smoke_round env sends ob s of
        (Inl e, s) \<Rightarrow> (([], Inl e), s)
      | (Inr (Some line), s) \<Rightarrow> (([line], Inr ()), s)
      | (Inr None, s) \<Rightarrow> exchange_rounds env sends obs s)"

definition exchange_until_terminal_output ::
    "('k, 'p, 'v) lab_env \<Rightarrow> sending \<Rightarrow> (nat \<Rightarrow> smoke_observation) \<Rightarrow> ('k, 'p) smoke_state \<Rightarrow> lab_run \<times> ('k, 'p) smoke_state" where
  "exchange_until_terminal_output env sends observe s = exchange_rounds env sends (map observe [0..<MAXIMUM_SMOKE_EVENTS]) s"

definition smoke_run ::
    "('k, 'p, 'v) lab_env \<Rightarrow> rust_str option \<Rightarrow> bool \<times> bool \<times> bool \<Rightarrow> sending \<Rightarrow> u16 \<Rightarrow> (nat \<Rightarrow> smoke_observation) \<Rightarrow>
     lab_run option" where
  "smoke_run env input sockets sends started observe =
     (case read_announcement env input of
        Inl e \<Rightarrow> Some ([], Inl e)
      | Inr (port, key) \<Rightarrow>
          (case smoke_connect sockets of
             Inl e \<Rightarrow> Some ([], Inl e)
           | Inr _ \<Rightarrow>
               (case client_protocol_new (lab_session env) key of
                  None \<Rightarrow> None \<comment> \<open>a panic\<close>
                | Some p \<Rightarrow>
                    (case build_and_send sends ''failed to build initial update: '' ''initial update''
                        (\<lambda>p. build_update (lab_session env) p started initial_instructions)
                        \<lparr>sm_protocol = p, sm_sent = [], sm_roamed = False\<rparr> of
                       (Inl e, s) \<Rightarrow> Some ([], Inl e)
                     | (Inr _, s) \<Rightarrow> Some (fst (exchange_until_terminal_output env sends observe s))))))"

subsection \<open>Model: commands (\<open>main.rs\<close>)\<close>

definition usage_lines :: "rust_str list" where
  "usage_lines =
     (let quote = [0x27]; format = [0x27] @ ascii ''%s'' @ [0x5c] @ ascii ''n'';
          line = (\<lambda>formats arguments name. ascii ''  printf '' @ formats @ quote @ ascii '' '' @ arguments @
            ascii '' | ferrumtty-lab '' @ ascii name);
          quoted = (\<lambda>name. quote @ ascii ''<'' @ ascii name @ ascii ''>'' @ quote);
          two = format @ ascii ''%s'' @ [0x5c] @ ascii ''n'';
          packet = quoted ''key'' @ ascii '' '' @ quoted ''packet-hex''
      in [ascii ''Usage:'', line format (quoted ''startup announcement'') ''verify-connect'', line two packet ''probe-ocb'',
          line two packet ''verify-client-packet'', line two packet ''verify-server-packet''])"

text \<open>What the process prints to either stream, and its exit code; the exchange is an argument.\<close>

definition lab_dispatch ::
    "('k, 'p, 'v) lab_env \<Rightarrow> rust_str list \<Rightarrow> rust_str option \<Rightarrow> lab_run option \<Rightarrow> (rust_str list \<times> lab_run) option" where
  "lab_dispatch env arguments input smoke =
     (case drop 1 arguments of
        [] \<Rightarrow> Some (usage_lines, [], Inl (LabMessage (ascii ''missing command'')))
      | _ # _ # _ \<Rightarrow> Some (usage_lines, [], Inl (LabMessage (ascii ''unexpected extra argument'')))
      | [name] \<Rightarrow>
          if name = ascii ''verify-connect'' then Some ([], verify_connect_from_stdin input)
          else if name = ascii ''probe-ocb'' then Some ([], ocb_run_from_stdin env input)
          else if name = ascii ''verify-client-packet'' then Some ([], channel_run_from_stdin env Server input)
          else if name = ascii ''verify-server-packet'' then Some ([], channel_run_from_stdin env Client input)
          else if name = ascii ''verify-server-fragment'' then Some ([], run_fragment_from_stdin env Client input)
          else if name = ascii ''connect-standard-server'' then map_option (Pair []) smoke
          else Some (usage_lines, [], Inl (LabMessage (ascii ''unknown command''))))"

definition lab_exit_code :: "lab_run \<Rightarrow> u8" where
  "lab_exit_code r = (case snd r of Inr _ \<Rightarrow> 0 | Inl _ \<Rightarrow> 1)"

end
