(* ===== verification/Laboratory_Promises.thy ===== *)
theory Laboratory_Promises
  imports Laboratory State_Diff
begin

section \<open>Laboratory probes: what they report\<close>

text \<open>
  The probes are only useful if they agree with the production code: hexadecimal text is read exactly, the generic
  Protobuf reader is the production reader on the fields it supports, a packet that a production channel sealed is
  opened by the probe of the other side and refused by its own, and announcements are read back.
\<close>

subsection \<open>Hexadecimal\<close>

lemma exact_pairs_encode: "exact_pairs (concat (map (\<lambda>b. [f b, g b]) bs)) = map (\<lambda>b. (f b, g b)) bs"
  by (induction bs) simp_all

lemma hex_digit_nibble: "n < 16 \<Longrightarrow> decode_nibble (hex_digit n) = Inr n"
proof -
  assume "n < 16"
  then have "unat n < 16" by (simp add: word_less_nat_alt)
  then have "n = of_nat (unat n)" "unat n \<in> set [0..<16]" by simp_all
  moreover have "\<forall>k \<in> set [0..<16]. decode_nibble (hex_digit (of_nat k)) = Inr (of_nat k)"
    by (simp add: upt_rec decode_nibble_def hex_digit_def)
  ultimately show ?thesis by metis
qed

lemma byte_nibbles: "push_bit 4 (drop_bit 4 b) OR (b AND 0x0f) = (b :: u8)" "drop_bit 4 (b :: u8) < 16" "b AND 0x0f < (16 :: u8)"
proof -
  have m: "(0x0f :: u8) = mask 4" by (simp add: mask_eq_exp_minus_1)
  show "push_bit 4 (drop_bit 4 b) OR (b AND 0x0f) = b"
    unfolding m by (rule bit_eqI) (auto simp: bit_simps)
  have "unat b < 256" using unat_u8_less [of b] by simp
  then show "drop_bit 4 b < 16" by (simp add: word_less_nat_alt drop_bit_eq_div unat_div_distrib)
  have "b AND 0x0f \<le> 0x0f" by (rule word_and_le1)
  then show "b AND 0x0f < 16" by (rule order_le_less_trans) simp
qed

lemma decode_encode_hex: "decode_hex (encode_hex bs) = Inr bs"
proof -
  have "decode_pair (hex_digit (drop_bit 4 b), hex_digit (b AND 0x0f)) = Inr b" for b
    using byte_nibbles [of b] by (simp add: decode_pair_def hex_digit_nibble)
  then have "map decode_pair (exact_pairs (encode_hex bs)) = map Inr bs"
    by (simp add: encode_hex_def exact_pairs_encode)
  moreover have "even (length (encode_hex bs))" by (induction bs) (simp_all add: encode_hex_def)
  ultimately show ?thesis by (simp add: decode_hex_def)
qed

lemma encode_hex_no_newline: "b \<in> set (encode_hex bs) \<Longrightarrow> b \<noteq> 0x0a \<and> b \<noteq> 0x0d"
proof -
  have "hex_digit n \<noteq> 0x0a \<and> hex_digit n \<noteq> 0x0d" if "n < 16" for n
    using hex_digit_nibble [OF that] by (auto simp: decode_nibble_def)
  then show "b \<in> set (encode_hex bs) \<Longrightarrow> b \<noteq> 0x0a \<and> b \<noteq> 0x0d"
    using byte_nibbles(2,3) by (auto simp: encode_hex_def)
qed

subsection \<open>Lines and words\<close>

lemma split_where_plain: "\<not> (\<exists>x \<in> set xs. p x) \<Longrightarrow> split_where p xs = [xs]"
  by (induction xs) auto

lemma split_where_separator:
  "\<not> (\<exists>x \<in> set xs. p x) \<Longrightarrow> p b \<Longrightarrow> split_where p (xs @ b # ys) = xs # split_where p ys"
  by (induction xs) auto

lemma lines_two:
  assumes "0x0a \<notin> set a" "a = [] \<or> last a \<noteq> 0x0d" "0x0a \<notin> set b" "b \<noteq> []" "last b \<noteq> 0x0d" "ending = [] \<or> ending = [0x0a]"
  shows "str_lines (a @ 0x0a # b @ ending) = [a, b]"
proof -
  have a: "split_where (\<lambda>c. c = 0x0a) (a @ 0x0a # rest) = a # split_where (\<lambda>c. c = 0x0a) rest" for rest
    using assms(1) by (intro split_where_separator) auto
  have b: "split_where (\<lambda>c. c = 0x0a) b = [b]" "split_where (\<lambda>c. c = 0x0a) (b @ [0x0a]) = [b, []]"
    using assms(3) split_where_separator [of b "\<lambda>c. c = 0x0a" "0x0a" "[]"] by (auto intro: split_where_plain)
  from assms a b show ?thesis
    by (auto simp: str_lines_def strip_carriage_return_def Let_def)
qed

lemma split_words:
  assumes "\<forall>w \<in> set ws. w \<noteq> [] \<and> \<not> (\<exists>b \<in> set w. is_ascii_whitespace b)"
  shows "split_ascii_whitespace (concat (map (\<lambda>w. w @ [0x20]) ws)) = ws"
  using assms
proof (induction ws)
  case (Cons w ws)
  then have "split_where is_ascii_whitespace (w @ 0x20 # concat (map (\<lambda>w. w @ [0x20]) ws)) =
      w # split_where is_ascii_whitespace (concat (map (\<lambda>w. w @ [0x20]) ws))"
    by (intro split_where_separator) (simp_all add: is_ascii_whitespace_def)
  with Cons show ?case by (simp add: split_ascii_whitespace_def)
qed (simp add: split_ascii_whitespace_def)

subsection \<open>Protobuf fields\<close>

text \<open>The probe reads varints exactly as the production reader; only the error texts differ.\<close>

lemma probe_varint_loop_agrees: "probe_varint_loop v i bs = Inr r \<longleftrightarrow> varint_loop v i bs = Inr r"
  by (induction bs arbitrary: v i) (simp_all add: Let_def)

lemma probe_decode_varint_agrees: "probe_decode_varint bs = Inr r \<longleftrightarrow> decode_varint bs = Inr r"
  by (simp add: decode_varint_def probe_decode_varint_def probe_varint_loop_agrees)

lemma probe_decode_encode: "probe_decode_varint (encode_varint v @ rest) = Inr (v, length (encode_varint v))"
  by (simp add: probe_decode_varint_agrees)

fun probed :: "wire_field \<Rightarrow> probe_field" where
  "probed (VarintField n v) = \<lparr>pf_number = n, pf_value = ProbeVarint v\<rparr>"
| "probed (LengthField n bs) = \<lparr>pf_number = n, pf_value = ProbeBytes bs\<rparr>"
| "probed f = \<lparr>pf_number = field_number f, pf_value = ProbeBytes []\<rparr>"

definition probe_supports :: "wire_field \<Rightarrow> bool" where
  "probe_supports f \<longleftrightarrow> wire_wf f \<and> field_number f \<noteq> 0 \<and> (wire_type f = 0 \<or> wire_type f = 2)"

lemma parse_fields_encode:
  assumes "list_all probe_supports fs"
  shows "parse_fields (wire_encode fs) = Inr (map probed fs)"
  using assms
proof (induction fs)
  case Nil
  then show ?case by (simp add: parse_fields.simps)
next
  case (Cons f fs)
  then have f: "wire_wf f" "field_number f \<noteq> 0" "wire_type f = 0 \<or> wire_type f = 2" by (simp_all add: probe_supports_def)
  have tail: "parse_fields (wire_encode fs) = Inr (map probed fs)" using Cons by simp
  have low: "wire_key f AND 7 = ucast (wire_type f)"
  proof -
    have seven: "(7 :: u64) = mask 3" by (simp add: mask_eq_exp_minus_1)
    have "wire_key f AND 7 = ucast (ucast (wire_key f AND 7) :: u8)"
      unfolding seven by (rule bit_word_eqI) (auto simp: bit_simps)
    then show ?thesis using wire_key_parts(2) [OF wire_wf_number [OF f(1)]] by simp
  qed
  have payload: "probe_field_value (wire_key f AND 7) (wire_payload f @ wire_encode fs) = Inr (pf_value (probed f), wire_encode fs)"
    unfolding low using f
    by (cases f) (auto simp: probe_field_value_def probe_decode_encode unat_of_nat_usize Let_def)
  have probe: "probed f = \<lparr>pf_number = field_number f, pf_value = pf_value (probed f)\<rparr>" by (cases f) simp_all
  from f payload tail wire_key_parts(1) [OF wire_wf_number [OF f(1)]] show ?case
    by (subst parse_fields.simps)
      (simp add: wire_encode_Cons probe_decode_encode Let_def probe [symmetric])
qed

subsection \<open>Announcements\<close>

lemma printable_no_space: "is_ascii_alphanumeric b \<or> b = 0x2b \<or> b = 0x2f \<or> is_digit b \<Longrightarrow> \<not> is_ascii_whitespace b"
  by (auto simp: is_ascii_whitespace_def is_ascii_alphanumeric_def is_digit_def)

lemma announcement_words:
  assumes "list_all (\<lambda>b. is_ascii_alphanumeric b \<or> b = 0x2b \<or> b = 0x2f) key" "key \<noteq> []"
  shows "split_ascii_whitespace (concat (map (\<lambda>w. w @ [0x20]) [ascii ''MOSH'', ascii ''CONNECT'', decimal (unat port), key])) =
    [ascii ''MOSH'', ascii ''CONNECT'', decimal (unat port), key]"
proof (rule split_words)
  have "\<not> is_ascii_whitespace b" if "b \<in> set (decimal (unat port)) \<or> b \<in> set key" for b
    using that assms decimal_digits [of "unat port"] by (auto simp: list_all_iff intro!: printable_no_space)
  then show "\<forall>w \<in> set [ascii ''MOSH'', ascii ''CONNECT'', decimal (unat port), key].
      w \<noteq> [] \<and> \<not> (\<exists>b \<in> set w. is_ascii_whitespace b)"
    using assms(2) decimal_digits [of "unat port"] by (auto simp: ascii_def of_char_def is_ascii_whitespace_def)
qed

lemma connect_prefix_words: "split_ascii_whitespace CONNECT_PREFIX = [ascii ''MOSH'', ascii ''CONNECT'']"
  by (simp add: CONNECT_PREFIX_def split_ascii_whitespace_def ascii_def of_char_def is_ascii_whitespace_def)

lemma announcement_parsed:
  assumes "list_all (\<lambda>b. is_ascii_alphanumeric b \<or> b = 0x2b \<or> b = 0x2f) key" "length key = SESSION_KEY_LENGTH" "port \<noteq> 0"
  shows "parse_connect_announcement (concat (map (\<lambda>w. w @ [0x20]) [ascii ''MOSH'', ascii ''CONNECT'', decimal (unat port), key])) =
    Inr \<lparr>ca_udp_port = port, ca_session_key = SecretText key\<rparr>"
proof -
  have "key \<noteq> []" using assms(2) by (auto simp: SESSION_KEY_LENGTH_def)
  from announcement_words [OF assms(1) this, of port] assms show ?thesis
    by (simp add: parse_connect_announcement_def connect_prefix_words secret_text_parse_def parse_u16_decimal Let_def)
qed

subsection \<open>Packets\<close>

text \<open>
  C38. The probes agree with the production code. Whatever a production channel seals, the probe of the receiving side
  opens from its hexadecimal text, to the same counter and plaintext, while the probe of the sending side refuses it;
  and the fields of any message of varints and byte strings are listed exactly.
\<close>

theorem probes_read_production_packets:
  fixes env :: "('k, 'p, 'v) lab_env"
  assumes "aead_correct (cipher (lab_session env))"
    and "session_key_decode (cipher (lab_session env)) (key_text encoded) = Inr key"
    and "0x0a \<notin> set encoded" "encoded \<noteq> []" "last encoded \<noteq> 0x0d"
    and "channel_wf ch" "outbound_cipher ch = cipher_new (cipher (lab_session env)) (expose key)"
    and "inbound_cipher ch = outbound_cipher ch" "outbound_direction ch = for_outbound role"
    and "seal_next (cipher (lab_session env)) ch plaintext = (Inr packet, ch')"
    and "ending = [] \<or> ending = [0x0a]" "list_all probe_supports fs"
  shows "read_and_open env (opposite role) (Some (encoded @ 0x0a # encode_hex packet @ ending)) =
      Inr \<lparr>ap_counter = the (next_counter ch), ap_plaintext = plaintext\<rparr> \<and>
    read_and_open env role (Some (encoded @ 0x0a # encode_hex packet @ ending)) =
      Inl (LabMessage (ascii ''production channel rejected observed packet'')) \<and>
    parse_fields (wire_encode fs) = Inr (map probed fs)"
proof -
  let ?lib = "cipher (lab_session env)"
  let ?peer = "secure_channel_new ?lib (opposite role) key" and ?own = "secure_channel_new ?lib role key"
  from assms(10) have "packet \<noteq> []" by (rule seal_nextE) (simp flip: length_greater_0_conv)
  then have nonempty: "encode_hex packet \<noteq> []" by (auto simp: encode_hex_def)
  have hex: "0x0a \<notin> set (encode_hex packet)" "encode_hex packet \<noteq> []" "last (encode_hex packet) \<noteq> 0x0d"
    using encode_hex_no_newline [of _ packet] nonempty last_in_set [OF nonempty] by blast+
  have two: "two_lines extra (encoded @ 0x0a # encode_hex packet @ ending) = Inr (encoded, encode_hex packet)" for extra
    using lines_two [OF assms(3) _ hex assms(11)] assms(4,5) by (simp add: two_lines_def)
  have peer: "inbound_cipher ?peer = outbound_cipher ch" "inbound_direction ?peer = outbound_direction ch"
    using assms(7,9) by (cases role; simp add: secure_channel_new_def)+
  have own: "open_packet ?lib ?own packet = open_packet ?lib ch packet"
  proof -
    have "inbound_direction ch = inbound_direction ?own"
      using assms(6,9) by (cases role; cases "inbound_direction ch") (simp_all add: channel_wf_def secure_channel_new_def)
    then show ?thesis using assms(7,8) by (simp add: open_packet_def secure_channel_new_def Let_def split: prod.splits option.splits)
  qed
  from sealed_packet_opens [OF assms(1,6) peer assms(8,10)] show ?thesis
    using assms(2,12) two own by (simp add: read_and_open_def decode_encode_hex parse_fields_encode Let_def)
qed

subsection \<open>The exchange\<close>

text \<open>Each round sends the packets of at most one update; without a server the exchange ends with the bound's error.\<close>

lemma send_packets_sent:
  "\<exists>n. sm_sent (snd (send_packets sends purpose packets s)) = sm_sent s @ take n packets"
proof (induction packets arbitrary: s)
  case (Cons packet packets)
  show ?case
  proof (cases "sends (sm_sent s) packet")
    case True
    with Cons [of "s\<lparr>sm_sent := sm_sent s @ [packet]\<rparr>"] show ?thesis by (auto intro: exI [of _ "Suc n" for n])
  qed (auto intro: exI [of _ 0])
qed simp

lemma silent_server_bound:
  assumes "\<forall>ob \<in> set obs. sm_received ob = SmokeTimedOut" "\<not> has_pending_update (sm_protocol s)"
  shows "exchange_rounds env sends obs s =
    (([], Inl (LabMessage (ascii ''standard server did not produce terminal output within the smoke-event bound''))), s)"
  using assms by (induction obs) (auto simp: smoke_round_def)

subsection \<open>A concrete probe\<close>

definition example_lab :: "(bytes, (u16 \<times> u16) \<times> bytes, unit) lab_env" where
  "example_lab =
     \<lparr>lab_session = \<lparr>cipher = example_cipher, codec = reference_codec, terminal = example_terminal\<rparr>, lab_inflate = (\<lambda>_. None),
      lab_ocb8 = (\<lambda>_ _ _. None), lab_ocb12 = (\<lambda>_ _ _. None), lab_ocb15 = (\<lambda>_ _ _. None)\<rparr>"

theorem probes_read_production_packets_witness:
  "\<exists>packet ch'. seal_next example_cipher (example_channel Client) [7, 8] = (Inr packet, ch') \<and>
     read_and_open example_lab Server (Some (ascii ''AAAA'' @ 0x0a # encode_hex packet @ [0x0a])) =
       Inr \<lparr>ap_counter = 0, ap_plaintext = [7, 8]\<rparr> \<and>
     parse_fields (wire_encode [VarintField 1 150, LengthField 2 [0xaa, 0xbb]]) =
       Inr [\<lparr>pf_number = 1, pf_value = ProbeVarint 150\<rparr>, \<lparr>pf_number = 2, pf_value = ProbeBytes [0xaa, 0xbb]\<rparr>]"
proof -
  have "\<exists>packet ch'. seal_next example_cipher (example_channel Client) [7, 8] = (Inr packet, ch')"
    by (simp add: seal_next_def example_channel_def secure_channel_new_def example_cipher_def Let_def)
  then obtain packet ch' where sealed: "seal_next example_cipher (example_channel Client) [7, 8] = (Inr packet, ch')" by blast
  have key: "session_key_decode example_cipher (key_text (ascii ''AAAA'')) = Inr (SessionKey (replicate 16 0))"
  proof -
    have "key_text (ascii ''AAAA'') = ''AAAA''" by code_simp
    then show ?thesis by (simp add: session_key_decode_def example_cipher_def)
  qed
  have fields: "list_all probe_supports [VarintField 1 150, LengthField 2 [0xaa, 0xbb]]"
    by (simp add: probe_supports_def usize_limit_def)
  have ch: "outbound_cipher (example_channel Client) = cipher_new example_cipher (replicate 16 0)"
    "inbound_cipher (example_channel Client) = outbound_cipher (example_channel Client)"
    "outbound_direction (example_channel Client) = for_outbound Client" "next_counter (example_channel Client) = Some 0"
    by (simp_all add: example_channel_def secure_channel_new_def)
  have lab: "cipher (lab_session example_lab) = example_cipher" by (simp add: example_lab_def)
  have plain: "0x0a \<notin> set (ascii ''AAAA'')" "ascii ''AAAA'' \<noteq> []" "last (ascii ''AAAA'') \<noteq> 0x0d"
    by (simp_all add: ascii_def of_char_def)
  from probes_read_production_packets [of example_lab "ascii ''AAAA''" "SessionKey (replicate 16 0)" "example_channel Client"
      Client "[7, 8]" packet ch' "[0x0a]" "[VarintField 1 150, LengthField 2 [0xaa, 0xbb]]"]
  show ?thesis
    using sealed key fields ch plain example_cipher_correct example_channel_wf lab by auto
qed

end
