(* ===== verification/Spec2Isabelle.thy ===== *)
theory Spec2Isabelle
  imports Crypto Fragments Messages Wire_Format Terminal_State State_Replay State_Diff
    Replay_Window Session Session_Safety Session_Delivery Runtime Runtime_Safety
    Runtime_Promises Host_Delivery Text_Encoding Predict Predict_Safety Predict_Line Title_Filter Title_Promises
    Terminal_Input Input_Promises Terminal_Screen Screen_Promises Command_Line Diagnostics Client Client_Invariants
    Client_Promises Client_Safety Client_Terminal Client_Network Client_Keys Client_Screen Client_Rounds
    Laboratory Laboratory_Promises
begin

section \<open>FerrumTTY: a verified model of the client\<close>

text \<open>
  FerrumTTY (\<open>src/crates\<close>) is a roaming terminal client for the state-synchronisation protocol of Mosh: it sends the
  user's input to a server in encrypted datagrams, keeps a copy of the server's screen in step with it over a network
  that loses, repeats and reorders packets, and meanwhile shows predictions of what the input will do. This development
  models its crates, every operation that changes state included, and proves what makes them correct.

  \<^bold>\<open>The parts and how they interact.\<close> A datagram passes through the crates from the bottom up, input from the top
  down:

  \<^item> \<open>ferrumtty-crypto\<close>: one authenticated channel per session. \<open>Crypto\<close> has its key, nonces, \<open>seal_next\<close> and
    \<open>open_packet\<close>. No nonce is used twice, in either direction; what one peer seals the other opens.
  \<^item> \<open>ferrumtty-wire\<close>: \<open>Fragments\<close> (\<open>fragment.rs\<close>) cuts messages and puts them together in any order within a memory
    bound; \<open>Messages\<close> (\<open>message.rs\<close>) has the message types, the hand-written validators and the compressed encoding;
    \<open>Wire_Format\<close> states the Protobuf wire format and that the readers are exact on it and safe on arbitrary bytes.
  \<^item> \<open>ferrumtty-state\<close>: a remote terminal state is an emulator with the history that produced it. \<open>Terminal_State\<close> is
    the model; \<open>State_Replay\<close> abstracts a state to its operations and shows that batches apply atomically within the
    history limits; \<open>State_Diff\<close> shows that a diff carries the delivered state to the target, or repaints its screen
    when the histories have diverged, and what the two probes for the tokenizer's ground state decide.
  \<^item> \<open>ferrumtty-session\<close>: \<open>Session\<close> is \<open>ClientProtocol\<close>, with the replay bitmap in \<open>Replay_Window\<close> (it answers as the
    set of counters seen). \<open>Session_Safety\<close> has the invariant \<open>protocol_wf\<close>, \<open>Session_Delivery\<close> the protocol's
    promises: bounded memory, no panic, harmless duplicates, complete retransmissions, exact acknowledgements.
  \<^item> \<open>ferrumtty-runtime\<close>: \<open>Runtime\<close> is \<open>SessionRuntime\<close>, the host's view without sockets and clocks.
    \<open>Runtime_Safety\<close> has \<open>runtime_wf\<close>, \<open>Runtime_Promises\<close> the bounds, the end of the shutdown handshake and the
    timer; \<open>Host_Delivery\<close> composes all of the above: the actions of a datagram carry an emulator from the delivered
    state to the new screen, and to exactly the new state when its history extends the old one.
  \<^item> \<open>ferrumtty-predict\<close>: \<open>Predict\<close> is the overlay of local echo; \<open>Predict_Safety\<close> shows that its bookkeeping is exact
    and bounded; \<open>Predict_Line\<close> reads its bytes as editing commands on a grid of cells and shows that a
    reconciliation undoes exactly what the predictions have drawn.
  \<^item> \<open>ferrumtty-terminal\<close>: \<open>Title_Filter\<close> rewrites window titles (\<open>Title_Promises\<close>: independent of fragmentation,
    lossless, and what it writes shows the marked titles and restores the server's); \<open>Terminal_Input\<close> interprets the
    command prefix and encodes events (\<open>Input_Promises\<close>: independent readers give back the keys and mouse events);
    \<open>Terminal_Screen\<close> is the authoritative screen and the guard of the local terminal (\<open>Screen_Promises\<close>: the
    terminal is restored whatever fails). \<open>Text_Encoding\<close> has what they use of UTF-8 and decimal numbers.
  \<^item> \<open>ferrumtty-client\<close>: \<open>Command_Line\<close> (\<open>cli.rs\<close>), \<open>Diagnostics\<close> (\<open>diagnostics.rs\<close>) and \<open>Client\<close> (\<open>main.rs\<close>), the
    event loop that connects runtime, overlay, terminal and socket. \<open>Client_Invariants\<close> says what a property has to
    survive to be an invariant of the loop, also on the paths that end in an error. \<open>Client_Safety\<close> shows for the
    whole process when it panics (an argument that is not Unicode, a refused line of output), and that it restores the
    terminal on every way out and reports every failure; \<open>Client_Promises\<close> and
    \<open>Client_Terminal\<close> that a client asked to terminate ends in time; \<open>Client_Screen\<close> and \<open>Client_Rounds\<close> that the
    screen follows the server, for one reading of the network and over the rounds of a session; \<open>Client_Keys\<close> that
    what is typed is queued exactly; \<open>Client_Network\<close> what a rejected datagram does.
  \<^item> \<open>ferrumtty-lab\<close>: \<open>Laboratory\<close> models the probes, \<open>Laboratory_Promises\<close> shows that they agree with the production
    code.

  \<open>Prelude\<close> holds the machine types, the library functions of Rust the sources use, and the shared interfaces.

  \<^bold>\<open>How the code is represented.\<close> A struct is a \<open>record\<close> with the source's fields, an enum a \<open>datatype\<close> with its
  variants, a fixed-width integer a word (\<open>usize\<close> is a natural number, bounded by \<open>usize_limit\<close> where the code checks
  for overflow), a byte string a list of bytes, a \<open>BTreeMap\<close> a sorted association list, a \<open>&mut self\<close> method a function
  that returns the new state. \<open>Result\<close> is a sum with the error on the left; an operation that fails returns the state it
  leaves behind. A panic is an explicit value. Those of arithmetic, indexing and \<open>expect\<close> (\<open>Panic\<close>, \<open>None\<close>) are
  shown to be unreachable; those of \<open>println!\<close>, \<open>eprintln!\<close> and \<open>env::args\<close> (\<open>ClientPanic\<close>, \<open>Panicked\<close>,
  \<open>ProcessPanicked\<close>) are reached exactly when a line is refused or an argument is not Unicode, and unwind through the
  drop of the terminal guard. The local terminal, the socket and the standard streams are the list of effects
  attempted on them, each of which the environment may refuse. The event loop runs over
  a list of observations, one per round: the clock, what the socket and the terminal deliver, the termination flag.

  Third-party code is a parameter: AES-OCB3 and Base64 (\<open>cipher_lib\<close>), prost and zlib (\<open>codec_lib\<close>), vt100 and vte
  (\<open>term_lib\<close>, \<open>screen_lib\<close>). What the theorems rely on is stated as \<open>aead_correct\<close> (decryption inverts encryption and
  a tag has 16 bytes), \<open>codec_conforms\<close> (the codec writes the wire format of \<open>Wire_Format\<close>), \<open>vt_streaming\<close> (an
  emulator reads a stream of bytes, however it is cut) and \<open>vt_redraws\<close> (the state diff of two screens of vt100,
  processed on the old one, displays the new one); each has an instance, on which the witnesses run.

  \<^bold>\<open>Interfaces.\<close> \<open>ordered_map\<close> is the contract of \<open>BTreeMap\<close>; \<open>invariant_machine\<close> and \<open>monotone_machine\<close> carry an
  invariant and a rank along any sequence of operations, and are interpreted for the channel, the accumulator, the
  remote state, the session, the runtime and the overlay; \<open>stream_transducer\<close> is a filter to which fragmentation does
  not matter (the title filter). A property of the client's state is lifted from its primitive steps to the event loop
  along \<open>overlay_invariant\<close>, \<open>quiet_invariant\<close>, \<open>action_invariant\<close> and \<open>network_invariant\<close> on the side of the network,
  \<open>key_invariant\<close> and \<open>input_invariant\<close> on the side of the keyboard, and \<open>loop_steps\<close>, which joins them, each
  with a condition for the success and one for the failure of a step; \<open>loop_invariant\<close> is the case of a property that
  failures keep too. They are interpreted for the well-formedness of the runtime, its rank while it shuts down, the
  books of the terminal, the lines refused so far, and the screen in step with the server.

  \<^bold>\<open>Bounds and termination.\<close> All definitions are total and executable; no function takes fuel. Walks over messages
  and text terminate because each round consumes input. The event loop is defined over the observed rounds and is
  \<open>None\<close> while it still runs; that it returns is proved from the clock alone: 20 seconds after the termination flag is
  set, the 10 seconds and 16 transmissions that the shutdown handshake allows itself have passed. The exchange of the
  laboratory has the 40 rounds of the source.

  \<^bold>\<open>Not modelled.\<close> The sockets, name resolution, signal handlers and the clock are arguments (\<open>observation\<close>,
  \<open>startup\<close>); \<open>install_termination_flag\<close> is the flag of each observation and whether installing it succeeded, and
  \<open>monotonic_time\<close> is its reading. Setting the terminal's UTF-8 mode (\<open>enable_utf8_input_mode\<close>) is one effect. The
  texts of operating-system errors and the derived \<open>Debug\<close> texts of errors are arguments of the printed messages.
  Clearing secrets from memory and the sharing of history nodes between clones are not observable. The order of
  effects in concurrent runs does not arise: the client has one thread. Tests are not modelled.
\<close>

end
